(* ===== verification/Numerics.thy ===== *)
theory Numerics
  imports Complex_Main
begin

text \<open>
  The arithmetic of the two number types the services compute with, and the laws the other
  theories use.  A number is the exact rational value it denotes; every arithmetic operation
  rounds its exact result the way CPython does:
  \<^item> \<open>dec\<close> is one rounding of \<open>decimal.Decimal\<close> under the default context (28 significant
    decimal digits, ROUND_HALF_EVEN); \<open>Decimal(a) * Decimal(b)\<close> is \<open>dec (a * b)\<close>;
  \<^item> \<open>flt\<close> is one rounding of an IEEE 754 double (53 significant binary digits,
    round-half-even); the Python literal \<open>0.08\<close> is \<open>flt (8 / 100)\<close>;
  \<^item> \<open>round_half_even\<close> is the built-in \<open>round\<close> to an integer.
  A constructor \<open>Decimal("0.01")\<close> does not round.  Exponent range (overflow, subnormals),
  infinities and NaN are outside the model.  Division by zero raises in both types and is an
  error value here.  The interface \<open>rounding\<close> collects the laws of a rounding function;
  both roundings are proved to satisfy it.
\<close>

section \<open>Shared hint collections\<close>

named_theorems flow "definitions of the straight-line steps, unfolded to follow one execution path"
named_theorems row_simps "field-wise facts of the record updates the handlers perform"

section \<open>Rounding to the nearest integer, ties to even\<close>

definition round_half_even :: "rat \<Rightarrow> int" where
  "round_half_even x =
     (let f = \<lfloor>x\<rfloor>; d = x - of_int f
      in if d < 1 / 2 then f else if d > 1 / 2 then f + 1 else if even f then f else f + 1)"

lemma round_half_even_floor:
  "\<lfloor>x\<rfloor> \<le> round_half_even x" "round_half_even x \<le> \<lfloor>x\<rfloor> + 1"
  by (simp_all add: round_half_even_def Let_def)

lemma round_half_even_of_int [simp]: "round_half_even (of_int k) = k"
  by (simp add: round_half_even_def)

lemma round_half_even_error: "\<bar>of_int (round_half_even x) - x\<bar> \<le> 1 / 2"
proof -
  have "of_int \<lfloor>x\<rfloor> \<le> x" "x < of_int \<lfloor>x\<rfloor> + 1" by linarith+
  then show ?thesis
    by (simp add: round_half_even_def Let_def abs_le_iff)
qed

lemma round_half_even_mono:
  assumes "x \<le> y"
  shows "round_half_even x \<le> round_half_even y"
proof (cases "\<lfloor>x\<rfloor> = \<lfloor>y\<rfloor>")
  case True
  with assms show ?thesis by (simp add: round_half_even_def Let_def)
next
  case False
  with assms have "\<lfloor>x\<rfloor> + 1 \<le> \<lfloor>y\<rfloor>" using floor_mono[OF assms] by linarith
  with round_half_even_floor[of x] round_half_even_floor[of y] show ?thesis by linarith
qed

lemma round_half_even_minus: "round_half_even (- x) = - round_half_even x"
proof (cases "x = of_int \<lfloor>x\<rfloor>")
  case True
  then show ?thesis by (metis of_int_minus round_half_even_of_int)
next
  case False
  then have "of_int \<lfloor>x\<rfloor> < x" by (metis le_less of_int_floor_le)
  then have fl: "\<lfloor>- x\<rfloor> = - \<lfloor>x\<rfloor> - 1" by linarith
  show ?thesis
    by (auto simp: round_half_even_def Let_def fl)
qed

section \<open>Rounding to a number of significant digits\<close>

text \<open>
  \<open>scale b e x\<close> is \<open>x * b\<close> to the power \<open>e\<close>; \<open>ilog b x\<close> is the exponent of the leading
  digit of \<open>x\<close> in base \<open>b\<close>, computed from the digit counts of numerator and denominator.
\<close>

definition scale :: "int \<Rightarrow> int \<Rightarrow> rat \<Rightarrow> rat" where
  "scale b e x = (if 0 \<le> e then x * of_int (b ^ nat e) else x / of_int (b ^ nat (- e)))"

function ndigits :: "int \<Rightarrow> int \<Rightarrow> int" where
  "ndigits b n = (if n \<le> 0 \<or> b \<le> 1 then 0 else ndigits b (n div b) + 1)"
  by pat_completeness auto
termination
  by (relation "measure (\<lambda>(b, n). nat n)") (auto intro: int_div_less_self)

declare ndigits.simps [simp del]

definition ilog :: "int \<Rightarrow> rat \<Rightarrow> int" where
  "ilog b x =
     (let (n, d) = quotient_of \<bar>x\<bar>;
          e = ndigits b n - ndigits b d
      in if scale b e 1 \<le> \<bar>x\<bar> then e else e - 1)"

definition round_sig :: "int \<Rightarrow> nat \<Rightarrow> rat \<Rightarrow> rat" where
  "round_sig b p x =
     (if x = 0 then 0
      else let q = ilog b x - int p + 1
           in scale b q (of_int (round_half_even (scale b (- q) x))))"

lemma scale_powi: "scale b e x = x * of_int b powi e"
  by (simp add: scale_def power_int_def field_simps power_inverse)

lemma ndigits_bounds:
  assumes "1 < b" "0 < n"
  shows "1 \<le> ndigits b n \<and> b ^ nat (ndigits b n - 1) \<le> n \<and> n < b ^ nat (ndigits b n)"
  using assms
proof (induction b n rule: ndigits.induct)
  case (1 b n)
  have simp_n: "ndigits b n = ndigits b (n div b) + 1"
    using "1.prems" by (subst ndigits.simps) simp
  show ?case
  proof (cases "n < b")
    case True
    with "1.prems" have "n div b = 0" by simp
    then have "ndigits b n = 1" unfolding simp_n by (simp add: ndigits.simps)
    with True "1.prems" show ?thesis by simp
  next
    case False
    with "1.prems" have pos: "0 < n div b" by (simp add: pos_imp_zdiv_pos_iff)
    with "1.prems" "1.IH" have IH: "1 \<le> ndigits b (n div b)"
      "b ^ nat (ndigits b (n div b) - 1) \<le> n div b" "n div b < b ^ nat (ndigits b (n div b))"
      by simp_all
    have "b * (n div b) + n mod b = n" "0 \<le> n mod b" "n mod b < b"
      using "1.prems" by simp_all
    then have "b * (n div b) \<le> n" and lt: "n < b * (n div b + 1)"
      unfolding distrib_left by linarith+
    moreover have "b * b ^ nat (ndigits b (n div b) - 1) \<le> b * (n div b)"
      using IH(2) "1.prems" by (intro mult_left_mono) auto
    ultimately have low: "b * b ^ nat (ndigits b (n div b) - 1) \<le> n" by linarith
    have "b * (n div b + 1) \<le> b * b ^ nat (ndigits b (n div b))"
      using IH(3) "1.prems" by (intro mult_left_mono) auto
    with lt have up: "n < b * b ^ nat (ndigits b (n div b))" by linarith
    obtain k where k: "ndigits b (n div b) = int k + 1"
      using IH(1) zle_iff_zadd[of 1] by auto
    have e: "nat (2 + int k) = Suc (Suc k)" "nat (1 + int k) = Suc k" "nat (int k + 1) = Suc k" by simp_all
    show ?thesis using low up by (simp add: simp_n k e)
  qed
qed

lemma powi_less_cancel:
  fixes B :: rat
  assumes "1 < B" "B powi i < B powi j"
  shows "i < j"
proof (rule ccontr)
  assume "\<not> i < j"
  then have "B powi j \<le> B powi i" using assms(1) by (intro power_int_increasing) auto
  with assms(2) show False by simp
qed

lemma ilog_bounds:
  assumes b: "1 < b" and "x \<noteq> 0"
  shows "of_int b powi ilog b x \<le> \<bar>x\<bar>" "\<bar>x\<bar> < of_int b powi (ilog b x + 1)"
proof -
  let ?B = "of_int b :: rat"
  obtain n d where nd: "quotient_of \<bar>x\<bar> = (n, d)" by (cases "quotient_of \<bar>x\<bar>")
  then have x: "\<bar>x\<bar> = of_int n / of_int d" and d: "0 < d"
    by (simp_all add: quotient_of_div quotient_of_denom_pos)
  have "0 < \<bar>x\<bar>" using \<open>x \<noteq> 0\<close> by simp
  with d have n: "0 < n" by (simp add: x zero_less_divide_iff)
  let ?k = "ndigits b n" and ?m = "ndigits b d"
  have pw: "?B powi (ndigits b i - 1) \<le> of_int i \<and> of_int i < ?B powi (ndigits b i)" if "0 < i" for i
    using ndigits_bounds[OF b that] by (simp add: power_int_def flip: of_int_power)
  have Bpos: "0 < ?B powi i" for i using b by simp
  have dpos: "(0 :: rat) < of_int d" using d by simp
  have up: "\<bar>x\<bar> < ?B powi (?k - ?m + 1)"
  proof -
    have "?B powi ?k = ?B powi (?k - ?m + 1) * ?B powi (?m - 1)"
      using b by (simp flip: power_int_add)
    also have "\<dots> \<le> ?B powi (?k - ?m + 1) * of_int d"
      using pw[OF d] Bpos by (intro mult_left_mono) (auto intro: less_imp_le)
    finally show ?thesis using pw[OF n] dpos by (simp add: x divide_less_eq)
  qed
  have low: "?B powi (?k - ?m - 1) \<le> \<bar>x\<bar>"
  proof -
    have "?B powi (?k - ?m - 1) * of_int d \<le> ?B powi (?k - ?m - 1) * ?B powi ?m"
      using pw[OF d] Bpos by (intro mult_left_mono) (auto intro: less_imp_le)
    also have "\<dots> = ?B powi (?k - 1)" using b by (simp flip: power_int_add)
    finally show ?thesis using pw[OF n] dpos by (simp add: x le_divide_eq)
  qed
  have e: "ilog b x = (if ?B powi (?k - ?m) \<le> \<bar>x\<bar> then ?k - ?m else ?k - ?m - 1)"
    by (simp add: ilog_def nd scale_powi)
  show "?B powi ilog b x \<le> \<bar>x\<bar>" "\<bar>x\<bar> < ?B powi (ilog b x + 1)"
    using up low by (auto simp: e)
qed

lemma ilog_less:
  assumes "1 < b" "x \<noteq> 0" "\<bar>x\<bar> < of_int b powi k"
  shows "ilog b x < k"
  using powi_less_cancel[of "of_int b" "ilog b x" k] ilog_bounds(1)[OF assms(1,2)] assms(1,3) by simp

lemma ilog_mono:
  assumes "1 < b" "x \<noteq> 0" "\<bar>x\<bar> \<le> \<bar>y\<bar>"
  shows "ilog b x \<le> ilog b y"
proof -
  have "\<bar>x\<bar> < of_int b powi (ilog b y + 1)" using assms ilog_bounds(2)[OF assms(1), of y] by force
  from ilog_less[OF assms(1,2) this] show ?thesis by simp
qed

lemma round_sig_0 [simp]: "round_sig b p 0 = 0"
  by (simp add: round_sig_def)

lemma ilog_minus [simp]: "ilog b (- x) = ilog b x"
  by (simp add: ilog_def)

lemma round_sig_minus: "round_sig b p (- x) = - round_sig b p x"
  by (simp add: round_sig_def scale_powi round_half_even_minus)

lemma round_sig_nz:
  assumes "x \<noteq> 0" and E: "E = int p - 1 - ilog b x"
  shows "round_sig b p x = of_int (round_half_even (x * of_int b powi E)) * of_int b powi (- E)"
proof -
  have "ilog b x - int p + 1 = - E" using E by simp
  with assms(1) show ?thesis by (simp add: round_sig_def scale_powi Let_def)
qed

text \<open>
  A value with at most \<open>p\<close> significant digits is its own rounding; the bound is closed so that
  a power of the base is covered.
\<close>

lemma round_sig_exact:
  assumes b: "1 < b" and x: "x = of_int m * of_int b powi k" and m: "\<bar>m\<bar> \<le> b ^ p" and p: "0 < p"
  shows "round_sig b p x = x"
proof (cases "x = 0")
  case False
  let ?B = "of_int b :: rat"
  define E where "E = int p - 1 - ilog b x"
  have Bnz: "?B \<noteq> 0" and Bpos: "0 < ?B powi i" for i using b by simp_all
  have add: "?B powi (i + j) = ?B powi i * ?B powi j" for i j
    using Bnz by (simp add: power_int_add)
  have int_case: "round_sig b p x = x" if "x * ?B powi E = of_int j" for j
  proof -
    have "round_sig b p x = of_int j * ?B powi (- E)"
      by (simp add: round_sig_nz[OF False E_def] that)
    also have "\<dots> = x" using Bnz by (simp flip: that) (simp add: mult.assoc flip: add)
    finally show ?thesis .
  qed
  have pow: "?B powi i = of_int (b ^ nat i)" if "0 \<le> i" for i
    using that by (simp add: power_int_def)
  show ?thesis
  proof (cases "\<bar>m\<bar> = b ^ p")
    case True
    define s where "s = sgn m"
    have "m = s * b ^ p" by (metis True s_def sgn_mult_abs)
    then have xs: "x = of_int s * ?B powi (k + int p)" by (simp add: x add)
    have "ilog b x < k + int p + 1"
      using b xs by (intro ilog_less[OF b False]) (auto simp: s_def abs_mult abs_sgn_eq sgn_if power_int_strict_increasing)
    then have "0 \<le> k + int p + E" using p by (simp add: E_def)
    moreover have "x * ?B powi E = of_int s * ?B powi (k + int p + E)"
      by (simp only: xs add mult.assoc)
    ultimately have "x * ?B powi E = of_int (s * b ^ nat (k + int p + E))"
      by (simp only: pow of_int_mult)
    then show ?thesis by (rule int_case)
  next
    case False
    with m have "\<bar>m\<bar> < b ^ p" by simp
    then have "\<bar>of_int m\<bar> < ?B powi int p" by (simp flip: of_int_abs of_int_power)
    then have "\<bar>x\<bar> < ?B powi (int p + k)"
      using Bpos[of k] by (simp add: x abs_mult add)
    from ilog_less[OF b \<open>x \<noteq> 0\<close> this] have "0 \<le> k + E" by (simp add: E_def)
    moreover have "x * ?B powi E = of_int m * ?B powi (k + E)"
      by (simp only: x add mult.assoc)
    ultimately have "x * ?B powi E = of_int (m * b ^ nat (k + E))"
      by (simp only: pow of_int_mult)
    then show ?thesis by (rule int_case)
  qed
qed simp

lemma round_sig_grid:
  assumes "1 < b" "0 < p"
  obtains m k where "round_sig b p x = of_int m * of_int b powi k" "\<bar>m\<bar> \<le> b ^ p"
proof (cases "x = 0")
  case False
  define E where "E = int p - 1 - ilog b x"
  let ?m = "round_half_even (x * of_int b powi E)"
  have pos: "0 < (of_int b :: rat) powi i" for i using assms by simp
  have "\<bar>x * of_int b powi E\<bar> < of_int b powi (ilog b x + 1) * of_int b powi E"
    using ilog_bounds(2)[OF assms(1) False] pos[of E] by (simp add: abs_mult)
  also have "\<dots> = of_int (b ^ p)"
    using assms(1) by (simp add: E_def flip: power_int_add)
  finally have lt: "\<bar>x * of_int b powi E\<bar> < of_int (b ^ p)" .
  have "?m \<le> round_half_even (of_int (b ^ p))" "round_half_even (of_int (- (b ^ p))) \<le> ?m"
    using lt by (intro round_half_even_mono; simp)+
  then have "\<bar>?m\<bar> \<le> b ^ p" unfolding round_half_even_of_int by simp
  with round_sig_nz[OF False E_def] that show thesis by blast
qed (use that[of 0 0] assms in simp)

lemma round_sig_idem:
  assumes "1 < b" "0 < p"
  shows "round_sig b p (round_sig b p x) = round_sig b p x"
  by (rule round_sig_grid[OF assms, of x]) (rule round_sig_exact[OF assms(1) _ _ assms(2)])

lemma round_sig_mono_pos:
  assumes b: "1 < b" "0 < p" and xy: "0 < x" "x \<le> y"
  shows "round_sig b p x \<le> round_sig b p y"
proof -
  let ?B = "of_int b :: rat"
  have x: "x \<noteq> 0" and y: "y \<noteq> 0" and y0: "0 < y" and le: "\<bar>x\<bar> \<le> \<bar>y\<bar>" using xy by auto
  define E where "E = int p - 1 - ilog b x"
  define F where "F = int p - 1 - ilog b y"
  have pos: "0 < ?B powi i" for i using b by simp
  show ?thesis
  proof (cases "ilog b x = ilog b y")
    case True
    then have "F = E" by (simp add: E_def F_def)
    moreover have "x * ?B powi E \<le> y * ?B powi E" using xy pos[of E] by simp
    ultimately show ?thesis
      using round_half_even_mono pos[of "- E"]
      by (simp add: round_sig_nz[OF x E_def] round_sig_nz[OF y F_def] mult_right_mono)
  next
    case False
    with ilog_mono[OF b(1) x le] have lt: "ilog b x + 1 \<le> ilog b y" by simp
    have "x * ?B powi E \<le> ?B powi (ilog b x + 1) * ?B powi E"
      using ilog_bounds(2)[OF b(1) x] xy pos[of E] by (intro mult_right_mono) auto
    also have "\<dots> = of_int (b ^ p)" using b by (simp add: E_def flip: power_int_add)
    finally have "round_half_even (x * ?B powi E) \<le> b ^ p"
      using round_half_even_mono round_half_even_of_int by metis
    then have "round_sig b p x \<le> of_int (b ^ p) * ?B powi (- E)"
      unfolding round_sig_nz[OF x E_def] using pos[of "- E"]
      by (intro mult_right_mono) (auto simp: of_int_le_iff simp del: of_int_power)
    also have "\<dots> = ?B powi (ilog b x + 1)"
      using b by (simp add: E_def flip: power_int_add power_int_of_nat)
    also have "\<dots> \<le> ?B powi (ilog b y)" using b lt by (intro power_int_increasing) auto
    also have "\<dots> = of_int (b ^ (p - 1)) * ?B powi (- F)"
      using b by (simp add: F_def of_nat_diff flip: power_int_add power_int_of_nat)
    also have "\<dots> \<le> round_sig b p y"
    proof -
      have "of_int (b ^ (p - 1)) = ?B powi (ilog b y) * ?B powi F"
        using b by (simp add: F_def of_nat_diff flip: power_int_add power_int_of_nat)
      also have "\<dots> \<le> y * ?B powi F"
        using ilog_bounds(1)[OF b(1) y] y0 pos[of F] by (intro mult_right_mono) auto
      finally have "b ^ (p - 1) \<le> round_half_even (y * ?B powi F)"
        using round_half_even_mono round_half_even_of_int by metis
      then show ?thesis
        unfolding round_sig_nz[OF y F_def] using pos[of "- F"]
        by (intro mult_right_mono) (auto simp: of_int_le_iff simp del: of_int_power)
    qed
    finally show ?thesis .
  qed
qed

lemma round_sig_nonneg:
  assumes "1 < b" "0 \<le> x"
  shows "0 \<le> round_sig b p x"
proof (cases "x = 0")
  case False
  have "0 \<le> x * of_int b powi (int p - 1 - ilog b x)" using assms by simp
  then have "0 \<le> round_half_even (x * of_int b powi (int p - 1 - ilog b x))"
    using round_half_even_mono[of 0] round_half_even_of_int[of 0] by simp
  with assms show ?thesis by (simp add: round_sig_nz[OF False refl])
qed simp

lemma round_sig_mono:
  assumes b: "1 < b" "0 < p" and "x \<le> y"
  shows "round_sig b p x \<le> round_sig b p y"
proof (cases "0 < x")
  case True
  with assms show ?thesis by (intro round_sig_mono_pos) auto
next
  case x: False
  show ?thesis
  proof (cases "y < 0")
    case True
    with assms have "round_sig b p (- y) \<le> round_sig b p (- x)" by (intro round_sig_mono_pos) auto
    then show ?thesis by (simp add: round_sig_minus)
  next
    case False
    with x round_sig_nonneg[OF b(1), of "- x" p] round_sig_nonneg[OF b(1), of y p]
    show ?thesis by (simp add: round_sig_minus)
  qed
qed

lemma round_sig_error:
  assumes b: "1 < b"
  shows "\<bar>round_sig b p x - x\<bar> \<le> of_int b powi (1 - int p) / 2 * \<bar>x\<bar>"
proof (cases "x = 0")
  case False
  let ?B = "of_int b :: rat"
  define E where "E = int p - 1 - ilog b x"
  have pos: "0 < ?B powi i" for i using b by simp
  have inv: "?B powi E * ?B powi (- E) = 1" using b by (simp flip: power_int_add)
  have "round_sig b p x - x
        = (of_int (round_half_even (x * ?B powi E)) - x * ?B powi E) * ?B powi (- E)"
    using inv by (simp add: round_sig_nz[OF False E_def] left_diff_distrib mult.assoc)
  then have "\<bar>round_sig b p x - x\<bar>
        = \<bar>of_int (round_half_even (x * ?B powi E)) - x * ?B powi E\<bar> * ?B powi (- E)"
    using pos[of "- E"] by (simp add: abs_mult)
  also have "\<dots> \<le> 1 / 2 * ?B powi (- E)"
    using round_half_even_error pos[of "- E"] by (intro mult_right_mono) auto
  also have "- E = ilog b x + (1 - int p)" by (simp add: E_def)
  also have "?B powi (ilog b x + (1 - int p)) = ?B powi (ilog b x) * ?B powi (1 - int p)"
    using b by (simp add: power_int_add)
  also have "1 / 2 * \<dots> \<le> 1 / 2 * (\<bar>x\<bar> * ?B powi (1 - int p))"
    using ilog_bounds(1)[OF b False] pos[of "1 - int p"] by (intro mult_left_mono mult_right_mono) auto
  finally show ?thesis by (simp add: algebra_simps)
qed simp

section \<open>The interface of a rounding function\<close>

text \<open>
  What the components rely on: rounding is monotone and odd, its results are representable
  (a second rounding changes nothing) and so are the integers the code counts with.
\<close>

locale rounding =
  fixes rnd :: "rat \<Rightarrow> rat"
  assumes mono: "x \<le> y \<Longrightarrow> rnd x \<le> rnd y"
    and idem [simp]: "rnd (rnd x) = rnd x"
    and minus: "rnd (- x) = - rnd x"
    and small_int: "\<bar>k\<bar> \<le> 2 ^ 53 \<Longrightarrow> rnd (of_int k) = of_int k"
begin

lemma zero [simp]: "rnd 0 = 0"
  using small_int[of 0] by simp

lemma one [simp]: "rnd 1 = 1"
  using small_int[of 1] by simp

lemma numeral_le: "numeral k \<le> (2 ^ 53 :: int) \<Longrightarrow> rnd (numeral k) = numeral k"
  using small_int[of "numeral k"] by simp

lemma of_nat_small: "n \<le> 2 ^ 53 \<Longrightarrow> rnd (of_nat n) = of_nat n"
  using small_int[of "int n"] by simp

lemma nonneg: "0 \<le> x \<Longrightarrow> 0 \<le> rnd x"
  using mono[of 0 x] by simp

lemma nonpos: "x \<le> 0 \<Longrightarrow> rnd x \<le> 0"
  using mono[of x 0] by simp

lemma le_fix: "x \<le> y \<Longrightarrow> rnd y = y \<Longrightarrow> rnd x \<le> y"
  using mono[of x y] by simp

lemma ge_fix: "y \<le> x \<Longrightarrow> rnd y = y \<Longrightarrow> y \<le> rnd x"
  using mono[of y x] by simp

lemma unit: "0 \<le> x \<Longrightarrow> x \<le> 1 \<Longrightarrow> 0 \<le> rnd x \<and> rnd x \<le> 1"
  by (simp add: nonneg le_fix)

lemma mult_le:
  assumes "0 \<le> x" "rnd x = x" "s \<le> 1"
  shows "rnd (x * s) \<le> x"
  using assms by (intro le_fix) (auto simp: mult_left_le)

lemma minus_fix: "rnd x = x \<Longrightarrow> rnd (- x) = - x"
  by (simp add: minus)

end

text \<open>The interface with a bound on the relative error of one operation.\<close>

locale rounding_error = rounding +
  fixes eps :: rat
  assumes eps_pos: "0 < eps" and eps_small: "eps < 1"
    and error: "\<bar>rnd x - x\<bar> \<le> eps * \<bar>x\<bar>"
begin

lemma pos: "0 < x \<Longrightarrow> 0 < rnd x"
proof -
  assume x: "0 < x"
  from x eps_small have "eps * x < x" by simp
  with error[of x] x show ?thesis by (simp add: abs_le_iff)
qed

lemma eq_0_iff [simp]: "rnd x = 0 \<longleftrightarrow> x = 0"
proof
  assume z: "rnd x = 0"
  show "x = 0"
  proof (rule ccontr)
    assume "x \<noteq> 0"
    with eps_small have "eps * \<bar>x\<bar> < \<bar>x\<bar>" by simp
    with error[of x] z show False by simp
  qed
qed simp

lemma pos_iff [simp]: "0 < rnd x \<longleftrightarrow> 0 < x"
  using pos nonpos by (meson linorder_not_le)

lemma neg_iff [simp]: "rnd x < 0 \<longleftrightarrow> x < 0"
  using pos_iff[of "- x"] by (simp add: minus)

lemma nonneg_iff [simp]: "0 \<le> rnd x \<longleftrightarrow> 0 \<le> x"
  using neg_iff by (meson linorder_not_le)

lemma nonpos_iff [simp]: "rnd x \<le> 0 \<longleftrightarrow> x \<le> 0"
  using pos_iff by (meson linorder_not_le)

lemma upper: "0 \<le> x \<Longrightarrow> rnd x \<le> x * (1 + eps)"
  using error[of x] by (simp add: algebra_simps abs_le_iff)

lemma lower: "0 \<le> x \<Longrightarrow> x * (1 - eps) \<le> rnd x"
  using error[of x] by (simp add: algebra_simps abs_le_iff)

end

section \<open>Decimal and binary64\<close>

definition dec :: "rat \<Rightarrow> rat" where
  "dec = round_sig 10 28"

definition flt :: "rat \<Rightarrow> rat" where
  "flt = round_sig 2 53"

lemma round_sig_of_int:
  assumes "1 < b" "0 < p" "\<bar>k\<bar> \<le> b ^ p"
  shows "round_sig b p (of_int k) = of_int k"
  using round_sig_exact[OF assms(1) _ assms(3,2), of _ 0] by simp

interpretation dec: rounding_error dec "1 / (2 * 10 ^ 27)"
proof unfold_locales
  show "x \<le> y \<Longrightarrow> dec x \<le> dec y" for x y by (simp add: dec_def round_sig_mono)
  show "dec (dec x) = dec x" for x by (simp add: dec_def round_sig_idem)
  show "dec (- x) = - dec x" for x by (simp add: dec_def round_sig_minus)
  show "\<bar>k\<bar> \<le> 2 ^ 53 \<Longrightarrow> dec (of_int k) = of_int k" for k
    by (simp add: dec_def round_sig_of_int)
  show "\<bar>dec x - x\<bar> \<le> 1 / (2 * 10 ^ 27) * \<bar>x\<bar>" for x
    using round_sig_error[of 10 28 x] by (simp add: dec_def power_int_def power_one_over)
qed simp_all

interpretation flt: rounding_error flt "1 / 2 ^ 53"
proof unfold_locales
  show "x \<le> y \<Longrightarrow> flt x \<le> flt y" for x y by (simp add: flt_def round_sig_mono)
  show "flt (flt x) = flt x" for x by (simp add: flt_def round_sig_idem)
  show "flt (- x) = - flt x" for x by (simp add: flt_def round_sig_minus)
  show "\<bar>k\<bar> \<le> 2 ^ 53 \<Longrightarrow> flt (of_int k) = of_int k" for k
    by (simp add: flt_def round_sig_of_int)
  show "\<bar>flt x - x\<bar> \<le> 1 / 2 ^ 53 * \<bar>x\<bar>" for x
    using round_sig_error[of 2 53 x] by (simp add: flt_def power_int_def power_one_over)
qed simp_all

text \<open>Values with at most 28 digits at a fixed decimal scale are exact.\<close>

lemma dec_exactI:
  assumes "x * 10 ^ k = of_int m" "\<bar>m\<bar> \<le> 10 ^ 28"
  shows "dec x = x"
proof -
  have "x = of_int m * of_int 10 powi (- int k)"
    using assms(1) by (simp add: power_int_minus field_simps)
  from round_sig_exact[OF _ this, of 28] assms(2) show ?thesis unfolding dec_def by simp
qed

lemma flt_exactI:
  assumes "x * 2 ^ k = of_int m" "\<bar>m\<bar> \<le> 2 ^ 53"
  shows "flt x = x"
proof -
  have "x = of_int m * of_int 2 powi (- int k)"
    using assms(1) by (simp add: power_int_minus field_simps)
  from round_sig_exact[OF _ this, of 53] assms(2) show ?thesis unfolding flt_def by simp
qed

lemmas dec_numeral [simp] = dec.numeral_le dec.of_nat_small
lemmas flt_numeral [simp] = flt.numeral_le flt.of_nat_small

lemma dec_half [simp]: "dec (1 / 2) = 1 / 2"
  by (rule dec_exactI[where k = 1 and m = 5]) simp_all

section \<open>Arithmetic that can raise\<close>

datatype py_error =
    ZeroDivisionError      \<comment> \<open>float division, \<open>decimal.DivisionByZero\<close>\<close>
  | InvalidOperation       \<comment> \<open>\<open>decimal.InvalidOperation\<close>, raised by \<open>0 / 0\<close>\<close>
  | ValidationError        \<comment> \<open>pydantic\<close>
  | KeyError
  | ValueError
  | AssertionError
  | FreqtradeUnavailable   \<comment> \<open>\<open>freqtrade_client.FreqtradeUnavailable\<close>\<close>
  | RedisError
  | DatabaseError

fun bind_res :: "'e + 'a \<Rightarrow> ('a \<Rightarrow> 'e + 'b) \<Rightarrow> 'e + 'b" where
  "bind_res (Inl e) f = Inl e"
| "bind_res (Inr x) f = f x"

lemma bind_res_split:
  "P (bind_res m f) \<longleftrightarrow> (\<forall>e. m = Inl e \<longrightarrow> P (Inl e)) \<and> (\<forall>x. m = Inr x \<longrightarrow> P (f x))"
  by (cases m) auto

lemma bind_res_split_asm:
  "P (bind_res m f) \<longleftrightarrow> \<not> ((\<exists>e. m = Inl e \<and> \<not> P (Inl e)) \<or> (\<exists>x. m = Inr x \<and> \<not> P (f x)))"
  by (cases m) auto

lemmas bind_res_splits = bind_res_split bind_res_split_asm

lemma bind_res_Inr [simp]: "bind_res m f = Inr y \<longleftrightarrow> (\<exists>x. m = Inr x \<and> f x = Inr y)"
  by (cases m) auto

lemma bind_res_Inl [simp]:
  "bind_res m f = Inl e \<longleftrightarrow> m = Inl e \<or> (\<exists>x. m = Inr x \<and> f x = Inl e)"
  by (cases m) auto

definition dec_div :: "rat \<Rightarrow> rat \<Rightarrow> py_error + rat" where
  "dec_div a b =
     (if b = 0 then Inl (if a = 0 then InvalidOperation else ZeroDivisionError) else Inr (dec (a / b)))"

definition flt_div :: "rat \<Rightarrow> rat \<Rightarrow> py_error + rat" where
  "flt_div a b = (if b = 0 then Inl ZeroDivisionError else Inr (flt (a / b)))"

lemma dec_div_nz [simp]: "b \<noteq> 0 \<Longrightarrow> dec_div a b = Inr (dec (a / b))"
  by (simp add: dec_div_def)

lemma dec_div_InrD: "dec_div a b = Inr c \<Longrightarrow> b \<noteq> 0 \<and> c = dec (a / b)"
  by (auto simp: dec_div_def split: if_splits)

lemma flt_div_nz [simp]: "b \<noteq> 0 \<Longrightarrow> flt_div a b = Inr (flt (a / b))"
  by (simp add: flt_div_def)

section \<open>Running sums\<close>

text \<open>\<open>sum(xs, start=Decimal("0"))\<close>: a left fold, rounding after every addition.\<close>

definition dec_sum :: "rat list \<Rightarrow> rat" where
  "dec_sum xs = foldl (\<lambda>a x. dec (a + x)) 0 xs"

text \<open>
  A sum is exact when its terms are multiples of a common decimal unit (the \<open>NUMERIC(20, 8)\<close>
  columns all are) and their total magnitude stays within 28 digits of that unit.
\<close>

definition on_grid :: "nat \<Rightarrow> rat \<Rightarrow> bool" where
  "on_grid k x \<longleftrightarrow> x * 10 ^ k \<in> \<int>"

lemma on_gridI: "x * 10 ^ k = of_int m \<Longrightarrow> on_grid k x"
  by (simp add: on_grid_def)

lemma on_grid_0 [simp]: "on_grid k 0"
  by (simp add: on_grid_def)

lemma on_grid_add [intro]: "on_grid k x \<Longrightarrow> on_grid k y \<Longrightarrow> on_grid k (x + y)"
  by (simp add: on_grid_def distrib_right)

lemma on_grid_dec:
  assumes "on_grid k x" "\<bar>x\<bar> * 10 ^ k \<le> 10 ^ 28"
  shows "dec x = x"
proof -
  obtain m where m: "x * 10 ^ k = of_int m" using assms(1) by (auto simp: on_grid_def elim: Ints_cases)
  then have "\<bar>x\<bar> * 10 ^ k = of_int \<bar>m\<bar>" by (metis abs_mult abs_numeral of_int_abs power_abs)
  with assms(2) have "of_int \<bar>m\<bar> \<le> (of_int (10 ^ 28) :: rat)" by simp
  then have "\<bar>m\<bar> \<le> 10 ^ 28" by (simp only: of_int_le_iff)
  with m show ?thesis by (rule dec_exactI)
qed

lemma dec_sum_exact:
  assumes "\<forall>x \<in> set xs. on_grid k x" "(\<Sum>x\<leftarrow>xs. \<bar>x\<bar>) * 10 ^ k \<le> 10 ^ 28"
  shows "dec_sum xs = sum_list xs"
proof -
  have "foldl (\<lambda>a x. dec (a + x)) c xs = c + sum_list xs"
    if "on_grid k c" "(\<bar>c\<bar> + (\<Sum>x\<leftarrow>xs. \<bar>x\<bar>)) * 10 ^ k \<le> 10 ^ 28" for c
    using assms(1) that
  proof (induction xs arbitrary: c)
    case (Cons x xs)
    have tri: "\<bar>c + x\<bar> + (\<Sum>x\<leftarrow>xs. \<bar>x\<bar>) \<le> \<bar>c\<bar> + (\<Sum>x\<leftarrow>x # xs. \<bar>x\<bar>)" by simp
    then have lim: "(\<bar>c + x\<bar> + (\<Sum>x\<leftarrow>xs. \<bar>x\<bar>)) * 10 ^ k \<le> 10 ^ 28"
      using Cons.prems(3) by (meson mult_right_mono order_trans zero_le_numeral zero_le_power)
    have "0 \<le> (\<Sum>x\<leftarrow>xs. \<bar>x\<bar>)" by (intro sum_list_nonneg) auto
    then have "\<bar>c + x\<bar> * 10 ^ k \<le> (\<bar>c + x\<bar> + (\<Sum>x\<leftarrow>xs. \<bar>x\<bar>)) * 10 ^ k" by simp
    from this lim have "\<bar>c + x\<bar> * 10 ^ k \<le> 10 ^ 28" by (rule order_trans)
    with Cons.prems have "dec (c + x) = c + x" by (intro on_grid_dec[of k]) auto
    moreover have "on_grid k (c + x)" using Cons.prems by auto
    ultimately show ?case using Cons.IH[of "c + x"] Cons.prems(1) lim by (simp add: add.assoc)
  qed simp
  from this[of 0] assms(2) show ?thesis by (simp add: dec_sum_def)
qed

lemma foldl_dec_nonneg:
  assumes "0 \<le> c" "\<forall>x \<in> set xs. 0 \<le> x"
  shows "0 \<le> foldl (\<lambda>a x. dec (a + x)) c xs"
  using assms by (induction xs arbitrary: c) (auto simp: dec.nonneg)

lemma dec_sum_nonneg: "\<forall>x \<in> set xs. 0 \<le> x \<Longrightarrow> 0 \<le> dec_sum xs"
  by (simp add: dec_sum_def foldl_dec_nonneg)

lemma dec_sum_Nil [simp]: "dec_sum [] = 0"
  by (simp add: dec_sum_def)

end
