(* ===== verification/Domain.thy ===== *)
theory Domain
  imports Numerics
begin

text \<open>
  The shared domain model of \<open>services/common\<close>: the enumerations of \<open>enums.py\<close>, the rows of
  \<open>db/models.py\<close>, the risk configuration of \<open>config.py\<close>, and the database session the
  services read and write.  A table is the list of its rows in insertion order; a query is a
  filter of that list.  An identifier (uuid4) is a natural number drawn from \<open>next_id\<close>, a
  datetime is the number of microseconds since the epoch in UTC, and \<open>created_at\<close> is the time
  of the transaction, an argument of the operation that inserts the row.
\<close>

section \<open>Time\<close>

type_synonym datetime = int
type_synonym timedelta = int

definition minutes :: "int \<Rightarrow> timedelta" where
  "minutes n = n * 60000000"

definition seconds :: "int \<Rightarrow> timedelta" where
  "seconds n = n * 1000000"

definition date_of :: "datetime \<Rightarrow> int" where
  "date_of t = t div 86400000000"

lemma minutes_mono [simp]: "minutes a \<le> minutes b \<longleftrightarrow> a \<le> b"
  by (simp add: minutes_def)

lemma minutes_0 [simp]: "minutes 0 = 0"
  by (simp add: minutes_def)

section \<open>Enumerations\<close>

datatype Action = BUY | SELL | HOLD

datatype SentimentState = FEAR | NEUTRAL | GREED

datatype SignalStatus = PENDING | CONSUMED | EXPIRED

datatype RejectionReason =
    LOW_CONFIDENCE | STALE_SIGNAL | SIGNAL_WAS_HOLD | NEGATIVE_EXPECTANCY_SETUP
  | MAX_POSITIONS_REACHED | MAX_EXPOSURE_REACHED | DAILY_LOSS_LIMIT_HIT
  | CONSECUTIVE_LOSS_PAUSE | COOLDOWN_ACTIVE | KILLSWITCH_ACTIVE | DUPLICATE_SIGNAL
  | INSUFFICIENT_BALANCE | INVALID_SIGNAL_SCHEMA | FREQTRADE_BALANCE_UNAVAILABLE
  | INTERNAL_ERROR | NO_POSITION_TO_EXIT

datatype OrderSide = BUY_SIDE | SELL_SIDE

datatype OrderStatus = SUBMITTED | FILLED | FAILED | CANCELLED

datatype PositionStatus = OPEN | CLOSED

datatype AuditEventType =
    SIGNAL_RECEIVED | SIGNAL_VALIDATION_FAILED | RISK_APPROVED | RISK_REJECTED
  | ORDER_SUBMITTED | ORDER_FILLED | ORDER_FAILED | ORDER_CANCELLED
  | POSITION_OPENED | POSITION_CLOSED | KILLSWITCH_ENABLED | KILLSWITCH_DISABLED
  | CONFIG_CHANGED | RECONCILIATION_REQUIRED | LLM_TIMEOUT_STREAK | LLM_TIMEOUT_RECOVERED

definition PREFILTER_MODEL_NAME :: string where
  "PREFILTER_MODEL_NAME = ''deterministic:prefilter''"

text \<open>A JSON payload keeps the Python value each field is rendered from.\<close>

datatype json =
    JNull
  | JBool bool
  | JInt int
  | JNum rat
  | JStr string
  | JId nat                      \<comment> \<open>\<open>str(uuid)\<close>\<close>
  | JAction Action
  | JReason RejectionReason
  | JSide OrderSide
  | JOrderStatus OrderStatus
  | JObj "(string \<times> json) list"
  | JArr "json list"

fun json_opt :: "('a \<Rightarrow> json) \<Rightarrow> 'a option \<Rightarrow> json" where
  "json_opt f None = JNull"
| "json_opt f (Some x) = f x"

section \<open>Rows\<close>

record signal_row =
  sig_id :: nat
  sig_trace_id :: nat
  sig_symbol :: string
  sig_timeframe :: string
  sig_candle_ts :: datetime
  sig_action :: Action
  sig_confidence :: rat
  sig_reasoning :: string
  sig_model_name :: string
  sig_raw_response :: json
  sig_model_input :: json
  sig_price :: rat
  sig_atr_14 :: rat
  sig_status :: SignalStatus
  sig_trade_score :: "int option"
  sig_score_breakdown :: json
  sig_setup_regime :: "string option"
  sig_volatility_regime :: "string option"
  sig_created_at :: datetime

record risk_decision =
  dec_id :: nat
  dec_trace_id :: nat
  dec_signal_id :: nat
  dec_approved :: bool
  dec_rejection_reason :: "RejectionReason option"
  dec_position_size_usdt :: "rat option"
  dec_position_size_base :: "rat option"
  dec_stop_loss_price :: "rat option"
  dec_equity_snapshot_usdt :: "rat option"
  dec_risk_pct_applied :: "rat option"
  dec_nominal_risk_amount_usdt :: "rat option"
  dec_actual_risk_usdt :: "rat option"
  dec_stop_distance_pct :: "rat option"
  dec_created_at :: datetime

record order =
  ord_id :: nat
  ord_trace_id :: nat
  ord_risk_decision_id :: nat
  ord_freqtrade_trade_id :: "int option"
  ord_symbol :: string
  ord_side :: OrderSide
  ord_status :: OrderStatus
  ord_requested_amount :: rat
  ord_filled_amount :: "rat option"
  ord_avg_price :: "rat option"
  ord_dry_run :: bool
  ord_created_at :: datetime

record position =
  pos_id :: nat
  pos_symbol :: string
  pos_status :: PositionStatus
  pos_entry_order_id :: nat
  pos_exit_order_id :: "nat option"
  pos_entry_price :: rat
  pos_exit_price :: "rat option"
  pos_amount :: rat
  pos_pnl_usdt :: "rat option"
  pos_pnl_pct :: "rat option"
  pos_opened_at :: datetime
  pos_closed_at :: "datetime option"
  pos_exit_reason :: "string option"
  pos_fees_usdt :: "rat option"
  pos_fees_estimated :: bool
  pos_r_multiple :: "rat option"
  pos_market_regime :: "string option"
  pos_trade_score :: "int option"
  pos_volatility_regime :: "string option"

record audit_event =
  aud_id :: nat
  aud_trace_id :: nat
  aud_event_type :: AuditEventType
  aud_payload :: "(string \<times> json) list"
  aud_created_at :: datetime

record system_state =
  sys_killswitch_enabled :: bool
  sys_killswitch_reason :: "string option"
  sys_killswitch_updated_by :: "string option"
  sys_consecutive_loss_reset_at :: "datetime option"

text \<open>The values a \<open>RiskConfigState.overrides\<close> document and \<open>model_dump()\<close> carry, keyed
  by field name.\<close>

datatype config_field =
    F_risk_per_trade_pct
  | F_max_position_pct
  | F_max_total_exposure_pct
  | F_max_open_positions
  | F_max_daily_loss_pct
  | F_consecutive_loss_limit
  | F_consecutive_loss_cluster_minutes
  | F_cooldown_minutes
  | F_min_confidence
  | F_min_confidence_size_scale
  | F_signal_max_age_minutes
  | F_atr_stop_multiplier
  | F_min_stop_loss_pct
  | F_max_stop_loss_pct
  | F_dry_run
  | F_estimated_fee_pct
  | F_expectancy_filter_enabled
  | F_expectancy_min_sample_size
  | F_expectancy_min_r

datatype config_value = CDec rat | CStr rat \<comment> \<open>the text of a Decimal\<close> | CInt int | CBool bool

text \<open>The overrides document of \<open>LLMConfigState\<close>: the fields an operator has set.\<close>

record llm_overrides =
  ov_llm_provider :: "string option"
  ov_anthropic_model :: "string option"
  ov_ollama_model :: "string option"
  ov_ollama_temperature :: "rat option"

record db =
  db_signals :: "signal_row list"
  db_decisions :: "risk_decision list"
  db_orders :: "order list"
  db_positions :: "position list"
  db_audit :: "audit_event list"
  db_system_state :: "system_state option"
  db_risk_overrides :: "(config_field \<rightharpoonup> config_value) option"
  db_llm_overrides :: "llm_overrides option"
  db_next_id :: nat

definition empty_db :: db where
  "empty_db = \<lparr>db_signals = [], db_decisions = [], db_orders = [], db_positions = [],
     db_audit = [], db_system_state = None, db_risk_overrides = None,
     db_llm_overrides = None, db_next_id = 0\<rparr>"

section \<open>NUMERIC columns\<close>

text \<open>A \<open>Numeric(p, s)\<close> column stores \<open>s\<close> decimals, rounding half away from zero.\<close>

definition numeric_col :: "nat \<Rightarrow> rat \<Rightarrow> rat" where
  "numeric_col s x =
     (let m = of_int \<lfloor>\<bar>x\<bar> * 10 ^ s + 1 / 2\<rfloor> / 10 ^ s in if x < 0 then - m else m)"

lemma floor_int_half: "\<lfloor>of_int k + 1 / 2 :: rat\<rfloor> = k"
  by (simp add: floor_eq_iff)

lemma numeric_col_0 [simp]: "numeric_col s 0 = 0"
  using floor_int_half[of 0] by (simp add: numeric_col_def)

lemma numeric_col_on_grid: "on_grid s (numeric_col s x)"
  by (simp add: numeric_col_def on_grid_def Let_def)

lemma numeric_col_exact: "on_grid s x \<Longrightarrow> numeric_col s x = x"
proof -
  assume "on_grid s x"
  then obtain m where m: "x * 10 ^ s = of_int m" by (auto simp: on_grid_def elim: Ints_cases)
  then have "\<bar>x\<bar> * 10 ^ s = of_int \<bar>m\<bar>" by (metis abs_mult abs_numeral of_int_abs power_abs)
  then have "\<lfloor>\<bar>x\<bar> * 10 ^ s + 1 / 2\<rfloor> = \<bar>m\<bar>" by (simp only: floor_int_half)
  with \<open>\<bar>x\<bar> * 10 ^ s = of_int \<bar>m\<bar>\<close> have "of_int \<lfloor>\<bar>x\<bar> * 10 ^ s + 1 / 2\<rfloor> / 10 ^ s = \<bar>x\<bar>"
    by (simp add: field_simps)
  then show ?thesis by (simp add: numeric_col_def Let_def)
qed

section \<open>Session operations\<close>

definition get_signal :: "db \<Rightarrow> nat \<Rightarrow> signal_row option" where
  "get_signal d i = find (\<lambda>s. sig_id s = i) (db_signals d)"

definition get_decision :: "db \<Rightarrow> nat \<Rightarrow> risk_decision option" where
  "get_decision d i = find (\<lambda>r. dec_id r = i) (db_decisions d)"

definition get_order :: "db \<Rightarrow> nat \<Rightarrow> order option" where
  "get_order d i = find (\<lambda>r. ord_id r = i) (db_orders d)"

definition add_decision :: "risk_decision \<Rightarrow> db \<Rightarrow> db" where
  "add_decision r d = d\<lparr>db_decisions := db_decisions d @ [r\<lparr>dec_id := db_next_id d\<rparr>],
                        db_next_id := Suc (db_next_id d)\<rparr>"

definition add_order :: "order \<Rightarrow> db \<Rightarrow> db" where
  "add_order r d = d\<lparr>db_orders := db_orders d @ [r\<lparr>ord_id := db_next_id d\<rparr>],
                     db_next_id := Suc (db_next_id d)\<rparr>"

definition add_position :: "position \<Rightarrow> db \<Rightarrow> db" where
  "add_position r d = d\<lparr>db_positions := db_positions d @ [r\<lparr>pos_id := db_next_id d\<rparr>],
                        db_next_id := Suc (db_next_id d)\<rparr>"

definition add_signal :: "signal_row \<Rightarrow> db \<Rightarrow> db" where
  "add_signal r d = d\<lparr>db_signals := db_signals d @ [r\<lparr>sig_id := db_next_id d\<rparr>],
                      db_next_id := Suc (db_next_id d)\<rparr>"

definition add_audit :: "nat \<Rightarrow> AuditEventType \<Rightarrow> (string \<times> json) list \<Rightarrow> datetime \<Rightarrow> db \<Rightarrow> db" where
  "add_audit tr ty pl now d =
     d\<lparr>db_audit := db_audit d @ [\<lparr>aud_id = db_next_id d, aud_trace_id = tr, aud_event_type = ty,
                                  aud_payload = pl, aud_created_at = now\<rparr>],
       db_next_id := Suc (db_next_id d)\<rparr>"

definition update_order :: "nat \<Rightarrow> (order \<Rightarrow> order) \<Rightarrow> db \<Rightarrow> db" where
  "update_order i f d =
     d\<lparr>db_orders := map (\<lambda>r. if ord_id r = i then f r else r) (db_orders d)\<rparr>"

definition update_position :: "nat \<Rightarrow> (position \<Rightarrow> position) \<Rightarrow> db \<Rightarrow> db" where
  "update_position i f d =
     d\<lparr>db_positions := map (\<lambda>r. if pos_id r = i then f r else r) (db_positions d)\<rparr>"

lemmas session_defs =
  add_decision_def add_order_def add_position_def add_signal_def add_audit_def
  update_order_def update_position_def

text \<open>Field frame: which table each operation leaves alone.\<close>

lemma add_audit_frame [simp]:
  "db_signals (add_audit a b c e d) = db_signals d"
  "db_decisions (add_audit a b c e d) = db_decisions d"
  "db_orders (add_audit a b c e d) = db_orders d"
  "db_positions (add_audit a b c e d) = db_positions d"
  "db_system_state (add_audit a b c e d) = db_system_state d"
  "db_risk_overrides (add_audit a b c e d) = db_risk_overrides d"
  "db_next_id (add_audit a b c e d) = Suc (db_next_id d)"
  by (simp_all add: add_audit_def)

lemma add_decision_frame [simp]:
  "db_signals (add_decision r d) = db_signals d"
  "db_orders (add_decision r d) = db_orders d"
  "db_positions (add_decision r d) = db_positions d"
  "db_audit (add_decision r d) = db_audit d"
  "db_system_state (add_decision r d) = db_system_state d"
  "db_risk_overrides (add_decision r d) = db_risk_overrides d"
  "db_next_id (add_decision r d) = Suc (db_next_id d)"
  "db_decisions (add_decision r d) = db_decisions d @ [r\<lparr>dec_id := db_next_id d\<rparr>]"
  by (simp_all add: add_decision_def)

lemma add_order_frame [simp]:
  "db_signals (add_order r d) = db_signals d"
  "db_decisions (add_order r d) = db_decisions d"
  "db_positions (add_order r d) = db_positions d"
  "db_audit (add_order r d) = db_audit d"
  "db_system_state (add_order r d) = db_system_state d"
  "db_risk_overrides (add_order r d) = db_risk_overrides d"
  "db_next_id (add_order r d) = Suc (db_next_id d)"
  "db_orders (add_order r d) = db_orders d @ [r\<lparr>ord_id := db_next_id d\<rparr>]"
  by (simp_all add: add_order_def)

lemma add_position_frame [simp]:
  "db_signals (add_position r d) = db_signals d"
  "db_decisions (add_position r d) = db_decisions d"
  "db_orders (add_position r d) = db_orders d"
  "db_audit (add_position r d) = db_audit d"
  "db_system_state (add_position r d) = db_system_state d"
  "db_risk_overrides (add_position r d) = db_risk_overrides d"
  "db_next_id (add_position r d) = Suc (db_next_id d)"
  "db_positions (add_position r d) = db_positions d @ [r\<lparr>pos_id := db_next_id d\<rparr>]"
  by (simp_all add: add_position_def)

lemma add_signal_frame [simp]:
  "db_decisions (add_signal r d) = db_decisions d"
  "db_orders (add_signal r d) = db_orders d"
  "db_positions (add_signal r d) = db_positions d"
  "db_audit (add_signal r d) = db_audit d"
  "db_system_state (add_signal r d) = db_system_state d"
  "db_risk_overrides (add_signal r d) = db_risk_overrides d"
  "db_next_id (add_signal r d) = Suc (db_next_id d)"
  "db_signals (add_signal r d) = db_signals d @ [r\<lparr>sig_id := db_next_id d\<rparr>]"
  by (simp_all add: add_signal_def)

lemma update_order_frame [simp]:
  "db_signals (update_order i f d) = db_signals d"
  "db_decisions (update_order i f d) = db_decisions d"
  "db_positions (update_order i f d) = db_positions d"
  "db_audit (update_order i f d) = db_audit d"
  "db_system_state (update_order i f d) = db_system_state d"
  "db_risk_overrides (update_order i f d) = db_risk_overrides d"
  "db_next_id (update_order i f d) = db_next_id d"
  by (simp_all add: update_order_def)

lemma update_position_frame [simp]:
  "db_signals (update_position i f d) = db_signals d"
  "db_decisions (update_position i f d) = db_decisions d"
  "db_orders (update_position i f d) = db_orders d"
  "db_audit (update_position i f d) = db_audit d"
  "db_system_state (update_position i f d) = db_system_state d"
  "db_risk_overrides (update_position i f d) = db_risk_overrides d"
  "db_next_id (update_position i f d) = db_next_id d"
  by (simp_all add: update_position_def)

text \<open>The audit log of a session only grows (\<open>AuditEvent\<close>: append-only).\<close>

definition audit_grows :: "db \<Rightarrow> db \<Rightarrow> bool" where
  "audit_grows d d' \<longleftrightarrow> take (length (db_audit d)) (db_audit d') = db_audit d"

lemma audit_grows_refl [simp, intro]: "audit_grows d d"
  by (simp add: audit_grows_def)

lemma audit_grows_iff: "audit_grows d d' \<longleftrightarrow> (\<exists>es. db_audit d' = db_audit d @ es)"
  by (auto simp: audit_grows_def) (metis append_take_drop_id)

lemma audit_grows_trans [trans]: "audit_grows a b \<Longrightarrow> audit_grows b c \<Longrightarrow> audit_grows a c"
  by (auto simp: audit_grows_iff)

lemma audit_grows_add [simp, intro]: "audit_grows d (add_audit tr ty pl now d)"
  by (simp add: audit_grows_iff add_audit_def)

lemma audit_grows_same: "db_audit d' = db_audit d \<Longrightarrow> audit_grows d d'"
  by (simp add: audit_grows_def)

end
