(* ===== verification/Schedule.thy ===== *)
theory Schedule
  imports Domain
begin

text \<open>
  When the scheduler works: \<open>timeframe_to_seconds\<close> of \<open>scheduler/app/jobs.py\<close>, the cron fields and
  \<open>build_scheduler\<close> of \<open>scheduler/app/main.py\<close>, and \<open>isoformat\<close> of a UTC time.  A cron trigger of the
  scheduling library fires at the seconds its fields match; a minute field is kept as its parts.
\<close>

section \<open>Timeframes\<close>

definition digit_of :: "char \<Rightarrow> int option" where
  "digit_of c = (let n = (of_char c :: int) in if 48 \<le> n \<and> n \<le> 57 then Some (n - 48) else None)"

text \<open>\<open>int()\<close> of a text of decimal digits; any other text is a \<open>ValueError\<close>.\<close>

fun parse_digits :: "int \<Rightarrow> string \<Rightarrow> int option" where
  "parse_digits acc [] = Some acc"
| "parse_digits acc (c # cs) =
     (case digit_of c of None \<Rightarrow> None | Some d \<Rightarrow> parse_digits (acc * 10 + d) cs)"

definition parse_int :: "string \<Rightarrow> int option" where
  "parse_int s = (if s = [] then None else parse_digits 0 s)"

definition TIMEFRAME_UNIT_SECONDS :: "char \<rightharpoonup> int" where
  "TIMEFRAME_UNIT_SECONDS = map_of [(CHR ''s'', 1), (CHR ''m'', 60), (CHR ''h'', 3600), (CHR ''d'', 86400)]"

definition timeframe_to_seconds :: "string \<Rightarrow> py_error + int" where
  "timeframe_to_seconds timeframe =
     (case parse_int (butlast timeframe) of
        None \<Rightarrow> Inl ValueError
      | Some n \<Rightarrow>
          (case TIMEFRAME_UNIT_SECONDS (last timeframe) of
             None \<Rightarrow> Inl KeyError
           | Some unit_seconds \<Rightarrow> Inr (n * unit_seconds)))"

section \<open>Settings\<close>

record SchedulerSettings =
  ss_candle_lookback :: int
  ss_llm_ohlcv_window :: int
  ss_symbols :: "string list"
  ss_timeframe :: string
  ss_candle_settle_second :: int
  ss_symbol_stagger_seconds :: int
  ss_llm_timeout_alert_threshold :: int

definition SchedulerSettings_defaults :: SchedulerSettings where
  "SchedulerSettings_defaults =
     \<lparr>ss_candle_lookback = 200, ss_llm_ohlcv_window = 4,
      ss_symbols = [''BTC/USDT'', ''ETH/USDT'', ''BNB/USDT'', ''XRP/USDT''], ss_timeframe = ''5m'',
      ss_candle_settle_second = 15, ss_symbol_stagger_seconds = 70, ss_llm_timeout_alert_threshold = 5\<rparr>"

text \<open>\<open>_split_symbols_csv\<close> of a text: the non-blank pieces between commas, stripped.\<close>

fun split_comma :: "string \<Rightarrow> string \<Rightarrow> string list" where
  "split_comma piece [] = [rev piece]"
| "split_comma piece (c # cs) =
     (if c = CHR '','' then rev piece # split_comma [] cs else split_comma (c # piece) cs)"

definition is_space :: "char \<Rightarrow> bool" where
  "is_space c \<longleftrightarrow> (of_char c :: nat) \<in> {9..13} \<union> {28..32}"

definition strip :: "string \<Rightarrow> string" where
  "strip s = rev (dropWhile is_space (rev (dropWhile is_space s)))"

definition split_symbols_csv :: "string \<Rightarrow> string list" where
  "split_symbols_csv text = map strip (filter (\<lambda>s. strip s \<noteq> []) (split_comma [] text))"

section \<open>Cron fields\<close>

datatype cron_minute =
    CronAt int            \<comment> \<open>\<open>5\<close>\<close>
  | CronEvery int         \<comment> \<open>\<open>*/5\<close>\<close>
  | CronFrom int int      \<comment> \<open>\<open>2-59/5\<close>\<close>

definition cron_minute_field :: "int \<Rightarrow> int \<Rightarrow> py_error + cron_minute" where
  "cron_minute_field timeframe_seconds extra_minutes =
     (if timeframe_seconds = 3600 then Inr (CronAt extra_minutes)
      else let mins = timeframe_seconds div 60; remainder = timeframe_seconds mod 60
           in if remainder \<noteq> 0 \<or> mins \<le> 0 \<or> 60 mod mins \<noteq> 0 then Inl ValueError
              else if extra_minutes = 0 then Inr (CronEvery mins)
              else Inr (CronFrom extra_minutes mins))"

record cron_job =
  cj_symbol :: string
  cj_minute :: cron_minute
  cj_second :: int

text \<open>
  \<open>add_job\<close> with an id that names the symbol and \<open>replace_existing=True\<close>: a symbol keeps one job, and a
  later one takes the place of an earlier one.
\<close>

fun put_job :: "cron_job \<Rightarrow> cron_job list \<Rightarrow> cron_job list" where
  "put_job j [] = [j]"
| "put_job j (k # ks) = (if cj_symbol k = cj_symbol j then j # ks else k # put_job j ks)"

text \<open>The loop over \<open>enumerate(symbols)\<close> from position \<open>i\<close> on, with the jobs there are so far.\<close>

fun add_jobs ::
    "SchedulerSettings \<Rightarrow> int \<Rightarrow> int \<Rightarrow> string list \<Rightarrow> cron_job list \<Rightarrow> py_error + cron_job list" where
  "add_jobs st timeframe_seconds i [] jobs = Inr jobs"
| "add_jobs st timeframe_seconds i (symbol # symbols) jobs =
     (let offset_seconds = ss_candle_settle_second st + i * ss_symbol_stagger_seconds st
      in if offset_seconds \<ge> timeframe_seconds then Inl ValueError
         else bind_res (cron_minute_field timeframe_seconds (offset_seconds div 60)) (\<lambda>minute_field.
                add_jobs st timeframe_seconds (i + 1) symbols
                  (put_job \<lparr>cj_symbol = symbol, cj_minute = minute_field, cj_second = offset_seconds mod 60\<rparr>
                     jobs)))"

text \<open>The candle jobs of the scheduler; the daily performance job has an id and a time of its own.\<close>

definition build_scheduler :: "SchedulerSettings \<Rightarrow> py_error + cron_job list" where
  "build_scheduler st =
     bind_res (timeframe_to_seconds (ss_timeframe st)) (\<lambda>timeframe_seconds.
       add_jobs st timeframe_seconds 0 (ss_symbols st) [])"

text \<open>The seconds since the epoch at which a job fires, as cron fields are documented to match.\<close>

definition minute_matches :: "cron_minute \<Rightarrow> int \<Rightarrow> bool" where
  "minute_matches f m =
     (case f of
        CronAt k \<Rightarrow> m = k
      | CronEvery n \<Rightarrow> m mod n = 0
      | CronFrom k n \<Rightarrow> k \<le> m \<and> (m - k) mod n = 0)"

definition fires :: "cron_job \<Rightarrow> int \<Rightarrow> bool" where
  "fires j t \<longleftrightarrow> t mod 60 = cj_second j \<and> minute_matches (cj_minute j) (t div 60 mod 60)"

section \<open>Properties\<close>

lemma put_job_symbols: "cj_symbol ` set (put_job j js) = insert (cj_symbol j) (cj_symbol ` set js)"
  by (induction js) auto

lemma put_job_distinct:
  "distinct (map cj_symbol js) \<Longrightarrow> distinct (map cj_symbol (put_job j js))"
proof (induction js)
  case (Cons k ks)
  have "cj_symbol k \<notin> cj_symbol ` set (put_job j ks)" if "cj_symbol k \<noteq> cj_symbol j"
    using Cons.prems that unfolding put_job_symbols by simp
  with Cons show ?case by auto
qed simp

lemma put_job_set:
  "distinct (map cj_symbol js) \<Longrightarrow>
     set (put_job j js) = insert j {i \<in> set js. cj_symbol i \<noteq> cj_symbol j}"
  by (induction js) (auto simp: image_iff)

lemma put_job_new: "cj_symbol j \<notin> cj_symbol ` set js \<Longrightarrow> put_job j js = js @ [j]"
  by (induction js) auto

text \<open>The job of the \<open>k\<close>-th symbol, and the jobs of the symbols read so far.\<close>

definition job_at :: "SchedulerSettings \<Rightarrow> int \<Rightarrow> nat \<Rightarrow> cron_job \<Rightarrow> bool" where
  "job_at st tf k j \<longleftrightarrow>
     (let offset = ss_candle_settle_second st + int k * ss_symbol_stagger_seconds st
      in offset < tf \<and> cron_minute_field tf (offset div 60) = Inr (cj_minute j) \<and> cj_second j = offset mod 60)"

definition jobs_of :: "SchedulerSettings \<Rightarrow> int \<Rightarrow> string list \<Rightarrow> cron_job list \<Rightarrow> bool" where
  "jobs_of st tf symbols jobs \<longleftrightarrow>
     distinct (map cj_symbol jobs) \<and> cj_symbol ` set jobs = set symbols \<and>
     (distinct symbols \<longrightarrow> map cj_symbol jobs = symbols) \<and>
     (\<forall>j \<in> set jobs. \<exists>k < length symbols. symbols ! k = cj_symbol j \<and>
        cj_symbol j \<notin> set (drop (Suc k) symbols) \<and> job_at st tf k j)"

lemma jobs_of_put:
  assumes "jobs_of st tf symbols jobs" "job_at st tf (length symbols) j"
  shows "jobs_of st tf (symbols @ [cj_symbol j]) (put_job j jobs)"
  unfolding jobs_of_def
proof (intro conjI ballI impI)
  have d: "distinct (map cj_symbol jobs)" and sy: "cj_symbol ` set jobs = set symbols"
    and keep: "\<And>i. i \<in> set jobs \<Longrightarrow> \<exists>k < length symbols. symbols ! k = cj_symbol i \<and>
        cj_symbol i \<notin> set (drop (Suc k) symbols) \<and> job_at st tf k i"
    using assms(1) by (simp_all add: jobs_of_def)
  show "distinct (map cj_symbol (put_job j jobs))" by (rule put_job_distinct[OF d])
  show "cj_symbol ` set (put_job j jobs) = set (symbols @ [cj_symbol j])"
    unfolding put_job_symbols sy by simp
  show "map cj_symbol (put_job j jobs) = symbols @ [cj_symbol j]" if "distinct (symbols @ [cj_symbol j])"
    using that assms(1) put_job_new[of j jobs] sy by (simp add: jobs_of_def)
  fix i assume "i \<in> set (put_job j jobs)"
  then consider "i = j" | "i \<in> set jobs" "cj_symbol i \<noteq> cj_symbol j"
    unfolding put_job_set[OF d] by auto
  then show "\<exists>k < length (symbols @ [cj_symbol j]). (symbols @ [cj_symbol j]) ! k = cj_symbol i \<and>
      cj_symbol i \<notin> set (drop (Suc k) (symbols @ [cj_symbol j])) \<and> job_at st tf k i"
  proof cases
    case 1
    with assms(2) show ?thesis by (intro exI[of _ "length symbols"]) simp
  next
    case 2
    from keep[OF 2(1)] obtain k where "k < length symbols" "symbols ! k = cj_symbol i"
      "cj_symbol i \<notin> set (drop (Suc k) symbols)" "job_at st tf k i" by blast
    with 2(2) show ?thesis by (intro exI[of _ k]) (simp add: nth_append)
  qed
qed

lemma add_jobs_of:
  assumes "add_jobs st tf (int (length before)) symbols js = Inr jobs" "jobs_of st tf before js"
  shows "jobs_of st tf (before @ symbols) jobs"
  using assms
proof (induction symbols arbitrary: before js)
  case (Cons symbol symbols)
  let ?off = "ss_candle_settle_second st + int (length before) * ss_symbol_stagger_seconds st"
  from Cons.prems(1) obtain f where f: "?off < tf" "cron_minute_field tf (?off div 60) = Inr f"
    and rest: "add_jobs st tf (int (length before) + 1) symbols
        (put_job \<lparr>cj_symbol = symbol, cj_minute = f, cj_second = ?off mod 60\<rparr> js) = Inr jobs"
    by (auto simp: Let_def split: if_splits)
  let ?j = "\<lparr>cj_symbol = symbol, cj_minute = f, cj_second = ?off mod 60\<rparr>"
  have "job_at st tf (length before) ?j" using f by (simp add: job_at_def Let_def)
  from jobs_of_put[OF Cons.prems(2) this] have "jobs_of st tf (before @ [symbol]) (put_job ?j js)" by simp
  with Cons.IH[of "before @ [symbol]" "put_job ?j js"] rest show ?case by (simp add: add.commute)
qed simp

lemma fires_offset:
  assumes "cron_minute_field tf (offset div 60) = Inr f" "0 \<le> offset" "offset < tf"
  shows "t mod 60 = offset mod 60 \<and> minute_matches f (t div 60 mod 60) \<longleftrightarrow> t mod tf = offset"
proof -
  let ?k = "offset div 60" and ?m = "t div 60 mod 60" and ?n = "tf div 60"
  have split: "t mod (60 * n) = offset \<longleftrightarrow> t mod 60 = offset mod 60 \<and> t div 60 mod n = ?k" if "0 < n" for n :: int
  proof -
    have "t mod (60 * n) = 60 * (t div 60 mod n) + t mod 60" using that by (simp add: zmod_zmult2_eq)
    moreover have "offset = 60 * ?k + offset mod 60" by simp
    ultimately show ?thesis by (auto dest: arg_cong[of _ _ "\<lambda>x. x div 60"] arg_cong[of _ _ "\<lambda>x. x mod 60"])
  qed
  show ?thesis
  proof (cases "tf = 3600")
    case True
    with assms(1) have f: "f = CronAt ?k" by (simp add: cron_minute_field_def)
    then have "minute_matches f ?m \<longleftrightarrow> ?m = ?k" by (simp add: minute_matches_def)
    with True split[of 60] show ?thesis by simp
  next
    case False
    then have n: "tf mod 60 = 0" "0 < ?n" "60 mod ?n = 0"
      and f: "f = (if ?k = 0 then CronEvery ?n else CronFrom ?k ?n)"
      using assms(1) by (auto simp: cron_minute_field_def Let_def split: if_splits)
    have tf: "tf = 60 * ?n" using n(1) by auto
    have mm: "?m mod ?n = t div 60 mod ?n" by (rule mod_mod_cancel) (simp only: dvd_eq_mod_eq_0 n(3))
    have k: "0 \<le> ?k" "?k < ?n" using assms(2,3) n(1) by auto
    have "minute_matches f ?m \<longleftrightarrow> ?m mod ?n = ?k"
    proof (cases "?k = 0")
      case True
      with f have "f = CronEvery ?n" by simp
      then show ?thesis unfolding True by (simp add: minute_matches_def)
    next
      case k0: False
      with f have cf: "f = CronFrom ?k ?n" by simp
      have m0: "0 \<le> ?m" by simp
      have "?k \<le> ?m \<and> (?m - ?k) mod ?n = 0 \<longleftrightarrow> ?m mod ?n = ?k"
      proof
        assume "?k \<le> ?m \<and> (?m - ?k) mod ?n = 0"
        then have "?m mod ?n = ?k mod ?n" by (simp add: mod_eq_dvd_iff dvd_eq_mod_eq_0)
        then show "?m mod ?n = ?k" using k by (simp add: mod_pos_pos_trivial)
      next
        assume e: "?m mod ?n = ?k"
        have "?m mod ?n \<le> ?m" using m0 n(2) by (simp add: zmod_le_nonneg_dividend)
        moreover have "(?m - ?k) mod ?n = 0" using e by (metis minus_mod_eq_mult_div mod_mult_self1_is_0)
        ultimately show "?k \<le> ?m \<and> (?m - ?k) mod ?n = 0" using e by simp
      qed
      then show ?thesis unfolding cf by (simp add: minute_matches_def)
    qed
    with split[OF n(2)] tf mm show ?thesis by metis
  qed
qed

text \<open>
  C38. A schedule that \<open>build_scheduler\<close> accepts has one job for each symbol, in the order of the symbols
  if none is repeated, and runs it exactly once per candle: the job fires at precisely those seconds that
  lie the settle time plus k times the stagger after a candle close, an offset below one candle period,
  where k is the position of the symbol, the last one if it is repeated.  With a positive stagger no two
  jobs fire at the same second; a stagger of zero is accepted and lets all of them fire together.
\<close>

theorem scheduler_fires_once_per_candle:
  assumes "build_scheduler st = Inr jobs"
    and "0 \<le> ss_candle_settle_second st" "0 \<le> ss_symbol_stagger_seconds st"
  shows "distinct (map cj_symbol jobs) \<and> cj_symbol ` set jobs = set (ss_symbols st) \<and>
    (distinct (ss_symbols st) \<longrightarrow> map cj_symbol jobs = ss_symbols st) \<and>
    (\<exists>tf. timeframe_to_seconds (ss_timeframe st) = Inr tf \<and>
       (\<forall>job \<in> set jobs. \<exists>k < length (ss_symbols st). ss_symbols st ! k = cj_symbol job \<and>
          cj_symbol job \<notin> set (drop (Suc k) (ss_symbols st)) \<and>
          ss_candle_settle_second st + int k * ss_symbol_stagger_seconds st < tf \<and>
          (\<forall>t. fires job t \<longleftrightarrow>
             t mod tf = ss_candle_settle_second st + int k * ss_symbol_stagger_seconds st))) \<and>
    (0 < ss_symbol_stagger_seconds st \<longrightarrow>
       (\<forall>i \<in> set jobs. \<forall>j \<in> set jobs. \<forall>t. fires i t \<and> fires j t \<longrightarrow> i = j))"
proof -
  from assms(1) obtain tf where tf: "timeframe_to_seconds (ss_timeframe st) = Inr tf"
    and jobs: "add_jobs st tf 0 (ss_symbols st) [] = Inr jobs"
    by (auto simp: build_scheduler_def)
  let ?off = "\<lambda>k. ss_candle_settle_second st + int k * ss_symbol_stagger_seconds st"
  have "jobs_of st tf [] []" by (simp add: jobs_of_def)
  with add_jobs_of[of st tf "[]" "ss_symbols st" "[]" jobs] jobs have of: "jobs_of st tf (ss_symbols st) jobs"
    by simp
  have fire: "\<exists>k < length (ss_symbols st). ss_symbols st ! k = cj_symbol j \<and>
      cj_symbol j \<notin> set (drop (Suc k) (ss_symbols st)) \<and> ?off k < tf \<and> (\<forall>t. fires j t \<longleftrightarrow> t mod tf = ?off k)"
    if "j \<in> set jobs" for j
  proof -
    from of that obtain k where k: "k < length (ss_symbols st)" "ss_symbols st ! k = cj_symbol j"
      "cj_symbol j \<notin> set (drop (Suc k) (ss_symbols st))" "job_at st tf k j" by (auto simp: jobs_of_def)
    then have at: "?off k < tf" "cron_minute_field tf (?off k div 60) = Inr (cj_minute j)"
      "cj_second j = ?off k mod 60" by (simp_all add: job_at_def Let_def)
    with fires_offset[OF at(2)] assms(2,3) have "fires j t \<longleftrightarrow> t mod tf = ?off k" for t by (simp add: fires_def)
    with k at(1) show ?thesis by blast
  qed
  have one: "i = j" if "0 < ss_symbol_stagger_seconds st" "i \<in> set jobs" "j \<in> set jobs" "fires i t" "fires j t"
    for i j t
  proof -
    from fire[OF that(2)] fire[OF that(3)] that(4,5) obtain k l where "ss_symbols st ! k = cj_symbol i"
      "ss_symbols st ! l = cj_symbol j" "?off k = ?off l" by metis
    with that(1) have "cj_symbol i = cj_symbol j" by simp
    with of that(2,3) show ?thesis by (auto simp: jobs_of_def distinct_map dest: inj_onD)
  qed
  show ?thesis
    using of tf fire one unfolding jobs_of_def by blast
qed

lemma default_jobs:
  "build_scheduler SchedulerSettings_defaults =
     Inr [\<lparr>cj_symbol = ''BTC/USDT'', cj_minute = CronEvery 5, cj_second = 15\<rparr>,
          \<lparr>cj_symbol = ''ETH/USDT'', cj_minute = CronFrom 1 5, cj_second = 25\<rparr>,
          \<lparr>cj_symbol = ''BNB/USDT'', cj_minute = CronFrom 2 5, cj_second = 35\<rparr>,
          \<lparr>cj_symbol = ''XRP/USDT'', cj_minute = CronFrom 3 5, cj_second = 45\<rparr>]"
  by code_simp

text \<open>A repeated symbol has one job, at its last position.\<close>

lemma repeated_symbol:
  "build_scheduler (SchedulerSettings_defaults\<lparr>ss_symbols := [''BTC/USDT'', ''ETH/USDT'', ''BTC/USDT'']\<rparr>) =
     Inr [\<lparr>cj_symbol = ''BTC/USDT'', cj_minute = CronFrom 2 5, cj_second = 35\<rparr>,
          \<lparr>cj_symbol = ''ETH/USDT'', cj_minute = CronFrom 1 5, cj_second = 25\<rparr>]"
  by code_simp

theorem scheduler_fires_once_per_candle_witness:
  "(\<forall>t. fires \<lparr>cj_symbol = ''ETH/USDT'', cj_minute = CronFrom 1 5, cj_second = 25\<rparr> t \<longleftrightarrow> t mod 300 = 85) \<and>
   (\<forall>t. fires \<lparr>cj_symbol = ''BTC/USDT'', cj_minute = CronFrom 2 5, cj_second = 35\<rparr> t \<longleftrightarrow> t mod 300 = 155)"
proof -
  have tf: "timeframe_to_seconds ''5m'' = Inr 300" by code_simp
  let ?st = "SchedulerSettings_defaults\<lparr>ss_symbols := [''BTC/USDT'', ''ETH/USDT'', ''BTC/USDT'']\<rparr>"
  let ?btc = "\<lparr>cj_symbol = ''BTC/USDT'', cj_minute = CronFrom 2 5, cj_second = 35\<rparr>"
  let ?eth = "\<lparr>cj_symbol = ''ETH/USDT'', cj_minute = CronFrom 1 5, cj_second = 25\<rparr>"
  have st: "ss_symbols ?st = [''BTC/USDT'', ''ETH/USDT'', ''BTC/USDT'']" "ss_timeframe ?st = ''5m''"
    "ss_candle_settle_second ?st = 15" "ss_symbol_stagger_seconds ?st = 70"
    by (simp_all add: SchedulerSettings_defaults_def)
  have nn: "0 \<le> ss_candle_settle_second ?st" "0 \<le> ss_symbol_stagger_seconds ?st" unfolding st by simp_all
  note run = scheduler_fires_once_per_candle[OF repeated_symbol nn, THEN conjunct2, THEN conjunct2,
      THEN conjunct2, THEN conjunct1]
  from run obtain u where "timeframe_to_seconds (ss_timeframe ?st) = Inr u" and
    u: "\<forall>job \<in> set [?btc, ?eth]. \<exists>k < length (ss_symbols ?st). ss_symbols ?st ! k = cj_symbol job \<and>
      cj_symbol job \<notin> set (drop (Suc k) (ss_symbols ?st)) \<and>
      ss_candle_settle_second ?st + int k * ss_symbol_stagger_seconds ?st < u \<and>
      (\<forall>t. fires job t \<longleftrightarrow> t mod u = ss_candle_settle_second ?st + int k * ss_symbol_stagger_seconds ?st)"
    by (elim exE conjE) (rule that)
  then have "u = 300" unfolding st tf by simp
  have at: "\<exists>k < 3. [''BTC/USDT'', ''ETH/USDT'', ''BTC/USDT''] ! k = cj_symbol job \<and>
      cj_symbol job \<notin> set (drop (Suc k) [''BTC/USDT'', ''ETH/USDT'', ''BTC/USDT'']) \<and>
      (\<forall>t. fires job t \<longleftrightarrow> t mod 300 = 15 + int k * 70)" if "job \<in> set [?btc, ?eth]" for job
  proof -
    have len: "length (ss_symbols ?st) = 3" unfolding st by simp
    from bspec[OF u that] show ?thesis unfolding len unfolding st \<open>u = 300\<close> by (elim exE conjE) (intro exI conjI)
  qed
  have k3: "k = 0 \<or> k = 1 \<or> k = 2" if "k < 3" for k :: nat using that by auto
  from at[of ?eth] obtain k where k: "k < 3" "[''BTC/USDT'', ''ETH/USDT'', ''BTC/USDT''] ! k = cj_symbol ?eth"
    "\<forall>t. fires ?eth t \<longleftrightarrow> t mod 300 = 15 + int k * 70" by (meson list.set_intros)
  have "k = 1" using k3[OF k(1)] k(2) by (elim disjE) simp_all
  then have e: "fires ?eth t \<longleftrightarrow> t mod 300 = 85" for t using spec[OF k(3), of t] by simp
  from at[of ?btc] obtain l where l: "l < 3"
    "cj_symbol ?btc \<notin> set (drop (Suc l) [''BTC/USDT'', ''ETH/USDT'', ''BTC/USDT''])"
    "[''BTC/USDT'', ''ETH/USDT'', ''BTC/USDT''] ! l = cj_symbol ?btc"
    "\<forall>t. fires ?btc t \<longleftrightarrow> t mod 300 = 15 + int l * 70" by (meson list.set_intros)
  have "l = 2" using k3[OF l(1)] l(2,3) by (elim disjE) simp_all
  then have "fires ?btc t \<longleftrightarrow> t mod 300 = 155" for t using spec[OF l(4), of t] by simp
  with e show ?thesis by simp
qed

end
