(* ===== verification/Sentiment.thy ===== *)
theory Sentiment
  imports Domain
begin

text \<open>
  The market sentiment of \<open>common/sentiment.py\<close> and \<open>scheduler/app/sentiment\<close>: indicator providers
  behind one interface and the service that aggregates them.  Pydantic's field constraints are
  \<open>ValueError\<close>s; a reason text is kept as its template, its labels and the numbers it formats.
\<close>

section \<open>Data\<close>

record MACDSnapshot =
  ms_macd :: rat
  ms_signal :: rat
  ms_histogram :: rat

record MarketIndicatorSnapshot =
  mi_price :: "rat option"
  mi_price_change_pct :: "rat option"
  mi_rsi_14 :: "rat option"
  mi_ema_50 :: "rat option"
  mi_ema_200 :: "rat option"
  mi_macd :: "MACDSnapshot option"
  mi_atr_14 :: "rat option"
  mi_volume :: "rat option"
  mi_volume_sma_20 :: "rat option"

definition opt_all :: "('a \<Rightarrow> bool) \<Rightarrow> 'a option \<Rightarrow> bool" where
  "opt_all P v = (case v of None \<Rightarrow> True | Some x \<Rightarrow> P x)"

lemma opt_all_simps [simp]: "opt_all P None" "opt_all P (Some x) = P x"
  by (simp_all add: opt_all_def)

text \<open>The constraints of the model: a snapshot that violates one is never constructed.\<close>

definition snapshot_ok :: "MarketIndicatorSnapshot \<Rightarrow> bool" where
  "snapshot_ok s \<longleftrightarrow>
     opt_all (\<lambda>x. 0 < x) (mi_price s) \<and> opt_all (\<lambda>x. 0 \<le> x \<and> x \<le> 100) (mi_rsi_14 s) \<and>
     opt_all (\<lambda>x. 0 < x) (mi_ema_50 s) \<and> opt_all (\<lambda>x. 0 < x) (mi_ema_200 s) \<and>
     opt_all (\<lambda>x. 0 \<le> x) (mi_atr_14 s) \<and> opt_all (\<lambda>x. 0 \<le> x) (mi_volume s) \<and>
     opt_all (\<lambda>x. 0 < x) (mi_volume_sma_20 s)"

definition make_snapshot :: "MarketIndicatorSnapshot \<Rightarrow> py_error + MarketIndicatorSnapshot" where
  "make_snapshot s = (if snapshot_ok s then Inr s else Inl ValueError)"

type_synonym sentiment_reason = "string \<times> string list \<times> rat list"

record IndicatorContribution =
  ic_indicator :: string
  ic_score :: rat
  ic_confidence :: rat
  ic_reason :: sentiment_reason

definition contribution ::
    "string \<Rightarrow> rat \<Rightarrow> rat \<Rightarrow> sentiment_reason \<Rightarrow> py_error + IndicatorContribution option" where
  "contribution indicator score confidence reason =
     (if 0 \<le> score \<and> score \<le> 100 \<and> 0 \<le> confidence \<and> confidence \<le> 1
      then Inr (Some \<lparr>ic_indicator = indicator, ic_score = score, ic_confidence = confidence,
                      ic_reason = reason\<rparr>)
      else Inl ValueError)"

record MarketSentiment =
  se_score :: int
  se_state :: SentimentState
  se_confidence :: rat
  se_reasons :: "sentiment_reason list"

definition sentiment_state_for_score :: "int \<Rightarrow> SentimentState" where
  "sentiment_state_for_score score = (if score \<le> 30 then FEAR else if score \<le> 70 then NEUTRAL else GREED)"

definition market_sentiment ::
    "int \<Rightarrow> SentimentState \<Rightarrow> rat \<Rightarrow> sentiment_reason list \<Rightarrow> py_error + MarketSentiment" where
  "market_sentiment score state confidence reasons =
     (if 0 \<le> score \<and> score \<le> 100 \<and> 0 \<le> confidence \<and> confidence \<le> 1
         \<and> state = sentiment_state_for_score score
      then Inr \<lparr>se_score = score, se_state = state, se_confidence = confidence, se_reasons = reasons\<rparr>
      else Inl ValueError)"

section \<open>Providers\<close>

type_synonym evaluator = "MarketIndicatorSnapshot \<Rightarrow> py_error + IndicatorContribution option"

definition RSIProvider :: evaluator where
  "RSIProvider s =
     (case mi_rsi_14 s of
        None \<Rightarrow> Inr None
      | Some v \<Rightarrow> contribution ''rsi'' v (flt (9 / 10))
          ((if v \<le> 30 then ''RSI(14) is oversold at''
            else if v \<ge> 70 then ''RSI(14) is overbought at''
            else if v < 45 then ''RSI(14) shows weak momentum at''
            else if v > 55 then ''RSI(14) shows strong momentum at''
            else ''RSI(14) is neutral at''), [], [v]))"

definition EMATrendProvider :: evaluator where
  "EMATrendProvider s =
     (case mi_price s of
        None \<Rightarrow> Inr None
      | Some price \<Rightarrow>
          let available = [(label, x). (label, v) \<leftarrow> [(''EMA50'', mi_ema_50 s), (''EMA200'', mi_ema_200 s)],
                                       x \<leftarrow> (case v of None \<Rightarrow> [] | Some x \<Rightarrow> [x])];
              above_labels = [label. (label, x) \<leftarrow> available, price > x];
              below_labels = [label. (label, x) \<leftarrow> available, price < x];
              confidence = (if length available = 2 then flt (95 / 100) else flt (7 / 10))
          in if available = [] then Inr None
             else if length above_labels = length available
             then contribution ''ema_trend'' (if length available = 2 then 85 else 70) confidence
                    (''Price is above'', above_labels, [])
             else if length below_labels = length available
             then contribution ''ema_trend'' (if length available = 2 then 15 else 30) confidence
                    (''Price is below'', below_labels, [])
             else contribution ''ema_trend'' 50 confidence
                    (''Price is between EMA50 and EMA200, indicating a mixed trend'', [], []))"

definition MACDProvider :: evaluator where
  "MACDProvider s =
     (case mi_macd s of
        None \<Rightarrow> Inr None
      | Some v \<Rightarrow>
          let sc = max (max \<bar>ms_macd v\<bar> \<bar>ms_signal v\<bar>) (flt (1 / 10 ^ 12));
              strength = min (flt (\<bar>ms_histogram v\<bar> / sc)) 1;
              confidence = flt (flt (55 / 100) + flt (flt (4 / 10) * strength))
          in if ms_histogram v > 0
             then contribution ''macd'' (flt (70 + flt (20 * strength))) confidence
                    (''MACD histogram is positive, indicating bullish momentum'', [], [])
             else if ms_histogram v < 0
             then contribution ''macd'' (flt (30 - flt (20 * strength))) confidence
                    (''MACD histogram is negative, indicating bearish momentum'', [], [])
             else contribution ''macd'' 50 confidence
                    (''MACD is flat with no directional momentum'', [], []))"

definition VolatilityProvider :: evaluator where
  "VolatilityProvider s =
     (case (mi_atr_14 s, mi_price s) of
        (Some atr, Some price) \<Rightarrow>
          bind_res (flt_div atr price) (\<lambda>ratio.
            if ratio \<ge> flt (5 / 100) then contribution ''volatility'' 20 (flt (8 / 10)) (''High volatility: ATR'', [], [ratio])
            else if ratio \<ge> flt (3 / 100) then contribution ''volatility'' 35 (flt (8 / 10)) (''Elevated volatility: ATR'', [], [ratio])
            else if ratio \<ge> flt (1 / 100) then contribution ''volatility'' 50 (flt (8 / 10)) (''Volatility is normal: ATR'', [], [ratio])
            else contribution ''volatility'' 60 (flt (8 / 10)) (''Volatility is low: ATR'', [], [ratio]))
      | _ \<Rightarrow> Inr None)"

definition VolumeProvider :: evaluator where
  "VolumeProvider s =
     (case (mi_volume s, mi_volume_sma_20 s) of
        (Some volume, Some sma) \<Rightarrow>
          bind_res (flt_div volume sma) (\<lambda>ratio.
            case mi_price_change_pct s of
              None \<Rightarrow> contribution ''volume'' 50 (flt (4 / 10)) (''without price direction'', [], [ratio])
            | Some change \<Rightarrow>
                if \<bar>change\<bar> < flt (1 / 10 ^ 12)
                then contribution ''volume'' 50 (flt (4 / 10)) (''without price direction'', [], [ratio])
                else let direction = (if change > 0 then ''rising'' else ''falling'')
                     in if ratio \<ge> flt (3 / 2)
                        then contribution ''volume'' (if change > 0 then 80 else 20) (flt (9 / 10))
                               (''High volume confirms'', [direction], [ratio])
                        else if ratio \<le> flt (7 / 10)
                        then contribution ''volume'' (if change > 0 then 55 else 45) (flt (5 / 10))
                               (''Low volume weakens'', [direction], [ratio])
                        else contribution ''volume'' (if change > 0 then 65 else 35) (flt (65 / 100))
                               (''Normal volume accompanies'', [direction], [ratio]))
      | _ \<Rightarrow> Inr None)"

definition default_sentiment_providers :: "(string \<times> evaluator) list" where
  "default_sentiment_providers =
     [(''rsi'', RSIProvider), (''ema_trend'', EMATrendProvider), (''macd'', MACDProvider),
      (''volatility'', VolatilityProvider), (''volume'', VolumeProvider)]"

definition SentimentWeights :: "string \<rightharpoonup> rat" where
  "SentimentWeights = map_of
     [(''rsi'', 1), (''ema_trend'', 5 / 4), (''macd'', 1), (''volatility'', 3 / 4), (''volume'', 3 / 4)]"

section \<open>The service\<close>

text \<open>\<open>sum()\<close> of floats is compensated (Neumaier) from Python 3.12 on.\<close>

definition flt_sum_step :: "rat \<Rightarrow> rat \<times> rat \<Rightarrow> rat \<times> rat" where
  "flt_sum_step x = (\<lambda>(s, c).
     let t = flt (s + x)
     in (t, flt (c + (if \<bar>s\<bar> \<ge> \<bar>x\<bar> then flt (flt (s - t) + x) else flt (flt (x - t) + s)))))"

definition flt_sum :: "rat list \<Rightarrow> rat" where
  "flt_sum xs = (case fold flt_sum_step xs (0, 0) of (s, c) \<Rightarrow> flt (s + c))"

definition weight_of :: "(string \<rightharpoonup> rat) \<Rightarrow> string \<Rightarrow> rat" where
  "weight_of weights name = (case weights name of None \<Rightarrow> 1 | Some w \<Rightarrow> w)"

record tally =
  ta_score :: rat
  ta_weight :: rat
  ta_confidence :: rat
  ta_reasons :: "sentiment_reason list"

fun tally_providers ::
    "(string \<rightharpoonup> rat) \<Rightarrow> MarketIndicatorSnapshot \<Rightarrow> (string \<times> evaluator) list \<Rightarrow> tally \<Rightarrow> py_error + tally" where
  "tally_providers weights s [] t = Inr t"
| "tally_providers weights s ((name, evaluate) # ps) t =
     (let weight = weight_of weights name
      in if weight = 0 then tally_providers weights s ps t
         else bind_res (evaluate s) (\<lambda>c. case c of
           None \<Rightarrow> tally_providers weights s ps t
         | Some k \<Rightarrow>
             let effective_weight = flt (weight * ic_confidence k)
             in tally_providers weights s ps
                  \<lparr>ta_score = flt (ta_score t + flt (ic_score k * effective_weight)),
                   ta_weight = flt (ta_weight t + effective_weight),
                   ta_confidence = flt (ta_confidence t + flt (ic_confidence k * weight)),
                   ta_reasons = ta_reasons t @ [ic_reason k]\<rparr>))"

definition empty_tally :: tally where
  "empty_tally = \<lparr>ta_score = 0, ta_weight = 0, ta_confidence = 0, ta_reasons = []\<rparr>"

text \<open>\<open>round(x, 2)\<close>\<close>

definition round2 :: "rat \<Rightarrow> rat" where
  "round2 x = flt (of_int (round_half_even (x * 100)) / 100)"

definition classify_sentiment ::
    "(string \<times> evaluator) list \<Rightarrow> (string \<rightharpoonup> rat) \<Rightarrow> MarketIndicatorSnapshot \<Rightarrow> py_error + MarketSentiment" where
  "classify_sentiment providers weights s =
     (let configured_weight_total = flt_sum (map (\<lambda>(name, e). weight_of weights name) providers)
      in bind_res (tally_providers weights s providers empty_tally) (\<lambda>t.
           if ta_weight t = 0
           then market_sentiment 50 (sentiment_state_for_score 50) 0
                  [(''No sentiment indicators were available'', [], [])]
           else bind_res (flt_div (ta_score t) (ta_weight t)) (\<lambda>q.
                bind_res (flt_div (ta_confidence t) configured_weight_total) (\<lambda>confidence.
                  let score = round_half_even q
                  in market_sentiment score (sentiment_state_for_score score) (round2 confidence)
                       (ta_reasons t)))))"

section \<open>The provider interface\<close>

text \<open>
  What the service relies on: on a valid snapshot a provider answers without an exception, with
  nothing or with a contribution whose score and confidence are in range, the confidence positive.
\<close>

definition usable :: "py_error + IndicatorContribution option \<Rightarrow> bool" where
  "usable r =
     (case r of
        Inl e \<Rightarrow> False
      | Inr None \<Rightarrow> True
      | Inr (Some k) \<Rightarrow> 0 \<le> ic_score k \<and> ic_score k \<le> 100 \<and> 0 < ic_confidence k \<and> ic_confidence k \<le> 1)"

locale indicator_provider =
  fixes evaluate :: evaluator
  assumes usable: "snapshot_ok s \<Longrightarrow> usable (evaluate s)"

lemma usable_none [simp]: "usable (Inr None)"
  by (simp add: usable_def)

lemma usable_contribution [simp]:
  "0 \<le> sc \<Longrightarrow> sc \<le> 100 \<Longrightarrow> 0 < cf \<Longrightarrow> cf \<le> 1 \<Longrightarrow> usable (contribution n sc cf r)"
  by (simp add: usable_def contribution_def)

lemma usableE:
  assumes "usable r"
  obtains "r = Inr None"
  | k where "r = Inr (Some k)" "0 \<le> ic_score k" "ic_score k \<le> 100" "0 < ic_confidence k" "ic_confidence k \<le> 1"
  using assms by (auto simp: usable_def split: sum.splits option.splits)

lemma usable_if [intro]: "usable x \<Longrightarrow> usable y \<Longrightarrow> usable (if b then x else y)"
  by simp

lemma if_between:
  fixes x y :: rat
  shows "lo \<le> x \<Longrightarrow> lo \<le> y \<Longrightarrow> lo \<le> (if b then x else y)" "x \<le> hi \<Longrightarrow> y \<le> hi \<Longrightarrow> (if b then x else y) \<le> hi"
    "lo < x \<Longrightarrow> lo < y \<Longrightarrow> lo < (if b then x else y)"
  by simp_all

lemma flt_literal: "x \<le> 1 \<Longrightarrow> flt x \<le> 1"
  by (simp add: flt.le_fix)

interpretation rsi: indicator_provider RSIProvider
proof unfold_locales
  fix s assume "snapshot_ok s"
  then show "usable (RSIProvider s)"
    by (cases "mi_rsi_14 s") (simp_all add: RSIProvider_def snapshot_ok_def flt_literal)
qed

interpretation ema_trend: indicator_provider EMATrendProvider
proof unfold_locales
  fix s
  show "usable (EMATrendProvider s)"
  proof (cases "mi_price s")
    case (Some price)
    show ?thesis
      unfolding EMATrendProvider_def Some Let_def option.case
      by (intro usable_if usable_none usable_contribution if_between) (simp_all add: flt_literal)
  qed (simp add: EMATrendProvider_def)
qed

lemma flt_100: "flt 100 = 100"
  by simp

lemma macd_strength:
  defines "st h m g \<equiv> min (flt (\<bar>h\<bar> / max (max \<bar>m\<bar> \<bar>g\<bar>) (flt (1 / 10 ^ 12)))) 1"
  shows "0 \<le> st h m g" "st h m g \<le> 1"
proof -
  have "0 \<le> flt (1 / 10 ^ 12 :: rat)" by simp
  then have "0 \<le> max (max \<bar>m\<bar> \<bar>g\<bar>) (flt (1 / 10 ^ 12))" by (simp add: le_max_iff_disj)
  then have "0 \<le> \<bar>h\<bar> / max (max \<bar>m\<bar> \<bar>g\<bar>) (flt (1 / 10 ^ 12))" by simp
  then show "0 \<le> st h m g" "st h m g \<le> 1" unfolding st_def by simp_all
qed

lemma macd_scores:
  assumes "0 \<le> t" "t \<le> (1 :: rat)"
  shows "0 \<le> flt (70 + flt (20 * t))" "flt (70 + flt (20 * t)) \<le> 100"
    and "0 \<le> flt (30 - flt (20 * t))" "flt (30 - flt (20 * t)) \<le> 100"
    and "0 < flt (flt (55 / 100) + flt (flt (4 / 10) * t))" "flt (flt (55 / 100) + flt (flt (4 / 10) * t)) \<le> 1"
proof -
  have t20: "0 \<le> flt (20 * t)" "flt (20 * t) \<le> 20"
    using assms by (simp_all add: flt.le_fix)
  then have "0 \<le> 70 + flt (20 * t)" "0 \<le> 30 - flt (20 * t)" by linarith+
  then show "0 \<le> flt (70 + flt (20 * t))" "0 \<le> flt (30 - flt (20 * t))" by (simp_all only: flt.nonneg_iff)
  show "flt (70 + flt (20 * t)) \<le> 100" "flt (30 - flt (20 * t)) \<le> 100"
  proof -
    have "70 + flt (20 * t) \<le> 100" "30 - flt (20 * t) \<le> 100" using t20 by linarith+
    from this[THEN flt.le_fix[OF _ flt_100]]
    show "flt (70 + flt (20 * t)) \<le> 100" "flt (30 - flt (20 * t)) \<le> 100" by this
  qed
  have "flt (4 / 10) * t \<le> flt (4 / 10)" using assms by (simp add: mult_left_le)
  then have "flt (flt (4 / 10) * t) \<le> flt (4 / 10)" by (metis flt.mono flt.idem)
  moreover have "flt (55 / 100) + flt (4 / 10) \<le> 1" by code_simp
  ultimately have le: "flt (55 / 100) + flt (flt (4 / 10) * t) \<le> 1" by linarith
  show "0 < flt (flt (55 / 100) + flt (flt (4 / 10) * t))" using assms by (simp add: add_pos_nonneg)
  show "flt (flt (55 / 100) + flt (flt (4 / 10) * t)) \<le> 1" using le by (intro flt.le_fix) simp_all
qed

interpretation macd: indicator_provider MACDProvider
proof unfold_locales
  fix s
  show "usable (MACDProvider s)"
  proof (cases "mi_macd s")
    case (Some v)
    define st where "st = min (flt (\<bar>ms_histogram v\<bar> / max (max \<bar>ms_macd v\<bar> \<bar>ms_signal v\<bar>)
      (flt (1 / 10 ^ 12)))) 1"
    have "0 \<le> st" "st \<le> 1" unfolding st_def by (rule macd_strength)+
    note sc = macd_scores[OF this]
    show ?thesis
      unfolding MACDProvider_def Some Let_def option.case st_def[symmetric]
      by (intro usable_if usable_contribution) (simp_all only: sc)
  qed (simp add: MACDProvider_def)
qed

interpretation volatility: indicator_provider VolatilityProvider
proof unfold_locales
  fix s assume "snapshot_ok s"
  then show "usable (VolatilityProvider s)"
    by (cases "mi_atr_14 s"; cases "mi_price s")
       (simp_all add: VolatilityProvider_def snapshot_ok_def flt_literal)
qed

interpretation volume: indicator_provider VolumeProvider
proof unfold_locales
  fix s assume "snapshot_ok s"
  then show "usable (VolumeProvider s)"
    by (cases "mi_volume s"; cases "mi_volume_sma_20 s"; cases "mi_price_change_pct s")
       (simp_all add: VolumeProvider_def snapshot_ok_def flt_literal Let_def)
qed

section \<open>Aggregation\<close>

text \<open>
  One step of the tally with the rounding of every operation: a weighted mean of scores between \<open>lo\<close>
  and \<open>hi\<close> drifts out of that range by less than \<open>1 / 2 ^ 40\<close> per contribution.
\<close>

definition drift :: rat where
  "drift = 1 / 2 ^ 40"

definition mean_between :: "rat \<Rightarrow> rat \<Rightarrow> rat \<Rightarrow> tally \<Rightarrow> bool" where
  "mean_between lo hi \<delta> t \<longleftrightarrow> 0 \<le> ta_weight t \<and> 0 \<le> ta_score t \<and>
     (lo - \<delta>) * ta_weight t \<le> ta_score t \<and> ta_score t \<le> (hi + \<delta>) * ta_weight t"

lemma flt_steps:
  fixes a b :: rat
  assumes "0 \<le> a" "0 \<le> b"
  shows "flt (a + flt b) \<le> (a + b) * (1 + 1 / 2 ^ 53) ^ 2"
    and "(a + b) * (1 - 1 / 2 ^ 53) ^ 2 \<le> flt (a + flt b)"
proof -
  have b: "flt b \<le> b * (1 + 1 / 2 ^ 53)" "b * (1 - 1 / 2 ^ 53) \<le> flt b"
    using flt.upper[OF assms(2)] flt.lower[OF assms(2)] by simp_all
  have s: "0 \<le> a + flt b" using assms by simp
  have "a + flt b \<le> (a + b) * (1 + 1 / 2 ^ 53)"
    using b(1) assms(1) by (simp add: algebra_simps)
  with flt.upper[OF s] show "flt (a + flt b) \<le> (a + b) * (1 + 1 / 2 ^ 53) ^ 2"
    by (simp add: power2_eq_square mult.assoc[symmetric])
  have "(a + b) * (1 - 1 / 2 ^ 53) \<le> a + flt b"
    using b(2) assms(1) by (simp add: algebra_simps)
  then have "(a + b) * (1 - 1 / 2 ^ 53) * (1 - 1 / 2 ^ 53) \<le> (a + flt b) * (1 - 1 / 2 ^ 53)"
    by (rule mult_right_mono) simp
  with flt.lower[OF s] show "(a + b) * (1 - 1 / 2 ^ 53) ^ 2 \<le> flt (a + flt b)"
    by (simp add: power2_eq_square mult.assoc)
qed

lemma mean_between_step:
  assumes t: "mean_between lo hi \<delta> t" and \<delta>: "0 \<le> \<delta>" "\<delta> \<le> 1" and range: "0 \<le> lo" "hi \<le> 100"
    and sc: "lo \<le> sc" "sc \<le> hi" and w: "0 < ew"
    and t': "ta_score t' = flt (ta_score t + flt (sc * ew))" "ta_weight t' = flt (ta_weight t + ew)"
  shows "mean_between lo hi (\<delta> + drift) t'"
proof -
  let ?e = "1 / 2 ^ 53 :: rat"
  let ?u = "ta_weight t + ew" and ?v = "ta_score t + sc * ew"
  have nn: "0 \<le> ta_weight t" "0 \<le> ta_score t" "0 \<le> sc * ew" and u: "0 \<le> ?u"
    using t range sc w by (simp_all add: mean_between_def)
  note W = flt.lower[OF u] flt.upper[OF u]
  note S = flt_steps[OF nn(2,3)]
  have hi: "0 \<le> hi" using range sc by linarith
  have ew: "sc * ew \<le> (hi + \<delta>) * ew" "(lo - \<delta>) * ew \<le> sc * ew"
    using sc \<delta> w by (intro mult_right_mono; linarith)+
  have "?v \<le> (hi + \<delta>) * ?u" "(lo - \<delta>) * ?u \<le> ?v"
    using t ew by (auto simp: mean_between_def distrib_left intro: add_mono)
  note v = mult_right_mono[OF this(1) zero_le_power2, of "1 + ?e"] mult_right_mono[OF this(2) zero_le_power2, of "1 - ?e"]
  have "ta_score t' \<le> (hi + \<delta> + drift) * ta_weight t'"
  proof -
    have "(hi + \<delta>) * (1 + ?e) ^ 2 \<le> (hi + \<delta> + drift) * (1 - ?e)"
      using hi range \<delta> by (simp add: drift_def power2_eq_square algebra_simps)
    from mult_right_mono[OF this u] have "(hi + \<delta>) * ?u * (1 + ?e) ^ 2 \<le> (hi + \<delta> + drift) * (?u * (1 - ?e))"
      by (simp only: mult_ac)
    also have "\<dots> \<le> (hi + \<delta> + drift) * ta_weight t'"
      using W(1) hi \<delta> by (intro mult_left_mono) (simp_all add: t' drift_def)
    finally show ?thesis unfolding t'(1) by (rule order_trans[OF S(1) order_trans[OF v(1)]])
  qed
  moreover have "(lo - (\<delta> + drift)) * ta_weight t' \<le> ta_score t'"
  proof (cases "lo - (\<delta> + drift) \<le> 0")
    case True
    then show ?thesis using nn u by (simp add: t' mult_nonpos_nonneg order_trans[of _ 0])
  next
    case False
    then have "0 \<le> lo - \<delta>" "lo - \<delta> \<le> 100" using sc range \<delta> by (auto simp: drift_def)
    then have "(lo - \<delta>) * (3 * ?e - ?e ^ 2) \<le> 100 * (3 * ?e - ?e ^ 2)"
      by (intro mult_right_mono) (simp_all add: power2_eq_square)
    also have "\<dots> \<le> drift * (1 + ?e)" by (simp add: drift_def power2_eq_square)
    finally have "(lo - \<delta> - drift) * (1 + ?e) \<le> (lo - \<delta>) * (1 - ?e) ^ 2"
      by (simp only: power2_eq_square ring_distribs)
    from mult_right_mono[OF this u] have r: "(lo - \<delta> - drift) * (?u * (1 + ?e)) \<le> (lo - \<delta>) * ?u * (1 - ?e) ^ 2"
      by (simp only: mult_ac)
    have "(lo - \<delta> - drift) * ta_weight t' \<le> (lo - \<delta> - drift) * (?u * (1 + ?e))"
      using W(2) False by (intro mult_left_mono) (simp_all add: t')
    from order_trans[OF this order_trans[OF r order_trans[OF v(2) S(2)]]]
    show ?thesis unfolding t'(1) by (simp only: diff_diff_eq)
  qed
  ultimately show ?thesis using nn u by (simp add: mean_between_def t' add.assoc)
qed

text \<open>The contributions a classification is made of.\<close>

definition contributions ::
    "(string \<rightharpoonup> rat) \<Rightarrow> MarketIndicatorSnapshot \<Rightarrow> (string \<times> evaluator) list \<Rightarrow> IndicatorContribution list" where
  "contributions weights s ps =
     concat (map (\<lambda>(name, evaluate).
       if weight_of weights name = 0 then []
       else (case evaluate s of Inr (Some k) \<Rightarrow> [k] | _ \<Rightarrow> [])) ps)"

lemma contributions_simps [simp]:
  "contributions weights s [] = []"
  "contributions weights s ((name, evaluate) # ps) =
     (if weight_of weights name = 0 then [] else (case evaluate s of Inr (Some k) \<Rightarrow> [k] | _ \<Rightarrow> []))
     @ contributions weights s ps"
  by (simp_all add: contributions_def)

text \<open>The confidence the providers would reach if each were certain.\<close>

definition full_confidence :: "(string \<rightharpoonup> rat) \<Rightarrow> (string \<times> evaluator) list \<Rightarrow> rat \<Rightarrow> rat" where
  "full_confidence weights ps c = foldl (\<lambda>c (name, e). flt (c + weight_of weights name)) c ps"

lemma full_confidence_simps [simp]:
  "full_confidence weights [] c = c"
  "full_confidence weights ((name, e) # ps) c = full_confidence weights ps (flt (c + weight_of weights name))"
  by (simp_all add: full_confidence_def)

text \<open>The providers and weights for which the aggregation is proved.\<close>

locale sentiment_service =
  fixes providers :: "(string \<times> evaluator) list" and weights :: "string \<rightharpoonup> rat"
  assumes providers: "(name, e) \<in> set providers \<Longrightarrow> indicator_provider e"
    and weights_nonneg: "0 \<le> weight_of weights name"
    and weights_float: "flt (weight_of weights name) = weight_of weights name"
    and few: "length providers \<le> 2 ^ 20"
    and configured: "0 < flt_sum (map (\<lambda>(name, e). weight_of weights name) providers)"
    and covered: "full_confidence weights providers 0
                    \<le> flt_sum (map (\<lambda>(name, e). weight_of weights name) providers)"
begin

lemma tally_total:
  assumes "set ps \<subseteq> set providers" "snapshot_ok s"
    and "mean_between lo hi \<delta> t" "0 \<le> \<delta>" "\<delta> + of_nat (length ps) * drift \<le> 1" "0 \<le> lo" "hi \<le> 100"
    and "\<forall>k \<in> set (contributions weights s ps). lo \<le> ic_score k \<and> ic_score k \<le> hi"
    and "0 \<le> ta_confidence t" "ta_confidence t \<le> c" "flt c = c"
  shows "\<exists>t'. tally_providers weights s ps t = Inr t' \<and>
      mean_between lo hi (\<delta> + of_nat (length ps) * drift) t' \<and>
      0 \<le> ta_confidence t' \<and> ta_confidence t' \<le> full_confidence weights ps c \<and>
      ta_reasons t' = ta_reasons t @ map ic_reason (contributions weights s ps) \<and>
      (ta_weight t' = 0 \<longleftrightarrow> ta_weight t = 0 \<and> contributions weights s ps = [])"
  using assms
proof (induction ps arbitrary: t \<delta> c)
  case (Cons p ps)
  obtain name e where p: "p = (name, e)" by fastforce
  let ?w = "weight_of weights name"
  have "usable (e s)"
    using Cons.prems(1,2) providers[of name e] by (simp add: p indicator_provider_def)
  have drift: "0 \<le> drift" by (simp add: drift_def)
  have \<delta>: "\<delta> + drift + of_nat (length ps) * drift \<le> 1" "\<delta> \<le> 1"
  proof -
    have "of_nat (length (p # ps)) * drift = drift + of_nat (length ps) * drift" by (simp add: algebra_simps)
    moreover have "0 \<le> of_nat (length ps) * drift" using drift by simp
    ultimately show "\<delta> + drift + of_nat (length ps) * drift \<le> 1" "\<delta> \<le> 1"
      using Cons.prems(5) drift by linarith+
  qed
  have grow: "c \<le> flt (c + ?w)"
    using flt.mono[of c "c + ?w"] weights_nonneg Cons.prems(11) by simp
  have wider: "mean_between lo hi (\<delta> + drift) t"
    using Cons.prems(3) drift
    by (auto simp: mean_between_def algebra_simps intro: order_trans add_increasing2)
  have skip: ?case if "tally_providers weights s (p # ps) t = tally_providers weights s ps t"
      "contributions weights s (p # ps) = contributions weights s ps"
    using Cons.IH[OF _ Cons.prems(2) wider _ \<delta>(1) Cons.prems(6,7), of "flt (c + ?w)"]
      Cons.prems(1,4,8-11) grow drift that
    by (simp add: p algebra_simps)
  show ?case
  proof (cases "?w = 0")
    case True
    then show ?thesis by (intro skip) (simp_all add: p)
  next
    case False
    with weights_nonneg[of name] have w: "0 < ?w" by simp
    from \<open>usable (e s)\<close> show ?thesis
    proof (cases rule: usableE)
      case 1
      with False show ?thesis by (intro skip) (simp_all add: p Let_def)
    next
      case (2 k)
      let ?ew = "flt (?w * ic_confidence k)"
      let ?t = "\<lparr>ta_score = flt (ta_score t + flt (ic_score k * ?ew)), ta_weight = flt (ta_weight t + ?ew),
                 ta_confidence = flt (ta_confidence t + flt (ic_confidence k * ?w)),
                 ta_reasons = ta_reasons t @ [ic_reason k]\<rparr>"
      have k: "lo \<le> ic_score k" "ic_score k \<le> hi" using Cons.prems(8) False 2 by (simp_all add: p)
      have ew: "0 < ?ew" using w 2 by simp
      have mb: "mean_between lo hi (\<delta> + drift) ?t"
        by (rule mean_between_step[OF Cons.prems(3,4) \<delta>(2) Cons.prems(6,7) k ew]) simp_all
      have "flt (ic_confidence k * ?w) \<le> ?w"
        using 2 w weights_float[of name] by (intro flt.le_fix) (simp_all add: mult_left_le_one_le)
      then have cf: "ta_confidence ?t \<le> flt (c + ?w)" using Cons.prems(10) by (simp add: flt.mono add_mono)
      have cf0: "0 \<le> ta_confidence ?t" using Cons.prems(9) 2 w by simp
      have "0 < ta_weight t + ?ew" using Cons.prems(3) ew unfolding mean_between_def by linarith
      then have pos: "ta_weight ?t \<noteq> 0" by simp
      show ?thesis
        using Cons.IH[OF _ Cons.prems(2) mb _ \<delta>(1) Cons.prems(6,7) _ cf0 cf] Cons.prems(1,4,8) drift 2 False pos
        by (simp add: p Let_def algebra_simps)
    qed
  qed
qed simp

lemma contributions_range:
  assumes "snapshot_ok s" "k \<in> set (contributions weights s providers)"
  shows "0 \<le> ic_score k \<and> ic_score k \<le> 100"
proof -
  from assms(2) obtain name e where "(name, e) \<in> set providers" "e s = Inr (Some k)"
    by (auto simp: contributions_def split: if_splits sum.splits option.splits)
  with indicator_provider.usable[OF providers assms(1)] show ?thesis
    by (fastforce simp: usable_def)
qed

lemma mean_score:
  assumes "mean_between lo hi (of_nat (length providers) * drift) t" "ta_weight t \<noteq> 0" "0 \<le> lo" "hi \<le> 100" "lo \<le> hi"
  shows "lo - 3 / 4 \<le> of_int (round_half_even (flt (ta_score t / ta_weight t)))"
    and "of_int (round_half_even (flt (ta_score t / ta_weight t))) \<le> hi + 3 / 4"
proof -
  let ?q = "ta_score t / ta_weight t"
  have w: "0 < ta_weight t" using assms(1,2) by (simp add: mean_between_def)
  have "of_nat (length providers) * drift \<le> 2 ^ 20 * drift"
    using few by (intro mult_right_mono) (simp_all add: drift_def)
  then have d: "of_nat (length providers) * drift \<le> 1 / 16" by (simp add: drift_def)
  have "lo - of_nat (length providers) * drift \<le> ?q" "?q \<le> hi + of_nat (length providers) * drift"
    using assms(1) w by (simp_all add: mean_between_def pos_le_divide_eq pos_divide_le_eq)
  with d have q: "lo - 1 / 16 \<le> ?q" "?q \<le> hi + 1 / 16" by linarith+
  have "0 \<le> ?q" using assms(1) by (simp add: mean_between_def)
  then have "\<bar>flt ?q - ?q\<bar> \<le> 1 / 2 ^ 53 * ?q" using flt.error[of ?q] by simp
  also have "\<dots> \<le> 1 / 2 ^ 53 * 101" using q(2) assms(4) by (intro mult_left_mono) simp_all
  finally have "\<bar>flt ?q - ?q\<bar> \<le> 1 / 8" by simp
  then have near: "flt ?q - ?q \<le> 1 / 8" "?q - flt ?q \<le> 1 / 8" unfolding abs_le_iff by linarith+
  have round: "of_int (round_half_even (flt ?q)) - flt ?q \<le> 1 / 2"
      "flt ?q - of_int (round_half_even (flt ?q)) \<le> 1 / 2"
    using round_half_even_error[of "flt ?q"] unfolding abs_le_iff by linarith+
  show "lo - 3 / 4 \<le> of_int (round_half_even (flt ?q))" using near round q by linarith
  show "of_int (round_half_even (flt ?q)) \<le> hi + 3 / 4" using near round q by linarith
qed

lemma round2_unit:
  assumes "0 \<le> x" "x \<le> 1"
  shows "0 \<le> round2 x" "round2 x \<le> 1"
proof -
  have "0 \<le> round_half_even (x * 100)" "round_half_even (x * 100) \<le> 100"
    using round_half_even_mono[of 0 "x * 100"] round_half_even_mono[of "x * 100" 100] assms
      round_half_even_of_int[of 0] round_half_even_of_int[of 100] by simp_all
  then show "0 \<le> round2 x" "round2 x \<le> 1" by (simp_all add: round2_def flt.le_fix)
qed

lemma classify:
  assumes "snapshot_ok s" and "0 \<le> lo" "hi \<le> 100" "lo \<le> hi"
    and "\<forall>k \<in> set (contributions weights s providers). lo \<le> ic_score k \<and> ic_score k \<le> hi"
  obtains m where "classify_sentiment providers weights s = Inr m"
    "0 \<le> se_score m" "se_score m \<le> 100" "se_state m = sentiment_state_for_score (se_score m)"
    "0 \<le> se_confidence m" "se_confidence m \<le> 1"
    "contributions weights s providers = [] \<Longrightarrow> se_score m = 50 \<and> se_confidence m = 0"
    "contributions weights s providers \<noteq> [] \<Longrightarrow>
       lo - 3 / 4 \<le> of_int (se_score m) \<and> of_int (se_score m) \<le> hi + 3 / 4 \<and>
       se_reasons m = map ic_reason (contributions weights s providers)"
proof -
  let ?total = "flt_sum (map (\<lambda>(name, e). weight_of weights name) providers)"
  have start: "mean_between lo hi 0 empty_tally" by (simp add: mean_between_def empty_tally_def)
  have len: "0 + of_nat (length providers) * drift \<le> 1"
    using mult_right_mono[of "of_nat (length providers)" "2 ^ 20" drift] few by (simp add: drift_def)
  obtain t where run: "tally_providers weights s providers empty_tally = Inr t"
    and mb: "mean_between lo hi (of_nat (length providers) * drift) t"
    and c: "0 \<le> ta_confidence t" "ta_confidence t \<le> full_confidence weights providers 0"
    and r: "ta_reasons t = map ic_reason (contributions weights s providers)"
    and w: "ta_weight t = 0 \<longleftrightarrow> contributions weights s providers = []"
    using tally_total[OF subset_refl assms(1) start _ len assms(2,3,5), of 0]
    by (auto simp: empty_tally_def)
  show thesis
  proof (cases "ta_weight t = 0")
    case True
    with run w that show thesis
      by (simp add: classify_sentiment_def market_sentiment_def)
  next
    case False
    let ?score = "round_half_even (flt (ta_score t / ta_weight t))"
    let ?conf = "flt (ta_confidence t / ?total)"
    note sc = mean_score[OF mb False assms(2-4)]
    have "- 1 < (of_int ?score :: rat)" "(of_int ?score :: rat) < 101" using sc assms(2,3) by linarith+
    then have range: "0 \<le> ?score" "?score \<le> 100" by linarith+
    have "0 \<le> ?conf" "?conf \<le> 1"
      using c covered configured by (simp_all add: flt.le_fix)
    from round2_unit[OF this]
    have m: "classify_sentiment providers weights s = Inr \<lparr>se_score = ?score,
        se_state = sentiment_state_for_score ?score, se_confidence = round2 ?conf, se_reasons = ta_reasons t\<rparr>"
      using run False range configured by (simp add: classify_sentiment_def market_sentiment_def Let_def)
    show thesis
      by (rule that[OF m]) (use range round2_unit[OF \<open>0 \<le> ?conf\<close> \<open>?conf \<le> 1\<close>] sc r w False in simp_all)
  qed
qed

end

interpretation default_service: sentiment_service default_sentiment_providers SentimentWeights
proof unfold_locales
  show "(name, e) \<in> set default_sentiment_providers \<Longrightarrow> snapshot_ok s \<Longrightarrow> usable (e s)" for name e s
    using rsi.usable ema_trend.usable macd.usable volatility.usable volume.usable
    by (auto simp: default_sentiment_providers_def)
  show "0 \<le> weight_of SentimentWeights name" for name
    by (auto simp: weight_of_def SentimentWeights_def split: option.split dest!: map_of_SomeD)
  show "flt (weight_of SentimentWeights name) = weight_of SentimentWeights name" for name
    using flt_exactI[of "5 / 4" 2 5] flt_exactI[of "3 / 4" 2 3]
    by (auto simp: weight_of_def SentimentWeights_def split: option.split dest!: map_of_SomeD)
  show "length default_sentiment_providers \<le> 2 ^ 20" by (simp add: default_sentiment_providers_def)
  show "0 < flt_sum (map (\<lambda>(name, e). weight_of SentimentWeights name) default_sentiment_providers)"
    by code_simp
  show "full_confidence SentimentWeights default_sentiment_providers 0
      \<le> flt_sum (map (\<lambda>(name, e). weight_of SentimentWeights name) default_sentiment_providers)"
    by code_simp
qed

section \<open>Properties\<close>

text \<open>
  On every valid snapshot the sentiment service answers: the score is an integer from 0 to 100
  with the state that belongs to it, the confidence is in [0, 1]; without any usable indicator it is a
  neutral 50 of confidence 0, and otherwise the score stays, up to the rounding to an integer, between
  the lowest and the highest score that contributed, and every contribution's reason is listed in order.
\<close>

theorem sentiment_is_weighted_mean:
  assumes "snapshot_ok s" and "0 \<le> lo" "hi \<le> 100" "lo \<le> hi"
    and "\<forall>k \<in> set (contributions SentimentWeights s default_sentiment_providers).
           lo \<le> ic_score k \<and> ic_score k \<le> hi"
  shows "\<exists>m. classify_sentiment default_sentiment_providers SentimentWeights s = Inr m \<and>
    0 \<le> se_score m \<and> se_score m \<le> 100 \<and> se_state m = sentiment_state_for_score (se_score m) \<and>
    0 \<le> se_confidence m \<and> se_confidence m \<le> 1 \<and>
    (if contributions SentimentWeights s default_sentiment_providers = []
     then se_score m = 50 \<and> se_confidence m = 0
     else lo - 3 / 4 \<le> of_int (se_score m) \<and> of_int (se_score m) \<le> hi + 3 / 4 \<and>
          se_reasons m = map ic_reason (contributions SentimentWeights s default_sentiment_providers))"
  by (rule default_service.classify[OF assms]) auto

text \<open>An oversold candle below both averages: the two indicators agree on fear.\<close>

definition sample_snapshot :: MarketIndicatorSnapshot where
  "sample_snapshot = \<lparr>mi_price = Some 90, mi_price_change_pct = None, mi_rsi_14 = Some 20,
     mi_ema_50 = Some 95, mi_ema_200 = Some 100, mi_macd = None, mi_atr_14 = None,
     mi_volume = None, mi_volume_sma_20 = None\<rparr>"

theorem sentiment_is_weighted_mean_witness:
  "\<exists>m. classify_sentiment default_sentiment_providers SentimentWeights sample_snapshot = Inr m \<and>
     se_state m = FEAR \<and> length (se_reasons m) = 2"
proof -
  have c: "map ic_score (contributions SentimentWeights sample_snapshot default_sentiment_providers) = [20, 15]"
    by code_simp
  then have ne: "contributions SentimentWeights sample_snapshot default_sentiment_providers \<noteq> []"
    and two: "length (contributions SentimentWeights sample_snapshot default_sentiment_providers) = 2"
    by (auto dest: map_eq_imp_length_eq[of _ _ id, simplified] arg_cong[of _ _ length])
  have "\<forall>k \<in> set (contributions SentimentWeights sample_snapshot default_sentiment_providers).
      ic_score k \<in> {20, 15}"
    using arg_cong[OF c, of set] by auto
  then have "\<forall>k \<in> set (contributions SentimentWeights sample_snapshot default_sentiment_providers).
      15 \<le> ic_score k \<and> ic_score k \<le> 20" by fastforce
  from sentiment_is_weighted_mean[OF _ _ _ _ this] obtain m where
    "classify_sentiment default_sentiment_providers SentimentWeights sample_snapshot = Inr m"
    "se_state m = sentiment_state_for_score (se_score m)" "(of_int (se_score m) :: rat) \<le> 20 + 3 / 4"
    "length (se_reasons m) = 2"
    using ne two by (auto simp: snapshot_ok_def sample_snapshot_def)
  moreover from this have "se_score m \<le> 20" by linarith
  ultimately show ?thesis by (auto simp: sentiment_state_for_score_def)
qed

end
