(* ===== verification/Market_Context.thy ===== *)
theory Market_Context
  imports Sentiment
begin

text \<open>
  The deterministic half of \<open>llm_service\<close>: the wire model of an analysis request, the facts
  \<open>ContextBuilder\<close> derives from it, the regime classifiers of \<open>strategies/\<close> and the rubric of
  \<open>scoring/trade_score.py\<close>.  Prices and indicators are floats; every float operation rounds
  once with \<open>flt\<close>.  Explanatory texts keep the values they are formatted from.
\<close>

section \<open>The request\<close>

record Candle =
  ca_t :: string
  ca_o :: rat
  ca_h :: rat
  ca_l :: rat
  ca_c :: rat
  ca_v :: rat

record MACD =
  macd_macd :: rat
  macd_signal :: rat
  macd_histogram :: rat

record Indicators =
  in_rsi_14 :: rat
  in_ema_50 :: rat
  in_ema_200 :: rat
  in_macd :: MACD
  in_atr_14 :: rat
  in_volume_sma_20 :: rat

record PositionContext =
  pc_has_open_position :: bool
  pc_unrealized_pnl_pct :: "rat option"

text \<open>The wire form of an override has the fields of the stored overrides document.\<close>

type_synonym ProviderOverride = llm_overrides

record AnalyzeRequest =
  rq_symbol :: string
  rq_timeframe :: string
  rq_candle_close_time :: string
  rq_ohlcv :: "Candle list"
  rq_indicators :: Indicators
  rq_sentiment :: "MarketSentiment option"
  rq_position_context :: PositionContext
  rq_provider_override :: "ProviderOverride option"

section \<open>Derived facts\<close>

record TrendMetrics =
  tm_price_above_ema50 :: bool
  tm_price_above_ema200 :: bool
  tm_ema50_above_ema200 :: bool
  tm_ema_gap_pct :: rat

datatype RsiZone = Oversold | Bearish_neutral | Bullish_neutral | Overbought

record MomentumMetrics =
  mm_macd_bullish :: bool
  mm_macd_bearish :: bool
  mm_histogram_atr_ratio :: rat
  mm_rsi_zone :: RsiZone

datatype entry_confirmation =
    Price_above_ema50_and_ema200 | Ema50_above_ema200 | Bullish_macd | Rsi_45_to_70
  | Higher_highs_and_lows | Rising_price_on_high_volume

datatype exit_confirmation =
    Price_below_ema50_and_ema200 | Ema50_below_ema200 | Bearish_macd | Rsi_below_45
  | Lower_highs_and_lows | Falling_price_on_high_volume

record MarketContext =
  mc_request :: AnalyzeRequest
  mc_trend :: TrendMetrics
  mc_momentum :: MomentumMetrics
  mc_atr_pct :: rat                \<comment> \<open>\<open>VolatilityMetrics\<close>\<close>
  mc_latest_above_sma20 :: bool    \<comment> \<open>\<open>VolumeMetrics\<close>\<close>
  mc_entry_confirmations :: "entry_confirmation list"
  mc_exit_confirmations :: "exit_confirmation list"

definition safe_ratio :: "rat \<Rightarrow> rat \<Rightarrow> rat" where
  "safe_ratio numerator denominator = (if denominator = 0 then 0 else flt (numerator / denominator))"

definition rsi_zone :: "rat \<Rightarrow> RsiZone" where
  "rsi_zone rsi =
     (if rsi < 30 then Oversold
      else if rsi > 70 then Overbought
      else if rsi \<ge> 50 then Bullish_neutral else Bearish_neutral)"

definition latest :: "Candle list \<Rightarrow> Candle option" where
  "latest candles = (if candles = [] then None else Some (last candles))"

definition trend_metrics :: "Candle option \<Rightarrow> Indicators \<Rightarrow> TrendMetrics" where
  "trend_metrics lt ind =
     \<lparr>tm_price_above_ema50 = (case lt of None \<Rightarrow> False | Some k \<Rightarrow> ca_c k > in_ema_50 ind),
      tm_price_above_ema200 = (case lt of None \<Rightarrow> False | Some k \<Rightarrow> ca_c k > in_ema_200 ind),
      tm_ema50_above_ema200 = (in_ema_50 ind > in_ema_200 ind),
      tm_ema_gap_pct = safe_ratio (flt (in_ema_50 ind - in_ema_200 ind)) (in_ema_200 ind)\<rparr>"

definition momentum_metrics :: "Indicators \<Rightarrow> MomentumMetrics" where
  "momentum_metrics ind =
     (let m = in_macd ind
      in \<lparr>mm_macd_bullish = (macd_histogram m > 0 \<and> macd_macd m > macd_signal m),
          mm_macd_bearish = (macd_histogram m < 0 \<and> macd_macd m < macd_signal m),
          mm_histogram_atr_ratio = safe_ratio \<bar>macd_histogram m\<bar> (in_atr_14 ind),
          mm_rsi_zone = rsi_zone (in_rsi_14 ind)\<rparr>)"

definition volatility_metrics :: "Candle option \<Rightarrow> Indicators \<Rightarrow> rat" where
  "volatility_metrics lt ind = safe_ratio (in_atr_14 ind) (case lt of None \<Rightarrow> 0 | Some k \<Rightarrow> ca_c k)"

definition volume_metrics :: "Candle option \<Rightarrow> Indicators \<Rightarrow> bool" where
  "volume_metrics lt ind = (case lt of None \<Rightarrow> False | Some k \<Rightarrow> ca_v k > in_volume_sma_20 ind)"

text \<open>\<open>all(r(left, right) for left, right in zip(xs, xs[1:]))\<close>\<close>

fun stepwise :: "('a \<Rightarrow> 'a \<Rightarrow> bool) \<Rightarrow> 'a list \<Rightarrow> bool" where
  "stepwise r (x # y # zs) = (r x y \<and> stepwise r (y # zs))"
| "stepwise r zs = True"

definition last_n :: "nat \<Rightarrow> 'a list \<Rightarrow> 'a list" where
  "last_n n xs = drop (length xs - n) xs"

definition entry_confirmations :: "Candle list \<Rightarrow> Indicators \<Rightarrow> entry_confirmation list" where
  "entry_confirmations candles ind =
     (if candles = [] then []
      else
        let lt = last candles; m = in_macd ind; recent = last_n 3 candles
        in [k. (k, holds) \<leftarrow>
              [(Price_above_ema50_and_ema200, ca_c lt > in_ema_50 ind \<and> ca_c lt > in_ema_200 ind),
               (Ema50_above_ema200, in_ema_50 ind > in_ema_200 ind),
               (Bullish_macd, macd_histogram m > 0 \<and> macd_macd m > macd_signal m),
               (Rsi_45_to_70, 45 \<le> in_rsi_14 ind \<and> in_rsi_14 ind < 70),
               (Higher_highs_and_lows, length candles \<ge> 3 \<and>
                  stepwise (\<lambda>a b. ca_h a < ca_h b) recent \<and> stepwise (\<lambda>a b. ca_l a < ca_l b) recent),
               (Rising_price_on_high_volume, length candles \<ge> 2 \<and>
                  ca_c lt > ca_c (last (butlast candles)) \<and> ca_v lt > in_volume_sma_20 ind)], holds])"

definition exit_confirmations :: "Candle list \<Rightarrow> Indicators \<Rightarrow> exit_confirmation list" where
  "exit_confirmations candles ind =
     (if candles = [] then []
      else
        let lt = last candles; m = in_macd ind; recent = last_n 3 candles
        in [k. (k, holds) \<leftarrow>
              [(Price_below_ema50_and_ema200, ca_c lt < in_ema_50 ind \<and> ca_c lt < in_ema_200 ind),
               (Ema50_below_ema200, in_ema_50 ind < in_ema_200 ind),
               (Bearish_macd, macd_histogram m < 0 \<and> macd_macd m < macd_signal m),
               (Rsi_below_45, in_rsi_14 ind < 45),
               (Lower_highs_and_lows, length candles \<ge> 3 \<and>
                  stepwise (\<lambda>a b. ca_h a > ca_h b) recent \<and> stepwise (\<lambda>a b. ca_l a > ca_l b) recent),
               (Falling_price_on_high_volume, length candles \<ge> 2 \<and>
                  ca_c lt < ca_c (last (butlast candles)) \<and> ca_v lt > in_volume_sma_20 ind)], holds])"

definition build_context :: "AnalyzeRequest \<Rightarrow> MarketContext" where
  "build_context request =
     (let ind = rq_indicators request; candles = rq_ohlcv request; lt = latest candles
      in \<lparr>mc_request = request,
          mc_trend = trend_metrics lt ind,
          mc_momentum = momentum_metrics ind,
          mc_atr_pct = volatility_metrics lt ind,
          mc_latest_above_sma20 = volume_metrics lt ind,
          mc_entry_confirmations = entry_confirmations candles ind,
          mc_exit_confirmations = exit_confirmations candles ind\<rparr>)"

section \<open>Regimes\<close>

datatype StrategyName = TREND_FOLLOWING | TREND_PULLBACK | MOMENTUM_CONTINUATION | MEAN_REVERSION

datatype VolatilityRegime = HIGH_VOLATILITY | NORMAL_VOLATILITY | LOW_VOLATILITY

datatype direction = Uptrend | Downtrend | Bullish | Bearish | Mixed

datatype strategy_reason =
    PullbackReason rat direction
  | TrendReason rat direction
  | MomentumReason rat direction
  | RangingReason rat

record SelectedStrategy =
  st_strategy :: StrategyName
  st_possible_alternatives :: "StrategyName list"
  st_reasoning :: strategy_reason

definition TREND_GAP_THRESHOLD_PCT :: rat where
  "TREND_GAP_THRESHOLD_PCT = flt (15 / 1000)"

definition MOMENTUM_BURST_RATIO :: rat where
  "MOMENTUM_BURST_RATIO = flt (15 / 100)"

definition ranked_strategies :: "MarketContext \<Rightarrow> (StrategyName \<times> strategy_reason) list" where
  "ranked_strategies context =
     (let trend = mc_trend context; momentum = mc_momentum context; gap = tm_ema_gap_pct trend;
          is_trending = (\<bar>gap\<bar> \<ge> TREND_GAP_THRESHOLD_PCT);
          is_uptrend = (gap > 0);
          aligned_with_trend =
            (if is_uptrend then tm_price_above_ema50 trend \<and> tm_price_above_ema200 trend
             else \<not> tm_price_above_ema50 trend \<and> \<not> tm_price_above_ema200 trend);
          is_pullback = (is_trending \<and> \<not> aligned_with_trend);
          is_momentum_burst = (mm_histogram_atr_ratio momentum \<ge> MOMENTUM_BURST_RATIO
                               \<and> mc_latest_above_sma20 context);
          direction = (if is_uptrend then Uptrend else Downtrend);
          ranked =
            (if is_pullback then [(TREND_PULLBACK, PullbackReason gap direction)]
             else if is_trending then [(TREND_FOLLOWING, TrendReason gap direction)]
             else [])
            @ (if is_momentum_burst
               then [(MOMENTUM_CONTINUATION, MomentumReason (mm_histogram_atr_ratio momentum)
                       (if mm_macd_bullish momentum then Bullish
                        else if mm_macd_bearish momentum then Bearish else Mixed))]
               else [])
      in if ranked = [] then [(MEAN_REVERSION, RangingReason gap)] else ranked)"

definition select_strategy :: "MarketContext \<Rightarrow> SelectedStrategy" where
  "select_strategy context =
     (let ranked = ranked_strategies context
      in \<lparr>st_strategy = fst (hd ranked), st_possible_alternatives = map fst (tl ranked),
          st_reasoning = snd (hd ranked)\<rparr>)"

lemma ranked_strategies_nonempty: "ranked_strategies context \<noteq> []"
  by (simp add: ranked_strategies_def Let_def)

definition classify_volatility :: "MarketContext \<Rightarrow> VolatilityRegime" where
  "classify_volatility context =
     (if mc_atr_pct context < flt (5 / 1000) then LOW_VOLATILITY
      else if mc_atr_pct context > flt (2 / 100) then HIGH_VOLATILITY
      else NORMAL_VOLATILITY)"

section \<open>The trade score\<close>

definition score_clamp :: "rat \<Rightarrow> rat \<Rightarrow> rat \<Rightarrow> rat" where
  "score_clamp v low high = max low (min v high)"

record TradeScoreResult =
  ts_total :: int
  ts_trend :: int
  ts_momentum :: int
  ts_volume :: int
  ts_regime :: int
  ts_risk_reward :: int
  ts_volatility :: int
  ts_assumed_reward_pct :: rat
  ts_assumed_reward_multiple :: rat

definition score_trend :: "TrendMetrics \<Rightarrow> int" where
  "score_trend trend =
     (let is_uptrend = tm_ema_gap_pct trend > 0
      in (if is_uptrend \<and> tm_price_above_ema50 trend then 10 else 0)
         + (if is_uptrend \<and> tm_price_above_ema200 trend \<and> tm_ema50_above_ema200 trend then 10 else 0)
         + (if is_uptrend
            then round_half_even (flt (score_clamp (flt (tm_ema_gap_pct trend / flt (3 / 100))) 0 1 * 5))
            else 0))"

definition score_momentum :: "MomentumMetrics \<Rightarrow> int" where
  "score_momentum momentum =
     (if mm_macd_bearish momentum then 0
      else (if mm_macd_bullish momentum then 12 else 12 div 2)
           + round_half_even (flt (score_clamp
                (flt (mm_histogram_atr_ratio momentum / MOMENTUM_BURST_RATIO)) 0 1 * 8)))"

definition score_volume :: "bool \<Rightarrow> int" where
  "score_volume above_sma = (if above_sma then 15 else 0)"

fun score_regime :: "StrategyName \<Rightarrow> int" where
  "score_regime TREND_PULLBACK = 20"
| "score_regime MOMENTUM_CONTINUATION = 16"
| "score_regime MEAN_REVERSION = 10"
| "score_regime TREND_FOLLOWING = 4"

definition assumed_stop_distance_pct :: "rat \<Rightarrow> rat" where
  "assumed_stop_distance_pct atr_pct = score_clamp (flt (atr_pct * 2)) (flt (15 / 1000)) (flt (8 / 100))"

definition score_risk_reward :: "rat \<Rightarrow> rat \<Rightarrow> int \<times> rat" where
  "score_risk_reward atr_pct assumed_reward_multiple =
     (let stop_distance_pct = assumed_stop_distance_pct atr_pct;
          band = flt (flt (8 / 100) - flt (15 / 1000));
          tightness_ratio = flt (1 - score_clamp (flt (flt (stop_distance_pct - flt (15 / 1000)) / band)) 0 1);
          score = 5 + round_half_even (flt (tightness_ratio * 10))
      in (score, flt (stop_distance_pct * assumed_reward_multiple)))"

fun score_volatility :: "VolatilityRegime \<Rightarrow> int" where
  "score_volatility NORMAL_VOLATILITY = 5"
| "score_volatility LOW_VOLATILITY = 3"
| "score_volatility HIGH_VOLATILITY = 1"

definition trade_score ::
    "rat \<Rightarrow> MarketContext \<Rightarrow> SelectedStrategy \<Rightarrow> VolatilityRegime \<Rightarrow> TradeScoreResult" where
  "trade_score assumed_reward_multiple context strategy regime =
     (let (risk_reward, reward_pct) = score_risk_reward (mc_atr_pct context) assumed_reward_multiple;
          t = score_trend (mc_trend context);
          m = score_momentum (mc_momentum context);
          v = score_volume (mc_latest_above_sma20 context);
          r = score_regime (st_strategy strategy);
          vol = score_volatility regime
      in \<lparr>ts_total = t + m + v + r + risk_reward + vol, ts_trend = t, ts_momentum = m, ts_volume = v,
          ts_regime = r, ts_risk_reward = risk_reward, ts_volatility = vol,
          ts_assumed_reward_pct = reward_pct, ts_assumed_reward_multiple = assumed_reward_multiple\<rparr>)"

lemma score_clamp_unit: "0 \<le> score_clamp v 0 1 \<and> score_clamp v 0 1 \<le> 1"
  by (simp add: score_clamp_def)

text \<open>Points awarded in proportion to a clamped ratio.\<close>

lemma points_bounds:
  assumes "0 \<le> r" "r \<le> 1" "n \<le> 1000"
  shows "0 \<le> round_half_even (flt (r * of_nat n)) \<and> round_half_even (flt (r * of_nat n)) \<le> int n"
proof
  have "0 \<le> flt (r * of_nat n)" using assms by (intro flt.nonneg) simp
  from round_half_even_mono[OF this] round_half_even_of_int[of 0]
  show "0 \<le> round_half_even (flt (r * of_nat n))" by simp
  have "r * of_nat n \<le> of_nat n" using assms by (simp add: mult_left_le_one_le)
  moreover have "flt (of_nat n) = of_nat n" by (rule flt.of_nat_small) (use assms(3) in simp)
  ultimately have "flt (r * of_nat n) \<le> of_int (int n)" using flt.le_fix by simp
  from round_half_even_mono[OF this] show "round_half_even (flt (r * of_nat n)) \<le> int n"
    unfolding round_half_even_of_int .
qed

lemma score_trend_bounds: "0 \<le> score_trend t \<and> score_trend t \<le> 25"
  using points_bounds[of "score_clamp (flt (tm_ema_gap_pct t / flt (3 / 100))) 0 1" 5]
    score_clamp_unit[of "flt (tm_ema_gap_pct t / flt (3 / 100))"]
  by (simp add: score_trend_def Let_def)

lemma score_momentum_bounds: "0 \<le> score_momentum m \<and> score_momentum m \<le> 20"
  using points_bounds[of "score_clamp (flt (mm_histogram_atr_ratio m / MOMENTUM_BURST_RATIO)) 0 1" 8]
    score_clamp_unit[of "flt (mm_histogram_atr_ratio m / MOMENTUM_BURST_RATIO)"]
  by (simp add: score_momentum_def)

lemma score_risk_reward_bounds:
  "5 \<le> fst (score_risk_reward a k) \<and> fst (score_risk_reward a k) \<le> 15"
proof -
  let ?c = "score_clamp (flt (flt (assumed_stop_distance_pct a - flt (15 / 1000))
              / flt (flt (8 / 100) - flt (15 / 1000)))) 0 1"
  have "0 \<le> 1 - ?c" "1 - ?c \<le> 1" using score_clamp_unit by auto
  then have "0 \<le> flt (1 - ?c)" "flt (1 - ?c) \<le> 1" using flt.unit by blast+
  from points_bounds[OF this, of 10] show ?thesis
    by (simp add: score_risk_reward_def Let_def)
qed

lemma score_tables_bounds: "4 \<le> score_regime s \<and> score_regime s \<le> 20" "1 \<le> score_volatility v \<and> score_volatility v \<le> 5"
  by (cases s; simp) (cases v; simp)

text \<open>
  The trade score is the sum of its six components and lies between 10 and 100 whatever the market
  data, each component inside the range its rubric gives it; so the score always falls into one of the
  documented score bands of the expectancy statistics.
\<close>

theorem trade_score_bounds:
  shows "let r = trade_score k context strategy regime in
    ts_total r = ts_trend r + ts_momentum r + ts_volume r + ts_regime r + ts_risk_reward r + ts_volatility r \<and>
    ts_trend r \<in> {0..25} \<and> ts_momentum r \<in> {0..20} \<and> ts_volume r \<in> {0, 15} \<and>
    ts_regime r \<in> {4, 10, 16, 20} \<and> ts_risk_reward r \<in> {5..15} \<and> ts_volatility r \<in> {1, 3, 5} \<and>
    10 \<le> ts_total r \<and> ts_total r \<le> 100"
proof -
  have tables: "score_regime (st_strategy strategy) \<in> {4, 10, 16, 20}" "score_volatility regime \<in> {1, 3, 5}"
    by (cases "st_strategy strategy"; simp) (cases regime; simp)
  show ?thesis
    using score_trend_bounds[of "mc_trend context"] score_momentum_bounds[of "mc_momentum context"]
      score_risk_reward_bounds[of "mc_atr_pct context" k] tables
    by (auto simp: trade_score_def Let_def score_volume_def split: prod.split)
qed

end
