(* ===== verification/Indicators.thy ===== *)
theory Indicators
  imports Market_Context
begin

text \<open>
  \<open>scheduler/app/indicators.py\<close>.  A pandas series of floats is a list of optional numbers, \<open>None\<close>
  being NaN; arithmetic on series is elementwise, rounds once and propagates NaN.  The two pandas
  operations that are algorithms of their own, the exponentially weighted mean and the rolling mean,
  are parameters.
\<close>

section \<open>Series\<close>

type_synonym series = "rat option list"

record pandas =
  pd_ewm :: "rat \<Rightarrow> series \<Rightarrow> series"            \<comment> \<open>\<open>.ewm(alpha, adjust=False).mean()\<close>\<close>
  pd_rolling_mean :: "nat \<Rightarrow> series \<Rightarrow> series"    \<comment> \<open>\<open>.rolling(window).mean()\<close>\<close>

definition lift2 :: "(rat \<Rightarrow> rat \<Rightarrow> rat) \<Rightarrow> series \<Rightarrow> series \<Rightarrow> series" where
  "lift2 f xs ys =
     map2 (\<lambda>x y. case (x, y) of (Some a, Some b) \<Rightarrow> Some (f a b) | _ \<Rightarrow> None) xs ys"

definition lift1 :: "(rat \<Rightarrow> rat) \<Rightarrow> series \<Rightarrow> series" where
  "lift1 f xs = map (map_option f) xs"

definition series_sub :: "series \<Rightarrow> series \<Rightarrow> series" where
  "series_sub = lift2 (\<lambda>a b. flt (a - b))"

definition series_div :: "series \<Rightarrow> series \<Rightarrow> series" where
  "series_div = lift2 (\<lambda>a b. flt (a / b))"

definition shift1 :: "series \<Rightarrow> series" where
  "shift1 xs = (case xs of [] \<Rightarrow> [] | _ \<Rightarrow> None # butlast xs)"

definition diff :: "series \<Rightarrow> series" where
  "diff xs = series_sub xs (shift1 xs)"

text \<open>\<open>.replace(0, nan)\<close>, \<open>.fillna(v)\<close>, and the row maximum of a frame, which skips NaN.\<close>

definition zero_to_nan :: "series \<Rightarrow> series" where
  "zero_to_nan xs = map (\<lambda>x. if x = Some 0 then None else x) xs"

definition fillna :: "rat \<Rightarrow> series \<Rightarrow> series" where
  "fillna v xs = map (\<lambda>x. Some (case x of None \<Rightarrow> v | Some y \<Rightarrow> y)) xs"

definition nan_max :: "rat option \<Rightarrow> rat option \<Rightarrow> rat option" where
  "nan_max x y =
     (case (x, y) of (Some a, Some b) \<Rightarrow> Some (max a b) | (None, b) \<Rightarrow> b | (a, None) \<Rightarrow> a)"

definition row_max :: "series \<Rightarrow> series \<Rightarrow> series \<Rightarrow> series" where
  "row_max xs ys zs = map2 nan_max xs (map2 nan_max ys zs)"

section \<open>Indicators\<close>

text \<open>\<open>span\<close> is \<open>alpha = 2 / (span + 1)\<close>.\<close>

definition ema :: "pandas \<Rightarrow> series \<Rightarrow> nat \<Rightarrow> series" where
  "ema pd xs period = pd_ewm pd (flt (2 / of_nat (period + 1))) xs"

definition rsi_gain :: "series \<Rightarrow> series" where
  "rsi_gain delta = lift1 (\<lambda>x. max x 0) delta"

definition rsi_loss :: "series \<Rightarrow> series" where
  "rsi_loss delta = lift1 (\<lambda>x. - min x 0) delta"

definition rsi_result :: "series \<Rightarrow> series \<Rightarrow> series" where
  "rsi_result avg_gain avg_loss =
     (let rs = series_div avg_gain (zero_to_nan avg_loss);
          result = lift1 (\<lambda>x. flt (100 - flt (100 / flt (1 + x)))) rs
      in fillna 100 result)"

definition rsi :: "pandas \<Rightarrow> series \<Rightarrow> nat \<Rightarrow> series" where
  "rsi pd xs period =
     (let delta = diff xs; alpha = flt (1 / of_nat period)
      in rsi_result (pd_ewm pd alpha (rsi_gain delta)) (pd_ewm pd alpha (rsi_loss delta)))"

definition macd :: "pandas \<Rightarrow> series \<Rightarrow> series \<times> series \<times> series" where
  "macd pd xs =
     (let macd_line = series_sub (ema pd xs 12) (ema pd xs 26);
          signal_line = ema pd macd_line 9;
          histogram = series_sub macd_line signal_line
      in (macd_line, signal_line, histogram))"

definition true_range :: "series \<Rightarrow> series \<Rightarrow> series \<Rightarrow> series" where
  "true_range high low close =
     (let prev_close = shift1 close
      in row_max (series_sub high low)
           (lift1 abs (series_sub high prev_close))
           (lift1 abs (series_sub low prev_close)))"

definition atr :: "pandas \<Rightarrow> series \<Rightarrow> series \<Rightarrow> series \<Rightarrow> nat \<Rightarrow> series" where
  "atr pd high low close period = pd_ewm pd (flt (1 / of_nat period)) (true_range high low close)"

record ohlcv =
  oc_t :: int        \<comment> \<open>open time in milliseconds\<close>
  oc_o :: rat
  oc_h :: rat
  oc_l :: rat
  oc_c :: rat
  oc_v :: rat

text \<open>The snapshot of the last candle; \<open>None\<close> when one of the numbers is NaN.\<close>

definition compute_indicators :: "pandas \<Rightarrow> ohlcv list \<Rightarrow> Indicators option" where
  "compute_indicators pd candles =
     (let close = map (Some \<circ> oc_c) candles;
          high = map (Some \<circ> oc_h) candles;
          low = map (Some \<circ> oc_l) candles
      in case macd pd close of (macd_line, signal_line, histogram) \<Rightarrow>
         (case (last (rsi pd close 14), last (ema pd close 50), last (ema pd close 200),
                last macd_line, last signal_line, last histogram,
                last (atr pd high low close 14),
                last (pd_rolling_mean pd 20 (map (Some \<circ> oc_v) candles))) of
            (Some r, Some e50, Some e200, Some m, Some sg, Some hi, Some a, Some v) \<Rightarrow>
              Some \<lparr>in_rsi_14 = r, in_ema_50 = e50, in_ema_200 = e200,
                    in_macd = \<lparr>macd_macd = m, macd_signal = sg, macd_histogram = hi\<rparr>,
                    in_atr_14 = a, in_volume_sma_20 = v\<rparr>
          | _ \<Rightarrow> None))"

section \<open>What the parameters promise\<close>

text \<open>
  The documented behaviour of the two means: they keep the length, the mean of numbers that are all
  negative or zero, all positive or zero, or all positive is so too; an exponentially weighted mean is a
  number once a number has been seen, a rolling mean once the window is full of numbers.
\<close>

definition all_num :: "(rat \<Rightarrow> bool) \<Rightarrow> series \<Rightarrow> bool" where
  "all_num P xs \<longleftrightarrow> (\<forall>x. Some x \<in> set xs \<longrightarrow> P x)"

definition averages :: "(series \<Rightarrow> series) \<Rightarrow> bool" where
  "averages f \<longleftrightarrow>
     (\<forall>xs. length (f xs) = length xs \<and>
       (all_num (\<lambda>x. x \<le> 0) xs \<longrightarrow> all_num (\<lambda>x. x \<le> 0) (f xs)) \<and>
       (all_num (\<lambda>x. 0 \<le> x) xs \<longrightarrow> all_num (\<lambda>x. 0 \<le> x) (f xs)) \<and>
       (all_num (\<lambda>x. 0 < x) xs \<longrightarrow> all_num (\<lambda>x. 0 < x) (f xs)))"

definition pandas_ok :: "pandas \<Rightarrow> bool" where
  "pandas_ok pd \<longleftrightarrow>
     (\<forall>\<alpha>. 0 < \<alpha> \<and> \<alpha> \<le> 1 \<longrightarrow>
        averages (pd_ewm pd \<alpha>) \<and> (\<forall>xs. (\<exists>x. Some x \<in> set xs) \<longrightarrow> last (pd_ewm pd \<alpha> xs) \<noteq> None)) \<and>
     (\<forall>n. 0 < n \<longrightarrow>
        averages (pd_rolling_mean pd n) \<and>
        (\<forall>xs. n \<le> length xs \<and> None \<notin> set xs \<longrightarrow> last (pd_rolling_mean pd n xs) \<noteq> None))"

lemma averagesD:
  assumes "averages f"
  shows "length (f xs) = length xs"
    "all_num (\<lambda>x. x \<le> 0) xs \<Longrightarrow> all_num (\<lambda>x. x \<le> 0) (f xs)"
    "all_num (\<lambda>x. 0 \<le> x) xs \<Longrightarrow> all_num (\<lambda>x. 0 \<le> x) (f xs)"
    "all_num (\<lambda>x. 0 < x) xs \<Longrightarrow> all_num (\<lambda>x. 0 < x) (f xs)"
  using assms by (simp_all add: averages_def)

lemma pandas_okD:
  assumes "pandas_ok pd"
  shows "0 < \<alpha> \<Longrightarrow> \<alpha> \<le> 1 \<Longrightarrow> averages (pd_ewm pd \<alpha>)"
    "0 < \<alpha> \<Longrightarrow> \<alpha> \<le> 1 \<Longrightarrow> Some x \<in> set xs \<Longrightarrow> last (pd_ewm pd \<alpha> xs) \<noteq> None"
    "0 < n \<Longrightarrow> averages (pd_rolling_mean pd n)"
    "0 < n \<Longrightarrow> n \<le> length xs \<Longrightarrow> None \<notin> set xs \<Longrightarrow> last (pd_rolling_mean pd n xs) \<noteq> None"
  using assms by (auto simp: pandas_ok_def)

lemma alpha_ok:
  assumes "0 < n"
  shows "0 < flt (1 / of_nat n)" "flt (1 / of_nat n) \<le> 1"
    "0 < flt (2 / of_nat (n + 1))" "flt (2 / of_nat (n + 1)) \<le> 1"
  using assms by (simp_all add: flt.le_fix)

lemma all_num_last:
  "all_num P xs \<Longrightarrow> xs \<noteq> [] \<Longrightarrow> last xs = Some x \<Longrightarrow> P x"
  unfolding all_num_def by (metis last_in_set)

section \<open>Properties\<close>

lemma length_lift [simp]:
  "length (lift2 f xs ys) = min (length xs) (length ys)" "length (lift1 g xs) = length xs"
  "length (shift1 xs) = length xs" "length (diff xs) = length xs"
  by (auto simp: lift2_def lift1_def shift1_def diff_def series_sub_def split: list.split)

lemma lift1_SomeD: "Some z \<in> set (lift1 g xs) \<Longrightarrow> \<exists>x. Some x \<in> set xs \<and> z = g x"
  by (auto simp: lift1_def image_iff) (metis map_option_eq_Some)

lemma rsi_gain_nonneg: "all_num (\<lambda>x. 0 \<le> x) (rsi_gain xs)"
  and rsi_loss_nonneg: "all_num (\<lambda>x. 0 \<le> x) (rsi_loss xs)"
  by (auto simp: all_num_def rsi_gain_def rsi_loss_def dest!: lift1_SomeD)

lemma lift2_SomeD:
  "Some z \<in> set (lift2 f xs ys) \<Longrightarrow> \<exists>x y. Some x \<in> set xs \<and> Some y \<in> set ys \<and> z = f x y"
proof -
  assume "Some z \<in> set (lift2 f xs ys)"
  then obtain a b where ab: "(a, b) \<in> set (zip xs ys)"
    and z: "Some z = (case (a, b) of (Some a, Some b) \<Rightarrow> Some (f a b) | _ \<Rightarrow> None)"
    unfolding lift2_def by auto
  from z obtain x y where "a = Some x" "b = Some y" "z = f x y" by (auto split: option.splits)
  with set_zip_leftD[OF ab] set_zip_rightD[OF ab] show ?thesis by blast
qed

lemma rsi_result_range:
  assumes "all_num (\<lambda>x. 0 \<le> x) g" "all_num (\<lambda>x. 0 \<le> x) l" "r \<in> set (rsi_result g l)"
  shows "\<exists>v. r = Some v \<and> 0 \<le> v \<and> v \<le> 100"
proof -
  let ?rs = "series_div g (zero_to_nan l)"
  from assms(3) obtain x where x: "x \<in> set (lift1 (\<lambda>x. flt (100 - flt (100 / flt (1 + x)))) ?rs)"
    and r: "r = Some (case x of None \<Rightarrow> 100 | Some y \<Rightarrow> y)"
    by (auto simp: rsi_result_def fillna_def Let_def)
  show ?thesis
  proof (cases x)
    case (Some y)
    with lift1_SomeD x obtain q where q: "Some q \<in> set ?rs" and y: "y = flt (100 - flt (100 / flt (1 + q)))"
      by blast
    from lift2_SomeD[OF q[unfolded series_div_def]] obtain a b where
      ab: "Some a \<in> set g" "Some b \<in> set (zero_to_nan l)" and qd: "q = flt (a / b)" by blast
    from ab(2) have "Some b \<in> set l" by (auto simp: zero_to_nan_def split: if_splits)
    with ab(1) assms(1,2) have "0 \<le> a" "0 \<le> b" by (auto simp: all_num_def)
    then have "0 \<le> q" by (simp add: qd)
    define d where "d = flt (1 + q)"
    have "1 \<le> d" unfolding d_def using \<open>0 \<le> q\<close> by (intro flt.ge_fix) simp_all
    then have "100 / d \<le> 100" "0 \<le> 100 / d" by (simp_all add: divide_le_eq)
    then have "0 \<le> flt (100 / d)" "flt (100 / d) \<le> 100"
      by (simp_all only: flt.nonneg) (rule flt.le_fix, simp_all)
    then have "0 \<le> y" "y \<le> 100" unfolding y d_def[symmetric] by (simp_all only: flt.nonneg diff_ge_0_iff_ge) (rule flt.le_fix, simp_all)
    with r Some show ?thesis by simp
  qed (simp add: r)
qed

lemma rsi_range:
  assumes "pandas_ok pd" "0 < n" "r \<in> set (rsi pd xs n)"
  shows "\<exists>v. r = Some v \<and> 0 \<le> v \<and> v \<le> 100"
proof -
  note av = pandas_okD(1)[OF assms(1) alpha_ok(1,2)[OF assms(2)]]
  from assms(3) averagesD(3)[OF av rsi_gain_nonneg] averagesD(3)[OF av rsi_loss_nonneg]
  show ?thesis unfolding rsi_def Let_def by (metis rsi_result_range)
qed

text \<open>A series without a single loss has an RSI of 100 throughout, a constant one included.\<close>

lemma rsi_without_losses:
  assumes "pandas_ok pd" "0 < n" "all_num (\<lambda>x. 0 \<le> x) (diff xs)"
  shows "set (rsi pd xs n) \<subseteq> {Some 100}"
proof -
  note av = pandas_okD(1)[OF assms(1) alpha_ok(1,2)[OF assms(2)]]
  let ?l = "pd_ewm pd (flt (1 / of_nat n)) (rsi_loss (diff xs))"
  have "all_num (\<lambda>x. x \<le> 0) (rsi_loss (diff xs))"
    using assms(3) by (auto simp: all_num_def rsi_loss_def min_def dest!: lift1_SomeD)
  then have "all_num (\<lambda>x. x \<le> 0) ?l" "all_num (\<lambda>x. 0 \<le> x) ?l"
    using averagesD(2,3)[OF av] rsi_loss_nonneg by blast+
  then have zero: "Some y \<notin> set (zero_to_nan ?l)" for y
    by (fastforce simp: all_num_def zero_to_nan_def split: if_splits)
  have none: "x \<in> set (series_div g (zero_to_nan ?l)) \<Longrightarrow> x = None" for x g
    using lift2_SomeD[of _ "\<lambda>a b. flt (a / b)" g "zero_to_nan ?l"] zero
    by (cases x) (auto simp: series_div_def)
  then show ?thesis
    by (auto simp: rsi_def rsi_result_def Let_def fillna_def lift1_def dest!: none)
qed

lemma last_lift2:
  assumes "length xs = length ys" "xs \<noteq> []" "last xs = Some x" "last ys = Some y"
  shows "last (lift2 f xs ys) = Some (f x y)"
proof -
  have "ys \<noteq> []" using assms by auto
  then have "last (zip xs ys) = (last xs, last ys)"
    using assms(1,2) by (simp add: last_conv_nth)
  then show ?thesis using assms \<open>ys \<noteq> []\<close> by (simp add: lift2_def last_map)
qed

lemma ema_last:
  assumes "pandas_ok pd" "Some x \<in> set xs" "0 < n"
  obtains y where "last (ema pd xs n) = Some y" "length (ema pd xs n) = length xs"
    "all_num (\<lambda>x. 0 < x) xs \<Longrightarrow> 0 < y"
proof -
  note a = alpha_ok(3,4)[OF assms(3)]
  obtain y where y: "last (ema pd xs n) = Some y"
    using pandas_okD(2)[OF assms(1) a assms(2)] by (auto simp: ema_def)
  note av = averagesD[OF pandas_okD(1)[OF assms(1) a], of xs, folded ema_def]
  have ne: "ema pd xs n \<noteq> []" using av(1) assms(2) by auto
  from that[OF y av(1)] all_num_last[OF av(4) ne y] show thesis by blast
qed

lemma all_num_Some: "all_num P (map (Some \<circ> f) cs) \<longleftrightarrow> (\<forall>c \<in> set cs. P (f c))"
  by (auto simp: all_num_def)

lemma true_range_nonneg:
  assumes "\<forall>c \<in> set cs. oc_l c \<le> oc_h c"
  shows "all_num (\<lambda>x. 0 \<le> x)
           (true_range (map (Some \<circ> oc_h) cs) (map (Some \<circ> oc_l) cs) (map (Some \<circ> oc_c) cs))"
proof -
  have hl: "all_num (\<lambda>x. 0 \<le> x) (series_sub (map (Some \<circ> oc_h) cs) (map (Some \<circ> oc_l) cs))"
    using assms by (auto simp: all_num_def series_sub_def lift2_def zip_map_map zip_same_conv_map)
  have ab: "all_num (\<lambda>x. 0 \<le> x) (lift1 abs xs)" for xs
    by (auto simp: all_num_def dest!: lift1_SomeD)
  have mx: "all_num (\<lambda>x. 0 \<le> x) (map2 nan_max xs ys)"
    if "all_num (\<lambda>x. 0 \<le> x) xs" "all_num (\<lambda>x. 0 \<le> x) ys" for xs ys
  proof -
    have "0 \<le> z" if z: "Some z = nan_max a b" and ab: "(a, b) \<in> set (zip xs ys)" for z a b
    proof -
      have "\<forall>x. a = Some x \<longrightarrow> 0 \<le> x" "\<forall>y. b = Some y \<longrightarrow> 0 \<le> y"
        using that(1,2) \<open>all_num (\<lambda>x. 0 \<le> x) xs\<close> \<open>all_num (\<lambda>x. 0 \<le> x) ys\<close>
          set_zip_leftD[OF ab] set_zip_rightD[OF ab] by (auto simp: all_num_def)
      with z show ?thesis by (auto simp: nan_max_def le_max_iff_disj split: option.splits)
    qed
    then show ?thesis unfolding all_num_def by fastforce
  qed
  show ?thesis unfolding true_range_def Let_def row_max_def by (intro mx hl ab)
qed

lemma rsi_last:
  assumes "pandas_ok pd" "0 < n" "xs \<noteq> []"
  obtains v where "last (rsi pd xs n) = Some v" "0 \<le> v" "v \<le> 100"
proof -
  have len: "length (rsi pd xs n) = length xs"
    using averagesD(1)[OF pandas_okD(1)[OF assms(1) alpha_ok(1,2)[OF assms(2)]]]
    by (simp add: rsi_def rsi_result_def fillna_def zero_to_nan_def series_div_def rsi_gain_def rsi_loss_def Let_def)
  then have "last (rsi pd xs n) \<in> set (rsi pd xs n)" using assms(3) by (intro last_in_set) auto
  from rsi_range[OF assms(1,2) this] that show thesis by blast
qed

definition indicator_snapshot :: "ohlcv \<Rightarrow> rat \<Rightarrow> Indicators \<Rightarrow> MarketIndicatorSnapshot" where
  "indicator_snapshot lt price_change_pct ind =
     \<lparr>mi_price = Some (oc_c lt), mi_price_change_pct = Some price_change_pct,
      mi_rsi_14 = Some (in_rsi_14 ind), mi_ema_50 = Some (in_ema_50 ind), mi_ema_200 = Some (in_ema_200 ind),
      mi_macd = Some \<lparr>ms_macd = macd_macd (in_macd ind), ms_signal = macd_signal (in_macd ind),
                      ms_histogram = macd_histogram (in_macd ind)\<rparr>,
      mi_atr_14 = Some (in_atr_14 ind), mi_volume = Some (oc_v lt),
      mi_volume_sma_20 = Some (in_volume_sma_20 ind)\<rparr>"

text \<open>
  C37. From at least twenty candles with positive prices and volumes and low at most high, the
  indicators are all numbers, and together with the last candle they form a valid indicator snapshot:
  RSI between 0 and 100, averages of price and volume positive, ATR not negative.
\<close>

theorem indicators_valid:
  assumes "pandas_ok pd" "20 \<le> length candles"
    and "\<forall>c \<in> set candles. 0 < oc_c c \<and> 0 < oc_v c \<and> oc_l c \<le> oc_h c"
  shows "\<exists>ind. compute_indicators pd candles = Some ind \<and>
    snapshot_ok (indicator_snapshot (last candles) change ind)"
proof -
  let ?c = "map (Some \<circ> oc_c) candles" and ?v = "map (Some \<circ> oc_v) candles"
  let ?tr = "true_range (map (Some \<circ> oc_h) candles) (map (Some \<circ> oc_l) candles) ?c"
  have ne: "candles \<noteq> []" using assms(2) by auto
  then have c0: "Some (oc_c (last candles)) \<in> set ?c" by auto
  have pos: "all_num (\<lambda>x. 0 < x) ?c" "all_num (\<lambda>x. 0 < x) ?v"
    using assms(3) by (auto simp: all_num_def)
  have lc: "0 < oc_c (last candles)" "0 < oc_v (last candles)" using assms(3) ne by auto
  obtain r where r: "last (rsi pd ?c 14) = Some r" "0 \<le> r" "r \<le> 100"
    using rsi_last[OF assms(1), of 14 ?c] ne by auto
  note ema = ema_last[OF assms(1) c0]
  obtain e50 where e50: "last (ema pd ?c 50) = Some e50" "0 < e50" using ema[of 50] pos(1) by auto
  obtain e200 where e200: "last (ema pd ?c 200) = Some e200" "0 < e200" using ema[of 200] pos(1) by auto
  obtain e12 where e12: "last (ema pd ?c 12) = Some e12" "length (ema pd ?c 12) = length candles"
    using ema[of 12] by auto
  obtain e26 where e26: "last (ema pd ?c 26) = Some e26" "length (ema pd ?c 26) = length candles"
    using ema[of 26] by auto
  let ?m = "series_sub (ema pd ?c 12) (ema pd ?c 26)"
  have e12ne: "ema pd ?c 12 \<noteq> []" using e12(2) ne by auto
  have m: "last ?m = Some (flt (e12 - e26))" "length ?m = length candles"
    using last_lift2[OF _ e12ne e12(1) e26(1), of "\<lambda>a b. flt (a - b)"] e12(2) e26(2)
    by (simp_all add: series_sub_def)
  then have mne: "?m \<noteq> []" using ne by auto
  have "Some (flt (e12 - e26)) \<in> set ?m" using last_in_set[OF mne] m(1) by simp
  from ema_last[OF assms(1) this, of 9] obtain sg where
    sg: "last (ema pd ?m 9) = Some sg" "length (ema pd ?m 9) = length ?m" by auto
  have hi: "last (series_sub ?m (ema pd ?m 9)) = Some (flt (flt (e12 - e26) - sg))"
    using last_lift2[OF _ mne m(1) sg(1)] sg(2) by (simp add: series_sub_def)
  have trn: "all_num (\<lambda>x. 0 \<le> x) ?tr" using true_range_nonneg assms(3) by blast
  have "length ?tr = length candles"
    by (simp add: true_range_def row_max_def series_sub_def Let_def)
  obtain x where x: "Some x \<in> set ?tr"
  proof -
    have "hd ?tr = Some (flt (oc_h (hd candles) - oc_l (hd candles)))"
      using ne by (cases candles)
        (auto simp: true_range_def row_max_def series_sub_def lift2_def lift1_def shift1_def nan_max_def Let_def)
    moreover have "?tr \<noteq> []" using \<open>length ?tr = length candles\<close> ne by auto
    ultimately show thesis using that hd_in_set by metis
  qed
  have a14: "0 < flt (1 / of_nat 14)" "flt (1 / of_nat 14) \<le> 1" using alpha_ok(1,2)[of 14] by simp_all
  obtain a where a: "last (atr pd (map (Some \<circ> oc_h) candles) (map (Some \<circ> oc_l) candles) ?c 14) = Some a"
    using pandas_okD(2)[OF assms(1) a14 x] by (auto simp: atr_def)
  have "0 \<le> a"
    using all_num_last[OF averagesD(3)[OF pandas_okD(1)[OF assms(1) a14] trn] _ a[unfolded atr_def]]
      averagesD(1)[OF pandas_okD(1)[OF assms(1) a14]] \<open>length ?tr = length candles\<close> ne
    by (metis length_0_conv)
  have full: "20 \<le> length ?v" "None \<notin> set ?v" using assms(2) by auto
  obtain v where v: "last (pd_rolling_mean pd 20 ?v) = Some v"
    using pandas_okD(4)[OF assms(1) _ full] by auto
  have "length (pd_rolling_mean pd 20 ?v) = length candles"
    using averagesD(1)[OF pandas_okD(3)[OF assms(1)], of 20 ?v] by simp
  then have vne: "pd_rolling_mean pd 20 ?v \<noteq> []" using ne by (metis length_0_conv)
  have "0 < v"
    using all_num_last[OF averagesD(4)[OF pandas_okD(3)[OF assms(1)] pos(2)] vne v] by simp
  show ?thesis
    using r e50 e200 m(1) sg(1) hi a \<open>0 \<le> a\<close> v \<open>0 < v\<close> lc
    by (simp add: compute_indicators_def macd_def Let_def snapshot_ok_def indicator_snapshot_def)
qed

text \<open>Means as pandas documents them, to show that the promises can be kept.\<close>

fun ewm_rec :: "rat \<Rightarrow> rat option \<Rightarrow> series \<Rightarrow> series" where
  "ewm_rec \<alpha> prev [] = []"
| "ewm_rec \<alpha> prev (x # xs) =
     (let y = (case prev of
                 None \<Rightarrow> x
               | Some p \<Rightarrow> Some (case x of None \<Rightarrow> p | Some v \<Rightarrow> flt ((1 - \<alpha>) * p + \<alpha> * v)))
      in y # ewm_rec \<alpha> y xs)"

definition window_mean :: "nat \<Rightarrow> series \<Rightarrow> nat \<Rightarrow> rat option" where
  "window_mean n xs i =
     (let w = take n (drop (i + 1 - n) xs)
      in if i + 1 < n \<or> None \<in> set w then None else Some (flt (sum_list (map the w) / of_nat n)))"

definition sample_pandas :: pandas where
  "sample_pandas = \<lparr>pd_ewm = (\<lambda>\<alpha>. ewm_rec \<alpha> None),
     pd_rolling_mean = (\<lambda>n xs. map (window_mean n xs) [0..<length xs])\<rparr>"

lemma ewm_rec_length: "length (ewm_rec \<alpha> prev xs) = length xs"
  by (induction xs arbitrary: prev) (simp_all add: Let_def)

lemma ewm_rec_all_num:
  assumes "\<And>p v. P p \<Longrightarrow> P v \<Longrightarrow> P (flt ((1 - \<alpha>) * p + \<alpha> * v))"
  shows "all_num P xs \<Longrightarrow> (\<And>p. prev = Some p \<Longrightarrow> P p) \<Longrightarrow> all_num P (ewm_rec \<alpha> prev xs)"
proof (induction xs arbitrary: prev)
  case (Cons x xs)
  let ?y = "case prev of None \<Rightarrow> x | Some p \<Rightarrow> Some (case x of None \<Rightarrow> p | Some v \<Rightarrow> flt ((1 - \<alpha>) * p + \<alpha> * v))"
  have y: "P q" if "?y = Some q" for q
    using that Cons.prems assms by (auto simp: all_num_def split: option.splits)
  have "all_num P (ewm_rec \<alpha> ?y xs)"
    using Cons.prems(1) y by (intro Cons.IH) (auto simp: all_num_def)
  with y show ?case by (auto simp: all_num_def Let_def)
qed simp

lemma ewm_rec_last:
  "prev \<noteq> None \<or> (\<exists>x. Some x \<in> set xs) \<Longrightarrow> xs \<noteq> [] \<Longrightarrow> last (ewm_rec \<alpha> prev xs) \<noteq> None"
proof (induction xs arbitrary: prev)
  case (Cons x xs)
  let ?y = "case prev of None \<Rightarrow> x | Some p \<Rightarrow> Some (case x of None \<Rightarrow> p | Some v \<Rightarrow> flt ((1 - \<alpha>) * p + \<alpha> * v))"
  have ne: "xs \<noteq> [] \<Longrightarrow> ewm_rec \<alpha> ?y xs \<noteq> []" using ewm_rec_length[of \<alpha> ?y xs] by auto
  have "?y \<noteq> None \<or> (\<exists>x. Some x \<in> set xs)" using Cons.prems by (auto split: option.splits)
  with Cons.IH[of ?y] ne Cons.prems show ?case by (cases "xs = []") (auto simp: Let_def split: option.splits)
qed simp

lemma window_mean_all_num:
  assumes P: "\<And>ws. ws \<noteq> [] \<Longrightarrow> \<forall>w \<in> set ws. P w \<Longrightarrow> P (sum_list ws)" "\<And>x. P x \<Longrightarrow> P (flt (x / of_nat n))"
    and "0 < n" "all_num P xs"
  shows "all_num P (map (window_mean n xs) [0..<length xs])"
proof -
  have "P y" if "window_mean n xs i = Some y" "i < length xs" for i y
  proof -
    let ?w = "take n (drop (i + 1 - n) xs)"
    from that have full: "\<not> i + 1 < n" "None \<notin> set ?w" and y: "y = flt (sum_list (map the ?w) / of_nat n)"
      by (auto simp: window_mean_def Let_def split: if_splits)
    have "\<forall>v \<in> set (map the ?w). P v"
    proof
      fix v assume "v \<in> set (map the ?w)"
      then obtain ow where "ow \<in> set ?w" "v = the ow" by auto
      with full(2) have "Some v \<in> set ?w" by (cases ow) auto
      then have "Some v \<in> set xs" by (meson in_set_takeD in_set_dropD)
      with assms(4) show "P v" by (simp add: all_num_def)
    qed
    moreover have "map the ?w \<noteq> []" using full(1) that(2) assms(3) by auto
    ultimately show ?thesis unfolding y by (intro P)
  qed
  then show ?thesis by (auto simp: all_num_def)
qed

lemma sample_pandas_ok: "pandas_ok sample_pandas"
proof -
  have ewm: "averages (ewm_rec \<alpha> None)" if "0 < \<alpha>" "\<alpha> \<le> 1" for \<alpha>
    using that unfolding averages_def
    by (auto simp: ewm_rec_length intro!: ewm_rec_all_num add_nonneg_nonneg add_nonpos_nonpos mult_nonneg_nonpos)
      (metis add_nonneg_pos add_pos_nonneg diff_ge_0_iff_ge less_eq_rat_def mult_nonneg_nonneg mult_pos_pos)
  have sums: "ws \<noteq> [] \<Longrightarrow> \<forall>w \<in> set ws. 0 < w \<Longrightarrow> 0 < sum_list ws" for ws :: "rat list"
    by (induction ws) (auto simp: add_pos_nonneg sum_list_nonneg less_imp_le)
  have roll: "averages (\<lambda>xs. map (window_mean n xs) [0..<length xs])" if "0 < n" for n
    using that unfolding averages_def
    by (auto intro!: window_mean_all_num sums sum_list_nonneg sum_list_nonpos
        simp: divide_nonpos_nonneg)
  have full: "last (map (window_mean n xs) [0..<length xs]) \<noteq> None"
    if "0 < n" "n \<le> length xs" "None \<notin> set xs" for n xs
  proof -
    have "last (map (window_mean n xs) [0..<length xs]) = window_mean n xs (length xs - 1)"
      using that by (cases xs) (simp_all add: last_map)
    moreover have "None \<notin> set (take n (drop (length xs - 1 + 1 - n) xs))"
      using that(3) by (meson in_set_takeD in_set_dropD)
    ultimately show ?thesis using that by (simp add: window_mean_def Let_def)
  qed
  show ?thesis
    unfolding pandas_ok_def sample_pandas_def pandas.simps
    using ewm roll full ewm_rec_last[of None] by (metis empty_iff list.set(1))
qed

theorem indicators_valid_witness:
  "\<exists>ind. compute_indicators sample_pandas
       (replicate 20 \<lparr>oc_t = 0, oc_o = 100, oc_h = 101, oc_l = 99, oc_c = 100, oc_v = 7\<rparr>) = Some ind \<and>
     0 \<le> in_rsi_14 ind"
proof -
  let ?cs = "replicate 20 \<lparr>oc_t = 0, oc_o = 100, oc_h = 101, oc_l = 99, oc_c = 100, oc_v = 7\<rparr>"
  from indicators_valid[OF sample_pandas_ok, of ?cs 0] show ?thesis
    by (auto simp: snapshot_ok_def indicator_snapshot_def)
qed

end
