(* ===== verification/Llm_Validation.thy ===== *)
theory Llm_Validation
  imports Market_Context
begin

text \<open>
  \<open>llm_service/app/validators\<close>: from the raw text of a model response to the action that leaves the
  service.  JSON parsing, the dqflow engine and pydantic's lenient number coercion are parameters
  (\<open>parser\<close>); what the source declares about them (the check names, the field constraints) is
  modelled.  A text the source formats is kept as the values it is formatted from.
\<close>

section \<open>Outputs\<close>

datatype key_indicator =
    ModelIndicator string | EntryKey entry_confirmation | ExitKey exit_confirmation

datatype reasoning =
    ModelReasoning string
  | HardLossCut rat rat
  | ProfitExit "exit_confirmation list" rat
  | LossCut "exit_confirmation list" rat
  | TrendFollowingSuppressed
  | EntryBarMissed "entry_confirmation list"
  | SellWithoutPosition
  | UnknownPnl
  | InsideCushion rat rat rat
  | FewConfirmations nat
  | OneCategory "exit_confirmation list"
  | PrefilterNoEntry "entry_confirmation list" bool
  | PrefilterNoExit "rat option" "exit_confirmation list"
  | FailureReason string

datatype invalidation =
    ModelInvalidation string
  | LossNoLongerBreached rat
  | ProfitExitInvalid
  | LossExitInvalid
  | ExitBarNeeded
  | EntryBarNeeded
  | EntryBarAndRegimeNeeded

record LLMOutput =
  lo_action :: Action
  lo_confidence :: rat
  lo_reasoning :: reasoning
  lo_key_indicators :: "key_indicator list"
  lo_invalidation_condition :: invalidation

section \<open>Structural validation\<close>

text \<open>
  \<open>json_loads\<close> is None for text that is not JSON; \<open>dq_validate\<close> is None when the engine raises, and
  otherwise whether the contract holds and the names of the failed checks; \<open>lax_float\<close> is pydantic's
  coercion to float.
\<close>

record parser =
  json_loads :: "string \<Rightarrow> json option"
  dq_validate :: "(string \<times> json) list \<Rightarrow> (bool \<times> string list) option"
  lax_float :: "json \<Rightarrow> rat option"

definition ACTION_CHECKS :: "string list" where
  "ACTION_CHECKS = [''dtype:action'', ''not_null:action'', ''allowed:action'']"

definition CONFIDENCE_CHECKS :: "string list" where
  "CONFIDENCE_CHECKS = [''dtype:confidence'', ''not_null:confidence'', ''min:confidence'', ''max:confidence'']"

definition contract_failure_reason :: "string list \<Rightarrow> string" where
  "contract_failure_reason failed =
     (if list_ex (\<lambda>c. c \<in> set ACTION_CHECKS) failed then ''invalid_action''
      else if list_ex (\<lambda>c. c \<in> set CONFIDENCE_CHECKS) failed then ''invalid_confidence''
      else ''schema_invalid'')"

definition check_llm_response :: "parser \<Rightarrow> (string \<times> json) list \<Rightarrow> string option" where
  "check_llm_response p data =
     (case dq_validate p data of
        None \<Rightarrow> Some ''schema_invalid''
      | Some (ok, failed) \<Rightarrow> if ok then None else Some (contract_failure_reason failed))"

text \<open>A field of the model: absent, present with a bad value, or valid.\<close>

datatype 'a field = Missing | Bad | Good 'a

definition action_field :: "json option \<Rightarrow> Action field" where
  "action_field v =
     (case v of
        None \<Rightarrow> Missing
      | Some (JStr s) \<Rightarrow>
          (case map_of [(''BUY'', BUY), (''SELL'', SELL), (''HOLD'', HOLD)] s of
             None \<Rightarrow> Bad | Some a \<Rightarrow> Good a)
      | Some _ \<Rightarrow> Bad)"

definition confidence_field :: "parser \<Rightarrow> json option \<Rightarrow> rat field" where
  "confidence_field p v =
     (case v of
        None \<Rightarrow> Missing
      | Some j \<Rightarrow> (case lax_float p j of
                    None \<Rightarrow> Bad
                  | Some x \<Rightarrow> if 0 \<le> x \<and> x \<le> 1 then Good x else Bad))"

definition text_field :: "nat option \<Rightarrow> json option \<Rightarrow> string field" where
  "text_field cap v =
     (case v of
        None \<Rightarrow> Missing
      | Some (JStr s) \<Rightarrow>
          if s = [] \<or> (case cap of None \<Rightarrow> False | Some n \<Rightarrow> n < length s) then Bad else Good s
      | Some _ \<Rightarrow> Bad)"

definition indicators_field :: "json option \<Rightarrow> key_indicator list field" where
  "indicators_field v =
     (case v of
        None \<Rightarrow> Good []
      | Some (JArr xs) \<Rightarrow>
          if list_all (\<lambda>x. case x of JStr _ \<Rightarrow> True | _ \<Rightarrow> False) xs
          then Good (map (\<lambda>x. case x of JStr s \<Rightarrow> ModelIndicator s | _ \<Rightarrow> ModelIndicator []) xs)
          else Bad
      | Some _ \<Rightarrow> Bad)"

text \<open>\<open>LLMOutput.model_validate\<close> and the classification of its first relevant error.\<close>

definition model_validate :: "parser \<Rightarrow> (string \<times> json) list \<Rightarrow> string + LLMOutput" where
  "model_validate p data =
     (let f = map_of data;
          act = action_field (f ''action''); conf = confidence_field p (f ''confidence'')
      in case (act, conf, text_field (Some 500) (f ''reasoning''), indicators_field (f ''key_indicators''),
               text_field None (f ''invalidation_condition'')) of
           (Good a, Good c, Good r, Good ks, Good i) \<Rightarrow>
             Inr \<lparr>lo_action = a, lo_confidence = c, lo_reasoning = ModelReasoning r,
                  lo_key_indicators = ks, lo_invalidation_condition = ModelInvalidation i\<rparr>
         | _ \<Rightarrow> Inl (if act = Bad then ''invalid_action''
                     else if conf = Bad then ''invalid_confidence'' else ''schema_invalid''))"

definition MAX_REASONING_CHARS :: nat where
  "MAX_REASONING_CHARS = 500"

definition truncate_reasoning :: "(string \<times> json) list \<Rightarrow> (string \<times> json) list" where
  "truncate_reasoning data =
     (case map_of data ''reasoning'' of
        Some (JStr r) \<Rightarrow>
          if length r > MAX_REASONING_CHARS
          then (''reasoning'', JStr (take MAX_REASONING_CHARS r)) # data else data
      | _ \<Rightarrow> data)"

definition parse_llm_response :: "parser \<Rightarrow> string \<Rightarrow> string + LLMOutput" where
  "parse_llm_response p raw_text =
     (case json_loads p raw_text of
        Some (JObj data) \<Rightarrow>
          (case check_llm_response p data of
             Some failure \<Rightarrow> Inl failure
           | None \<Rightarrow> model_validate p (truncate_reasoning data))
      | _ \<Rightarrow> Inl ''malformed_json'')"

section \<open>Semantic validation\<close>

datatype category = Trend | Momentum | Price_action

fun exit_category :: "exit_confirmation \<Rightarrow> category" where
  "exit_category Price_below_ema50_and_ema200 = Trend"
| "exit_category Ema50_below_ema200 = Trend"
| "exit_category Bearish_macd = Momentum"
| "exit_category Rsi_below_45 = Momentum"
| "exit_category Lower_highs_and_lows = Price_action"
| "exit_category Falling_price_on_high_volume = Price_action"

fun entry_category :: "entry_confirmation \<Rightarrow> category" where
  "entry_category Price_above_ema50_and_ema200 = Trend"
| "entry_category Ema50_above_ema200 = Trend"
| "entry_category Bullish_macd = Momentum"
| "entry_category Rsi_45_to_70 = Momentum"
| "entry_category Higher_highs_and_lows = Price_action"
| "entry_category Rising_price_on_high_volume = Price_action"

definition entry_is_sufficient :: "entry_confirmation list \<Rightarrow> bool" where
  "entry_is_sufficient ks \<longleftrightarrow>
     length ks \<ge> 3 \<and> Trend \<in> entry_category ` set ks \<and> Momentum \<in> entry_category ` set ks"

definition exit_is_sufficient :: "exit_confirmation list \<Rightarrow> bool" where
  "exit_is_sufficient ks \<longleftrightarrow> length ks \<ge> 2 \<and> card (exit_category ` set ks) \<ge> 2"

record exit_thresholds =
  th_min_exit_profit_pct :: rat
  th_min_exit_loss_pct :: rat
  th_hard_loss_cut_pct :: rat

record SemanticValidationResult =
  sr_output :: LLMOutput
  sr_action_changed :: bool
  sr_exit_confirmations :: "exit_confirmation list"

definition is_profitable :: "exit_thresholds \<Rightarrow> rat option \<Rightarrow> bool" where
  "is_profitable th pnl = (case pnl of None \<Rightarrow> False | Some x \<Rightarrow> x > th_min_exit_profit_pct th)"

definition is_losing :: "exit_thresholds \<Rightarrow> rat option \<Rightarrow> bool" where
  "is_losing th pnl = (case pnl of None \<Rightarrow> False | Some x \<Rightarrow> x < - th_min_exit_loss_pct th)"

definition hard_loss :: "exit_thresholds \<Rightarrow> PositionContext \<Rightarrow> bool" where
  "hard_loss th position =
     (pc_has_open_position position \<and>
      (case pc_unrealized_pnl_pct position of None \<Rightarrow> False | Some x \<Rightarrow> x \<le> - th_hard_loss_cut_pct th))"

text \<open>Why a trade action is suppressed, and what would have to change.\<close>

definition suppression ::
    "exit_thresholds \<Rightarrow> MarketContext \<Rightarrow> Action \<Rightarrow> exit_confirmation list
     \<Rightarrow> reasoning \<times> key_indicator list \<times> invalidation" where
  "suppression th context act confirmations =
     (let position = rq_position_context (mc_request context); pnl = pc_unrealized_pnl_pct position
      in if act = BUY \<and> \<not> pc_has_open_position position
         then (let ks = mc_entry_confirmations context
               in if entry_is_sufficient ks
                  then (TrendFollowingSuppressed, map EntryKey ks, EntryBarAndRegimeNeeded)
                  else (EntryBarMissed ks, map EntryKey ks, EntryBarNeeded))
         else (if \<not> pc_has_open_position position then SellWithoutPosition
               else case pnl of
                 None \<Rightarrow> UnknownPnl
               | Some x \<Rightarrow>
                   if \<not> is_profitable th pnl \<and> \<not> is_losing th pnl
                   then InsideCushion x (th_min_exit_loss_pct th) (th_min_exit_profit_pct th)
                   else if length confirmations < 2 then FewConfirmations (length confirmations)
                   else OneCategory confirmations,
               map ExitKey confirmations, ExitBarNeeded))"

definition validate_signal_semantics ::
    "exit_thresholds \<Rightarrow> MarketContext \<Rightarrow> LLMOutput \<Rightarrow> SemanticValidationResult" where
  "validate_signal_semantics th context out =
     (let position = rq_position_context (mc_request context);
          has_open_position = pc_has_open_position position;
          pnl = pc_unrealized_pnl_pct position;
          confirmations = (if has_open_position then mc_exit_confirmations context else [])
      in if hard_loss th position
         then \<lparr>sr_output = out\<lparr>lo_action := SELL, lo_confidence := flt (80 / 100),
                 lo_reasoning := HardLossCut (the pnl) (th_hard_loss_cut_pct th),
                 lo_key_indicators := map ExitKey confirmations,
                 lo_invalidation_condition := LossNoLongerBreached (th_hard_loss_cut_pct th)\<rparr>,
               sr_action_changed = (lo_action out \<noteq> SELL), sr_exit_confirmations = confirmations\<rparr>
         else if lo_action out = SELL \<and> has_open_position \<and> exit_is_sufficient confirmations
                 \<and> (is_profitable th pnl \<or> is_losing th pnl)
         then \<lparr>sr_output = out\<lparr>lo_action := SELL,
                 lo_confidence := min (flt (80 / 100))
                   (flt (flt (65 / 100) + flt (flt (5 / 100) * of_int (int (length confirmations) - 2)))),
                 lo_reasoning := (if is_profitable th pnl then ProfitExit confirmations (the pnl)
                                  else LossCut confirmations (the pnl)),
                 lo_key_indicators := map ExitKey confirmations,
                 lo_invalidation_condition :=
                   (if is_profitable th pnl then ProfitExitInvalid else LossExitInvalid)\<rparr>,
               sr_action_changed = (lo_action out \<noteq> SELL), sr_exit_confirmations = confirmations\<rparr>
         else if lo_action out = HOLD
         then \<lparr>sr_output = out, sr_action_changed = False, sr_exit_confirmations = confirmations\<rparr>
         else if lo_action out = BUY \<and> \<not> has_open_position \<and>
                 entry_is_sufficient (mc_entry_confirmations context) \<and>
                 st_strategy (select_strategy context) \<noteq> TREND_FOLLOWING
         then \<lparr>sr_output = out, sr_action_changed = False, sr_exit_confirmations = confirmations\<rparr>
         else (let (reason, keys, inv) = suppression th context (lo_action out) confirmations
               in \<lparr>sr_output = out\<lparr>lo_action := HOLD, lo_confidence := min (lo_confidence out) (flt (64 / 100)),
                     lo_reasoning := reason, lo_key_indicators := keys, lo_invalidation_condition := inv\<rparr>,
                   sr_action_changed = True, sr_exit_confirmations = confirmations\<rparr>))"

definition llm_can_change_outcome :: "exit_thresholds \<Rightarrow> MarketContext \<Rightarrow> bool" where
  "llm_can_change_outcome th context =
     (let position = rq_position_context (mc_request context)
      in if \<not> pc_has_open_position position
         then entry_is_sufficient (mc_entry_confirmations context)
              \<and> st_strategy (select_strategy context) \<noteq> TREND_FOLLOWING
         else case pc_unrealized_pnl_pct position of
           None \<Rightarrow> False
         | Some pnl \<Rightarrow>
             if pnl \<le> - th_hard_loss_cut_pct th then True
             else (pnl > th_min_exit_profit_pct th \<or> pnl < - th_min_exit_loss_pct th)
                  \<and> exit_is_sufficient (mc_exit_confirmations context))"

section \<open>The pre-filter\<close>

definition should_skip_llm :: "exit_thresholds \<Rightarrow> MarketContext \<Rightarrow> bool" where
  "should_skip_llm th context = (\<not> llm_can_change_outcome th context)"

definition hold_reason :: "MarketContext \<Rightarrow> reasoning" where
  "hold_reason context =
     (let position = rq_position_context (mc_request context)
      in if \<not> pc_has_open_position position
         then PrefilterNoEntry (mc_entry_confirmations context)
                (st_strategy (select_strategy context) = TREND_FOLLOWING)
         else PrefilterNoExit (pc_unrealized_pnl_pct position) (mc_exit_confirmations context))"

section \<open>Properties\<close>

text \<open>When a response keeps or gets a trade action.\<close>

definition entry_allowed :: "MarketContext \<Rightarrow> bool" where
  "entry_allowed context \<longleftrightarrow>
     (let ks = mc_entry_confirmations context
      in \<not> pc_has_open_position (rq_position_context (mc_request context)) \<and>
         3 \<le> length ks \<and> list_ex (\<lambda>k. entry_category k = Trend) ks \<and>
         list_ex (\<lambda>k. entry_category k = Momentum) ks \<and>
         st_strategy (select_strategy context) \<noteq> TREND_FOLLOWING)"

definition exit_allowed :: "exit_thresholds \<Rightarrow> MarketContext \<Rightarrow> bool" where
  "exit_allowed th context \<longleftrightarrow>
     (let position = rq_position_context (mc_request context); ks = mc_exit_confirmations context
      in pc_has_open_position position \<and>
         (case pc_unrealized_pnl_pct position of None \<Rightarrow> False
          | Some x \<Rightarrow> x > th_min_exit_profit_pct th \<or> x < - th_min_exit_loss_pct th) \<and>
         list_ex (\<lambda>k. list_ex (\<lambda>k'. exit_category k \<noteq> exit_category k') ks) ks)"

lemma entry_allowed_iff:
  "entry_allowed context \<longleftrightarrow>
     \<not> pc_has_open_position (rq_position_context (mc_request context)) \<and>
     entry_is_sufficient (mc_entry_confirmations context) \<and>
     st_strategy (select_strategy context) \<noteq> TREND_FOLLOWING"
proof -
  have "c \<in> entry_category ` set ks \<longleftrightarrow> list_ex (\<lambda>k. entry_category k = c) ks" for c ks
    by (auto simp: list_ex_iff)
  then show ?thesis by (auto simp: entry_allowed_def entry_is_sufficient_def Let_def)
qed

lemma exit_is_sufficient_iff:
  "exit_is_sufficient ks \<longleftrightarrow> list_ex (\<lambda>k. list_ex (\<lambda>k'. exit_category k \<noteq> exit_category k') ks) ks"
proof -
  let ?C = "exit_category ` set ks"
  have "2 \<le> card ?C \<longleftrightarrow> \<not> card ?C \<le> Suc 0" by auto
  also have "\<dots> \<longleftrightarrow> list_ex (\<lambda>k. list_ex (\<lambda>k'. exit_category k \<noteq> exit_category k') ks) ks"
    by (simp add: card_le_Suc0_iff_eq list_ex_iff)
  finally have c: "2 \<le> card ?C \<longleftrightarrow> list_ex (\<lambda>k. list_ex (\<lambda>k'. exit_category k \<noteq> exit_category k') ks) ks" .
  have "card ?C \<le> length ks" by (meson List.finite_set card_image_le card_length le_trans)
  with c show ?thesis by (auto simp: exit_is_sufficient_def)
qed

lemma exit_allowed_iff:
  "exit_allowed th context \<longleftrightarrow>
     pc_has_open_position (rq_position_context (mc_request context)) \<and>
     (is_profitable th (pc_unrealized_pnl_pct (rq_position_context (mc_request context))) \<or>
      is_losing th (pc_unrealized_pnl_pct (rq_position_context (mc_request context)))) \<and>
     exit_is_sufficient (mc_exit_confirmations context)"
  by (auto simp: exit_allowed_def exit_is_sufficient_iff is_profitable_def is_losing_def Let_def
      split: option.split)

lemma semantic_action:
  fixes th :: exit_thresholds and "context" :: MarketContext and "out" :: LLMOutput
  defines "r \<equiv> validate_signal_semantics th context out"
  defines "hard \<equiv> hard_loss th (rq_position_context (mc_request context))"
  shows "lo_action (sr_output r) = SELL \<longleftrightarrow> hard \<or> lo_action out = SELL \<and> exit_allowed th context"
    and "lo_action (sr_output r) = BUY \<longleftrightarrow> \<not> hard \<and> lo_action out = BUY \<and> entry_allowed context"
    and "sr_action_changed r \<longleftrightarrow> lo_action (sr_output r) \<noteq> lo_action out"
    and "lo_action (sr_output r) = BUY \<Longrightarrow> sr_output r = out"
proof -
  have one_of: "lo_action out = BUY \<or> lo_action out = SELL \<or> lo_action out = HOLD"
    by (cases "lo_action out") auto
  have hard: "hard \<Longrightarrow> pc_has_open_position (rq_position_context (mc_request context))"
    by (simp add: hard_def hard_loss_def)
  show "lo_action (sr_output r) = SELL \<longleftrightarrow> hard \<or> lo_action out = SELL \<and> exit_allowed th context"
    "lo_action (sr_output r) = BUY \<longleftrightarrow> \<not> hard \<and> lo_action out = BUY \<and> entry_allowed context"
    "sr_action_changed r \<longleftrightarrow> lo_action (sr_output r) \<noteq> lo_action out"
    "lo_action (sr_output r) = BUY \<Longrightarrow> sr_output r = out"
    using one_of hard
    unfolding r_def validate_signal_semantics_def Let_def entry_allowed_iff exit_allowed_iff hard_def
    by (auto split: prod.split)
qed

text \<open>The two confidence caps the validator sets.\<close>

lemma semantic_confidence:
  fixes th :: exit_thresholds and "context" :: MarketContext and "out" :: LLMOutput
  defines "r \<equiv> validate_signal_semantics th context out"
  shows "lo_action (sr_output r) = SELL \<Longrightarrow> lo_confidence (sr_output r) \<le> flt (80 / 100)"
    and "sr_action_changed r \<Longrightarrow> lo_action (sr_output r) = HOLD \<Longrightarrow>
      lo_confidence (sr_output r) \<le> flt (64 / 100) \<and> lo_confidence (sr_output r) \<le> lo_confidence out"
  unfolding r_def validate_signal_semantics_def Let_def
  by (auto split: prod.splits if_splits)

text \<open>
  The action that leaves semantic validation is determined: SELL exactly when the hard loss
  cut-off is breached or the model said SELL and the exit rubric confirms it, BUY exactly when the
  model said BUY and the entry rubric confirms it outside a trend-following regime, HOLD otherwise.
  In particular a model HOLD is never promoted except by the hard cut-off, a confidence the validator
  sets never exceeds 0.80 for a SELL and 0.64 for a suppressed action, and everything else of a
  confirmed BUY is the model's own.
\<close>

theorem semantic_action_decided:
  shows "let r = validate_signal_semantics th context out;
             hard = hard_loss th (rq_position_context (mc_request context))
         in (lo_action (sr_output r) = SELL \<longleftrightarrow> hard \<or> lo_action out = SELL \<and> exit_allowed th context) \<and>
            (lo_action (sr_output r) = BUY \<longleftrightarrow> \<not> hard \<and> lo_action out = BUY \<and> entry_allowed context) \<and>
            (sr_action_changed r \<longleftrightarrow> lo_action (sr_output r) \<noteq> lo_action out) \<and>
            (lo_action (sr_output r) = SELL \<longrightarrow> lo_confidence (sr_output r) \<le> flt (80 / 100)) \<and>
            (sr_action_changed r \<and> lo_action (sr_output r) = HOLD \<longrightarrow>
               lo_confidence (sr_output r) \<le> flt (64 / 100) \<and>
               lo_confidence (sr_output r) \<le> lo_confidence out) \<and>
            (lo_action (sr_output r) = BUY \<longrightarrow> sr_output r = out)"
  using semantic_action[of th "context" out] semantic_confidence[of th "context" out] unfolding Let_def by blast

theorem semantic_action_decided_witness:
  "lo_action (sr_output (validate_signal_semantics
     \<lparr>th_min_exit_profit_pct = 5 / 1000, th_min_exit_loss_pct = 5 / 1000, th_hard_loss_cut_pct = 15 / 1000\<rparr>
     (build_context \<lparr>rq_symbol = ''BTC/USDT'', rq_timeframe = ''30m'', rq_candle_close_time = [], rq_ohlcv = [],
        rq_indicators = \<lparr>in_rsi_14 = 50, in_ema_50 = 1, in_ema_200 = 1,
          in_macd = \<lparr>macd_macd = 0, macd_signal = 0, macd_histogram = 0\<rparr>, in_atr_14 = 1, in_volume_sma_20 = 1\<rparr>,
        rq_sentiment = None,
        rq_position_context = \<lparr>pc_has_open_position = True, pc_unrealized_pnl_pct = Some (- 2 / 100)\<rparr>,
        rq_provider_override = None\<rparr>)
     \<lparr>lo_action = HOLD, lo_confidence = 1 / 2, lo_reasoning = ModelReasoning ''wait'', lo_key_indicators = [],
      lo_invalidation_condition = ModelInvalidation ''x''\<rparr>)) = SELL"
  by (subst semantic_action_decided[unfolded Let_def, THEN conjunct1])
     (simp add: hard_loss_def build_context_def Let_def)

lemma prefilter_skips_iff:
  "should_skip_llm th context \<longleftrightarrow> \<not> hard_loss th (rq_position_context (mc_request context)) \<and>
     \<not> exit_allowed th context \<and> \<not> entry_allowed context"
  by (auto simp: should_skip_llm_def llm_can_change_outcome_def hard_loss_def exit_allowed_iff
      entry_allowed_iff is_profitable_def is_losing_def Let_def split: option.splits)

lemma action_cases: "a = HOLD \<longleftrightarrow> a \<noteq> SELL \<and> a \<noteq> BUY"
  by (cases a) simp_all

lemma skipped_is_hold:
  "should_skip_llm th context \<Longrightarrow> lo_action (sr_output (validate_signal_semantics th context out)) = HOLD"
  unfolding action_cases[of "lo_action _"] by (simp add: prefilter_skips_iff semantic_action)

text \<open>
  C12. The pre-filter is exact: the LLM call is skipped precisely when no response whatsoever, BUY, SELL
  or HOLD with any confidence, could leave semantic validation as anything but HOLD.
\<close>

theorem prefilter_exact:
  "should_skip_llm th context \<longleftrightarrow>
     (\<forall>out. lo_action (sr_output (validate_signal_semantics th context out)) = HOLD)"
proof
  let ?out = "\<lambda>a. \<lparr>lo_action = a, lo_confidence = 0, lo_reasoning = UnknownPnl, lo_key_indicators = [],
                   lo_invalidation_condition = ExitBarNeeded\<rparr> :: LLMOutput"
  assume "\<forall>out. lo_action (sr_output (validate_signal_semantics th context out)) = HOLD"
  then have "lo_action (sr_output (validate_signal_semantics th context (?out a))) = HOLD" for a by blast
  from this[of SELL] this[of BUY] show "should_skip_llm th context"
    unfolding action_cases[of "lo_action _"] by (auto simp: prefilter_skips_iff semantic_action)
qed (simp add: skipped_is_hold)

end
