(* ===== verification/Llm_Pipeline.thy ===== *)
theory Llm_Pipeline
  imports Llm_Validation
begin

text \<open>
  \<open>llm_service/app\<close>: the LLM client with its retry and time budget, the repair loop of
  \<open>ResponseValidator\<close>, the signal generator and \<open>AnalysisPipeline.run\<close>.  The provider is an oracle
  over the requests already sent; the state of a run is that history.  A prompt is kept as what it is
  built from, not as its text.
\<close>

section \<open>The client\<close>

datatype LLMRequest =
    AnalysisPrompt AnalyzeRequest "SelectedStrategy option"
  | RepairPrompt AnalyzeRequest "SelectedStrategy option" string string

datatype provider_reply = Text string | ProviderRaises

text \<open>What a provider call does when nothing cuts it off, and how many seconds it takes.\<close>

type_synonym provider = "LLMRequest list \<Rightarrow> LLMRequest \<Rightarrow> provider_reply \<times> rat"

record LLMResponse =
  lr_raw_text :: "string option"
  lr_failure_reason :: "string option"

definition llm_ok :: "string \<Rightarrow> LLMResponse" where
  "llm_ok t = \<lparr>lr_raw_text = Some t, lr_failure_reason = None\<rparr>"

definition llm_failed :: "string \<Rightarrow> LLMResponse" where
  "llm_failed reason = \<lparr>lr_raw_text = None, lr_failure_reason = Some reason\<rparr>"

definition llm_generate ::
    "provider \<Rightarrow> rat \<Rightarrow> LLMRequest \<Rightarrow> LLMRequest list \<Rightarrow> LLMResponse \<times> LLMRequest list" where
  "llm_generate provider timeout_seconds request h =
     (case provider h request of
        (reply, d1) \<Rightarrow>
          if d1 \<ge> timeout_seconds then (llm_failed ''llm_timeout'', h @ [request])
          else case reply of
            Text t \<Rightarrow> (llm_ok t, h @ [request])
          | ProviderRaises \<Rightarrow>
              (let remaining = flt (timeout_seconds - d1)
               in if remaining < flt (timeout_seconds / 2)
                  then (llm_failed ''provider_error'', h @ [request])
                  else if d1 + 1 \<ge> timeout_seconds then (llm_failed ''llm_timeout'', h @ [request])
                  else case provider (h @ [request]) request of
                    (reply2, d2) \<Rightarrow>
                      (if d1 + 1 + d2 \<ge> timeout_seconds then llm_failed ''llm_timeout''
                       else case reply2 of
                         Text t \<Rightarrow> llm_ok t
                       | ProviderRaises \<Rightarrow> llm_failed ''provider_error'', h @ [request, request])))"

section \<open>The response validator\<close>

record ValidationResult =
  vr_is_valid :: bool
  vr_output :: "LLMOutput option"
  vr_original_action :: "Action option"
  vr_failure_reason :: "string option"
  vr_action_changed :: bool
  vr_exit_confirmations :: "exit_confirmation list"
  vr_repair_attempted :: bool
  vr_final_raw_text :: string

definition invalid_result :: "string \<Rightarrow> bool \<Rightarrow> string \<Rightarrow> ValidationResult" where
  "invalid_result reason repaired raw =
     \<lparr>vr_is_valid = False, vr_output = None, vr_original_action = None, vr_failure_reason = Some reason,
      vr_action_changed = False, vr_exit_confirmations = [], vr_repair_attempted = repaired,
      vr_final_raw_text = raw\<rparr>"

text \<open>The loop with \<open>n\<close> repair attempts left; it ends with the text that parsed or a failed result.\<close>

type_synonym repair_fn = "string \<Rightarrow> string \<Rightarrow> LLMRequest list \<Rightarrow> string option \<times> LLMRequest list"

fun repair_loop ::
    "parser \<Rightarrow> repair_fn \<Rightarrow> nat \<Rightarrow> bool \<Rightarrow> string \<Rightarrow> LLMRequest list
     \<Rightarrow> (ValidationResult + (LLMOutput \<times> string \<times> bool)) \<times> LLMRequest list" where
  "repair_loop p repair n repaired raw h =
     (case parse_llm_response p raw of
        Inr out \<Rightarrow> (Inr (out, raw, repaired), h)
      | Inl reason \<Rightarrow>
          (case n of
             0 \<Rightarrow> (Inl (invalid_result reason repaired raw), h)
           | Suc m \<Rightarrow>
               (case repair raw reason h of
                  (None, h') \<Rightarrow> (Inl (invalid_result reason True raw), h')
                | (Some raw', h') \<Rightarrow> repair_loop p repair m True raw' h')))"

declare repair_loop.simps [simp del]

definition validate_response ::
    "parser \<Rightarrow> exit_thresholds \<Rightarrow> int \<Rightarrow> string \<Rightarrow> MarketContext \<Rightarrow> repair_fn \<Rightarrow> LLMRequest list
     \<Rightarrow> ValidationResult \<times> LLMRequest list" where
  "validate_response p th max_repair_attempts raw context repair h =
     (case repair_loop p repair (nat max_repair_attempts) False raw h of
        (Inl failed, h') \<Rightarrow> (failed, h')
      | (Inr (out, final, repaired), h') \<Rightarrow>
          (let r = validate_signal_semantics th context out
           in (\<lparr>vr_is_valid = True, vr_output = Some (sr_output r), vr_original_action = Some (lo_action out),
                vr_failure_reason = None, vr_action_changed = sr_action_changed r,
                vr_exit_confirmations = sr_exit_confirmations r, vr_repair_attempted = repaired,
                vr_final_raw_text = final\<rparr>, h')))"

section \<open>The signal generator\<close>

text \<open>The diagnostic object; \<open>None\<close> is the \<open>null\<close> of a total provider failure.\<close>

record raw_response =
  rr_raw :: string
  rr_actions :: "(Action \<times> Action) option"        \<comment> \<open>model and semantic action\<close>
  rr_exit_confirmations :: "exit_confirmation list"
  rr_strategy :: "(StrategyName \<times> strategy_reason) option"
  rr_generated_at :: "datetime option"

record TradingSignal =
  tsg_symbol :: string
  tsg_timeframe :: string
  tsg_candle_ts :: string
  tsg_action :: Action
  tsg_confidence :: rat
  tsg_reasoning :: reasoning
  tsg_model_name :: string
  tsg_raw_response :: "raw_response option"
  tsg_status :: SignalStatus
  tsg_trade_score :: int
  tsg_score_breakdown :: TradeScoreResult
  tsg_setup_regime :: StrategyName
  tsg_volatility_regime :: VolatilityRegime

definition enrich :: "raw_response option \<Rightarrow> SelectedStrategy \<Rightarrow> datetime \<Rightarrow> raw_response option" where
  "enrich raw strategy now =
     map_option (\<lambda>r. r\<lparr>rr_strategy := Some (st_strategy strategy, st_reasoning strategy),
                       rr_generated_at := Some now\<rparr>) raw"

record journal =
  jo_strategy :: SelectedStrategy
  jo_volatility :: VolatilityRegime
  jo_score :: TradeScoreResult
  jo_now :: datetime

definition make_signal ::
    "MarketContext \<Rightarrow> Action \<Rightarrow> rat \<Rightarrow> reasoning \<Rightarrow> string \<Rightarrow> raw_response option \<Rightarrow> journal \<Rightarrow> TradingSignal" where
  "make_signal context act conf reason model raw j =
     (let rq = mc_request context
      in \<lparr>tsg_symbol = rq_symbol rq, tsg_timeframe = rq_timeframe rq,
          tsg_candle_ts = rq_candle_close_time rq, tsg_action = act, tsg_confidence = conf,
          tsg_reasoning = reason, tsg_model_name = model,
          tsg_raw_response = enrich raw (jo_strategy j) (jo_now j), tsg_status = PENDING,
          tsg_trade_score = ts_total (jo_score j), tsg_score_breakdown = jo_score j,
          tsg_setup_regime = st_strategy (jo_strategy j), tsg_volatility_regime = jo_volatility j\<rparr>)"

definition build_hold ::
    "MarketContext \<Rightarrow> reasoning \<Rightarrow> string \<Rightarrow> raw_response option \<Rightarrow> journal \<Rightarrow> TradingSignal" where
  "build_hold context reason model raw j = make_signal context HOLD 0 reason model raw j"

definition build_signal ::
    "MarketContext \<Rightarrow> LLMOutput \<Rightarrow> string \<Rightarrow> raw_response option \<Rightarrow> journal \<Rightarrow> TradingSignal" where
  "build_signal context out model raw j =
     make_signal context (lo_action out) (lo_confidence out) (lo_reasoning out) model raw j"

section \<open>The pipeline\<close>

record llm_service =
  ls_provider :: provider
  ls_model_name :: string
  ls_parser :: parser
  ls_thresholds :: exit_thresholds
  ls_timeout_seconds :: rat
  ls_max_repair_attempts :: int
  ls_include_strategy :: bool
  ls_prefilter_enabled :: bool
  ls_assumed_reward_multiple :: rat

definition analysis_prompt :: "llm_service \<Rightarrow> MarketContext \<Rightarrow> SelectedStrategy \<Rightarrow> LLMRequest" where
  "analysis_prompt s context strategy =
     AnalysisPrompt (mc_request context) (if ls_include_strategy s then Some strategy else None)"

definition repair_prompt ::
    "llm_service \<Rightarrow> MarketContext \<Rightarrow> SelectedStrategy \<Rightarrow> string \<Rightarrow> string \<Rightarrow> LLMRequest" where
  "repair_prompt s context strategy bad reason =
     RepairPrompt (mc_request context) (if ls_include_strategy s then Some strategy else None) bad reason"

definition repair_call :: "llm_service \<Rightarrow> MarketContext \<Rightarrow> SelectedStrategy \<Rightarrow> repair_fn" where
  "repair_call s context strategy bad reason h =
     (case llm_generate (ls_provider s) (ls_timeout_seconds s) (repair_prompt s context strategy bad reason) h of
        (r, h') \<Rightarrow> (if lr_failure_reason r = None then lr_raw_text r else None, h'))"

definition journal_of :: "llm_service \<Rightarrow> MarketContext \<Rightarrow> datetime \<Rightarrow> journal" where
  "journal_of s context now =
     (let strategy = select_strategy context; regime = classify_volatility context
      in \<lparr>jo_strategy = strategy, jo_volatility = regime,
          jo_score = trade_score (ls_assumed_reward_multiple s) context strategy regime, jo_now = now\<rparr>)"

definition run_pipeline ::
    "llm_service \<Rightarrow> AnalyzeRequest \<Rightarrow> datetime \<Rightarrow> LLMRequest list \<Rightarrow> TradingSignal \<times> LLMRequest list" where
  "run_pipeline s request now h =
     (let context = build_context request;
          strategy = select_strategy context;
          j = journal_of s context now
      in if ls_prefilter_enabled s \<and> should_skip_llm (ls_thresholds s) context
         then (build_hold context (hold_reason context) PREFILTER_MODEL_NAME None j, h)
         else case llm_generate (ls_provider s) (ls_timeout_seconds s) (analysis_prompt s context strategy) h of
           (response, h) \<Rightarrow>
             (case lr_failure_reason response of
                Some reason \<Rightarrow> (build_hold context (FailureReason reason) (ls_model_name s) None j, h)
              | None \<Rightarrow>
                  (case validate_response (ls_parser s) (ls_thresholds s) (ls_max_repair_attempts s)
                          (the (lr_raw_text response)) context (repair_call s context strategy) h of
                     (validation, h) \<Rightarrow>
                       if \<not> vr_is_valid validation
                       then (build_hold context (FailureReason (the (vr_failure_reason validation)))
                               (ls_model_name s)
                               (Some \<lparr>rr_raw = vr_final_raw_text validation, rr_actions = None,
                                      rr_exit_confirmations = [], rr_strategy = None, rr_generated_at = None\<rparr>) j, h)
                       else (build_signal context (the (vr_output validation)) (ls_model_name s)
                               (Some \<lparr>rr_raw = vr_final_raw_text validation,
                                      rr_actions = Some (the (vr_original_action validation),
                                                         lo_action (the (vr_output validation))),
                                      rr_exit_confirmations = vr_exit_confirmations validation,
                                      rr_strategy = None, rr_generated_at = None\<rparr>) j, h))))"

section \<open>Properties\<close>

lemma llm_generate_result:
  assumes "llm_generate pr t rq h = (r, h')"
  shows "(\<exists>reason. r = llm_failed reason) \<or> (\<exists>text. r = llm_ok text)"
    and "h' = h @ [rq] \<or> h' = h @ [rq, rq]"
  using assms
  by (auto simp: llm_generate_def Let_def split: prod.splits provider_reply.splits if_splits)

lemma llm_generate_length:
  "llm_generate pr t rq h = (r, h') \<Longrightarrow> length h' \<le> length h + 2 \<and> length h + 1 \<le> length h'"
  using llm_generate_result(2) by fastforce

lemma repair_loop_valid:
  "repair_loop p repair n b raw h = (Inr (out, final, b'), h') \<Longrightarrow> parse_llm_response p final = Inr out"
proof (induction n arbitrary: b raw h)
  case 0
  then show ?case by (subst (asm) repair_loop.simps) (auto split: sum.splits)
next
  case (Suc n)
  from Suc.prems Suc.IH show ?case
    by (subst (asm) repair_loop.simps) (auto split: sum.splits prod.splits option.splits)
qed

lemma repair_loop_invalid:
  "repair_loop p repair n b raw h = (Inl v, h') \<Longrightarrow> \<not> vr_is_valid v"
proof (induction n arbitrary: b raw h)
  case 0
  then show ?case by (subst (asm) repair_loop.simps) (auto simp: invalid_result_def split: sum.splits)
next
  case (Suc n)
  from Suc.prems Suc.IH show ?case
    by (subst (asm) repair_loop.simps)
       (auto simp: invalid_result_def split: sum.splits prod.splits option.splits)
qed

lemma repair_loop_calls:
  assumes "\<And>a b h x h'. repair a b h = (x, h') \<Longrightarrow> length h' \<le> length h + k"
  shows "repair_loop p repair n b raw h = (r, h') \<Longrightarrow> length h' \<le> length h + k * n"
proof (induction n arbitrary: b raw h)
  case 0
  then show ?case by (subst (asm) repair_loop.simps) (auto split: sum.splits)
next
  case (Suc n)
  show ?case
  proof (cases "parse_llm_response p raw")
    case (Inr out)
    with Suc.prems show ?thesis by (subst (asm) repair_loop.simps) simp
  next
    case (Inl reason)
    obtain x h1 where rep: "repair raw reason h = (x, h1)" by fastforce
    note len = assms[OF rep]
    show ?thesis
    proof (cases x)
      case None
      with Suc.prems Inl rep len show ?thesis by (subst (asm) repair_loop.simps) auto
    next
      case (Some raw')
      with Suc.prems Inl rep have "repair_loop p repair n True raw' h1 = (r, h')"
        by (subst (asm) repair_loop.simps) simp
      from Suc.IH[OF this] len show ?thesis by simp
    qed
  qed
qed

text \<open>The three outcomes of a run.\<close>

lemma run_pipeline_cases:
  assumes "run_pipeline s request now h = (signal, h')"
  obtains (skipped) "ls_prefilter_enabled s" "should_skip_llm (ls_thresholds s) (build_context request)"
      "h' = h" "tsg_action signal = HOLD" "tsg_confidence signal = 0"
  | (failed) "tsg_action signal = HOLD" "tsg_confidence signal = 0"
  | (answered) final out where "parse_llm_response (ls_parser s) final = Inr out"
      "tsg_action signal =
         lo_action (sr_output (validate_signal_semantics (ls_thresholds s) (build_context request) out))"
      "tsg_confidence signal =
         lo_confidence (sr_output (validate_signal_semantics (ls_thresholds s) (build_context request) out))"
proof -
  let ?c = "build_context request"
  let ?st = "select_strategy ?c"
  show thesis
  proof (cases "ls_prefilter_enabled s \<and> should_skip_llm (ls_thresholds s) ?c")
    case True
    with assms that(1) show thesis
      by (auto simp: run_pipeline_def build_hold_def make_signal_def Let_def)
  next
    case False
    obtain r h1 where g: "llm_generate (ls_provider s) (ls_timeout_seconds s) (analysis_prompt s ?c ?st) h = (r, h1)"
      by fastforce
    show thesis
    proof (cases "lr_failure_reason r")
      case (Some reason)
      with assms False g that(2) show thesis
        by (auto simp: run_pipeline_def build_hold_def make_signal_def Let_def)
    next
      case None
      obtain v h2 where v: "validate_response (ls_parser s) (ls_thresholds s) (ls_max_repair_attempts s)
          (the (lr_raw_text r)) ?c (repair_call s ?c ?st) h1 = (v, h2)" by fastforce
      show thesis
      proof (cases "vr_is_valid v")
        case invalid: False
        with assms False g None v that(2) show thesis
          by (auto simp: run_pipeline_def build_hold_def make_signal_def Let_def)
      next
        case True
        then obtain "out" final b where
          rl: "repair_loop (ls_parser s) (repair_call s ?c ?st) (nat (ls_max_repair_attempts s)) False
             (the (lr_raw_text r)) h1 = (Inr (out, final, b), h2)"
          and vo: "vr_output v = Some (sr_output (validate_signal_semantics (ls_thresholds s) ?c out))"
          using v repair_loop_invalid by (fastforce simp: validate_response_def Let_def split: prod.splits sum.splits)
        with assms False g None v True that(3)[OF repair_loop_valid[OF rl]] show thesis
          by (auto simp: run_pipeline_def build_signal_def make_signal_def Let_def)
      qed
    qed
  qed
qed

text \<open>
  C11. The service never makes up a trade: whatever the provider answers, fails or garbles, a BUY it
  returns is the action of some structurally valid response and the entry rubric holds of the request
  (no open position, three confirmations with trend and momentum among them, not trend following), and
  a SELL is for an open position that breaches the hard loss cut-off or, on a valid SELL response, meets
  the exit rubric.  Everything else is a HOLD.
\<close>

theorem pipeline_never_fabricates:
  assumes "run_pipeline s request now h = (signal, h')" "tsg_action signal \<noteq> HOLD"
  shows "\<exists>final out. parse_llm_response (ls_parser s) final = Inr out \<and>
    (tsg_action signal = BUY \<longrightarrow> lo_action out = BUY \<and> entry_allowed (build_context request) \<and>
       tsg_confidence signal = lo_confidence out) \<and>
    (tsg_action signal = SELL \<longrightarrow>
       hard_loss (ls_thresholds s) (rq_position_context request) \<or>
       lo_action out = SELL \<and> exit_allowed (ls_thresholds s) (build_context request))"
  using assms(1)
proof (cases rule: run_pipeline_cases)
  case (answered final out)
  have "mc_request (build_context request) = request" by (simp add: build_context_def Let_def)
  with answered semantic_action[of "ls_thresholds s" "build_context request" out] show ?thesis
    by (intro exI[of _ final] exI[of _ out]) auto
qed (use assms(2) in simp_all)

text \<open>
  Switching the pre-filter on changes no decision: for the same provider the two services return the
  same action with the filter and without it, and whenever the filter skips the call the unfiltered
  service would have answered HOLD.
\<close>

theorem prefilter_transparent:
  shows "tsg_action (fst (run_pipeline (s\<lparr>ls_prefilter_enabled := True\<rparr>) request now h))
       = tsg_action (fst (run_pipeline (s\<lparr>ls_prefilter_enabled := False\<rparr>) request now h))"
proof (cases "should_skip_llm (ls_thresholds s) (build_context request)")
  case False
  have "repair_call (s\<lparr>ls_prefilter_enabled := True\<rparr>) c st = repair_call (s\<lparr>ls_prefilter_enabled := False\<rparr>) c st"
    "analysis_prompt (s\<lparr>ls_prefilter_enabled := True\<rparr>) c st = analysis_prompt (s\<lparr>ls_prefilter_enabled := False\<rparr>) c st"
    "journal_of (s\<lparr>ls_prefilter_enabled := True\<rparr>) c now = journal_of (s\<lparr>ls_prefilter_enabled := False\<rparr>) c now" for c st
    by (simp_all add: repair_call_def repair_prompt_def analysis_prompt_def journal_of_def fun_eq_iff)
  with False show ?thesis
    by (simp add: run_pipeline_def Let_def cong: option.case_cong prod.case_cong if_cong)
next
  case True
  obtain signal h' where run: "run_pipeline (s\<lparr>ls_prefilter_enabled := False\<rparr>) request now h = (signal, h')"
    by fastforce
  then have "tsg_action signal = HOLD"
    by (cases rule: run_pipeline_cases) (use True skipped_is_hold in simp_all)
  with True run show ?thesis
    by (simp add: run_pipeline_def build_hold_def make_signal_def Let_def)
qed

text \<open>
  C14. A run always answers, with a bounded number of provider calls: none when the pre-filter skips it,
  otherwise at least one and at most two (one retry) for the analysis and for each permitted repair, so
  at most two under the shipped setting of no repairs.  The prompt of the first call is the analysis
  prompt of this request.
\<close>

theorem provider_calls_bounded:
  assumes "run_pipeline s request now h = (signal, h')"
  shows "if ls_prefilter_enabled s \<and> should_skip_llm (ls_thresholds s) (build_context request) then h' = h
         else length h + 1 \<le> length h' \<and> length h' \<le> length h + 2 + 2 * nat (ls_max_repair_attempts s)"
proof -
  let ?c = "build_context request"
  let ?st = "select_strategy ?c"
  have rep: "length h'' \<le> length ha + 2" if "repair_call s ?c ?st a b ha = (x, h'')" for a b ha x h''
    using that llm_generate_length by (fastforce simp: repair_call_def split: prod.splits)
  have rep1: "length ha \<le> length h''" if "repair_call s ?c ?st a b ha = (x, h'')" for a b ha x h''
    using that llm_generate_length by (fastforce simp: repair_call_def split: prod.splits)
  have grow: "length ha \<le> length hb"
    if "repair_loop (ls_parser s) (repair_call s ?c ?st) n b raw ha = (r, hb)" for n b raw ha r hb
    using that
  proof (induction n arbitrary: b raw ha)
    case 0
    then show ?case by (subst (asm) repair_loop.simps) (auto split: sum.splits)
  next
    case (Suc n)
    from Suc.prems show ?case
      by (subst (asm) repair_loop.simps)
         (auto split: sum.splits prod.splits option.splits dest!: rep1 Suc.IH)
  qed
  show ?thesis
  proof (cases "ls_prefilter_enabled s \<and> should_skip_llm (ls_thresholds s) ?c")
    case True
    with assms show ?thesis by (simp add: run_pipeline_def Let_def)
  next
    case False
    obtain r h1 where g: "llm_generate (ls_provider s) (ls_timeout_seconds s) (analysis_prompt s ?c ?st) h = (r, h1)"
      by fastforce
    note len1 = llm_generate_length[OF g]
    show ?thesis
    proof (cases "lr_failure_reason r")
      case (Some reason)
      with assms False g have "h' = h1" by (simp add: run_pipeline_def Let_def)
      with len1 show ?thesis unfolding if_not_P[OF False] by simp
    next
      case None
      obtain v h2 where v: "validate_response (ls_parser s) (ls_thresholds s) (ls_max_repair_attempts s)
          (the (lr_raw_text r)) ?c (repair_call s ?c ?st) h1 = (v, h2)" by fastforce
      obtain rr where rl: "repair_loop (ls_parser s) (repair_call s ?c ?st) (nat (ls_max_repair_attempts s)) False
          (the (lr_raw_text r)) h1 = (rr, h2)"
        using v by (auto simp: validate_response_def Let_def split: prod.splits sum.splits)
      have "h' = h2" using assms False g None v by (auto simp: run_pipeline_def Let_def split: if_splits)
      have "length h2 \<le> length h1 + 2 * nat (ls_max_repair_attempts s)"
        by (rule repair_loop_calls[OF _ rl]) (rule rep)
      with \<open>h' = h2\<close> len1 grow[OF rl] show ?thesis unfolding if_not_P[OF False] by simp
    qed
  qed
qed

section \<open>A sample request\<close>

definition sample_request :: AnalyzeRequest where
  "sample_request =
     \<lparr>rq_symbol = ''BTC/USDT'', rq_timeframe = ''30m'', rq_candle_close_time = ''t'',
      rq_ohlcv = [\<lparr>ca_t = [], ca_o = 100, ca_h = 101, ca_l = 99, ca_c = 100, ca_v = 10\<rparr>,
                  \<lparr>ca_t = [], ca_o = 100, ca_h = 102, ca_l = 100, ca_c = 101, ca_v = 12\<rparr>],
      rq_indicators = \<lparr>in_rsi_14 = 55, in_ema_50 = 100, in_ema_200 = 199 / 2,
        in_macd = \<lparr>macd_macd = 1, macd_signal = 1 / 2, macd_histogram = 1 / 8\<rparr>,
        in_atr_14 = 1, in_volume_sma_20 = 11\<rparr>,
      rq_sentiment = None,
      rq_position_context = \<lparr>pc_has_open_position = False, pc_unrealized_pnl_pct = None\<rparr>,
      rq_provider_override = None\<rparr>"

text \<open>A provider that always answers with the same text, which parses to a confident BUY.\<close>

definition sample_service :: llm_service where
  "sample_service =
     \<lparr>ls_provider = (\<lambda>h rq. (Text ''answer'', 20)), ls_model_name = ''ollama:m'',
      ls_parser = \<lparr>json_loads = (\<lambda>t. Some (JObj [(''action'', JStr ''BUY''), (''confidence'', JNum (3 / 4)),
          (''reasoning'', JStr ''up''), (''invalidation_condition'', JStr ''down'')])),
        dq_validate = (\<lambda>data. Some (True, [])),
        lax_float = (\<lambda>j. case j of JNum x \<Rightarrow> Some x | _ \<Rightarrow> None)\<rparr>,
      ls_thresholds = \<lparr>th_min_exit_profit_pct = 5 / 1000, th_min_exit_loss_pct = 5 / 1000,
        th_hard_loss_cut_pct = 15 / 1000\<rparr>,
      ls_timeout_seconds = 450, ls_max_repair_attempts = 0, ls_include_strategy = True,
      ls_prefilter_enabled = True, ls_assumed_reward_multiple = 2\<rparr>"

lemma sample_run: "tsg_action (fst (run_pipeline sample_service sample_request 0 [])) = BUY"
  by code_simp

theorem pipeline_never_fabricates_witness:
  "entry_allowed (build_context sample_request)"
proof -
  obtain signal h' where run: "run_pipeline sample_service sample_request 0 [] = (signal, h')" by fastforce
  with sample_run have "tsg_action signal = BUY" by simp
  with pipeline_never_fabricates[OF run] show ?thesis by auto
qed

theorem provider_calls_bounded_witness:
  "length (snd (run_pipeline sample_service sample_request 0 [])) \<le> 2"
proof -
  obtain signal h' where run: "run_pipeline sample_service sample_request 0 [] = (signal, h')" by fastforce
  from provider_calls_bounded[OF run] run show ?thesis
    by (simp add: sample_service_def split: if_splits)
qed

end
