(* ===== verification/Llm_Config.thy ===== *)
theory Llm_Config
  imports Domain
begin

text \<open>
  The LLM settings an operator may change: \<open>common/llm_config_store.py\<close> and the \<open>/config/llm\<close>
  endpoints of \<open>admin_api/app/routers/config.py\<close>.  A partial document (the stored overrides, the
  body of a patch, the override on the wire) has one optional value per overridable field; storing a
  key is having a value.
\<close>

record EffectiveLLMConfig =
  ec_llm_provider :: string
  ec_anthropic_model :: string
  ec_ollama_model :: string
  ec_ollama_temperature :: rat

text \<open>\<open>LLMServiceSettings\<close>: the overridable fields and those that stay with the service.\<close>

record LLMServiceSettings = EffectiveLLMConfig +
  sv_min_exit_profit_pct :: rat
  sv_min_exit_loss_pct :: rat
  sv_hard_loss_cut_pct :: rat
  sv_analyze_timeout_seconds :: rat
  sv_max_repair_attempts :: int
  sv_include_strategy_context_in_prompt :: bool
  sv_assumed_reward_multiple :: rat
  sv_llm_prefilter_enabled :: bool

definition LLMServiceSettings_defaults :: LLMServiceSettings where
  "LLMServiceSettings_defaults =
     \<lparr>ec_llm_provider = ''anthropic'', ec_anthropic_model = ''claude-sonnet-5'',
      ec_ollama_model = ''qwen2.5:7b'', ec_ollama_temperature = flt (4 / 10),
      sv_min_exit_profit_pct = flt (5 / 1000), sv_min_exit_loss_pct = flt (5 / 1000),
      sv_hard_loss_cut_pct = flt (15 / 1000), sv_analyze_timeout_seconds = 450,
      sv_max_repair_attempts = 0, sv_include_strategy_context_in_prompt = True,
      sv_assumed_reward_multiple = 2, sv_llm_prefilter_enabled = True\<rparr>"

definition no_overrides :: llm_overrides where
  "no_overrides = \<lparr>ov_llm_provider = None, ov_anthropic_model = None, ov_ollama_model = None,
                   ov_ollama_temperature = None\<rparr>"

definition or_else :: "'a option \<Rightarrow> 'a \<Rightarrow> 'a" where
  "or_else v x = (case v of None \<Rightarrow> x | Some y \<Rightarrow> y)"

lemma or_else_simps [simp]: "or_else None x = x" "or_else (Some y) x = y"
  by (simp_all add: or_else_def)

definition orelse :: "'a option \<Rightarrow> 'a option \<Rightarrow> 'a option" where
  "orelse v x = (case v of None \<Rightarrow> x | Some y \<Rightarrow> Some y)"

lemma orelse_simps [simp]: "orelse None x = x" "orelse (Some y) x = Some y" "orelse x None = x"
  by (simp_all add: orelse_def split: option.split)

lemma or_else_orelse [simp]: "or_else (orelse v x) y = or_else v (or_else x y)"
  by (cases v) simp_all

text \<open>\<open>{**old, **patch}\<close>, and the same laid over a complete configuration.\<close>

definition merge_overrides :: "llm_overrides \<Rightarrow> llm_overrides \<Rightarrow> llm_overrides" where
  "merge_overrides old patch =
     \<lparr>ov_llm_provider = orelse (ov_llm_provider patch) (ov_llm_provider old),
      ov_anthropic_model = orelse (ov_anthropic_model patch) (ov_anthropic_model old),
      ov_ollama_model = orelse (ov_ollama_model patch) (ov_ollama_model old),
      ov_ollama_temperature = orelse (ov_ollama_temperature patch) (ov_ollama_temperature old)\<rparr>"

definition override_config :: "('a EffectiveLLMConfig_scheme) \<Rightarrow> llm_overrides \<Rightarrow> ('a EffectiveLLMConfig_scheme)" where
  "override_config c ov =
     c\<lparr>ec_llm_provider := or_else (ov_llm_provider ov) (ec_llm_provider c),
       ec_anthropic_model := or_else (ov_anthropic_model ov) (ec_anthropic_model c),
       ec_ollama_model := or_else (ov_ollama_model ov) (ec_ollama_model c),
       ec_ollama_temperature := or_else (ov_ollama_temperature ov) (ec_ollama_temperature c)\<rparr>"

lemma override_none [simp]: "override_config c no_overrides = c"
  by (simp add: override_config_def no_overrides_def)

lemma override_override:
  "override_config (override_config c old) patch = override_config c (merge_overrides old patch)"
  by (simp add: override_config_def merge_overrides_def)

section \<open>The store\<close>

definition env_defaults :: "LLMServiceSettings \<Rightarrow> EffectiveLLMConfig" where
  "env_defaults env = EffectiveLLMConfig.truncate env"

definition stored_overrides :: "db \<Rightarrow> llm_overrides" where
  "stored_overrides d = (case db_llm_overrides d of None \<Rightarrow> no_overrides | Some ov \<Rightarrow> ov)"

definition load_effective_llm_config :: "LLMServiceSettings \<Rightarrow> db \<Rightarrow> EffectiveLLMConfig" where
  "load_effective_llm_config env d = override_config (env_defaults env) (stored_overrides d)"

definition apply_llm_config_patch ::
    "LLMServiceSettings \<Rightarrow> llm_overrides \<Rightarrow> db \<Rightarrow> EffectiveLLMConfig \<times> db" where
  "apply_llm_config_patch env patch d =
     (let merged = merge_overrides (stored_overrides d) patch
      in (override_config (env_defaults env) merged, d\<lparr>db_llm_overrides := Some merged\<rparr>))"

section \<open>The endpoint\<close>

text \<open>The constraints of \<open>LLMConfigPatch\<close>; a body that violates one is answered 422.\<close>

definition LLMConfigPatch_ok :: "llm_overrides \<Rightarrow> bool" where
  "LLMConfigPatch_ok p \<longleftrightarrow>
     (case ov_llm_provider p of None \<Rightarrow> True | Some x \<Rightarrow> x = ''anthropic'' \<or> x = ''ollama'') \<and>
     (case ov_ollama_temperature p of None \<Rightarrow> True | Some x \<Rightarrow> 0 \<le> x \<and> x \<le> 2)"

datatype llm_config_error = LLM_HTTP_422 | LLM_HTTP_400

definition patch_llm_config ::
    "LLMServiceSettings \<Rightarrow> llm_overrides \<Rightarrow> nat \<Rightarrow> json \<Rightarrow> datetime \<Rightarrow> db \<Rightarrow>
     llm_config_error + (EffectiveLLMConfig \<times> db)" where
  "patch_llm_config env patch trace_id changes now d =
     (if \<not> LLMConfigPatch_ok patch then Inl LLM_HTTP_422
      else if patch = no_overrides then Inl LLM_HTTP_400
      else (case apply_llm_config_patch env patch d of
        (effective, d) \<Rightarrow>
          Inr (effective, add_audit trace_id CONFIG_CHANGED
                 [(''changes'', changes), (''scope'', JStr ''llm'')] now d)))"

section \<open>Properties\<close>

lemma load_after_llm_patch:
  assumes "patch_llm_config env patch tr doc now d = Inr (effective, d')"
  shows "load_effective_llm_config env d' = effective"
    and "effective = override_config (load_effective_llm_config env d) patch"
  using assms
  by (auto simp: patch_llm_config_def apply_llm_config_patch_def load_effective_llm_config_def
      stored_overrides_def override_override add_audit_def Let_def split: if_splits)

lemma patch_llm_config_frame:
  assumes "patch_llm_config env patch tr doc now d = Inr (effective, d')"
  shows "d' = add_audit tr CONFIG_CHANGED [(''changes'', doc), (''scope'', JStr ''llm'')] now
                (d\<lparr>db_llm_overrides := Some (merge_overrides (stored_overrides d) patch)\<rparr>)"
  using assms by (auto simp: patch_llm_config_def apply_llm_config_patch_def Let_def split: if_splits)

text \<open>The provider stays one the service can build, as long as the environment names one.\<close>

definition known_provider :: "string \<Rightarrow> bool" where
  "known_provider x \<longleftrightarrow> x = ''anthropic'' \<or> x = ''ollama''"

definition stored_ok :: "db \<Rightarrow> bool" where
  "stored_ok d \<longleftrightarrow> LLMConfigPatch_ok (stored_overrides d)"

lemma patch_keeps_stored_ok:
  assumes "patch_llm_config env patch tr doc now d = Inr (effective, d')" "stored_ok d"
  shows "stored_ok d'"
proof -
  have "LLMConfigPatch_ok patch" using assms(1) by (auto simp: patch_llm_config_def split: if_splits)
  with assms(2) have "LLMConfigPatch_ok (merge_overrides (stored_overrides d) patch)"
    by (auto simp: stored_ok_def LLMConfigPatch_ok_def merge_overrides_def split: option.splits)
  then show ?thesis
    unfolding patch_llm_config_frame[OF assms(1)] by (simp add: stored_ok_def stored_overrides_def add_audit_def)
qed

lemma effective_ok:
  assumes "stored_ok d" "known_provider (ec_llm_provider env)"
  shows "known_provider (ec_llm_provider (load_effective_llm_config env d))"
  using assms
  by (auto simp: stored_ok_def LLMConfigPatch_ok_def known_provider_def load_effective_llm_config_def
      override_config_def env_defaults_def EffectiveLLMConfig.defs split: option.splits)

end
