(* ===== verification/Risk_Config.thy ===== *)
theory Risk_Config
  imports Domain
begin

text \<open>
  \<open>RiskConfig\<close> (\<open>services/common/config.py\<close>), its persisted overrides
  (\<open>services/common/risk_config_store.py\<close>) and the \<open>PATCH /config\<close> route
  (\<open>services/admin_api/app/routers/config.py\<close>).  The environment is the argument \<open>env\<close>: the
  value \<open>RiskConfig()\<close> has in the running process; \<open>RiskConfig_defaults\<close> is that value in an
  empty environment.  pydantic's coercions are modelled for the values the store writes: a
  Decimal field takes a Decimal, its text or an int; an int field an int; a bool field a bool;
  anything else is a \<open>ValidationError\<close>.
\<close>

record RiskConfig =
  risk_per_trade_pct :: rat
  max_position_pct :: rat
  max_total_exposure_pct :: rat
  max_open_positions :: int
  max_daily_loss_pct :: rat
  consecutive_loss_limit :: int
  consecutive_loss_cluster_minutes :: int
  cooldown_minutes :: int
  min_confidence :: rat
  min_confidence_size_scale :: rat
  signal_max_age_minutes :: int
  atr_stop_multiplier :: rat
  min_stop_loss_pct :: rat
  max_stop_loss_pct :: rat
  dry_run :: bool
  estimated_fee_pct :: rat
  expectancy_filter_enabled :: bool
  expectancy_min_sample_size :: int
  expectancy_min_r :: rat

definition RiskConfig_defaults :: RiskConfig where
  "RiskConfig_defaults =
     \<lparr>risk_per_trade_pct = 1 / 100, max_position_pct = 5 / 100, max_total_exposure_pct = 20 / 100,
      max_open_positions = 2, max_daily_loss_pct = 3 / 100, consecutive_loss_limit = 3,
      consecutive_loss_cluster_minutes = 60, cooldown_minutes = 120, min_confidence = 70 / 100,
      min_confidence_size_scale = 5 / 10, signal_max_age_minutes = 65, atr_stop_multiplier = 2,
      min_stop_loss_pct = 15 / 1000, max_stop_loss_pct = 8 / 100, dry_run = True,
      estimated_fee_pct = 1 / 1000, expectancy_filter_enabled = False,
      expectancy_min_sample_size = 30, expectancy_min_r = 0\<rparr>"

text \<open>\<open>model_dump()\<close>: every field under its name.\<close>

fun model_dump :: "RiskConfig \<Rightarrow> (config_field \<rightharpoonup> config_value)" where
  "model_dump c F_risk_per_trade_pct = Some (CDec (risk_per_trade_pct c))"
| "model_dump c F_max_position_pct = Some (CDec (max_position_pct c))"
| "model_dump c F_max_total_exposure_pct = Some (CDec (max_total_exposure_pct c))"
| "model_dump c F_max_open_positions = Some (CInt (max_open_positions c))"
| "model_dump c F_max_daily_loss_pct = Some (CDec (max_daily_loss_pct c))"
| "model_dump c F_consecutive_loss_limit = Some (CInt (consecutive_loss_limit c))"
| "model_dump c F_consecutive_loss_cluster_minutes = Some (CInt (consecutive_loss_cluster_minutes c))"
| "model_dump c F_cooldown_minutes = Some (CInt (cooldown_minutes c))"
| "model_dump c F_min_confidence = Some (CDec (min_confidence c))"
| "model_dump c F_min_confidence_size_scale = Some (CDec (min_confidence_size_scale c))"
| "model_dump c F_signal_max_age_minutes = Some (CInt (signal_max_age_minutes c))"
| "model_dump c F_atr_stop_multiplier = Some (CDec (atr_stop_multiplier c))"
| "model_dump c F_min_stop_loss_pct = Some (CDec (min_stop_loss_pct c))"
| "model_dump c F_max_stop_loss_pct = Some (CDec (max_stop_loss_pct c))"
| "model_dump c F_dry_run = Some (CBool (dry_run c))"
| "model_dump c F_estimated_fee_pct = Some (CDec (estimated_fee_pct c))"
| "model_dump c F_expectancy_filter_enabled = Some (CBool (expectancy_filter_enabled c))"
| "model_dump c F_expectancy_min_sample_size = Some (CInt (expectancy_min_sample_size c))"
| "model_dump c F_expectancy_min_r = Some (CDec (expectancy_min_r c))"

section \<open>Validation\<close>

fun as_dec :: "config_value \<Rightarrow> rat option" where
  "as_dec (CDec q) = Some q"
| "as_dec (CStr q) = Some q"
| "as_dec (CInt n) = Some (of_int n)"
| "as_dec (CBool b) = None"

fun as_int :: "config_value \<Rightarrow> int option" where
  "as_int (CInt n) = Some n"
| "as_int _ = None"

fun as_bool :: "config_value \<Rightarrow> bool option" where
  "as_bool (CBool b) = Some b"
| "as_bool _ = None"

definition field_of :: "(config_value \<Rightarrow> 'a option) \<Rightarrow> (config_field \<rightharpoonup> config_value) \<Rightarrow> config_field \<Rightarrow> 'a \<Rightarrow> 'a option" where
  "field_of as m k dflt = (case m k of None \<Rightarrow> Some dflt | Some v \<Rightarrow> as v)"

text \<open>
  \<open>RiskConfig(**m)\<close>: a named field overrides the environment, a missing one keeps it; the only
  declared bound is \<open>consecutive_loss_cluster_minutes >= 0\<close>.
\<close>

definition RiskConfig_of :: "RiskConfig \<Rightarrow> (config_field \<rightharpoonup> config_value) \<Rightarrow> py_error + RiskConfig" where
  "RiskConfig_of env m =
     (let a = field_of as_dec m F_risk_per_trade_pct (risk_per_trade_pct env);
          b = field_of as_dec m F_max_position_pct (max_position_pct env);
          c = field_of as_dec m F_max_total_exposure_pct (max_total_exposure_pct env);
          d = field_of as_int m F_max_open_positions (max_open_positions env);
          e = field_of as_dec m F_max_daily_loss_pct (max_daily_loss_pct env);
          f = field_of as_int m F_consecutive_loss_limit (consecutive_loss_limit env);
          g = field_of as_int m F_consecutive_loss_cluster_minutes (consecutive_loss_cluster_minutes env);
          h = field_of as_int m F_cooldown_minutes (cooldown_minutes env);
          i = field_of as_dec m F_min_confidence (min_confidence env);
          j = field_of as_dec m F_min_confidence_size_scale (min_confidence_size_scale env);
          k = field_of as_int m F_signal_max_age_minutes (signal_max_age_minutes env);
          l = field_of as_dec m F_atr_stop_multiplier (atr_stop_multiplier env);
          n = field_of as_dec m F_min_stop_loss_pct (min_stop_loss_pct env);
          p = field_of as_dec m F_max_stop_loss_pct (max_stop_loss_pct env);
          q = field_of as_bool m F_dry_run (dry_run env);
          r = field_of as_dec m F_estimated_fee_pct (estimated_fee_pct env);
          s = field_of as_bool m F_expectancy_filter_enabled (expectancy_filter_enabled env);
          t = field_of as_int m F_expectancy_min_sample_size (expectancy_min_sample_size env);
          u = field_of as_dec m F_expectancy_min_r (expectancy_min_r env)
      in if None \<notin> set [a, b, c, e, i, j, l, n, p, r, u] \<and> None \<notin> set [d, f, g, h, k, t]
            \<and> None \<notin> set [q, s] \<and> 0 \<le> the g
         then Inr \<lparr>risk_per_trade_pct = the a, max_position_pct = the b,
                max_total_exposure_pct = the c, max_open_positions = the d,
                max_daily_loss_pct = the e, consecutive_loss_limit = the f,
                consecutive_loss_cluster_minutes = the g, cooldown_minutes = the h,
                min_confidence = the i, min_confidence_size_scale = the j,
                signal_max_age_minutes = the k, atr_stop_multiplier = the l,
                min_stop_loss_pct = the n, max_stop_loss_pct = the p, dry_run = the q,
                estimated_fee_pct = the r, expectancy_filter_enabled = the s,
                expectancy_min_sample_size = the t, expectancy_min_r = the u\<rparr>
         else Inl ValidationError)"

section \<open>The override store\<close>

definition load_effective_risk_config :: "RiskConfig \<Rightarrow> db \<Rightarrow> py_error + RiskConfig" where
  "load_effective_risk_config env d =
     RiskConfig_of env
       (case db_risk_overrides d of
          None \<Rightarrow> model_dump env
        | Some ov \<Rightarrow> model_dump env ++ ov)"

fun jsonable :: "config_value \<Rightarrow> config_value" where
  "jsonable (CDec q) = CStr q"
| "jsonable v = v"

definition apply_risk_config_patch ::
    "RiskConfig \<Rightarrow> (config_field \<rightharpoonup> config_value) \<Rightarrow> db \<Rightarrow> py_error + (RiskConfig \<times> db)" where
  "apply_risk_config_patch env patch d =
     (let ov = (case db_risk_overrides d of None \<Rightarrow> Map.empty | Some ov \<Rightarrow> ov);
          merged = ov ++ patch
      in bind_res (RiskConfig_of env (model_dump env ++ merged))
           (\<lambda>eff. Inr (eff, d\<lparr>db_risk_overrides := Some (\<lambda>k. map_option jsonable (merged k))\<rparr>)))"

section \<open>PATCH /config\<close>

datatype http_error = BadRequest | Unauthorized | ServiceUnavailable | ServerError py_error

text \<open>
  The request body as \<open>model_dump(exclude_none=True)\<close> leaves it, and the confirmation flag.
  \<open>changes_doc\<close> is the audited rendering of the changed fields.
\<close>

definition patch_config ::
    "RiskConfig \<Rightarrow> (config_field \<times> config_value) list \<Rightarrow> bool \<Rightarrow> nat \<Rightarrow> json \<Rightarrow> datetime \<Rightarrow> db \<Rightarrow> http_error + (RiskConfig \<times> db)" where
  "patch_config env changes confirm_dry_run_change trace changes_doc now d =
     (if changes = [] then Inl BadRequest
      else case load_effective_risk_config env d of
        Inl e \<Rightarrow> Inl (ServerError e)
      | Inr current \<Rightarrow>
          (if (case map_of changes F_dry_run of
                 None \<Rightarrow> False
               | Some v \<Rightarrow> v \<noteq> CBool (dry_run current)) \<and> \<not> confirm_dry_run_change
           then Inl BadRequest
           else case apply_risk_config_patch env (map_of changes) d of
             Inl e \<Rightarrow> Inl (ServerError e)
           | Inr (eff, d') \<Rightarrow>
               Inr (eff, add_audit trace CONFIG_CHANGED [(''changes'', changes_doc)] now d')))"

section \<open>Properties\<close>

lemma as_jsonable [simp]:
  "as_dec (jsonable v) = as_dec v" "as_int (jsonable v) = as_int v" "as_bool (jsonable v) = as_bool v"
  by (cases v; simp)+

lemma field_of_jsonable [simp]:
  "field_of as_dec (m ++ (\<lambda>k. map_option jsonable (n k))) k x = field_of as_dec (m ++ n) k x"
  "field_of as_int (m ++ (\<lambda>k. map_option jsonable (n k))) k y = field_of as_int (m ++ n) k y"
  "field_of as_bool (m ++ (\<lambda>k. map_option jsonable (n k))) k z = field_of as_bool (m ++ n) k z"
  by (simp_all add: field_of_def map_add_def split: option.splits)

lemma RiskConfig_of_jsonable [simp]:
  "RiskConfig_of env (m ++ (\<lambda>k. map_option jsonable (n k))) = RiskConfig_of env (m ++ n)"
  unfolding RiskConfig_of_def field_of_jsonable by (rule refl)

lemma RiskConfig_of_dump:
  assumes "0 \<le> consecutive_loss_cluster_minutes c"
  shows "RiskConfig_of env (model_dump c) = Inr c"
  using assms by (simp add: RiskConfig_of_def field_of_def)

lemma RiskConfig_of_cluster:
  "RiskConfig_of env m = Inr c \<Longrightarrow> 0 \<le> consecutive_loss_cluster_minutes c"
  by (auto simp: RiskConfig_of_def Let_def split: if_splits)

lemma load_after_apply:
  "apply_risk_config_patch env patch d = Inr (eff, d') \<Longrightarrow>
   load_effective_risk_config env d' = Inr eff"
  by (auto simp: apply_risk_config_patch_def load_effective_risk_config_def Let_def)

lemma RiskConfig_of_dry_run:
  "RiskConfig_of env m = Inr c \<Longrightarrow> field_of as_bool m F_dry_run (dry_run env) = Some (dry_run c)"
  by (auto simp: RiskConfig_of_def Let_def split: if_splits)


lemma RiskConfig_of_fields:
  "RiskConfig_of env m = Inr c \<Longrightarrow> field_of as_dec m F_risk_per_trade_pct (risk_per_trade_pct env) = Some (risk_per_trade_pct c)"
  "RiskConfig_of env m = Inr c \<Longrightarrow> field_of as_dec m F_max_position_pct (max_position_pct env) = Some (max_position_pct c)"
  "RiskConfig_of env m = Inr c \<Longrightarrow> field_of as_dec m F_max_total_exposure_pct (max_total_exposure_pct env) = Some (max_total_exposure_pct c)"
  "RiskConfig_of env m = Inr c \<Longrightarrow> field_of as_dec m F_max_daily_loss_pct (max_daily_loss_pct env) = Some (max_daily_loss_pct c)"
  "RiskConfig_of env m = Inr c \<Longrightarrow> field_of as_dec m F_min_confidence (min_confidence env) = Some (min_confidence c)"
  "RiskConfig_of env m = Inr c \<Longrightarrow> field_of as_dec m F_min_confidence_size_scale (min_confidence_size_scale env) = Some (min_confidence_size_scale c)"
  "RiskConfig_of env m = Inr c \<Longrightarrow> field_of as_dec m F_atr_stop_multiplier (atr_stop_multiplier env) = Some (atr_stop_multiplier c)"
  "RiskConfig_of env m = Inr c \<Longrightarrow> field_of as_dec m F_min_stop_loss_pct (min_stop_loss_pct env) = Some (min_stop_loss_pct c)"
  "RiskConfig_of env m = Inr c \<Longrightarrow> field_of as_dec m F_max_stop_loss_pct (max_stop_loss_pct env) = Some (max_stop_loss_pct c)"
  "RiskConfig_of env m = Inr c \<Longrightarrow> field_of as_dec m F_estimated_fee_pct (estimated_fee_pct env) = Some (estimated_fee_pct c)"
  "RiskConfig_of env m = Inr c \<Longrightarrow> field_of as_dec m F_expectancy_min_r (expectancy_min_r env) = Some (expectancy_min_r c)"
  "RiskConfig_of env m = Inr c \<Longrightarrow> field_of as_int m F_max_open_positions (max_open_positions env) = Some (max_open_positions c)"
  "RiskConfig_of env m = Inr c \<Longrightarrow> field_of as_int m F_consecutive_loss_limit (consecutive_loss_limit env) = Some (consecutive_loss_limit c)"
  "RiskConfig_of env m = Inr c \<Longrightarrow> field_of as_int m F_consecutive_loss_cluster_minutes (consecutive_loss_cluster_minutes env) = Some (consecutive_loss_cluster_minutes c)"
  "RiskConfig_of env m = Inr c \<Longrightarrow> field_of as_int m F_cooldown_minutes (cooldown_minutes env) = Some (cooldown_minutes c)"
  "RiskConfig_of env m = Inr c \<Longrightarrow> field_of as_int m F_signal_max_age_minutes (signal_max_age_minutes env) = Some (signal_max_age_minutes c)"
  "RiskConfig_of env m = Inr c \<Longrightarrow> field_of as_int m F_expectancy_min_sample_size (expectancy_min_sample_size env) = Some (expectancy_min_sample_size c)"
  "RiskConfig_of env m = Inr c \<Longrightarrow> field_of as_bool m F_dry_run (dry_run env) = Some (dry_run c)"
  "RiskConfig_of env m = Inr c \<Longrightarrow> field_of as_bool m F_expectancy_filter_enabled (expectancy_filter_enabled env) = Some (expectancy_filter_enabled c)"
  by (auto simp: RiskConfig_of_def Let_def split: if_splits)

lemma RiskConfig_of_same_field:
  assumes "RiskConfig_of env m = Inr c" "RiskConfig_of env m' = Inr c'" "m k = m' k"
  shows "model_dump c k = model_dump c' k"
  using RiskConfig_of_fields[OF assms(1)] RiskConfig_of_fields[OF assms(2)] assms(3)
  by (cases k) (simp_all add: field_of_def)

lemma patch_configE:
  assumes "patch_config env changes ok tr doc now d = Inr (eff, d')"
  obtains current d1 where
    "load_effective_risk_config env d = Inr current"
    "\<And>v. map_of changes F_dry_run = Some v \<Longrightarrow> v = CBool (dry_run current) \<or> ok"
    "apply_risk_config_patch env (map_of changes) d = Inr (eff, d1)"
    "d' = add_audit tr CONFIG_CHANGED [(''changes'', doc)] now d1"
  using assms unfolding patch_config_def by (auto split: if_splits sum.splits option.splits)

lemma load_add_audit [simp]:
  "load_effective_risk_config env (add_audit a b x e d) = load_effective_risk_config env d"
  by (simp add: load_effective_risk_config_def)

lemma apply_risk_config_patch_InrD:
  assumes "apply_risk_config_patch env patch d = Inr (eff, d')"
  shows "RiskConfig_of env ((case db_risk_overrides d of None \<Rightarrow> model_dump env
                               | Some ov \<Rightarrow> model_dump env ++ ov) ++ patch) = Inr eff"
    and "db_audit d' = db_audit d"
  using assms by (auto simp: apply_risk_config_patch_def Let_def split: option.splits)

lemma RiskConfig_defaults_cluster: "0 \<le> consecutive_loss_cluster_minutes RiskConfig_defaults"
  by (simp add: RiskConfig_defaults_def)

text \<open>
  A successful \<open>PATCH /config\<close> is durable and local: every later load returns exactly the
  configuration it answered with, each field that the request does not name keeps its value, one
  audit event is appended, and without the explicit confirmation the dry-run flag cannot change.
\<close>

theorem patch_config_effect:
  assumes "patch_config env changes ok tr doc now d = Inr (eff, d')"
    and "load_effective_risk_config env d = Inr current"
  shows "load_effective_risk_config env d' = Inr eff \<and>
    (\<forall>k. map_of changes k = None \<longrightarrow> model_dump eff k = model_dump current k) \<and>
    (\<not> ok \<longrightarrow> dry_run eff = dry_run current) \<and>
    map aud_event_type (db_audit d') = map aud_event_type (db_audit d) @ [CONFIG_CHANGED]"
proof -
  from assms obtain d1 where
    ok: "\<And>v. map_of changes F_dry_run = Some v \<Longrightarrow> v = CBool (dry_run current) \<or> ok" and
    ap: "apply_risk_config_patch env (map_of changes) d = Inr (eff, d1)" and
    d': "d' = add_audit tr CONFIG_CHANGED [(''changes'', doc)] now d1"
    by (elim patch_configE) auto
  let ?m = "case db_risk_overrides d of None \<Rightarrow> model_dump env | Some ov \<Rightarrow> model_dump env ++ ov"
  note cur = assms(2)[unfolded load_effective_risk_config_def]
  note new = apply_risk_config_patch_InrD[OF ap]
  have same: "model_dump eff k = model_dump current k" if "map_of changes k = None" for k
    using RiskConfig_of_same_field[OF new(1) cur] that by (simp add: map_add_def)
  have "dry_run eff = dry_run current" if "\<not> ok"
  proof (cases "map_of changes F_dry_run")
    case None
    from same[OF this] show ?thesis by simp
  next
    case (Some v)
    with ok that have "map_of changes F_dry_run = Some (CBool (dry_run current))" by blast
    with RiskConfig_of_fields(18)[OF new(1)] show ?thesis by (simp add: field_of_def)
  qed
  with same load_after_apply[OF ap] new(2) show ?thesis by (simp add: d' add_audit_def load_effective_risk_config_def)
qed

theorem patch_config_effect_witness:
  "\<exists>eff d'. patch_config RiskConfig_defaults [(F_max_open_positions, CInt 4)] False 1 JNull 0 empty_db
              = Inr (eff, d') \<and>
            dry_run eff = dry_run RiskConfig_defaults \<and> max_open_positions eff = 4"
proof -
  have cur: "load_effective_risk_config RiskConfig_defaults empty_db = Inr RiskConfig_defaults"
    using RiskConfig_of_dump[of RiskConfig_defaults RiskConfig_defaults] RiskConfig_defaults_cluster
    by (simp add: load_effective_risk_config_def empty_db_def)
  let ?m = "model_dump RiskConfig_defaults ++ map_of [(F_max_open_positions, CInt 4)]"
  have "\<exists>eff. RiskConfig_of RiskConfig_defaults ?m = Inr eff"
    by (simp add: RiskConfig_of_def field_of_def RiskConfig_defaults_def)
  then obtain eff where eff: "RiskConfig_of RiskConfig_defaults ?m = Inr eff" ..
  have "\<exists>d'. patch_config RiskConfig_defaults [(F_max_open_positions, CInt 4)] False 1 JNull 0 empty_db
      = Inr (eff, d')"
    using cur eff by (simp add: patch_config_def apply_risk_config_patch_def empty_db_def)
  then obtain d' where run: "patch_config RiskConfig_defaults [(F_max_open_positions, CInt 4)] False 1
      JNull 0 empty_db = Inr (eff, d')" ..
  have "max_open_positions eff = 4" using RiskConfig_of_fields(12)[OF eff] by (simp add: field_of_def)
  with run patch_config_effect[OF run cur] show ?thesis by blast
qed

end
