(* ===== verification/World.thy ===== *)
theory World
  imports Risk_Config
begin

text \<open>
  The outside of the services.  Redis (commands on keys built by \<open>services/common/redis_keys.py\<close>)
  and Freqtrade (HTTP requests) are not under \<open>src/\<close>: their replies are given by functions of the
  history of what was sent to them, the record \<open>externals\<close>, an argument of every operation that
  talks to them.  The state of a service is a \<open>world\<close>: the database and the two histories.
  Operations thread it and return a value or the exception that left them.
\<close>

section \<open>Redis\<close>

datatype redis_key =
    K_cycle_lock string
  | K_candle_idempotency string string datetime
  | K_decision_idempotency nat
  | K_signals_latest string
  | K_cooldown string
  | K_llm_ratelimit string
  | K_llm_timeout_streak
  | K_killswitch_global
  | K_account_balance

definition DECISION_IDEMPOTENCY_TTL_SECONDS :: int where
  "DECISION_IDEMPOTENCY_TTL_SECONDS = 24 * 60 * 60"

definition CYCLE_LOCK_TTL_SECONDS :: int where
  "CYCLE_LOCK_TTL_SECONDS = 5 * 60"

definition LLM_TIMEOUT_STREAK_TTL_SECONDS :: int where
  "LLM_TIMEOUT_STREAK_TTL_SECONDS = 24 * 60 * 60"

definition ACCOUNT_BALANCE_SNAPSHOT_TTL_SECONDS :: int where
  "ACCOUNT_BALANCE_SNAPSHOT_TTL_SECONDS = 90"

text \<open>The commands the modelled services send; a time to live is in seconds.\<close>

datatype redis_cmd =
    R_SET redis_key json "int option"
  | R_SET_NX redis_key json int
  | R_DELETE redis_key
  | R_XACK nat
  | R_XADD nat                 \<comment> \<open>a signal id onto \<open>signals:pending\<close>\<close>
  | R_INCR redis_key
  | R_EXPIRE redis_key int
  | R_GET redis_key

datatype redis_reply = R_OK | R_NIL | R_INT int | R_VALUE json | R_FAIL \<comment> \<open>the client raised\<close>

type_synonym redis_history = "(datetime \<times> redis_cmd \<times> redis_reply) list"

section \<open>Freqtrade\<close>

text \<open>
  An entry tag is a text \<open>slpct:<number>\<close> or \<open>sl:<number>\<close>, kept with the number it spells, or any
  other text.
\<close>

datatype entry_tag = TagSlpct rat | TagSl rat | TagText string

datatype ft_request =
    FT_forceenter string rat "entry_tag option"   \<comment> \<open>pair, stake amount as a float, entry tag\<close>
  | FT_forceexit int
  | FT_trade int
  | FT_balance

text \<open>
  A reply: a transport failure or bad status, a body that does not parse, or a body.  A body that is JSON
  but not the object Freqtrade documents is not modelled: the client would raise an \<open>AttributeError\<close> on it.
\<close>

datatype 'a http_reply = HttpError | MalformedBody | Body 'a

text \<open>The members of a forceenter response that the client reads.\<close>

record entry_response =
  er_enter_tag :: "entry_tag option"
  er_trade_id :: "int option"
  er_id :: "int option"

record FreqtradeTrade =
  ft_trade_id :: int
  ft_pair :: string
  ft_is_open :: bool
  ft_amount :: "rat option"
  ft_has_open_orders :: "bool option"
  ft_open_rate :: "rat option"
  ft_open_fill_date :: "datetime option"
  ft_close_rate :: "rat option"
  ft_profit_abs :: "rat option"
  ft_profit_ratio :: "rat option"
  ft_open_date :: "datetime option"
  ft_close_date :: "datetime option"

record FreqtradeCurrencyBalance =
  fc_currency :: string
  fc_free :: rat
  fc_balance :: rat
  fc_used :: rat
  fc_stake :: string

record FreqtradeBalances =
  fb_currencies :: "FreqtradeCurrencyBalance list"
  fb_total :: rat
  fb_stake :: string

record externals =
  ex_redis :: "redis_history \<Rightarrow> datetime \<Rightarrow> redis_cmd \<Rightarrow> redis_reply"
  ex_forceenter :: "ft_request list \<Rightarrow> ft_request \<Rightarrow> entry_response http_reply"
  ex_forceexit :: "ft_request list \<Rightarrow> ft_request \<Rightarrow> unit http_reply"
  ex_trade :: "ft_request list \<Rightarrow> ft_request \<Rightarrow> FreqtradeTrade http_reply"
  ex_balance :: "ft_request list \<Rightarrow> ft_request \<Rightarrow> FreqtradeBalances http_reply"
  ex_exit_retry_attempts :: int

section \<open>The world\<close>

text \<open>\<open>w_db\<close> is the database as the current session sees it, \<open>w_saved\<close> what is committed.\<close>

record world =
  w_db :: db
  w_saved :: db
  w_redis :: redis_history
  w_ft :: "ft_request list"

definition with_db :: "(db \<Rightarrow> db) \<Rightarrow> world \<Rightarrow> world" where
  "with_db f w = w\<lparr>w_db := f (w_db w)\<rparr>"

definition redis_call ::
    "externals \<Rightarrow> datetime \<Rightarrow> redis_cmd \<Rightarrow> world \<Rightarrow> (py_error + bool) \<times> world" where
  "redis_call ex now cmd w =
     (let r = ex_redis ex (w_redis w) now cmd
      in (if r = R_FAIL then Inl RedisError else Inr (r = R_OK),
          w\<lparr>w_redis := w_redis w @ [(now, cmd, r)]\<rparr>))"

text \<open>A command whose reply is a value.\<close>

definition redis_query ::
    "externals \<Rightarrow> datetime \<Rightarrow> redis_cmd \<Rightarrow> world \<Rightarrow> (py_error + redis_reply) \<times> world" where
  "redis_query ex now cmd w =
     (let r = ex_redis ex (w_redis w) now cmd
      in (if r = R_FAIL then Inl RedisError else Inr r,
          w\<lparr>w_redis := w_redis w @ [(now, cmd, r)]\<rparr>))"

definition ft_call ::
    "(ft_request list \<Rightarrow> ft_request \<Rightarrow> 'a http_reply) \<Rightarrow> ft_request \<Rightarrow> world
     \<Rightarrow> (py_error + 'a) \<times> world" where
  "ft_call reply req w =
     (case reply (w_ft w) req of
        Body b \<Rightarrow> Inr b
      | _ \<Rightarrow> Inl FreqtradeUnavailable,
      w\<lparr>w_ft := w_ft w @ [req]\<rparr>)"

text \<open>Sequencing: an exception skips the rest and keeps what was already done.\<close>

definition then_do ::
    "(py_error + 'a) \<times> world \<Rightarrow> ('a \<Rightarrow> world \<Rightarrow> (py_error + 'b) \<times> world) \<Rightarrow> (py_error + 'b) \<times> world" where
  "then_do m f = (case m of (Inl e, w) \<Rightarrow> (Inl e, w) | (Inr x, w) \<Rightarrow> f x w)"

lemma then_do_simps [simp]:
  "then_do (Inl e, w) f = (Inl e, w)"
  "then_do (Inr x, w) f = f x w"
  by (simp_all add: then_do_def)

lemma then_do_split:
  "P (then_do m f) \<longleftrightarrow>
     (\<forall>e w. m = (Inl e, w) \<longrightarrow> P (Inl e, w)) \<and> (\<forall>x w. m = (Inr x, w) \<longrightarrow> P (f x w))"
  by (auto simp: then_do_def split: prod.splits sum.splits)

lemma redis_call_frame [simp]:
  "w_db (snd (redis_call ex now cmd w)) = w_db w"
  "w_ft (snd (redis_call ex now cmd w)) = w_ft w"
  "w_saved (snd (redis_call ex now cmd w)) = w_saved w"
  by (simp_all add: redis_call_def Let_def)

lemma ft_call_frame [simp]:
  "w_db (snd (ft_call reply req w)) = w_db w"
  "w_redis (snd (ft_call reply req w)) = w_redis w"
  "w_saved (snd (ft_call reply req w)) = w_saved w"
  "w_ft (snd (ft_call reply req w)) = w_ft w @ [req]"
  by (simp_all add: ft_call_def)

lemma with_db_sel [simp]:
  "w_db (with_db f w) = f (w_db w)" "w_redis (with_db f w) = w_redis w" "w_ft (with_db f w) = w_ft w"
  "w_saved (with_db f w) = w_saved w"
  by (simp_all add: with_db_def)

section \<open>Sessions\<close>

text \<open>
  A commit that succeeds makes the session's changes durable; one that fails raises.  When a
  session ends, by return or by exception, whatever it did not commit is gone; what was sent to
  Redis and Freqtrade stays sent.
\<close>

definition commit :: "bool \<Rightarrow> world \<Rightarrow> (py_error + unit) \<times> world" where
  "commit ok w = (if ok then (Inr (), w\<lparr>w_saved := w_db w\<rparr>) else (Inl DatabaseError, w))"

definition run_session :: "(world \<Rightarrow> (py_error + 'a) \<times> world) \<Rightarrow> world \<Rightarrow> (py_error + 'a) \<times> world" where
  "run_session body w = (case body w of (r, w') \<Rightarrow> (r, w'\<lparr>w_db := w_saved w'\<rparr>))"

section \<open>The kill switch\<close>

text \<open>\<open>services/common/kill_switch.py\<close>; Postgres first, the Redis mirror second.\<close>

definition is_enabled :: "db \<Rightarrow> bool" where
  "is_enabled d = (case db_system_state d of None \<Rightarrow> False | Some s \<Rightarrow> sys_killswitch_enabled s)"

definition SystemState_new :: system_state where
  "SystemState_new = \<lparr>sys_killswitch_enabled = False, sys_killswitch_reason = None,
     sys_killswitch_updated_by = None, sys_consecutive_loss_reset_at = None\<rparr>"

definition current_state :: "db \<Rightarrow> system_state" where
  "current_state d = (case db_system_state d of None \<Rightarrow> SystemState_new | Some s \<Rightarrow> s)"

definition enable_killswitch ::
    "externals \<Rightarrow> string \<Rightarrow> string \<Rightarrow> nat \<Rightarrow> datetime \<Rightarrow> world \<Rightarrow> (py_error + unit) \<times> world" where
  "enable_killswitch ex reason updated_by trace_id now w =
     (let w = with_db (\<lambda>d. d\<lparr>db_system_state := Some ((current_state d)
                \<lparr>sys_killswitch_enabled := True, sys_killswitch_reason := Some reason,
                 sys_killswitch_updated_by := Some updated_by\<rparr>)\<rparr>) w;
          w = with_db (add_audit trace_id KILLSWITCH_ENABLED
                [(''reason'', JStr reason), (''updated_by'', JStr updated_by)] now) w
      in then_do (redis_call ex now (R_SET K_killswitch_global (JStr ''1'') None) w)
           (\<lambda>_ w. (Inr (), w)))"

definition disable_killswitch ::
    "externals \<Rightarrow> string \<Rightarrow> string \<Rightarrow> nat \<Rightarrow> datetime \<Rightarrow> world \<Rightarrow> (py_error + unit) \<times> world" where
  "disable_killswitch ex reason updated_by trace_id now w =
     (let reset_at = now;
          w = with_db (\<lambda>d. d\<lparr>db_system_state := Some ((current_state d)
                \<lparr>sys_killswitch_enabled := False, sys_killswitch_reason := Some reason,
                 sys_killswitch_updated_by := Some updated_by,
                 sys_consecutive_loss_reset_at := Some reset_at\<rparr>)\<rparr>) w;
          w = with_db (add_audit trace_id KILLSWITCH_DISABLED
                [(''reason'', JStr reason), (''updated_by'', JStr updated_by)] now) w
      in then_do (redis_call ex now (R_SET K_killswitch_global (JStr ''0'') None) w)
           (\<lambda>_ w. (Inr (), w)))"

text \<open>\<open>routers/killswitch.py\<close>: apply, commit, report the new state.\<close>

definition apply_killswitch ::
    "externals \<Rightarrow> bool \<Rightarrow> string option \<Rightarrow> string \<Rightarrow> bool \<Rightarrow> nat \<Rightarrow> datetime \<Rightarrow> world
     \<Rightarrow> (py_error + (bool \<times> string option)) \<times> world" where
  "apply_killswitch ex enable updated_by reason commit_ok trace_id now =
     run_session (\<lambda>w.
       let updated_by = (case updated_by of
                           Some u \<Rightarrow> if u = [] then ''api:admin'' else u
                         | None \<Rightarrow> ''api:admin'')
       in then_do ((if enable then enable_killswitch else disable_killswitch)
                     ex reason updated_by trace_id now w)
            (\<lambda>_ w. then_do (commit commit_ok w)
            (\<lambda>_ w. case db_system_state (w_db w) of
                      None \<Rightarrow> (Inl AssertionError, w)
                    | Some s \<Rightarrow> (Inr (sys_killswitch_enabled s, sys_killswitch_updated_by s), w))))"

section \<open>The switch as an interface\<close>

text \<open>
  What the risk engine and the admin API rely on: after an \<open>enable\<close> the switch reads on, after a
  \<open>disable\<close> off, and neither touches anything else that a decision reads.
\<close>

locale kill_switch =
  fixes switch_on :: "'w \<Rightarrow> bool"
    and turn_on turn_off :: "'w \<Rightarrow> (py_error + unit) \<times> 'w"
    and rest :: "'w \<Rightarrow> 'r"
  assumes on: "turn_on w = (res, w') \<Longrightarrow> switch_on w'"
    and off: "turn_off w = (res, w') \<Longrightarrow> \<not> switch_on w'"
    and rest_on: "turn_on w = (res, w') \<Longrightarrow> rest w' = rest w"
    and rest_off: "turn_off w = (res, w') \<Longrightarrow> rest w' = rest w"
begin

lemma last_write_wins:
  assumes "turn_on w = (r1, w1)" "turn_off w1 = (r2, w2)"
  shows "\<not> switch_on w2" "rest w2 = rest w"
  using off[OF assms(2)] rest_on[OF assms(1)] rest_off[OF assms(2)] by simp_all

fun presses :: "bool list \<Rightarrow> 'w \<Rightarrow> 'w" where
  "presses [] w = w"
| "presses (b # bs) w = presses bs (snd ((if b then turn_on else turn_off) w))"

lemma presses_append: "presses (bs @ cs) w = presses cs (presses bs w)"
  by (induction bs arbitrary: w) auto

lemma presses_last: "bs \<noteq> [] \<Longrightarrow> switch_on (presses bs w) = last bs"
proof (induction bs rule: rev_induct)
  case (snoc b bs)
  obtain r w' where "(if b then turn_on else turn_off) (presses bs w) = (r, w')" by fastforce
  then show ?case using on off by (auto simp: presses_append split: if_splits)
qed simp

lemma presses_rest: "rest (presses bs w) = rest w"
proof (induction bs rule: rev_induct)
  case (snoc b bs)
  obtain r w' where "(if b then turn_on else turn_off) (presses bs w) = (r, w')" by fastforce
  then show ?case using snoc rest_on rest_off by (auto simp: presses_append split: if_splits)
qed simp

end

definition trading_tables ::
    "world \<Rightarrow> signal_row list \<times> risk_decision list \<times> order list \<times> position list \<times> ft_request list" where
  "trading_tables w = (db_signals (w_db w), db_decisions (w_db w), db_orders (w_db w),
                       db_positions (w_db w), w_ft w)"

lemma enable_killswitch_effect:
  assumes "enable_killswitch ex reason by tr now w = (res, w')"
  shows "is_enabled (w_db w')" "trading_tables w' = trading_tables w" "audit_grows (w_db w) (w_db w')"
    "\<exists>r. w_redis w' = w_redis w @ [(now, R_SET K_killswitch_global (JStr ''1'') None, r)]"
  using assms
  by (auto simp: enable_killswitch_def redis_call_def Let_def is_enabled_def trading_tables_def
      audit_grows_iff add_audit_def with_db_def split: if_splits)

lemma disable_killswitch_effect:
  assumes "disable_killswitch ex reason by tr now w = (res, w')"
  shows "\<not> is_enabled (w_db w')" "trading_tables w' = trading_tables w" "audit_grows (w_db w) (w_db w')"
    "Option.bind (db_system_state (w_db w')) sys_consecutive_loss_reset_at = Some now"
  using assms
  by (auto simp: disable_killswitch_def redis_call_def Let_def is_enabled_def trading_tables_def
      audit_grows_iff add_audit_def with_db_def split: if_splits)

interpretation ks: kill_switch
  "\<lambda>w. is_enabled (w_db w)"
  "enable_killswitch ex reason by tr now"
  "disable_killswitch ex reason by tr now"
  trading_tables
  for ex reason "by" tr now
  by unfold_locales (simp_all add: enable_killswitch_effect disable_killswitch_effect)

end
