(* ===== verification/Llm_Service.thy ===== *)
theory Llm_Service
  imports Llm_Pipeline Llm_Config World
begin

text \<open>
  \<open>llm_service/app/main.py\<close>, its providers and the \<open>/analyze\<close> endpoint: the request is validated, the
  provider comes from the service's settings or from the override the scheduler sends, and one
  pipeline runs.  The model hosts are parameters: what a host answers to a request, given the requests
  already sent, and how many seconds it takes.
\<close>

section \<open>Providers\<close>

datatype content_block = TextBlock string | OtherBlock

record anthropic_message =
  am_stop_reason :: string
  am_content :: "content_block list"

fun first_text :: "content_block list \<Rightarrow> string option" where
  "first_text [] = None"
| "first_text (TextBlock t # bs) = Some t"
| "first_text (OtherBlock # bs) = first_text bs"

text \<open>\<open>AnthropicProvider.generate\<close>: \<open>None\<close> is an exception of the client library.\<close>

definition anthropic_generate :: "anthropic_message option \<Rightarrow> provider_reply" where
  "anthropic_generate response =
     (case response of
        None \<Rightarrow> ProviderRaises
      | Some m \<Rightarrow>
          if am_stop_reason m = ''refusal'' then ProviderRaises
          else (case first_text (am_content m) of None \<Rightarrow> ProviderRaises | Some t \<Rightarrow> Text t))"

text \<open>\<open>OllamaProvider.generate\<close>: the body is the \<open>content\<close> of the message.\<close>

definition ollama_generate :: "string http_reply \<Rightarrow> provider_reply" where
  "ollama_generate response =
     (case response of
        Body content \<Rightarrow> if content = [] then ProviderRaises else Text content
      | _ \<Rightarrow> ProviderRaises)"

record model_hosts =
  mh_anthropic :: "string \<Rightarrow> LLMRequest list \<Rightarrow> LLMRequest \<Rightarrow> anthropic_message option \<times> rat"
  mh_ollama :: "string \<Rightarrow> rat \<Rightarrow> LLMRequest list \<Rightarrow> LLMRequest \<Rightarrow> string http_reply \<times> rat"

definition AnthropicProvider :: "model_hosts \<Rightarrow> string \<Rightarrow> provider" where
  "AnthropicProvider hosts model = (\<lambda>h rq. case mh_anthropic hosts model h rq of (m, d) \<Rightarrow> (anthropic_generate m, d))"

definition OllamaProvider :: "model_hosts \<Rightarrow> string \<Rightarrow> rat \<Rightarrow> provider" where
  "OllamaProvider hosts model temperature =
     (\<lambda>h rq. case mh_ollama hosts model temperature h rq of (b, d) \<Rightarrow> (ollama_generate b, d))"

text \<open>A provider with its \<open>provider_name\<close> and \<open>model\<close>; \<open>model_name\<close> of the client joins them.\<close>

type_synonym named_provider = "string \<times> string \<times> provider"

definition client_model_name :: "string \<Rightarrow> string \<Rightarrow> string" where
  "client_model_name name model = name @ '':'' @ model"

definition get_provider :: "model_hosts \<Rightarrow> LLMServiceSettings \<Rightarrow> py_error + named_provider" where
  "get_provider hosts settings =
     (if ec_llm_provider settings = ''anthropic''
      then Inr (''anthropic'', ec_anthropic_model settings, AnthropicProvider hosts (ec_anthropic_model settings))
      else if ec_llm_provider settings = ''ollama''
      then Inr (''ollama'', ec_ollama_model settings,
                OllamaProvider hosts (ec_ollama_model settings) (ec_ollama_temperature settings))
      else Inl ValueError)"

section \<open>The request\<close>

text \<open>\<open>^[A-Z0-9]+/[A-Z0-9]+$\<close>\<close>

definition symbol_char :: "char \<Rightarrow> bool" where
  "symbol_char c \<longleftrightarrow> (of_char c :: nat) \<in> {48..57} \<union> {65..90}"

definition SymbolStr :: "string \<Rightarrow> bool" where
  "SymbolStr s =
     (case dropWhile symbol_char s of
        [] \<Rightarrow> False
      | c # quote \<Rightarrow> c = CHR ''/'' \<and> takeWhile symbol_char s \<noteq> [] \<and> quote \<noteq> [] \<and> list_all symbol_char quote)"

text \<open>The constraints of the request model; the sentiment's own were checked when it was made.\<close>

definition request_ok :: "AnalyzeRequest \<Rightarrow> bool" where
  "request_ok rq \<longleftrightarrow>
     SymbolStr (rq_symbol rq) \<and> rq_timeframe rq \<in> {''1h'', ''30m'', ''5m''} \<and>
     (case rq_provider_override rq of
        None \<Rightarrow> True
      | Some ov \<Rightarrow> (case ov_llm_provider ov of None \<Rightarrow> True | Some x \<Rightarrow> x = ''anthropic'' \<or> x = ''ollama''))"

section \<open>The endpoint\<close>

definition apply_override :: "LLMServiceSettings \<Rightarrow> ProviderOverride \<Rightarrow> LLMServiceSettings" where
  "apply_override settings override = override_config settings override"

definition build_pipeline :: "parser \<Rightarrow> named_provider \<Rightarrow> LLMServiceSettings \<Rightarrow> llm_service" where
  "build_pipeline p np settings =
     (case np of (name, model, provider) \<Rightarrow>
        \<lparr>ls_provider = provider, ls_model_name = client_model_name name model, ls_parser = p,
         ls_thresholds = \<lparr>th_min_exit_profit_pct = sv_min_exit_profit_pct settings,
                          th_min_exit_loss_pct = sv_min_exit_loss_pct settings,
                          th_hard_loss_cut_pct = sv_hard_loss_cut_pct settings\<rparr>,
         ls_timeout_seconds = sv_analyze_timeout_seconds settings,
         ls_max_repair_attempts = sv_max_repair_attempts settings,
         ls_include_strategy = sv_include_strategy_context_in_prompt settings,
         ls_prefilter_enabled = sv_llm_prefilter_enabled settings,
         ls_assumed_reward_multiple = sv_assumed_reward_multiple settings\<rparr>)"

text \<open>The dependency resolves the service's own provider even when the request overrides it.\<close>

definition analyze ::
    "model_hosts \<Rightarrow> parser \<Rightarrow> LLMServiceSettings \<Rightarrow> AnalyzeRequest \<Rightarrow> datetime \<Rightarrow> LLMRequest list
     \<Rightarrow> py_error + (TradingSignal \<times> LLMRequest list)" where
  "analyze hosts p settings request now h =
     (if \<not> request_ok request then Inl ValidationError
      else bind_res (get_provider hosts settings) (\<lambda>np.
           bind_res (case rq_provider_override request of
                       None \<Rightarrow> Inr np
                     | Some override \<Rightarrow> get_provider hosts (apply_override settings override)) (\<lambda>np.
             Inr (run_pipeline (build_pipeline p np settings) request now h))))"

section \<open>Properties\<close>

lemma get_provider_total:
  "known_provider (ec_llm_provider settings) \<Longrightarrow> \<exists>np. get_provider hosts settings = Inr np"
  by (auto simp: known_provider_def get_provider_def)

definition model_label :: "'a EffectiveLLMConfig_scheme \<Rightarrow> string" where
  "model_label c = client_model_name (ec_llm_provider c)
     (if ec_llm_provider c = ''anthropic'' then ec_anthropic_model c else ec_ollama_model c)"

lemma get_provider_label:
  "get_provider hosts settings = Inr np \<Longrightarrow>
     ls_model_name (build_pipeline p np s) = model_label settings"
  by (auto simp: get_provider_def build_pipeline_def model_label_def split: if_splits)

lemma run_pipeline_model_name:
  "tsg_model_name (fst (run_pipeline s request now h)) \<in> {PREFILTER_MODEL_NAME, ls_model_name s}"
  by (auto simp: run_pipeline_def build_hold_def build_signal_def make_signal_def Let_def
      split: prod.split option.split)

text \<open>The whole configuration as an override, the \<open>provider_override\<close> of a request.\<close>

definition dump_config :: "EffectiveLLMConfig \<Rightarrow> ProviderOverride" where
  "dump_config c =
     \<lparr>ov_llm_provider = Some (ec_llm_provider c), ov_anthropic_model = Some (ec_anthropic_model c),
      ov_ollama_model = Some (ec_ollama_model c), ov_ollama_temperature = Some (ec_ollama_temperature c)\<rparr>"

lemma override_dump:
  "model_label (override_config c (dump_config e)) = model_label e"
  "ec_llm_provider (override_config c (dump_config e)) = ec_llm_provider e"
  by (simp_all add: override_config_def dump_config_def model_label_def)

lemma analyze_label:
  assumes "analyze hosts p settings request now h = Inr (signal, h')"
    and "rq_provider_override request = Some (dump_config c)"
  shows "tsg_model_name signal \<in> {PREFILTER_MODEL_NAME, model_label c}"
proof -
  from assms obtain np where np: "get_provider hosts (override_config settings (dump_config c)) = Inr np"
    and run: "run_pipeline (build_pipeline p np settings) request now h = (signal, h')"
    by (auto simp: analyze_def apply_override_def split: if_splits)
  from run_pipeline_model_name[of "build_pipeline p np settings" request now h] run
  show ?thesis by (simp add: get_provider_label[OF np] override_dump)
qed

text \<open>
  \<open>PATCH /config/llm\<close> takes effect at the next analysis, whatever settings the LLM service was
  started with: the patch answers with the old configuration under the requested fields, every later
  load returns exactly that, and a request that carries the loaded configuration is answered, by the
  provider and model the operator chose or by the deterministic pre-filter.
\<close>

theorem llm_patch_takes_effect:
  assumes "patch_llm_config env patch tr doc t d = Inr (effective, d')"
    and "stored_ok d" "known_provider (ec_llm_provider env)" "known_provider (ec_llm_provider settings)"
    and "SymbolStr (rq_symbol request)" "rq_timeframe request \<in> {''1h'', ''30m'', ''5m''}"
    and "rq_provider_override request = Some (dump_config (load_effective_llm_config env d'))"
  shows "effective = override_config (load_effective_llm_config env d) patch \<and>
    load_effective_llm_config env d' = effective \<and>
    (\<exists>signal h'. analyze hosts p settings request now h = Inr (signal, h') \<and>
       tsg_model_name signal \<in> {PREFILTER_MODEL_NAME, model_label effective})"
proof -
  note load = load_after_llm_patch[OF assms(1)]
  have kp: "known_provider (ec_llm_provider effective)"
    using effective_ok[OF patch_keeps_stored_ok[OF assms(1,2)] assms(3)] load(1) by simp
  have ov: "rq_provider_override request = Some (dump_config effective)" using assms(7) load(1) by simp
  have "request_ok request"
    using assms(5,6) ov kp by (simp add: request_ok_def known_provider_def dump_config_def)
  moreover obtain np np' where "get_provider hosts settings = Inr np"
    "get_provider hosts (override_config settings (dump_config effective)) = Inr np'"
    using get_provider_total assms(4) kp override_dump(2) by metis
  ultimately obtain signal h' where run: "analyze hosts p settings request now h = Inr (signal, h')"
    using ov by (cases "run_pipeline (build_pipeline p np' settings) request now h")
      (auto simp: analyze_def apply_override_def)
  with analyze_label[OF run ov] load show ?thesis by blast
qed

definition to_ollama :: llm_overrides where
  "to_ollama = no_overrides\<lparr>ov_llm_provider := Some ''ollama''\<rparr>"

theorem llm_patch_takes_effect_witness:
  "\<forall>hosts p now h. \<exists>d'. patch_llm_config LLMServiceSettings_defaults to_ollama 1 JNull 0 empty_db =
          Inr (load_effective_llm_config LLMServiceSettings_defaults d', d') \<and>
        (\<exists>signal h'. analyze hosts p LLMServiceSettings_defaults
             (sample_request\<lparr>rq_provider_override :=
                Some (dump_config (load_effective_llm_config LLMServiceSettings_defaults d'))\<rparr>) now h = Inr (signal, h') \<and>
           tsg_model_name signal \<in> {PREFILTER_MODEL_NAME, ''ollama:qwen2.5:7b''})"
proof (intro allI)
  fix hosts p now h
  let ?env = LLMServiceSettings_defaults
  obtain effective d' where run: "patch_llm_config ?env to_ollama 1 JNull 0 empty_db = Inr (effective, d')"
    by (simp add: patch_llm_config_def LLMConfigPatch_ok_def to_ollama_def no_overrides_def
        apply_llm_config_patch_def Let_def)
  have ok: "stored_ok empty_db" by (simp add: stored_ok_def stored_overrides_def empty_db_def
        LLMConfigPatch_ok_def no_overrides_def)
  have kp: "known_provider (ec_llm_provider ?env)" by (simp add: known_provider_def LLMServiceSettings_defaults_def)
  have sym: "SymbolStr (rq_symbol sample_request)" by (simp add: sample_request_def SymbolStr_def symbol_char_def)
  let ?rq = "sample_request\<lparr>rq_provider_override := Some (dump_config (load_effective_llm_config ?env d'))\<rparr>"
  have "effective = override_config (load_effective_llm_config ?env empty_db) to_ollama"
    using load_after_llm_patch(2)[OF run] .
  then have "model_label effective = ''ollama:qwen2.5:7b''"
    by (simp add: model_label_def client_model_name_def override_config_def to_ollama_def no_overrides_def
        load_effective_llm_config_def stored_overrides_def empty_db_def env_defaults_def
        EffectiveLLMConfig.defs LLMServiceSettings_defaults_def)
  moreover have "SymbolStr (rq_symbol ?rq)" "rq_timeframe ?rq \<in> {''1h'', ''30m'', ''5m''}"
    "rq_provider_override ?rq = Some (dump_config (load_effective_llm_config ?env d'))"
    using sym by (simp_all add: sample_request_def)
  note llm_patch_takes_effect[OF run ok kp kp this]
  ultimately show "\<exists>d'. patch_llm_config ?env to_ollama 1 JNull 0 empty_db =
          Inr (load_effective_llm_config ?env d', d') \<and>
        (\<exists>signal h'. analyze hosts p ?env
             (sample_request\<lparr>rq_provider_override := Some (dump_config (load_effective_llm_config ?env d'))\<rparr>)
             now h = Inr (signal, h') \<and>
           tsg_model_name signal \<in> {PREFILTER_MODEL_NAME, ''ollama:qwen2.5:7b''})" using run by metis
qed

end
