(* ===== verification/Performance.thy ===== *)
theory Performance
  imports Domain "HOL-Library.List_Lexorder" "HOL-Library.Char_ord" "HOL-Library.Product_Lexorder"
    "HOL-Library.Multiset"
begin

text \<open>
  The performance engine, \<open>services/common/performance.py\<close>, and the query that feeds it,
  \<open>services/common/performance_query.py\<close>.  A metric that the code returns as \<open>None\<close> is \<open>None\<close>
  here; the guards before each division make the divisions total, so no metric can raise.
  Where SQL leaves the order of equal timestamps open, rows keep their insertion order.
\<close>

section \<open>Closed trades\<close>

record ClosedTradeMetrics =
  tr_pnl_usdt :: rat
  tr_r_multiple :: "rat option"
  tr_fees_usdt :: "rat option"
  tr_closed_at :: datetime
  tr_market_regime :: "string option"
  tr_volatility_regime :: "string option"
  tr_trade_score :: "int option"

definition count_if :: "('a \<Rightarrow> bool) \<Rightarrow> 'a list \<Rightarrow> nat" where
  "count_if P xs = length (filter P xs)"

definition some_values :: "('a \<Rightarrow> 'b option) \<Rightarrow> 'a list \<Rightarrow> 'b list" where
  "some_values f xs = List.map_filter f xs"

definition mean :: "rat list \<Rightarrow> rat option" where
  "mean xs = (if xs = [] then None else Some (dec (dec_sum xs / of_nat (length xs))))"

definition compute_win_rate :: "ClosedTradeMetrics list \<Rightarrow> rat option" where
  "compute_win_rate trades =
     (if trades = [] then None
      else let wins = count_if (\<lambda>t. tr_pnl_usdt t > 0) trades
           in Some (dec (of_nat wins / of_nat (length trades))))"

definition compute_avg_win_r :: "ClosedTradeMetrics list \<Rightarrow> rat option" where
  "compute_avg_win_r trades =
     mean (some_values tr_r_multiple (filter (\<lambda>t. tr_pnl_usdt t > 0) trades))"

definition compute_avg_loss_r :: "ClosedTradeMetrics list \<Rightarrow> rat option" where
  "compute_avg_loss_r trades =
     mean (some_values tr_r_multiple (filter (\<lambda>t. tr_pnl_usdt t < 0) trades))"

definition compute_total_r :: "ClosedTradeMetrics list \<Rightarrow> rat option" where
  "compute_total_r trades =
     (let values = some_values tr_r_multiple trades
      in if values = [] then None else Some (dec_sum values))"

definition compute_expectancy_r :: "ClosedTradeMetrics list \<Rightarrow> rat option" where
  "compute_expectancy_r trades = mean (some_values tr_r_multiple trades)"

definition compute_total_pnl_usdt :: "ClosedTradeMetrics list \<Rightarrow> rat" where
  "compute_total_pnl_usdt trades = dec_sum (map tr_pnl_usdt trades)"

definition compute_profit_factor :: "ClosedTradeMetrics list \<Rightarrow> rat option" where
  "compute_profit_factor trades =
     (let gross_profit = dec_sum (map tr_pnl_usdt (filter (\<lambda>t. tr_pnl_usdt t > 0) trades));
          gross_loss = dec_sum (map (\<lambda>t. dec (- tr_pnl_usdt t)) (filter (\<lambda>t. tr_pnl_usdt t < 0) trades))
      in if gross_loss > 0 then Some (dec (gross_profit / gross_loss)) else None)"

definition compute_total_fees_usdt :: "ClosedTradeMetrics list \<Rightarrow> rat" where
  "compute_total_fees_usdt trades = dec_sum (some_values tr_fees_usdt trades)"

section \<open>The equity curve and its drawdowns\<close>

fun running_equity :: "rat \<Rightarrow> rat list \<Rightarrow> rat list" where
  "running_equity equity [] = []"
| "running_equity equity (p # ps) = dec (equity + p) # running_equity (dec (equity + p)) ps"

definition equity_curve :: "ClosedTradeMetrics list \<Rightarrow> rat \<Rightarrow> rat list" where
  "equity_curve trades starting_equity_usdt =
     running_equity starting_equity_usdt (map tr_pnl_usdt (sort_key tr_closed_at trades))"

definition depth :: "rat \<Rightarrow> rat \<Rightarrow> rat" where
  "depth peak equity = dec (dec (peak - equity) / peak)"

text \<open>The body of the loop over the curve: state \<open>(peak, worst)\<close>.\<close>

definition drawdown_step :: "rat \<Rightarrow> rat \<times> rat \<Rightarrow> rat \<times> rat" where
  "drawdown_step equity = (\<lambda>(peak, worst).
     let peak = max peak equity
     in (peak, if peak > 0 then max worst (depth peak equity) else worst))"

definition compute_max_drawdown_pct :: "ClosedTradeMetrics list \<Rightarrow> rat \<Rightarrow> rat option" where
  "compute_max_drawdown_pct trades starting_equity_usdt =
     (if trades = [] \<or> starting_equity_usdt \<le> 0 then None
      else Some (snd (fold drawdown_step (equity_curve trades starting_equity_usdt)
                        (starting_equity_usdt, 0))))"

text \<open>The underwater curve collected by the second loop: state \<open>(peak, depths)\<close>.\<close>

definition underwater_step :: "rat \<Rightarrow> rat \<times> rat list \<Rightarrow> rat \<times> rat list" where
  "underwater_step equity = (\<lambda>(peak, depths).
     let peak = max peak equity
     in (peak, if peak > 0 \<and> equity < peak then depths @ [depth peak equity] else depths))"

definition compute_avg_drawdown_pct :: "ClosedTradeMetrics list \<Rightarrow> rat \<Rightarrow> rat option" where
  "compute_avg_drawdown_pct trades starting_equity_usdt =
     (if trades = [] \<or> starting_equity_usdt \<le> 0 then None
      else let depths = snd (fold underwater_step (equity_curve trades starting_equity_usdt)
                               (starting_equity_usdt, []))
           in Some (if depths = [] then 0
                    else dec (dec_sum depths / of_nat (length depths))))"

section \<open>The report\<close>

record PerformanceReport =
  pr_trades :: nat
  pr_wins :: nat
  pr_losses :: nat
  pr_breakeven :: nat
  pr_trades_with_r :: nat
  pr_win_rate :: "rat option"
  pr_avg_win_r :: "rat option"
  pr_avg_loss_r :: "rat option"
  pr_expectancy_r :: "rat option"
  pr_total_r :: "rat option"
  pr_total_pnl_usdt :: rat
  pr_profit_factor :: "rat option"
  pr_max_drawdown_pct :: "rat option"
  pr_avg_drawdown_pct :: "rat option"
  pr_total_fees_usdt :: rat
  pr_total_slippage_usdt :: "rat option"
  pr_starting_equity_usdt :: "rat option"

definition summarize :: "ClosedTradeMetrics list \<Rightarrow> rat option \<Rightarrow> PerformanceReport" where
  "summarize trades starting_equity_usdt =
     (let drawdown_anchor =
            (case starting_equity_usdt of None \<Rightarrow> None | Some e \<Rightarrow> if e > 0 then Some e else None)
      in \<lparr>pr_trades = length trades,
          pr_wins = count_if (\<lambda>t. tr_pnl_usdt t > 0) trades,
          pr_losses = count_if (\<lambda>t. tr_pnl_usdt t < 0) trades,
          pr_breakeven = count_if (\<lambda>t. tr_pnl_usdt t = 0) trades,
          pr_trades_with_r = count_if (\<lambda>t. tr_r_multiple t \<noteq> None) trades,
          pr_win_rate = compute_win_rate trades,
          pr_avg_win_r = compute_avg_win_r trades,
          pr_avg_loss_r = compute_avg_loss_r trades,
          pr_expectancy_r = compute_expectancy_r trades,
          pr_total_r = compute_total_r trades,
          pr_total_pnl_usdt = compute_total_pnl_usdt trades,
          pr_profit_factor = compute_profit_factor trades,
          pr_max_drawdown_pct = Option.bind drawdown_anchor (compute_max_drawdown_pct trades),
          pr_avg_drawdown_pct = Option.bind drawdown_anchor (compute_avg_drawdown_pct trades),
          pr_total_fees_usdt = compute_total_fees_usdt trades,
          pr_total_slippage_usdt = None,
          pr_starting_equity_usdt = drawdown_anchor\<rparr>)"

section \<open>Breakdowns\<close>

text \<open>The bucket labels contain an en dash, here as its UTF-8 bytes.\<close>

definition en_dash :: string where
  "en_dash = [CHR 0xE2, CHR 0x80, CHR 0x93]"

definition SCORE_BUCKETS :: "(string \<times> int \<times> int) list" where
  "SCORE_BUCKETS =
     [(''0'' @ en_dash @ ''39'', 0, 39),
      (''40'' @ en_dash @ ''69'', 40, 69),
      (''70'' @ en_dash @ ''100'', 70, 100)]"

definition UNSCORED_LABEL :: string where "UNSCORED_LABEL = ''(unscored)''"

definition UNCLASSIFIED_LABEL :: string where "UNCLASSIFIED_LABEL = ''(unclassified)''"

definition score_bucket_label :: "int option \<Rightarrow> string" where
  "score_bucket_label score =
     (case score of
        None \<Rightarrow> UNSCORED_LABEL
      | Some s \<Rightarrow>
          (case find (\<lambda>(label, low, high). low \<le> s \<and> s \<le> high) SCORE_BUCKETS of
             Some (label, low, high) \<Rightarrow> label
           | None \<Rightarrow> UNSCORED_LABEL))"

record BreakdownCohort =
  bc_key :: string
  bc_report :: PerformanceReport

record PerformanceBreakdowns =
  pb_by_regime :: "BreakdownCohort list"
  pb_by_volatility :: "BreakdownCohort list"
  pb_by_score_bucket :: "BreakdownCohort list"

text \<open>\<open>groups.setdefault(k, []).append(t)\<close> on an insertion-ordered dict.\<close>

fun add_to_group :: "'k \<Rightarrow> 'a \<Rightarrow> ('k \<times> 'a list) list \<Rightarrow> ('k \<times> 'a list) list" where
  "add_to_group k x [] = [(k, [x])]"
| "add_to_group k x ((k', xs) # gs) =
     (if k' = k then (k', xs @ [x]) # gs else (k', xs) # add_to_group k x gs)"

definition group_key :: "('a \<Rightarrow> string option) \<Rightarrow> string \<Rightarrow> 'a \<Rightarrow> string" where
  "group_key key_of catch_all x = (case key_of x of None \<Rightarrow> catch_all | Some k \<Rightarrow> k)"

definition group_by :: "('a \<Rightarrow> 'k) \<Rightarrow> 'a list \<Rightarrow> ('k \<times> 'a list) list" where
  "group_by key xs = fold (\<lambda>x. add_to_group (key x) x) xs []"

definition ordered_groups ::
    "('a \<Rightarrow> string option) \<Rightarrow> string \<Rightarrow> 'a list \<Rightarrow> (string \<times> 'a list) list" where
  "ordered_groups key_of catch_all trades =
     sort_key (\<lambda>(k, ts). (k = catch_all, - int (length ts), k))
       (group_by (group_key key_of catch_all) trades)"

definition cohorts ::
    "ClosedTradeMetrics list \<Rightarrow> (ClosedTradeMetrics \<Rightarrow> string option) \<Rightarrow> string \<Rightarrow> rat option
     \<Rightarrow> BreakdownCohort list" where
  "cohorts trades key_of catch_all starting_equity_usdt =
     map (\<lambda>(key, cohort). \<lparr>bc_key = key, bc_report = summarize cohort starting_equity_usdt\<rparr>)
       (ordered_groups key_of catch_all trades)"

definition summarize_breakdowns ::
    "ClosedTradeMetrics list \<Rightarrow> rat option \<Rightarrow> PerformanceBreakdowns" where
  "summarize_breakdowns trades starting_equity_usdt =
     \<lparr>pb_by_regime = cohorts trades tr_market_regime UNCLASSIFIED_LABEL starting_equity_usdt,
      pb_by_volatility = cohorts trades tr_volatility_regime UNCLASSIFIED_LABEL starting_equity_usdt,
      pb_by_score_bucket =
        cohorts trades (\<lambda>t. Some (score_bucket_label (tr_trade_score t))) UNSCORED_LABEL
          starting_equity_usdt\<rparr>"

section \<open>The query\<close>

definition opt_le :: "'a::linorder \<Rightarrow> 'a option \<Rightarrow> bool" where
  "opt_le a x = (case x of None \<Rightarrow> False | Some b \<Rightarrow> a \<le> b)"

definition opt_ge :: "'a::linorder \<Rightarrow> 'a option \<Rightarrow> bool" where
  "opt_ge a x = (case x of None \<Rightarrow> False | Some b \<Rightarrow> b \<le> a)"

fun to_metrics :: "position list \<Rightarrow> ClosedTradeMetrics list" where
  "to_metrics [] = []"
| "to_metrics (row # rows) =
     (case (pos_closed_at row, pos_pnl_usdt row) of
        (Some c, Some p) \<Rightarrow>
          \<lparr>tr_pnl_usdt = p, tr_r_multiple = pos_r_multiple row, tr_fees_usdt = pos_fees_usdt row,
           tr_closed_at = c, tr_market_regime = pos_market_regime row,
           tr_volatility_regime = pos_volatility_regime row,
           tr_trade_score = pos_trade_score row\<rparr> # to_metrics rows
      | _ \<Rightarrow> to_metrics rows)"

record trade_filter =
  tf_symbol :: "string option"
  tf_regime :: "string option"
  tf_score_min :: "int option"
  tf_score_max :: "int option"
  tf_since :: "datetime option"
  tf_until :: "datetime option"

definition filter_holds :: "trade_filter \<Rightarrow> position \<Rightarrow> bool" where
  "filter_holds f p \<longleftrightarrow>
     pos_status p = CLOSED \<and>
     (case tf_symbol f of None \<Rightarrow> True | Some s \<Rightarrow> pos_symbol p = s) \<and>
     (case tf_regime f of None \<Rightarrow> True | Some r \<Rightarrow> pos_market_regime p = Some r) \<and>
     (case tf_score_min f of None \<Rightarrow> True | Some m \<Rightarrow> opt_le m (pos_trade_score p)) \<and>
     (case tf_score_max f of None \<Rightarrow> True | Some m \<Rightarrow> opt_ge m (pos_trade_score p)) \<and>
     (case tf_since f of None \<Rightarrow> True | Some t \<Rightarrow> opt_le t (pos_closed_at p)) \<and>
     (case tf_until f of None \<Rightarrow> True | Some t \<Rightarrow> opt_ge t (pos_closed_at p))"

text \<open>\<open>ORDER BY closed_at ASC\<close> puts rows without a timestamp last.\<close>

definition load_closed_trade_metrics :: "trade_filter \<Rightarrow> db \<Rightarrow> ClosedTradeMetrics list" where
  "load_closed_trade_metrics f d =
     to_metrics
       (sort_key (\<lambda>p. case pos_closed_at p of None \<Rightarrow> (True, 0) | Some t \<Rightarrow> (False, t))
          (filter (filter_holds f) (db_positions d)))"


lemma summarize_sel [simp]:
  "pr_trades (summarize ts eq) = length ts"
  "pr_wins (summarize ts eq) = count_if (\<lambda>t. tr_pnl_usdt t > 0) ts"
  "pr_losses (summarize ts eq) = count_if (\<lambda>t. tr_pnl_usdt t < 0) ts"
  "pr_breakeven (summarize ts eq) = count_if (\<lambda>t. tr_pnl_usdt t = 0) ts"
  "pr_trades_with_r (summarize ts eq) = count_if (\<lambda>t. tr_r_multiple t \<noteq> None) ts"
  "pr_win_rate (summarize ts eq) = compute_win_rate ts"
  "pr_expectancy_r (summarize ts eq) = compute_expectancy_r ts"
  "pr_total_r (summarize ts eq) = compute_total_r ts"
  "pr_total_pnl_usdt (summarize ts eq) = compute_total_pnl_usdt ts"
  "pr_profit_factor (summarize ts eq) = compute_profit_factor ts"
  by (simp_all add: summarize_def Let_def)

section \<open>Grouping\<close>

lemma keys_add_to_group:
  "map fst (add_to_group k x gs) =
     (if k \<in> fst ` set gs then map fst gs else map fst gs @ [k])"
  by (induction k x gs rule: add_to_group.induct) auto

lemma map_of_add_to_group:
  "map_of (add_to_group k x gs) =
     (map_of gs)(k \<mapsto> (case map_of gs k of None \<Rightarrow> [x] | Some ts \<Rightarrow> ts @ [x]))"
  by (induction k x gs rule: add_to_group.induct) (auto split: option.splits)

lemma group_by_snoc: "group_by key (xs @ [x]) = add_to_group (key x) x (group_by key xs)"
  by (simp add: group_by_def)

lemma group_by_Nil [simp]: "group_by key [] = []"
  by (simp add: group_by_def)

lemma set_keys_group_by: "fst ` set (group_by key xs) = key ` set xs"
proof (induction xs rule: rev_induct)
  case (snoc x xs)
  have "fst ` set (group_by key (xs @ [x])) = set (map fst (add_to_group (key x) x (group_by key xs)))"
    by (simp add: group_by_snoc)
  also have "\<dots> = insert (key x) (fst ` set (group_by key xs))"
    unfolding keys_add_to_group by (auto simp del: image_eqI)
  finally show ?case using snoc.IH by simp
qed simp

lemma distinct_keys_group_by: "distinct (map fst (group_by key xs))"
proof (induction xs rule: rev_induct)
  case (snoc x xs)
  then show ?case by (simp add: group_by_snoc keys_add_to_group)
qed simp

lemma map_of_group_by:
  "map_of (group_by key xs) k =
     (if k \<in> key ` set xs then Some (filter (\<lambda>x. key x = k) xs) else None)"
proof (induction xs arbitrary: k rule: rev_induct)
  case (snoc x xs)
  have none: "filter (\<lambda>x. key x = k) xs = []" if "k \<notin> key ` set xs" for k
    using that by (auto simp: filter_empty_conv)
  show ?case
    unfolding group_by_snoc map_of_add_to_group by (simp add: snoc.IH none)
qed simp

lemma group_by_mem:
  assumes "(k, ts) \<in> set (group_by key xs)"
  shows "ts = filter (\<lambda>x. key x = k) xs"
proof -
  have "map_of (group_by key xs) k = Some ts"
    using assms by (simp add: map_of_eq_Some_iff distinct_keys_group_by)
  then show ?thesis by (simp add: map_of_group_by split: if_splits)
qed

text \<open>Sums over the groups: each trade is counted once.\<close>

lemma sum_list_add_to_group:
  fixes h :: "'a \<Rightarrow> 'b::comm_monoid_add"
  shows "(\<Sum>g\<leftarrow>add_to_group k x gs. sum_list (map h (snd g))) =
           (\<Sum>g\<leftarrow>gs. sum_list (map h (snd g))) + h x"
  by (induction k x gs rule: add_to_group.induct) (auto simp: ac_simps)

lemma sum_list_group_by:
  fixes h :: "'a \<Rightarrow> 'b::comm_monoid_add"
  shows "(\<Sum>g\<leftarrow>group_by key xs. sum_list (map h (snd g))) = sum_list (map h xs)"
proof (induction xs rule: rev_induct)
  case (snoc x xs)
  then show ?case by (simp add: group_by_snoc sum_list_add_to_group)
qed simp

lemma sum_list_map_sort_key:
  fixes h :: "'a \<Rightarrow> 'b::comm_monoid_add"
  shows "sum_list (map h (sort_key f xs)) = sum_list (map h xs)"
  by (simp flip: sum_mset_sum_list)

lemma ordered_groups_mem:
  "(k, ts) \<in> set (ordered_groups key_of ca xs) \<Longrightarrow> ts = filter (\<lambda>x. group_key key_of ca x = k) xs"
  by (simp add: ordered_groups_def group_by_mem)

lemma ordered_groups_keys:
  "distinct (map fst (ordered_groups key_of ca xs))"
  "set (map fst (ordered_groups key_of ca xs)) = group_key key_of ca ` set xs"
proof -
  have "mset (map fst (ordered_groups key_of ca xs)) = mset (map fst (group_by (group_key key_of ca) xs))"
    by (simp add: ordered_groups_def)
  then show "distinct (map fst (ordered_groups key_of ca xs))"
    using distinct_keys_group_by mset_eq_imp_distinct_iff by metis
  show "set (map fst (ordered_groups key_of ca xs)) = group_key key_of ca ` set xs"
    by (simp add: ordered_groups_def set_keys_group_by)
qed


lemma sum_list_ordered_groups:
  fixes h :: "'a \<Rightarrow> 'b::comm_monoid_add"
  shows "(\<Sum>g\<leftarrow>ordered_groups key_of ca xs. sum_list (map h (snd g))) = sum_list (map h xs)"
  unfolding ordered_groups_def sum_list_map_sort_key by (rule sum_list_group_by)

lemma cohort_mem:
  assumes "c \<in> set (cohorts trades key_of ca eq)"
  shows "bc_report c = summarize (filter (\<lambda>t. group_key key_of ca t = bc_key c) trades) eq"
  using assms ordered_groups_mem by (fastforce simp: cohorts_def)

lemma map_bc_key: "map bc_key (cohorts trades key_of ca eq) = map fst (ordered_groups key_of ca trades)"
  by (simp add: cohorts_def case_prod_beta comp_def)

lemma count_if_sum: "count_if P xs = sum_list (map (\<lambda>x. if P x then 1 else 0) xs)"
  by (induction xs) (simp_all add: count_if_def)

text \<open>
  A breakdown is a partition of the trades: every value of the dimension that occurs has
  exactly one cohort, the cohort's report is the summary of exactly the trades with that value,
  the cohort sizes add up to the number of trades, and the cohorts come in the documented order,
  the catch-all last, then larger first, then by name.
\<close>

theorem cohorts_partition:
  "distinct (map bc_key (cohorts trades key_of ca eq)) \<and>
   bc_key ` set (cohorts trades key_of ca eq) = group_key key_of ca ` set trades \<and>
   map bc_report (cohorts trades key_of ca eq) =
     map (\<lambda>k. summarize (filter (\<lambda>t. group_key key_of ca t = k) trades) eq)
       (map bc_key (cohorts trades key_of ca eq)) \<and>
   (\<Sum>c\<leftarrow>cohorts trades key_of ca eq. pr_trades (bc_report c)) = length trades \<and>
   sorted (map (\<lambda>c. (bc_key c = ca, - int (pr_trades (bc_report c)), bc_key c))
             (cohorts trades key_of ca eq))"
proof (intro conjI)
  show "distinct (map bc_key (cohorts trades key_of ca eq))"
    unfolding map_bc_key by (rule ordered_groups_keys)
  show "bc_key ` set (cohorts trades key_of ca eq) = group_key key_of ca ` set trades"
    using ordered_groups_keys(2) map_bc_key by (metis list.set_map)
  show "map bc_report (cohorts trades key_of ca eq) =
     map (\<lambda>k. summarize (filter (\<lambda>t. group_key key_of ca t = k) trades) eq)
       (map bc_key (cohorts trades key_of ca eq))"
    by (simp add: cohort_mem comp_def)
  have "(\<Sum>c\<leftarrow>cohorts trades key_of ca eq. pr_trades (bc_report c)) =
      (\<Sum>g\<leftarrow>ordered_groups key_of ca trades. sum_list (map (\<lambda>_. 1) (snd g)))"
    by (simp add: cohorts_def comp_def case_prod_beta sum_list_triv)
  then show "(\<Sum>c\<leftarrow>cohorts trades key_of ca eq. pr_trades (bc_report c)) = length trades"
    using sum_list_ordered_groups[of "\<lambda>_. 1 :: nat" key_of ca trades] by (simp add: sum_list_triv)
  have "sorted (map (\<lambda>(k, ts). (k = ca, - int (length ts), k)) (ordered_groups key_of ca trades))"
    unfolding ordered_groups_def by (rule sorted_sort_key)
  then show "sorted (map (\<lambda>c. (bc_key c = ca, - int (pr_trades (bc_report c)), bc_key c))
             (cohorts trades key_of ca eq))"
    by (simp add: cohorts_def comp_def case_prod_unfold)
qed

section \<open>Exact totals\<close>

text \<open>What the \<open>NUMERIC(20, 8)\<close> columns guarantee of a list of amounts.\<close>

definition stored_amounts :: "rat list \<Rightarrow> bool" where
  "stored_amounts xs \<longleftrightarrow> (\<forall>x \<in> set xs. on_grid 8 x) \<and> (\<Sum>x\<leftarrow>xs. \<bar>x\<bar>) \<le> 10 ^ 20"

lemma stored_amounts_sum: "stored_amounts xs \<Longrightarrow> dec_sum xs = sum_list xs"
  by (rule dec_sum_exact[of _ 8]) (simp_all add: stored_amounts_def)

lemma sum_list_filter_le:
  fixes h :: "'a \<Rightarrow> rat"
  assumes "\<And>x. 0 \<le> h x"
  shows "sum_list (map h (filter P xs)) \<le> sum_list (map h xs)"
  using assms by (induction xs) (auto intro: add_increasing)

lemma stored_amounts_filter:
  assumes "stored_amounts (map f xs)"
  shows "stored_amounts (map f (filter P xs))"
  using assms sum_list_filter_le[of "\<lambda>x. \<bar>f x\<bar>" P xs]
  by (auto simp: stored_amounts_def comp_def)

text \<open>
  C19. Money is not lost between a breakdown and its parent: for amounts the database can hold,
  the total PnL of a report is the exact sum, and the totals of the cohorts of any dimension add
  up to it, in spite of the rounding decimal context.
\<close>

theorem cohort_pnl_adds_up:
  assumes "stored_amounts (map tr_pnl_usdt trades)"
  shows "(\<Sum>c\<leftarrow>cohorts trades key_of ca eq. pr_total_pnl_usdt (bc_report c))
           = pr_total_pnl_usdt (summarize trades eq)
         \<and> pr_total_pnl_usdt (summarize trades eq) = (\<Sum>t\<leftarrow>trades. tr_pnl_usdt t)"
proof -
  have tot: "pr_total_pnl_usdt (summarize ts eq) = dec_sum (map tr_pnl_usdt ts)" for ts
    by (simp add: compute_total_pnl_usdt_def)
  have all: "dec_sum (map tr_pnl_usdt trades) = (\<Sum>t\<leftarrow>trades. tr_pnl_usdt t)"
    by (rule stored_amounts_sum[OF assms])
  have "dec_sum (map tr_pnl_usdt ts) = sum_list (map tr_pnl_usdt ts)"
    if "(k, ts) \<in> set (ordered_groups key_of ca trades)" for k ts
    using ordered_groups_mem[OF that] stored_amounts_sum[OF stored_amounts_filter[OF assms]] by simp
  then have "(\<Sum>c\<leftarrow>cohorts trades key_of ca eq. pr_total_pnl_usdt (bc_report c)) =
      (\<Sum>g\<leftarrow>ordered_groups key_of ca trades. sum_list (map tr_pnl_usdt (snd g)))"
    by (auto simp: cohorts_def comp_def case_prod_beta compute_total_pnl_usdt_def intro!: arg_cong[where f = sum_list] map_cong)
  then show ?thesis using all tot by (simp only: sum_list_ordered_groups)
qed

definition sample_trade :: "rat \<Rightarrow> datetime \<Rightarrow> string option \<Rightarrow> ClosedTradeMetrics" where
  "sample_trade p t regime =
     \<lparr>tr_pnl_usdt = p, tr_r_multiple = Some (p / 2), tr_fees_usdt = None, tr_closed_at = t,
      tr_market_regime = regime, tr_volatility_regime = None, tr_trade_score = Some 72\<rparr>"

definition sample_trades :: "ClosedTradeMetrics list" where
  "sample_trades =
     [sample_trade 5 10 (Some ''TREND''), sample_trade (- 2) 20 None, sample_trade (- 4) 30 (Some ''TREND'')]"

lemma sample_stored: "stored_amounts (map tr_pnl_usdt sample_trades)"
  by (simp add: stored_amounts_def sample_trades_def sample_trade_def on_grid_def)

theorem cohort_pnl_adds_up_witness:
  "(\<Sum>c\<leftarrow>cohorts sample_trades tr_market_regime UNCLASSIFIED_LABEL None.
       pr_total_pnl_usdt (bc_report c)) = - 1"
  using cohort_pnl_adds_up[OF sample_stored, of tr_market_regime UNCLASSIFIED_LABEL None]
  by (simp add: sample_trades_def sample_trade_def)


section \<open>Counts and averages\<close>

text \<open>
  The figures of a report are consistent: wins, losses and breakeven trades add up to the
  number of trades, the win rate exists exactly when there is a trade and lies in the unit
  interval, expectancy exists exactly when some trade carries an R multiple, and a profit factor
  exists only when there is a loss and is then not negative.
\<close>

lemma count_if_le: "count_if P xs \<le> length xs"
  by (simp add: count_if_def)

lemma some_values_Nil: "some_values f xs = [] \<longleftrightarrow> count_if (\<lambda>x. f x \<noteq> None) xs = 0"
  by (induction xs) (auto simp: some_values_def count_if_def List.map_filter_def filter_empty_conv)

lemma dec_ratio_unit: "m \<le> n \<Longrightarrow> 0 < n \<Longrightarrow> 0 \<le> dec (of_nat m / of_nat n) \<and> dec (of_nat m / of_nat n) \<le> 1"
  using dec.unit[of "of_nat m / of_nat n"] by simp

lemma gross_nonneg: "0 \<le> dec_sum (map tr_pnl_usdt (filter (\<lambda>t. tr_pnl_usdt t > 0) ts))"
  by (rule dec_sum_nonneg) auto

lemma gross_loss_Nil:
  "filter (\<lambda>t. tr_pnl_usdt t < 0) ts = [] \<Longrightarrow> compute_profit_factor ts = None"
  by (simp add: compute_profit_factor_def)

theorem report_consistent:
  "pr_wins (summarize ts eq) + pr_losses (summarize ts eq) + pr_breakeven (summarize ts eq)
      = pr_trades (summarize ts eq) \<and>
   (pr_win_rate (summarize ts eq) = None) = (ts = []) \<and>
   (case pr_win_rate (summarize ts eq) of None \<Rightarrow> True | Some w \<Rightarrow> 0 \<le> w \<and> w \<le> 1) \<and>
   (pr_expectancy_r (summarize ts eq) = None) = (pr_trades_with_r (summarize ts eq) = 0) \<and>
   (pr_losses (summarize ts eq) = 0 \<and> pr_profit_factor (summarize ts eq) \<noteq> None) = False \<and>
   (case pr_profit_factor (summarize ts eq) of None \<Rightarrow> True | Some f \<Rightarrow> 0 \<le> f)"
proof (intro conjI)
  show "pr_wins (summarize ts eq) + pr_losses (summarize ts eq) + pr_breakeven (summarize ts eq)
      = pr_trades (summarize ts eq)"
    unfolding summarize_sel count_if_def by (induction ts) auto
  show "(pr_win_rate (summarize ts eq) = None) = (ts = [])"
    by (simp add: compute_win_rate_def)
  show "case pr_win_rate (summarize ts eq) of None \<Rightarrow> True | Some w \<Rightarrow> 0 \<le> w \<and> w \<le> 1"
    using dec_ratio_unit[OF count_if_le[of "\<lambda>t. tr_pnl_usdt t > 0" ts]]
    by (simp add: compute_win_rate_def Let_def)
  show "(pr_expectancy_r (summarize ts eq) = None) = (pr_trades_with_r (summarize ts eq) = 0)"
    using some_values_Nil[of tr_r_multiple ts] by (simp add: compute_expectancy_r_def mean_def)
  show "(pr_losses (summarize ts eq) = 0 \<and> pr_profit_factor (summarize ts eq) \<noteq> None) = False"
    using gross_loss_Nil[of ts] by (auto simp: count_if_def)
  show "case pr_profit_factor (summarize ts eq) of None \<Rightarrow> True | Some f \<Rightarrow> 0 \<le> f"
    using gross_nonneg[of ts] by (simp add: compute_profit_factor_def Let_def)
qed

section \<open>Drawdown\<close>

text \<open>The specification: the depth of each point below the highest point so far.\<close>

fun depths_below :: "rat \<Rightarrow> rat list \<Rightarrow> rat list" where
  "depths_below peak [] = []"
| "depths_below peak (e # es) = depth (max peak e) e # depths_below (max peak e) es"

lemma drawdown_step_pos:
  "0 < peak \<Longrightarrow> drawdown_step e (peak, worst) = (max peak e, max worst (depth (max peak e) e))"
  by (auto simp: drawdown_step_def Let_def max_def)

lemma fold_drawdown_step:
  assumes "0 < peak"
  shows "snd (fold drawdown_step es (peak, worst)) = Max (insert worst (set (depths_below peak es)))"
  using assms
proof (induction es arbitrary: peak worst)
  case (Cons e es)
  have p: "0 < max peak e" using Cons.prems by simp
  then have "snd (fold drawdown_step (e # es) (peak, worst)) =
      Max (insert (max worst (depth (max peak e) e)) (set (depths_below (max peak e) es)))"
    using Cons.IH[OF p] drawdown_step_pos[OF Cons.prems] by simp
  also have "\<dots> = Max (insert worst (set (depths_below peak (e # es))))"
    by (cases "depths_below (max peak e) es") (simp_all add: ac_simps)
  finally show ?case .
qed simp

lemma nth_depths_below:
  "i < length es \<Longrightarrow> depths_below peak es ! i = depth (Max (insert peak (set (take (Suc i) es)))) (es ! i)"
proof (induction es arbitrary: peak i)
  case (Cons e es)
  show ?case
  proof (cases i)
    case 0
    then show ?thesis by (simp add: max_def)
  next
    case (Suc j)
    then have "Max (insert (max peak e) (set (take (Suc j) es))) = Max (insert peak (set (take (Suc i) (e # es))))"
      using Cons.prems by (cases "take (Suc j) es") (auto simp: ac_simps)
    with Suc Cons show ?thesis by simp
  qed
qed simp

lemma length_depths_below [simp]: "length (depths_below peak es) = length es"
  by (induction es arbitrary: peak) auto

lemma depths_below_eq:
  "depths_below peak es =
     map (\<lambda>i. depth (Max (insert peak (set (take (Suc i) es)))) (es ! i)) [0..<length es]"
  by (intro nth_equalityI) (simp_all add: nth_depths_below)

lemma depth_bounds:
  assumes "0 < p" "0 \<le> e" "e \<le> p" "dec p = p"
  shows "0 \<le> depth p e" "depth p e \<le> 1"
proof -
  have "dec (p - e) \<le> dec p" using assms by (intro dec.mono) simp
  then have "0 \<le> dec (p - e) / p" "dec (p - e) / p \<le> 1" using assms by simp_all
  then show "0 \<le> depth p e" "depth p e \<le> 1" using dec.unit by (auto simp: depth_def)
qed

lemma depths_below_bounds:
  assumes "0 < p" "dec p = p" "\<forall>e \<in> set es. 0 \<le> e \<and> dec e = e"
  shows "\<forall>x \<in> set (depths_below p es). 0 \<le> x \<and> x \<le> 1"
  using assms
proof (induction es arbitrary: p)
  case (Cons e es)
  have m: "0 < max p e" "dec (max p e) = max p e" using Cons.prems by (auto simp: max_def)
  with Cons.prems have "0 \<le> depth (max p e) e" "depth (max p e) e \<le> 1"
    by (auto intro: depth_bounds)
  moreover have "\<forall>x \<in> set (depths_below (max p e) es). 0 \<le> x \<and> x \<le> 1"
    using Cons.IH[OF m] Cons.prems by simp
  ultimately show ?case by simp
qed simp

lemma running_equity_dec: "\<forall>e \<in> set (running_equity s ps). dec e = e"
  by (induction s ps rule: running_equity.induct) auto

lemma equity_curve_dec: "\<forall>e \<in> set (equity_curve ts s). dec e = e"
  by (simp add: equity_curve_def running_equity_dec)

lemma equity_curve_perm:
  "mset ts = mset ts' \<Longrightarrow> inj_on tr_closed_at (set ts) \<Longrightarrow> equity_curve ts s = equity_curve ts' s"
  unfolding equity_curve_def
  by (subst sort_key_inj_key_eq[of ts "sort_key tr_closed_at ts'"]) simp_all

text \<open>
  C20. The single pass over the equity curve computes the maximum drawdown as it is defined: the
  largest depth of any point of the curve below the highest point up to it, the starting equity
  included, and never below zero.
\<close>

theorem max_drawdown_is_max_depth:
  assumes "ts \<noteq> []" "0 < s"
  shows "compute_max_drawdown_pct ts s =
     Some (Max (insert 0 (set (map
       (\<lambda>i. depth (Max (insert s (set (take (Suc i) (equity_curve ts s))))) (equity_curve ts s ! i))
       [0..<length (equity_curve ts s)]))))"
  using assms fold_drawdown_step[OF assms(2), of "equity_curve ts s" 0] depths_below_eq[of s "equity_curve ts s"]
  by (simp add: compute_max_drawdown_pct_def)

theorem max_drawdown_is_max_depth_witness:
  "compute_max_drawdown_pct [sample_trade (- 10) 20 None, sample_trade 100 10 None] 100 = Some (5 / 100)"
proof -
  let ?ts = "[sample_trade (- 10) 20 None, sample_trade 100 10 None]"
  have curve: "equity_curve ?ts 100 = [200, 190]"
    by (simp add: equity_curve_def sample_trade_def)
  have d: "depth 200 200 = 0" "depth 200 190 = 5 / 100" by code_simp+
  show ?thesis
    using max_drawdown_is_max_depth[of ?ts 100] unfolding curve
    by (simp add: d upt_conv_Cons)
qed

text \<open>
  While the account never goes below zero a drawdown is a fraction between 0 and 1, and the
  order in which the trades are handed over does not matter, only their closing times.
\<close>

theorem max_drawdown_bounds:
  assumes "ts \<noteq> []" "0 < s" "dec s = s" "\<forall>e \<in> set (equity_curve ts s). 0 \<le> e"
    and "mset ts' = mset ts" "inj_on tr_closed_at (set ts)"
  shows "\<exists>w. compute_max_drawdown_pct ts s = Some w \<and> 0 \<le> w \<and> w \<le> 1 \<and>
             compute_max_drawdown_pct ts' s = Some w"
proof -
  have "ts' \<noteq> []" using assms(1,5) by auto
  moreover have "equity_curve ts' s = equity_curve ts s"
    using equity_curve_perm[OF assms(5)[symmetric] assms(6)] ..
  moreover have "\<forall>x \<in> set (depths_below s (equity_curve ts s)). 0 \<le> x \<and> x \<le> 1"
    using assms equity_curve_dec by (intro depths_below_bounds) auto
  ultimately show ?thesis
    using assms(1,2) fold_drawdown_step[OF assms(2), of "equity_curve ts s" 0]
    by (simp add: compute_max_drawdown_pct_def)
qed

theorem max_drawdown_bounds_witness:
  "\<exists>w. compute_max_drawdown_pct [sample_trade 100 10 None, sample_trade (- 10) 20 None] 100 = Some w \<and>
       w \<le> 1"
proof -
  let ?ts = "[sample_trade (- 10) 20 None, sample_trade 100 10 None]"
  have "equity_curve ?ts 100 = [200, 190]" by (simp add: equity_curve_def sample_trade_def)
  then show ?thesis
    using max_drawdown_bounds[of ?ts 100 "[sample_trade 100 10 None, sample_trade (- 10) 20 None]"]
    by (auto simp: sample_trade_def)
qed

end
