(* ===== verification/Sizing.thy ===== *)
theory Sizing
  imports Risk_Config
begin

text \<open>
  Fixed-fractional position sizing, \<open>services/risk_engine/app/sizing.py\<close>.  Every arithmetic
  step rounds to 28 digits; the two divisions of \<open>compute_sizing\<close> raise on a zero divisor
  (entry price, stop distance), which the caller turns into \<open>INTERNAL_ERROR\<close>.
\<close>

definition clamp :: "rat \<Rightarrow> rat \<Rightarrow> rat \<Rightarrow> rat" where
  "clamp v low high = max low (min v high)"

record SizingResult =
  sz_position_size_usdt :: rat
  sz_position_size_base :: rat
  sz_stop_loss_price :: rat
  sz_stop_distance_pct :: rat
  sz_risk_pct_applied :: rat
  sz_nominal_risk_amount_usdt :: rat
  sz_actual_risk_usdt :: rat

definition confidence_scale :: "rat \<Rightarrow> RiskConfig \<Rightarrow> rat" where
  "confidence_scale confidence config =
     (let confidence_range = dec (1 - min_confidence config)
      in if confidence_range \<le> 0 then 1
         else let ratio = clamp (dec (dec (confidence - min_confidence config) / confidence_range)) 0 1;
                  sc = min_confidence_size_scale config
              in dec (sc + dec (dec (1 - sc) * ratio)))"

definition stop_distance :: "rat \<Rightarrow> rat \<Rightarrow> RiskConfig \<Rightarrow> py_error + rat" where
  "stop_distance atr_14 entry_price config =
     bind_res (dec_div atr_14 entry_price)
       (\<lambda>r. Inr (clamp (dec (r * atr_stop_multiplier config))
                   (min_stop_loss_pct config) (max_stop_loss_pct config)))"

definition compute_sizing ::
    "rat \<Rightarrow> rat \<Rightarrow> rat \<Rightarrow> rat \<Rightarrow> rat \<Rightarrow> RiskConfig \<Rightarrow> py_error + SizingResult" where
  "compute_sizing equity_usdt free_balance_usdt entry_price atr_14 confidence config =
     (let risk_amount_usdt = dec (equity_usdt * risk_per_trade_pct config)
      in bind_res (stop_distance atr_14 entry_price config) (\<lambda>stop_distance_pct.
         bind_res (dec_div risk_amount_usdt stop_distance_pct) (\<lambda>raw_size_usdt.
         let clamped = min (min raw_size_usdt (dec (equity_usdt * max_position_pct config)))
                           free_balance_usdt;
             position_size_usdt = dec (max clamped 0 * confidence_scale confidence config)
         in Inr \<lparr>sz_position_size_usdt = position_size_usdt,
                 sz_position_size_base =
                   (if entry_price > 0 then dec (position_size_usdt / entry_price) else 0),
                 sz_stop_loss_price = dec (entry_price * dec (1 - stop_distance_pct)),
                 sz_stop_distance_pct = stop_distance_pct,
                 sz_risk_pct_applied = risk_per_trade_pct config,
                 sz_nominal_risk_amount_usdt = risk_amount_usdt,
                 sz_actual_risk_usdt = dec (position_size_usdt * stop_distance_pct)\<rparr>)))"

section \<open>Clamping and the confidence scale\<close>

lemma clamp_bounds: "lo \<le> hi \<Longrightarrow> lo \<le> clamp v lo hi \<and> clamp v lo hi \<le> hi"
  by (simp add: clamp_def)

lemma clamp_unit [simp]: "0 \<le> clamp v 0 1" "clamp v 0 1 \<le> 1"
  by (simp_all add: clamp_def)

lemma clamp_mono: "v \<le> w \<Longrightarrow> clamp v lo hi \<le> clamp w lo hi"
  by (auto simp: clamp_def)

lemma clamp_0_1_eq [simp]: "v \<le> 0 \<Longrightarrow> clamp v 0 1 = 0" "1 \<le> v \<Longrightarrow> clamp v 0 1 = 1"
  by (auto simp: clamp_def)

text \<open>The largest value that still rounds to one.\<close>

lemma dec_one_tie: "dec (1 + 5 / 10 ^ 28) = 1"
  by code_simp

lemma dec_complement_le:
  assumes "0 \<le> s" "s \<le> 1"
  shows "dec (s + dec (1 - s)) \<le> 1"
proof -
  have "\<bar>dec (1 - s) - (1 - s)\<bar> \<le> 1 / (2 * 10 ^ 27) * \<bar>1 - s\<bar>" by (rule dec.error)
  also have "\<dots> \<le> 1 / (2 * 10 ^ 27) * 1" using assms by (intro mult_left_mono) auto
  also have "(1 :: rat) / (2 * 10 ^ 27) * 1 = 5 / 10 ^ 28" by simp
  finally have "s + dec (1 - s) \<le> 1 + 5 / 10 ^ 28" unfolding abs_le_iff by linarith
  then show ?thesis using dec.mono dec_one_tie by fastforce
qed

lemma confidence_scale_upper:
  assumes "0 \<le> min_confidence_size_scale config" "min_confidence_size_scale config \<le> 1"
  shows "confidence_scale confidence config \<le> 1"
proof -
  have main: "dec (s + dec (dec (1 - s) * r)) \<le> 1" if "0 \<le> s" "s \<le> 1" "r \<le> 1" for s r :: rat
  proof -
    have "dec (dec (1 - s) * r) \<le> dec (1 - s)"
      using that by (intro dec.mult_le) (auto simp: dec.nonneg)
    then have "dec (s + dec (dec (1 - s) * r)) \<le> dec (s + dec (1 - s))" by (intro dec.mono) simp
    also have "\<dots> \<le> 1" using that by (intro dec_complement_le)
    finally show ?thesis .
  qed
  show ?thesis using assms by (simp add: confidence_scale_def Let_def main)
qed

lemma confidence_scale_lower:
  assumes "0 \<le> min_confidence_size_scale config" "min_confidence_size_scale config \<le> 1"
  shows "dec (min_confidence_size_scale config) \<le> confidence_scale confidence config"
proof -
  let ?s = "min_confidence_size_scale config"
  have "dec ?s \<le> dec (?s + dec (dec (1 - ?s) * r))" if "0 \<le> r" for r
    using assms that by (intro dec.mono) (simp add: dec.nonneg)
  moreover have "dec ?s \<le> 1" using assms dec.unit by blast
  ultimately show ?thesis by (simp add: confidence_scale_def Let_def)
qed

lemma confidence_scale_nonneg:
  assumes "0 \<le> min_confidence_size_scale config" "min_confidence_size_scale config \<le> 1"
  shows "0 \<le> confidence_scale confidence config"
  using confidence_scale_lower[OF assms] dec.nonneg[OF assms(1)] by (rule order_trans[rotated])

lemma confidence_scale_mono:
  assumes "min_confidence_size_scale config \<le> 1" "c \<le> c'"
  shows "confidence_scale c config \<le> confidence_scale c' config"
proof -
  let ?m = "min_confidence config" and ?s = "min_confidence_size_scale config"
  have ratio: "clamp (dec (dec (c - ?m) / dec (1 - ?m))) 0 1 \<le> clamp (dec (dec (c' - ?m) / dec (1 - ?m))) 0 1"
    if "?m < 1" using that assms(2) by (intro clamp_mono dec.mono divide_right_mono) auto
  have "dec (?s + dec (dec (1 - ?s) * r)) \<le> dec (?s + dec (dec (1 - ?s) * r'))"
    if "r \<le> r'" for r r'
    using assms(1) that by (intro dec.mono add_left_mono mult_left_mono) (auto simp: dec.nonneg)
  from this[OF ratio] show ?thesis by (simp add: confidence_scale_def Let_def)
qed

lemma confidence_scale_at_min:
  assumes "min_confidence config < 1" "confidence \<le> min_confidence config"
  shows "confidence_scale confidence config = dec (min_confidence_size_scale config)"
proof -
  have "0 < dec (1 - min_confidence config)" "dec (confidence - min_confidence config) \<le> 0"
    using assms by (simp_all add: dec.nonpos)
  then have "dec (dec (confidence - min_confidence config) / dec (1 - min_confidence config)) \<le> 0"
    by (intro dec.nonpos) (simp add: divide_le_0_iff)
  then show ?thesis using assms by (simp add: confidence_scale_def Let_def not_le)
qed

section \<open>The sizing result\<close>

lemma stop_distance_Inr:
  "stop_distance a p config = Inr st \<longleftrightarrow>
     p \<noteq> 0 \<and> st = clamp (dec (dec (a / p) * atr_stop_multiplier config))
                        (min_stop_loss_pct config) (max_stop_loss_pct config)"
  by (auto simp: stop_distance_def dec_div_def)

text \<open>One inversion rule: what a successful sizing computed.\<close>

lemma compute_sizing_InrE:
  assumes "compute_sizing eq fr p a c config = Inr z"
  obtains st where
    "p \<noteq> 0" "stop_distance a p config = Inr st" "st \<noteq> 0"
    "sz_stop_distance_pct z = st"
    "sz_risk_pct_applied z = risk_per_trade_pct config"
    "sz_nominal_risk_amount_usdt z = dec (eq * risk_per_trade_pct config)"
    "sz_position_size_usdt z =
       dec (max (min (min (dec (dec (eq * risk_per_trade_pct config) / st))
                          (dec (eq * max_position_pct config))) fr) 0 * confidence_scale c config)"
    "sz_position_size_base z = (if p > 0 then dec (sz_position_size_usdt z / p) else 0)"
    "sz_stop_loss_price z = dec (p * dec (1 - st))"
    "sz_actual_risk_usdt z = dec (sz_position_size_usdt z * st)"
proof -
  let ?n = "dec (eq * risk_per_trade_pct config)"
  from assms obtain st raw where st: "stop_distance a p config = Inr st"
    and raw: "dec_div ?n st = Inr raw"
    and z: "z = \<lparr>sz_position_size_usdt =
        dec (max (min (min raw (dec (eq * max_position_pct config))) fr) 0 * confidence_scale c config),
      sz_position_size_base =
        (if p > 0 then dec (dec (max (min (min raw (dec (eq * max_position_pct config))) fr) 0
           * confidence_scale c config) / p) else 0),
      sz_stop_loss_price = dec (p * dec (1 - st)), sz_stop_distance_pct = st,
      sz_risk_pct_applied = risk_per_trade_pct config, sz_nominal_risk_amount_usdt = ?n,
      sz_actual_risk_usdt = dec (dec (max (min (min raw (dec (eq * max_position_pct config))) fr) 0
           * confidence_scale c config) * st)\<rparr>"
    unfolding compute_sizing_def Let_def bind_res_Inr by blast
  from dec_div_InrD[OF raw] have "st \<noteq> 0" "raw = dec (?n / st)" by simp_all
  moreover from st have "p \<noteq> 0" by (simp add: stop_distance_Inr)
  ultimately show thesis using st z by (intro that[of st]) simp_all
qed

lemma compute_sizing_total:
  assumes "p \<noteq> 0" "0 < min_stop_loss_pct config" "min_stop_loss_pct config \<le> max_stop_loss_pct config"
  shows "\<exists>z. compute_sizing eq fr p a c config = Inr z"
proof -
  obtain st where st: "stop_distance a p config = Inr st"
    and "min_stop_loss_pct config \<le> st"
    using assms clamp_bounds by (auto simp: stop_distance_Inr)
  with assms have "st \<noteq> 0" by linarith
  with st show ?thesis by (simp add: compute_sizing_def Let_def)
qed

definition sane_sizing :: "RiskConfig \<Rightarrow> bool" where
  "sane_sizing config \<longleftrightarrow>
     0 \<le> min_confidence_size_scale config \<and> min_confidence_size_scale config \<le> 1 \<and>
     0 < min_stop_loss_pct config \<and> min_stop_loss_pct config \<le> max_stop_loss_pct config"

lemma sane_sizing_defaults: "sane_sizing RiskConfig_defaults"
  by (simp add: sane_sizing_def RiskConfig_defaults_def)

lemma sane_stop:
  assumes "sane_sizing config" "stop_distance a p config = Inr st"
  shows "min_stop_loss_pct config \<le> st" "st \<le> max_stop_loss_pct config" "0 < st"
  using assms clamp_bounds[of "min_stop_loss_pct config" "max_stop_loss_pct config"]
  by (auto simp: sane_sizing_def stop_distance_Inr intro: less_le_trans)

text \<open>The size before and after the confidence scale.\<close>

lemma scaled_le:
  assumes "sane_sizing config" "0 \<le> x" "dec x = x"
  shows "dec (x * confidence_scale c config) \<le> x" "0 \<le> dec (x * confidence_scale c config)"
  using assms confidence_scale_upper confidence_scale_nonneg
  by (auto simp: sane_sizing_def intro!: dec.mult_le)

lemma dec_clamped:
  "dec fr = fr \<Longrightarrow> dec (max (min (min (dec x) (dec y)) fr) 0) = max (min (min (dec x) (dec y)) fr) 0"
  by (auto simp: max_def min_def)

lemma position_size_bounds:
  assumes "sane_sizing config" "compute_sizing eq fr p a c config = Inr z" "dec fr = fr" "0 \<le> fr" "0 \<le> eq * max_position_pct config"
    "0 \<le> dec (eq * risk_per_trade_pct config)"
  shows "0 \<le> sz_position_size_usdt z" "sz_position_size_usdt z \<le> fr"
    "sz_position_size_usdt z \<le> dec (eq * max_position_pct config)"
    "sz_position_size_usdt z \<le> dec (dec (eq * risk_per_trade_pct config) / sz_stop_distance_pct z)"
proof -
  let ?n = "dec (eq * risk_per_trade_pct config)"
  from assms(2) obtain st where st: "stop_distance a p config = Inr st" "sz_stop_distance_pct z = st"
    and size: "sz_position_size_usdt z =
       dec (max (min (min (dec (?n / st)) (dec (eq * max_position_pct config))) fr) 0
              * confidence_scale c config)"
    by (rule compute_sizing_InrE) auto
  let ?m = "max (min (min (dec (?n / st)) (dec (eq * max_position_pct config))) fr) 0"
  have m: "0 \<le> ?m" "dec ?m = ?m" using assms(3) dec_clamped by auto
  have "0 < st" using sane_stop[OF assms(1) st(1)] by simp
  then have "0 \<le> dec (?n / st)" "0 \<le> dec (eq * max_position_pct config)"
    using assms(5,6) by simp_all
  then have le: "?m \<le> fr" "?m \<le> dec (eq * max_position_pct config)" "?m \<le> dec (?n / st)"
    using assms(4) by auto
  show "0 \<le> sz_position_size_usdt z" "sz_position_size_usdt z \<le> fr"
    "sz_position_size_usdt z \<le> dec (eq * max_position_pct config)"
    "sz_position_size_usdt z \<le> dec (?n / sz_stop_distance_pct z)"
    unfolding size st(2) using scaled_le[OF assms(1) m, of c] le by linarith+
qed

text \<open>
  The risk actually taken exceeds the nominal budget by at most two roundings.
\<close>

lemma actual_risk_bound:
  assumes "sane_sizing config" "compute_sizing eq fr p a c config = Inr z" "dec fr = fr" "0 \<le> fr"
    "0 \<le> eq" "0 \<le> risk_per_trade_pct config" "0 \<le> max_position_pct config"
  shows "sz_actual_risk_usdt z \<le> sz_nominal_risk_amount_usdt z * (1 + 1 / (2 * 10 ^ 27)) ^ 2"
proof -
  let ?n = "sz_nominal_risk_amount_usdt z" and ?s = "sz_position_size_usdt z"
    and ?e = "1 + 1 / (2 * 10 ^ 27) :: rat"
  from assms(2) obtain st where st: "stop_distance a p config = Inr st" "sz_stop_distance_pct z = st"
    and n: "?n = dec (eq * risk_per_trade_pct config)"
    and act: "sz_actual_risk_usdt z = dec (?s * st)"
    by (rule compute_sizing_InrE) auto
  have pos: "0 < st" using sane_stop[OF assms(1) st(1)] by simp
  have n0: "0 \<le> ?n" using assms(5,6) by (simp add: n)
  have nn: "0 \<le> eq * max_position_pct config" using assms(5,7) by simp
  note b = position_size_bounds[OF assms(1-4) nn n0[unfolded n]]
  have "?s \<le> dec (?n / st)" using b(4) by (simp add: n st(2))
  also have "\<dots> \<le> ?n / st * ?e" using n0 pos by (intro dec.upper) simp
  finally have "?s * st \<le> ?n * ?e" using pos by (simp add: field_simps)
  have "sz_actual_risk_usdt z \<le> ?s * st * ?e" unfolding act using b(1) pos by (intro dec.upper) simp
  also have "\<dots> \<le> ?n * ?e * ?e" using \<open>?s * st \<le> ?n * ?e\<close> by (intro mult_right_mono) auto
  finally show ?thesis by (simp add: power2_eq_square mult.assoc)
qed

lemma stop_price_bounds:
  assumes "sane_sizing config" "max_stop_loss_pct config \<le> 1" "compute_sizing eq fr p a c config = Inr z"
    "0 < p" "dec p = p"
  shows "0 \<le> sz_stop_loss_price z" "sz_stop_loss_price z \<le> p"
proof -
  from assms(3) obtain st where st: "stop_distance a p config = Inr st"
    and sl: "sz_stop_loss_price z = dec (p * dec (1 - st))"
    by (rule compute_sizing_InrE) auto
  have u: "0 \<le> dec (1 - st)" "dec (1 - st) \<le> 1"
    using sane_stop[OF assms(1) st] assms(2) dec.unit[of "1 - st"] by auto
  show "0 \<le> sz_stop_loss_price z" using u assms(4) by (simp add: sl)
  show "sz_stop_loss_price z \<le> p" unfolding sl using assms(4,5) u(2) by (intro dec.mult_le) auto
qed

lemma position_size_mono_confidence:
  assumes "min_confidence_size_scale config \<le> 1" "c \<le> c'"
    "compute_sizing eq fr p a c config = Inr z" "compute_sizing eq fr p a c' config = Inr z'"
  shows "sz_position_size_usdt z \<le> sz_position_size_usdt z'"
proof -
  from assms(3) obtain st where 1: "stop_distance a p config = Inr st"
    "sz_position_size_usdt z =
       dec (max (min (min (dec (dec (eq * risk_per_trade_pct config) / st))
                          (dec (eq * max_position_pct config))) fr) 0 * confidence_scale c config)"
    by (rule compute_sizing_InrE) auto
  from assms(4) obtain st' where 2: "stop_distance a p config = Inr st'"
    "sz_position_size_usdt z' =
       dec (max (min (min (dec (dec (eq * risk_per_trade_pct config) / st'))
                          (dec (eq * max_position_pct config))) fr) 0 * confidence_scale c' config)"
    by (rule compute_sizing_InrE) auto
  have "st' = st" using 1(1) 2(1) by simp
  show ?thesis unfolding 1(2) 2(2) \<open>st' = st\<close>
    using confidence_scale_mono[OF assms(1,2)] by (intro dec.mono mult_left_mono) auto
qed

text \<open>Nothing is risked on an empty account, whatever the market says.\<close>

lemma no_free_balance_no_position:
  assumes "compute_sizing eq fr p a c config = Inr z" "fr \<le> 0"
  shows "sz_position_size_usdt z = 0" "sz_actual_risk_usdt z = 0"
  using assms(1)
  by (rule compute_sizing_InrE, use assms(2) in \<open>simp add: max_absorb2 min_le_iff_disj\<close>)+


text \<open>At the default limits the risk budget never binds: the position cap is tighter.\<close>

lemma default_raw_size_ge_cap:
  assumes "0 \<le> eq" "0 < st" "st \<le> 8 / 100"
  shows "dec (eq * (5 / 100)) \<le> dec (dec (eq * (1 / 100)) / st)"
proof (intro dec.mono)
  have "eq * (1 / 100) * (1 - 1 / (2 * 10 ^ 27)) \<le> dec (eq * (1 / 100))"
    using dec.lower[of "eq * (1 / 100)"] assms(1) by simp
  then have "eq * (1 / 200) \<le> dec (eq * (1 / 100))" using assms(1) by (simp add: field_simps)
  then have "eq * (1 / 200) / st \<le> dec (eq * (1 / 100)) / st"
    using assms(2) by (intro divide_right_mono) auto
  moreover have "eq * (1 / 200) / (8 / 100) \<le> eq * (1 / 200) / st"
    using assms by (intro divide_left_mono) auto
  moreover have "eq * (5 / 100) \<le> eq * (1 / 200) / (8 / 100)" using assms(1) by simp
  ultimately show "eq * (5 / 100) \<le> dec (eq * (1 / 100)) / st" by linarith
qed

section \<open>Properties of the sizing\<close>

text \<open>
  C15. A sizing never asks for more than the free balance, than the position cap or than the risk
  budget allows at its stop, is never negative, and its stop distance stays inside the
  configured band, so the stop price lies between zero and the entry price.
\<close>

theorem sizing_within_limits:
  assumes "sane_sizing config" "max_stop_loss_pct config \<le> 1"
    "0 \<le> risk_per_trade_pct config" "0 \<le> max_position_pct config"
    and "compute_sizing eq fr p a c config = Inr z" "0 \<le> eq" "0 \<le> fr" "dec fr = fr" "0 < p" "dec p = p"
  shows "0 \<le> sz_position_size_usdt z \<and> sz_position_size_usdt z \<le> fr \<and>
    sz_position_size_usdt z \<le> dec (eq * max_position_pct config) \<and>
    sz_position_size_usdt z
      \<le> dec (dec (eq * risk_per_trade_pct config) / sz_stop_distance_pct z) \<and>
    min_stop_loss_pct config \<le> sz_stop_distance_pct z \<and>
    sz_stop_distance_pct z \<le> max_stop_loss_pct config \<and>
    0 \<le> sz_stop_loss_price z \<and> sz_stop_loss_price z \<le> p"
proof -
  have "0 \<le> eq * max_position_pct config" "0 \<le> dec (eq * risk_per_trade_pct config)"
    using assms by simp_all
  note b = position_size_bounds[OF assms(1,5,8,7) this]
  obtain st where "stop_distance a p config = Inr st" "sz_stop_distance_pct z = st"
    using assms(5) by (rule compute_sizing_InrE)
  with sane_stop[OF assms(1)] stop_price_bounds[OF assms(1,2,5,9,10)] b show ?thesis by auto
qed

theorem sizing_within_limits_witness:
  "\<exists>z. compute_sizing 1000 800 60000 900 (85 / 100) RiskConfig_defaults = Inr z \<and>
       sz_position_size_usdt z \<le> dec (1000 * max_position_pct RiskConfig_defaults)"
proof -
  obtain z where z: "compute_sizing 1000 800 60000 900 (85 / 100) RiskConfig_defaults = Inr z"
    using compute_sizing_total[of 60000 RiskConfig_defaults 1000 800 900 "85 / 100"]
    by (auto simp: RiskConfig_defaults_def)
  have "dec 800 = 800" "dec 60000 = 60000" by simp_all
  then show ?thesis
    using z sizing_within_limits[OF sane_sizing_defaults _ _ _ z] by (auto simp: RiskConfig_defaults_def)
qed

text \<open>
  What is truly at stake, position size times stop distance, stays within the nominal risk
  budget up to the two roundings of the 28-digit decimal context.
\<close>

theorem actual_risk_within_budget:
  assumes "sane_sizing config" "0 \<le> risk_per_trade_pct config" "0 \<le> max_position_pct config"
    and "compute_sizing eq fr p a c config = Inr z" "dec fr = fr" "0 \<le> fr" "0 \<le> eq"
  shows "sz_actual_risk_usdt z \<le> sz_nominal_risk_amount_usdt z * (1 + 1 / (2 * 10 ^ 27)) ^ 2"
  by (rule actual_risk_bound[OF assms(1,4,5,6,7,2,3)])

theorem actual_risk_within_budget_witness:
  "\<exists>z. compute_sizing 1000 800 60000 900 (85 / 100) RiskConfig_defaults = Inr z \<and>
       sz_actual_risk_usdt z \<le> sz_nominal_risk_amount_usdt z * (1 + 1 / (2 * 10 ^ 27)) ^ 2"
proof -
  obtain z where z: "compute_sizing 1000 800 60000 900 (85 / 100) RiskConfig_defaults = Inr z"
    using compute_sizing_total[of 60000 RiskConfig_defaults 1000 800 900 "85 / 100"]
    by (auto simp: RiskConfig_defaults_def)
  have "sz_actual_risk_usdt z \<le> sz_nominal_risk_amount_usdt z * (1 + 1 / (2 * 10 ^ 27)) ^ 2"
    by (rule actual_risk_within_budget[OF sane_sizing_defaults _ _ z])
       (simp_all add: RiskConfig_defaults_def)
  with z show ?thesis by blast
qed

text \<open>
  The documented exact bound, actual risk at most nominal risk, does not hold of the rounded
  arithmetic: with a budget of 5 and a stop of 3 per cent the size rounds up and the risk
  exceeds the budget in the last digit.
\<close>

theorem actual_risk_can_exceed_budget:
  "\<exists>z. compute_sizing 500 1000 100 (3 / 2) 1 (RiskConfig_defaults\<lparr>max_position_pct := 1\<rparr>) = Inr z \<and>
       sz_nominal_risk_amount_usdt z < sz_actual_risk_usdt z"
proof -
  let ?c = "RiskConfig_defaults\<lparr>max_position_pct := 1\<rparr>"
  have st: "stop_distance (3 / 2) 100 ?c = Inr (3 / 100)" by code_simp
  have sc: "confidence_scale 1 ?c = 1" by code_simp
  have n: "dec (500 * (1 / 100)) = 5" by code_simp
  have cap: "dec (500 * 1) = 500" by code_simp
  have raw: "dec (5 / (3 / 100)) = 1666666666666666666666666667 / 10 ^ 25" by code_simp
  have grid: "dec (1666666666666666666666666667 / 10 ^ 25) = 1666666666666666666666666667 / 10 ^ 25"
    by code_simp
  have act: "dec (1666666666666666666666666667 / 10 ^ 25 * (3 / 100)) = 5000000000000000000000000001 / 10 ^ 27"
    by code_simp
  obtain z where z: "compute_sizing 500 1000 100 (3 / 2) 1 ?c = Inr z"
    using compute_sizing_total[of 100 ?c 500 1000 "3 / 2" 1] by (auto simp: RiskConfig_defaults_def)
  obtain st' where st': "stop_distance (3 / 2) 100 ?c = Inr st'"
    "sz_nominal_risk_amount_usdt z = dec (500 * risk_per_trade_pct ?c)"
    "sz_position_size_usdt z =
       dec (max (min (min (dec (dec (500 * risk_per_trade_pct ?c) / st'))
                          (dec (500 * max_position_pct ?c))) 1000) 0 * confidence_scale 1 ?c)"
    "sz_actual_risk_usdt z = dec (sz_position_size_usdt z * st')"
    using z by (rule compute_sizing_InrE)
  have k: "st' = 3 / 100" "risk_per_trade_pct ?c = 1 / 100" "max_position_pct ?c = 1"
    using st st'(1) by (simp_all add: RiskConfig_defaults_def)
  have "sz_position_size_usdt z = dec (1666666666666666666666666667 / 10 ^ 25)"
    unfolding st'(3) k n sc cap raw by simp
  then have "sz_actual_risk_usdt z = 5000000000000000000000000001 / 10 ^ 27"
    using st'(4) by (simp only: k grid act)
  moreover have "sz_nominal_risk_amount_usdt z = 5" unfolding st'(2) k n ..
  ultimately show ?thesis using z by auto
qed

text \<open>
  More confidence never means a smaller position: between two sizings that differ only in
  confidence, the size and the money at risk are monotone.
\<close>

theorem sizing_monotone_in_confidence:
  assumes "min_confidence_size_scale config \<le> 1" "c \<le> c'"
    and "compute_sizing eq fr p a c config = Inr z" "compute_sizing eq fr p a c' config = Inr z'"
    and "0 < min_stop_loss_pct config" "min_stop_loss_pct config \<le> max_stop_loss_pct config"
  shows "sz_position_size_usdt z \<le> sz_position_size_usdt z' \<and>
         sz_actual_risk_usdt z \<le> sz_actual_risk_usdt z' \<and>
         sz_stop_distance_pct z = sz_stop_distance_pct z'"
proof -
  obtain st where 1: "stop_distance a p config = Inr st" "sz_stop_distance_pct z = st"
    "sz_actual_risk_usdt z = dec (sz_position_size_usdt z * st)"
    using assms(3) by (rule compute_sizing_InrE)
  obtain st' where 2: "stop_distance a p config = Inr st'" "sz_stop_distance_pct z' = st'"
    "sz_actual_risk_usdt z' = dec (sz_position_size_usdt z' * st')"
    using assms(4) by (rule compute_sizing_InrE)
  have st: "st' = st" using 1 2 by simp
  have "min_stop_loss_pct config \<le> st" using 1(1) assms(6) clamp_bounds by (auto simp: stop_distance_Inr)
  then have "0 \<le> st" using assms(5) by linarith
  with position_size_mono_confidence[OF assms(1-4)] 1 2 st show ?thesis
    by (auto intro!: dec.mono mult_right_mono)
qed

theorem sizing_monotone_in_confidence_witness:
  "\<exists>z z'. compute_sizing 1000 800 60000 900 (7 / 10) RiskConfig_defaults = Inr z \<and>
          compute_sizing 1000 800 60000 900 1 RiskConfig_defaults = Inr z' \<and>
          sz_position_size_usdt z \<le> sz_position_size_usdt z'"
proof -
  obtain z z' where
    z: "compute_sizing 1000 800 60000 900 (7 / 10) RiskConfig_defaults = Inr z" and
    z': "compute_sizing 1000 800 60000 900 1 RiskConfig_defaults = Inr z'"
    using compute_sizing_total[of 60000 RiskConfig_defaults 1000 800 900 "7 / 10"]
      compute_sizing_total[of 60000 RiskConfig_defaults 1000 800 900 1]
    by (auto simp: RiskConfig_defaults_def)
  have "sz_position_size_usdt z \<le> sz_position_size_usdt z'"
    using sizing_monotone_in_confidence[OF _ _ z z'] by (simp add: RiskConfig_defaults_def)
  with z z' show ?thesis by blast
qed

text \<open>
  With the default limits the position cap always binds before the risk budget: whatever the
  volatility, the size before the confidence scale is the cap, or the free balance when that is
  smaller, so the risk-per-trade setting plays no part in the size.
\<close>

theorem default_size_is_capped:
  assumes "compute_sizing eq fr p a c RiskConfig_defaults = Inr z" "0 \<le> eq"
  shows "sz_position_size_usdt z =
           dec (max (min (dec (eq * (5 / 100))) fr) 0 * confidence_scale c RiskConfig_defaults)"
proof -
  obtain st where st: "stop_distance a p RiskConfig_defaults = Inr st"
    and size: "sz_position_size_usdt z =
       dec (max (min (min (dec (dec (eq * risk_per_trade_pct RiskConfig_defaults) / st))
                          (dec (eq * max_position_pct RiskConfig_defaults))) fr) 0
              * confidence_scale c RiskConfig_defaults)"
    using assms(1) by (rule compute_sizing_InrE)
  have "0 < st" "st \<le> 8 / 100"
    using sane_stop[OF sane_sizing_defaults st] by (simp_all add: RiskConfig_defaults_def)
  from default_raw_size_ge_cap[OF assms(2) this] size show ?thesis
    by (simp add: RiskConfig_defaults_def min_absorb2)
qed

theorem default_size_is_capped_witness:
  "\<exists>z. compute_sizing 1000 800 60000 900 1 RiskConfig_defaults = Inr z \<and>
       sz_position_size_usdt z = 50"
proof -
  obtain z where z: "compute_sizing 1000 800 60000 900 1 RiskConfig_defaults = Inr z"
    using compute_sizing_total[of 60000 RiskConfig_defaults 1000 800 900 1]
    by (auto simp: RiskConfig_defaults_def)
  have "dec (max (min (dec (1000 * (5 / 100))) 800) 0 * confidence_scale 1 RiskConfig_defaults) = 50"
    by code_simp
  with z default_size_is_capped[OF z] show ?thesis by auto
qed

end
