(* ===== verification/Rules.thy ===== *)
theory Rules
  imports Sizing
begin

text \<open>
  The twelve gates of \<open>services/risk_engine/app/rules/\<close>, one definition per module, over the
  \<open>RuleContext\<close> of \<open>schemas.py\<close>, and the evaluation order \<open>RULES_IN_ORDER\<close>.
\<close>

section \<open>Inputs of the rule set\<close>

datatype view_id = RowId nat | SyntheticId string datetime

record SignalView =
  sv_id :: view_id
  sv_symbol :: string
  sv_action :: Action
  sv_confidence :: rat
  sv_candle_ts :: datetime
  sv_price :: rat
  sv_atr_14 :: rat
  sv_setup_regime :: "string option"
  sv_trade_score :: "int option"

record AccountState =
  ac_equity_usdt :: rat
  ac_free_balance_usdt :: rat
  ac_open_position_symbols :: "string set"
  ac_total_exposure_usdt :: rat
  ac_daily_pnl_pct :: rat
  ac_consecutive_losses :: nat
  ac_last_loss_closed_at :: "datetime option"
  ac_symbol_last_closed_at :: "string \<rightharpoonup> datetime"

record ExpectancyView =
  ev_setup_key :: string
  ev_sample_size :: nat
  ev_expectancy_r :: "rat option"

record RuleContext =
  cx_signal :: SignalView
  cx_account :: AccountState
  cx_config :: RiskConfig
  cx_now :: datetime
  cx_killswitch_enabled :: bool
  cx_is_duplicate_decision :: bool
  cx_candidate :: SizingResult
  cx_expectancy :: ExpectancyView

record RuleViolation =
  rv_reason :: RejectionReason
  rv_auto_trip_killswitch :: bool

type_synonym rule = "RuleContext \<Rightarrow> RuleViolation option"

definition violation :: "RejectionReason \<Rightarrow> RuleViolation" where
  "violation r = \<lparr>rv_reason = r, rv_auto_trip_killswitch = False\<rparr>"

section \<open>The rules\<close>

definition kill_switch_check :: rule where
  "kill_switch_check ctx =
     (if cx_killswitch_enabled ctx then Some (violation KILLSWITCH_ACTIVE) else None)"

definition duplicate_signal_check :: rule where
  "duplicate_signal_check ctx =
     (if cx_is_duplicate_decision ctx then Some (violation DUPLICATE_SIGNAL) else None)"

definition signal_action_check :: rule where
  "signal_action_check ctx =
     (if sv_action (cx_signal ctx) = HOLD then Some (violation SIGNAL_WAS_HOLD) else None)"

definition signal_staleness_check :: rule where
  "signal_staleness_check ctx =
     (if cx_now ctx - sv_candle_ts (cx_signal ctx) > minutes (signal_max_age_minutes (cx_config ctx))
      then Some (violation STALE_SIGNAL) else None)"

definition min_confidence_check :: rule where
  "min_confidence_check ctx =
     (if sv_confidence (cx_signal ctx) < min_confidence (cx_config ctx)
      then Some (violation LOW_CONFIDENCE) else None)"

datatype expectancy_verdict = ALLOW | INSUFFICIENT_DATA | NEGATIVE_EXPECTANCY

record ExpectancyCheck =
  ec_setup_key :: string
  ec_sample_size :: nat
  ec_historical_expectancy_r :: "rat option"
  ec_decision :: expectancy_verdict
  ec_enforced :: bool

definition expectancy_decision :: "RuleContext \<Rightarrow> expectancy_verdict" where
  "expectancy_decision ctx =
     (case ev_expectancy_r (cx_expectancy ctx) of
        None \<Rightarrow> INSUFFICIENT_DATA
      | Some r \<Rightarrow>
          if int (ev_sample_size (cx_expectancy ctx)) < expectancy_min_sample_size (cx_config ctx)
          then INSUFFICIENT_DATA
          else if r < expectancy_min_r (cx_config ctx) then NEGATIVE_EXPECTANCY
          else ALLOW)"

definition build_expectancy_check :: "RuleContext \<Rightarrow> ExpectancyCheck" where
  "build_expectancy_check ctx =
     \<lparr>ec_setup_key = ev_setup_key (cx_expectancy ctx),
      ec_sample_size = ev_sample_size (cx_expectancy ctx),
      ec_historical_expectancy_r = ev_expectancy_r (cx_expectancy ctx),
      ec_decision = expectancy_decision ctx,
      ec_enforced = expectancy_filter_enabled (cx_config ctx)\<rparr>"

definition expectancy_filter_check :: rule where
  "expectancy_filter_check ctx =
     (if \<not> expectancy_filter_enabled (cx_config ctx) then None
      else if expectancy_decision ctx = NEGATIVE_EXPECTANCY
      then Some (violation NEGATIVE_EXPECTANCY_SETUP) else None)"

definition max_open_positions_check :: rule where
  "max_open_positions_check ctx =
     (let already_open = sv_symbol (cx_signal ctx) \<in> ac_open_position_symbols (cx_account ctx);
          at_limit = int (card (ac_open_position_symbols (cx_account ctx)))
                       \<ge> max_open_positions (cx_config ctx)
      in if already_open \<or> at_limit then Some (violation MAX_POSITIONS_REACHED) else None)"

definition max_total_exposure_check :: rule where
  "max_total_exposure_check ctx =
     (let prospective_total =
            dec (ac_total_exposure_usdt (cx_account ctx) + sz_position_size_usdt (cx_candidate ctx));
          cap = dec (max_total_exposure_pct (cx_config ctx) * ac_equity_usdt (cx_account ctx))
      in if prospective_total > cap then Some (violation MAX_EXPOSURE_REACHED) else None)"

definition max_daily_loss_check :: rule where
  "max_daily_loss_check ctx =
     (if ac_daily_pnl_pct (cx_account ctx) \<le> dec (- max_daily_loss_pct (cx_config ctx))
      then Some \<lparr>rv_reason = DAILY_LOSS_LIMIT_HIT, rv_auto_trip_killswitch = True\<rparr> else None)"

definition consecutive_losses_check :: rule where
  "consecutive_losses_check ctx =
     (if int (ac_consecutive_losses (cx_account ctx)) < consecutive_loss_limit (cx_config ctx)
      then None
      else Some \<lparr>rv_reason = CONSECUTIVE_LOSS_PAUSE, rv_auto_trip_killswitch = True\<rparr>)"

definition cooldown_check :: rule where
  "cooldown_check ctx =
     (case ac_symbol_last_closed_at (cx_account ctx) (sv_symbol (cx_signal ctx)) of
        None \<Rightarrow> None
      | Some last_closed \<Rightarrow>
          if cx_now ctx - last_closed < minutes (cooldown_minutes (cx_config ctx))
          then Some (violation COOLDOWN_ACTIVE) else None)"

definition insufficient_balance_check :: rule where
  "insufficient_balance_check ctx =
     (if sz_position_size_usdt (cx_candidate ctx) > ac_free_balance_usdt (cx_account ctx)
      then Some (violation INSUFFICIENT_BALANCE) else None)"

definition RULES_IN_ORDER :: "rule list" where
  "RULES_IN_ORDER =
     [kill_switch_check, duplicate_signal_check, signal_action_check, signal_staleness_check,
      min_confidence_check, expectancy_filter_check, max_open_positions_check,
      max_total_exposure_check, max_daily_loss_check, consecutive_losses_check, cooldown_check,
      insufficient_balance_check]"

lemmas rule_defs =
  kill_switch_check_def duplicate_signal_check_def signal_action_check_def
  signal_staleness_check_def min_confidence_check_def expectancy_filter_check_def
  max_open_positions_check_def max_total_exposure_check_def max_daily_loss_check_def
  consecutive_losses_check_def cooldown_check_def insufficient_balance_check_def

section \<open>Short-circuit evaluation\<close>

fun first_violation :: "rule list \<Rightarrow> RuleContext \<Rightarrow> RuleViolation option" where
  "first_violation [] ctx = None"
| "first_violation (r # rs) ctx =
     (case r ctx of Some v \<Rightarrow> Some v | None \<Rightarrow> first_violation rs ctx)"

lemma first_violation_None:
  "first_violation rs ctx = None \<longleftrightarrow> (\<forall>r \<in> set rs. r ctx = None)"
  by (induction rs) (auto split: option.splits)

lemma first_violation_append:
  "first_violation (rs @ rs') ctx =
     (case first_violation rs ctx of Some v \<Rightarrow> Some v | None \<Rightarrow> first_violation rs' ctx)"
  by (induction rs) (auto split: option.splits)

lemma first_violation_Some:
  "first_violation rs ctx = Some v \<longleftrightarrow>
     (\<exists>pre r post. rs = pre @ r # post \<and> (\<forall>q \<in> set pre. q ctx = None) \<and> r ctx = Some v)"
proof
  assume "first_violation rs ctx = Some v"
  then show "\<exists>pre r post. rs = pre @ r # post \<and> (\<forall>q \<in> set pre. q ctx = None) \<and> r ctx = Some v"
  proof (induction rs)
    case (Cons r rs)
    show ?case
    proof (cases "r ctx")
      case None
      with Cons obtain pre r' post where
        "rs = pre @ r' # post" "\<forall>q \<in> set pre. q ctx = None" "r' ctx = Some v" by auto
      with None have "r # rs = (r # pre) @ r' # post \<and> (\<forall>q \<in> set (r # pre). q ctx = None)
          \<and> r' ctx = Some v" by simp
      then show ?thesis by blast
    next
      case (Some w)
      with Cons.prems have "r # rs = [] @ r # rs \<and> (\<forall>q \<in> set []. q ctx = None) \<and> r ctx = Some v"
        by simp
      then show ?thesis by blast
    qed
  qed simp
next
  assume "\<exists>pre r post. rs = pre @ r # post \<and> (\<forall>q \<in> set pre. q ctx = None) \<and> r ctx = Some v"
  then obtain pre r post where
    "rs = pre @ r # post" "first_violation pre ctx = None" "r ctx = Some v"
    unfolding first_violation_None by blast
  then show "first_violation rs ctx = Some v" by (simp add: first_violation_append)
qed

text \<open>A gate with the reason it reports; the auto-tripping gates are two.\<close>

lemma rule_reason:
  "kill_switch_check ctx = Some v \<Longrightarrow> rv_reason v = KILLSWITCH_ACTIVE"
  "duplicate_signal_check ctx = Some v \<Longrightarrow> rv_reason v = DUPLICATE_SIGNAL"
  "signal_action_check ctx = Some v \<Longrightarrow> rv_reason v = SIGNAL_WAS_HOLD"
  "signal_staleness_check ctx = Some v \<Longrightarrow> rv_reason v = STALE_SIGNAL"
  "min_confidence_check ctx = Some v \<Longrightarrow> rv_reason v = LOW_CONFIDENCE"
  "expectancy_filter_check ctx = Some v \<Longrightarrow> rv_reason v = NEGATIVE_EXPECTANCY_SETUP"
  "max_open_positions_check ctx = Some v \<Longrightarrow> rv_reason v = MAX_POSITIONS_REACHED"
  "max_total_exposure_check ctx = Some v \<Longrightarrow> rv_reason v = MAX_EXPOSURE_REACHED"
  "max_daily_loss_check ctx = Some v \<Longrightarrow> rv_reason v = DAILY_LOSS_LIMIT_HIT"
  "consecutive_losses_check ctx = Some v \<Longrightarrow> rv_reason v = CONSECUTIVE_LOSS_PAUSE"
  "cooldown_check ctx = Some v \<Longrightarrow> rv_reason v = COOLDOWN_ACTIVE"
  "insufficient_balance_check ctx = Some v \<Longrightarrow> rv_reason v = INSUFFICIENT_BALANCE"
  by (auto simp: rule_defs violation_def Let_def split: if_splits option.splits)

lemma rule_auto_trip:
  assumes "r \<in> set RULES_IN_ORDER" "r ctx = Some v"
  shows "rv_auto_trip_killswitch v \<longleftrightarrow> rv_reason v \<in> {DAILY_LOSS_LIMIT_HIT, CONSECUTIVE_LOSS_PAUSE}"
  using assms unfolding RULES_IN_ORDER_def
  by (auto simp: rule_defs violation_def Let_def split: if_splits option.splits)

text \<open>The rank of a rejection reason is the position of its gate.\<close>

fun reason_rank :: "RejectionReason \<Rightarrow> nat option" where
  "reason_rank KILLSWITCH_ACTIVE = Some 0"
| "reason_rank DUPLICATE_SIGNAL = Some 1"
| "reason_rank SIGNAL_WAS_HOLD = Some 2"
| "reason_rank STALE_SIGNAL = Some 3"
| "reason_rank LOW_CONFIDENCE = Some 4"
| "reason_rank NEGATIVE_EXPECTANCY_SETUP = Some 5"
| "reason_rank MAX_POSITIONS_REACHED = Some 6"
| "reason_rank MAX_EXPOSURE_REACHED = Some 7"
| "reason_rank DAILY_LOSS_LIMIT_HIT = Some 8"
| "reason_rank CONSECUTIVE_LOSS_PAUSE = Some 9"
| "reason_rank COOLDOWN_ACTIVE = Some 10"
| "reason_rank INSUFFICIENT_BALANCE = Some 11"
| "reason_rank _ = None"

lemma length_RULES_IN_ORDER [simp]: "length RULES_IN_ORDER = 12"
  by (simp add: RULES_IN_ORDER_def)

lemma nth_rule_reason:
  assumes "i < length RULES_IN_ORDER" "(RULES_IN_ORDER ! i) ctx = Some v"
  shows "reason_rank (rv_reason v) = Some i"
proof -
  have "i = 0 \<or> i = 1 \<or> i = 2 \<or> i = 3 \<or> i = 4 \<or> i = 5 \<or> i = 6 \<or> i = 7 \<or> i = 8 \<or> i = 9 \<or> i = 10 \<or> i = 11"
    using assms(1) unfolding length_RULES_IN_ORDER by presburger
  then show ?thesis
    using assms(2) rule_reason[of ctx v] unfolding RULES_IN_ORDER_def by (elim disjE) simp_all
qed

lemma first_violation_rank:
  "first_violation RULES_IN_ORDER ctx = Some v \<longleftrightarrow>
     (\<exists>i. reason_rank (rv_reason v) = Some i \<and> i < length RULES_IN_ORDER
          \<and> (RULES_IN_ORDER ! i) ctx = Some v \<and> (\<forall>j < i. (RULES_IN_ORDER ! j) ctx = None))"
  (is "?L = ?R")
proof
  assume ?L
  then obtain pre r post where *: "RULES_IN_ORDER = pre @ r # post"
    "\<forall>q \<in> set pre. q ctx = None" "r ctx = Some v"
    unfolding first_violation_Some by blast
  have "length pre < length RULES_IN_ORDER" "(RULES_IN_ORDER ! length pre) ctx = Some v"
    unfolding *(1) using *(3) by simp_all
  moreover have "\<forall>j < length pre. (RULES_IN_ORDER ! j) ctx = None"
    unfolding *(1) using *(2) by (simp add: nth_append)
  ultimately show ?R using nth_rule_reason by blast
next
  assume ?R
  then obtain i where i: "i < length RULES_IN_ORDER" "(RULES_IN_ORDER ! i) ctx = Some v"
    "\<forall>j < i. (RULES_IN_ORDER ! j) ctx = None" by blast
  have "RULES_IN_ORDER = take i RULES_IN_ORDER @ RULES_IN_ORDER ! i # drop (Suc i) RULES_IN_ORDER"
    using i(1) by (rule id_take_nth_drop)
  moreover have "\<forall>q \<in> set (take i RULES_IN_ORDER). q ctx = None"
    using i(1,3) by (auto simp: in_set_conv_nth)
  ultimately show ?L using i(2) unfolding first_violation_Some by blast
qed

end
