(* ===== verification/Account_State.thy ===== *)
theory Account_State
  imports Performance Rules
begin

text \<open>
  The inputs of a decision: the balance snapshot of \<open>services/common/account_balance.py\<close>, the
  account state of \<open>risk_engine/app/account_state.py\<close> and the historical expectancy of
  \<open>risk_engine/app/expectancy_state.py\<close>, all read from the database state.
\<close>

section \<open>Balance snapshots\<close>

record AccountBalanceSnapshot =
  bal_equity_usdt :: rat
  bal_free_balance_usdt :: rat
  bal_captured_at :: datetime

definition make_balance_snapshot ::
    "rat \<Rightarrow> rat \<Rightarrow> datetime \<Rightarrow> py_error + AccountBalanceSnapshot" where
  "make_balance_snapshot equity free captured_at =
     (if 0 \<le> equity \<and> 0 \<le> free \<and> free \<le> equity
      then Inr \<lparr>bal_equity_usdt = equity, bal_free_balance_usdt = free, bal_captured_at = captured_at\<rparr>
      else Inl ValidationError)"

definition total_seconds :: "timedelta \<Rightarrow> rat" where
  "total_seconds d = flt (of_int d / 1000000)"

definition is_fresh :: "AccountBalanceSnapshot \<Rightarrow> datetime \<Rightarrow> int \<Rightarrow> bool" where
  "is_fresh b now max_age_seconds \<longleftrightarrow>
     0 \<le> total_seconds (now - bal_captured_at b) \<and>
     total_seconds (now - bal_captured_at b) \<le> of_int max_age_seconds"

section \<open>Loss streaks\<close>

text \<open>The newest uninterrupted run of losing positions after the reset boundary.\<close>

fun loss_streak :: "datetime option \<Rightarrow> position list \<Rightarrow> datetime option list" where
  "loss_streak reset_at [] = []"
| "loss_streak reset_at (p # ps) =
     (if (case (reset_at, pos_closed_at p) of (Some r, Some c) \<Rightarrow> c \<le> r | _ \<Rightarrow> False) then []
      else if (case pos_pnl_usdt p of Some x \<Rightarrow> x < 0 | None \<Rightarrow> False)
      then pos_closed_at p # loss_streak reset_at ps
      else [])"

text \<open>One step of the clustering loop: state \<open>(loss_events, cluster_start)\<close>.\<close>

definition cluster_step ::
    "timedelta \<Rightarrow> datetime option \<Rightarrow> nat \<times> datetime option \<Rightarrow> nat \<times> datetime option" where
  "cluster_step cluster_window closed_at = (\<lambda>(loss_events, cluster_start).
     if (case (closed_at, cluster_start) of
           (Some c, Some s) \<Rightarrow> c - s > cluster_window
         | _ \<Rightarrow> True)
     then (loss_events + 1, closed_at)
     else (loss_events, cluster_start))"

definition count_consecutive_losses ::
    "position list \<Rightarrow> datetime option \<Rightarrow> timedelta \<Rightarrow> nat \<times> datetime option" where
  "count_consecutive_losses closed_positions reset_at cluster_window =
     (let streak_close_times = loss_streak reset_at closed_positions;
          (loss_events, _) = fold (cluster_step cluster_window) (rev streak_close_times) (0, None)
      in (loss_events, case streak_close_times of [] \<Rightarrow> None | t # _ \<Rightarrow> t))"

section \<open>The account state\<close>

definition open_positions :: "db \<Rightarrow> position list" where
  "open_positions d = filter (\<lambda>p. pos_status p = OPEN) (db_positions d)"

definition closed_desc :: "db \<Rightarrow> position list" where
  "closed_desc d =
     sort_key (\<lambda>p. - the (pos_closed_at p))
       (filter (\<lambda>p. pos_status p = CLOSED \<and> pos_closed_at p \<noteq> None) (db_positions d))"

definition load_account_state ::
    "AccountBalanceSnapshot \<Rightarrow> timedelta \<Rightarrow> datetime \<Rightarrow> db \<Rightarrow> AccountState" where
  "load_account_state balance loss_cluster_window now d =
     (let opens = open_positions d;
          total_exposure_usdt = dec_sum (map (\<lambda>p. dec (pos_amount p * pos_entry_price p)) opens);
          closed_positions = closed_desc d;
          reset_at = Option.bind (db_system_state d) sys_consecutive_loss_reset_at;
          symbol_last_closed_at =
            map_of (map (\<lambda>p. (pos_symbol p, the (pos_closed_at p))) closed_positions);
          (consecutive_losses, last_loss_closed_at) =
            count_consecutive_losses closed_positions reset_at loss_cluster_window;
          equity_usdt = bal_equity_usdt balance;
          today = date_of now;
          daily_pnl_usdt =
            dec_sum (map (\<lambda>p. case pos_pnl_usdt p of None \<Rightarrow> 0 | Some x \<Rightarrow> x)
              (filter (\<lambda>p. date_of (the (pos_closed_at p)) = today) closed_positions));
          daily_pnl_pct = (if equity_usdt > 0 then dec (daily_pnl_usdt / equity_usdt) else 0)
      in \<lparr>ac_equity_usdt = equity_usdt,
          ac_free_balance_usdt = bal_free_balance_usdt balance,
          ac_open_position_symbols = set (map pos_symbol opens),
          ac_total_exposure_usdt = total_exposure_usdt,
          ac_daily_pnl_pct = daily_pnl_pct,
          ac_consecutive_losses = consecutive_losses,
          ac_last_loss_closed_at = last_loss_closed_at,
          ac_symbol_last_closed_at = symbol_last_closed_at\<rparr>)"

section \<open>Historical expectancy\<close>

definition setup_key :: "string option \<Rightarrow> int option \<Rightarrow> string" where
  "setup_key market_regime trade_score =
     (let regime = (case market_regime of
                      None \<Rightarrow> UNCLASSIFIED_LABEL
                    | Some r \<Rightarrow> if r = [] then UNCLASSIFIED_LABEL else r)
      in regime @ '' | '' @ score_bucket_label trade_score)"

definition score_bucket_bounds :: "int option \<Rightarrow> (int \<times> int) option" where
  "score_bucket_bounds trade_score =
     (case trade_score of
        None \<Rightarrow> None
      | Some s \<Rightarrow>
          map_option snd (find (\<lambda>(label, low, high). low \<le> s \<and> s \<le> high) SCORE_BUCKETS))"

definition build_expectancy_view :: "ClosedTradeMetrics list \<Rightarrow> string \<Rightarrow> ExpectancyView" where
  "build_expectancy_view trades key =
     \<lparr>ev_setup_key = key,
      ev_sample_size = count_if (\<lambda>t. tr_r_multiple t \<noteq> None) trades,
      ev_expectancy_r = compute_expectancy_r trades\<rparr>"

definition load_expectancy_state :: "string option \<Rightarrow> int option \<Rightarrow> db \<Rightarrow> ExpectancyView" where
  "load_expectancy_state market_regime trade_score d =
     (let key = setup_key market_regime trade_score;
          bounds = score_bucket_bounds trade_score
      in case (market_regime, bounds) of
           (Some regime, Some (score_min, score_max)) \<Rightarrow>
             build_expectancy_view
               (load_closed_trade_metrics
                  \<lparr>tf_symbol = None, tf_regime = Some regime, tf_score_min = Some score_min,
                   tf_score_max = Some score_max, tf_since = None, tf_until = None\<rparr> d) key
         | _ \<Rightarrow> \<lparr>ev_setup_key = key, ev_sample_size = 0, ev_expectancy_r = None\<rparr>)"

section \<open>Loss events are a minimal cover\<close>

text \<open>The starts of the clusters that the loop opens, for a list of known close times.\<close>

fun cluster_starts :: "timedelta \<Rightarrow> datetime option \<Rightarrow> datetime list \<Rightarrow> datetime list" where
  "cluster_starts w s [] = []"
| "cluster_starts w s (t # ts) =
     (if (case s of None \<Rightarrow> True | Some s' \<Rightarrow> t - s' > w)
      then t # cluster_starts w (Some t) ts
      else cluster_starts w s ts)"

lemma fold_cluster_step:
  "fst (fold (cluster_step w) (map Some ts) (n, s)) = n + length (cluster_starts w s ts)"
  by (induction w s ts arbitrary: n rule: cluster_starts.induct)
     (auto simp: cluster_step_def split: option.splits)

definition covers :: "timedelta \<Rightarrow> datetime set \<Rightarrow> datetime list \<Rightarrow> bool" where
  "covers w A ts \<longleftrightarrow> (\<forall>t \<in> set ts. \<exists>a \<in> A. a \<le> t \<and> t \<le> a + w)"

lemma cluster_starts_cover:
  assumes "sorted ts" "0 \<le> w" "\<forall>s'. s = Some s' \<longrightarrow> (\<forall>t \<in> set ts. s' \<le> t)"
  shows "covers w (set_option s \<union> set (cluster_starts w s ts)) ts"
  using assms
proof (induction w s ts rule: cluster_starts.induct)
  case (2 w s t ts)
  show ?case
  proof (cases "case s of None \<Rightarrow> True | Some s' \<Rightarrow> t - s' > w")
    case True
    have "covers w (set_option (Some t) \<union> set (cluster_starts w (Some t) ts)) ts"
      using 2 True by (intro 2(1)) auto
    with True "2.prems"(2) show ?thesis by (auto simp: covers_def)
  next
    case False
    then obtain s' where s': "s = Some s'" "t \<le> s' + w" by (auto split: option.splits)
    have "covers w (set_option s \<union> set (cluster_starts w s ts)) ts"
      using 2 False by (intro 2(2)) auto
    with False s' "2.prems"(3) show ?thesis by (auto simp: covers_def)
  qed
qed (simp add: covers_def)

lemma cluster_starts_subset: "set (cluster_starts w s ts) \<subseteq> set ts"
  by (induction w s ts rule: cluster_starts.induct) (auto split: option.splits)

lemma cluster_starts_apart:
  assumes "sorted ts" "0 \<le> w"
  shows "sorted_wrt (\<lambda>a b. a + w < b) (cluster_starts w s ts)
       \<and> (\<forall>s' b. s = Some s' \<longrightarrow> b \<in> set (cluster_starts w s ts) \<longrightarrow> s' + w < b)"
  using assms
proof (induction w s ts rule: cluster_starts.induct)
  case (2 w s t ts)
  show ?case
  proof (cases "case s of None \<Rightarrow> True | Some s' \<Rightarrow> t - s' > w")
    case True
    with 2 have ih: "sorted_wrt (\<lambda>a b. a + w < b) (cluster_starts w (Some t) ts)"
      "\<forall>b. b \<in> set (cluster_starts w (Some t) ts) \<longrightarrow> t + w < b" by auto
    have "\<forall>b \<in> set (cluster_starts w (Some t) ts). t \<le> b"
      using cluster_starts_subset "2.prems"(1) by fastforce
    with True ih "2.prems"(2) show ?thesis by (auto split: option.splits)
  next
    case False
    with 2 show ?thesis by auto
  qed
qed simp

text \<open>Points more than a window apart need an interval each.\<close>

lemma apart_card_le:
  assumes "sorted_wrt (\<lambda>a b. a + w < b) ss" "0 \<le> w" "finite A" "covers w A ss"
  shows "length ss \<le> card A"
proof -
  have "\<forall>s \<in> set ss. \<exists>a. a \<in> A \<and> a \<le> s \<and> s \<le> a + w"
    using assms(4) unfolding covers_def by blast
  from bchoice[OF this] obtain f where f: "\<And>s. s \<in> set ss \<Longrightarrow> f s \<in> A \<and> f s \<le> s \<and> s \<le> f s + w"
    by blast
  have dist: "distinct ss \<and> (\<forall>a \<in> set ss. \<forall>b \<in> set ss. a < b \<longrightarrow> a + w < b)"
    using assms(1,2)
  proof (induction ss)
    case (Cons x xs)
    then have x: "\<And>b. b \<in> set xs \<Longrightarrow> x + w < b" by simp
    have "distinct xs \<and> (\<forall>a \<in> set xs. \<forall>b \<in> set xs. a < b \<longrightarrow> a + w < b)"
      using Cons by simp
    then have ih: "distinct xs" "\<And>a b. a \<in> set xs \<Longrightarrow> b \<in> set xs \<Longrightarrow> a < b \<Longrightarrow> a + w < b"
      by blast+
    have "x \<notin> set xs" using x Cons.prems(2) by force
    moreover have "a + w < b" if "a \<in> set (x # xs)" "b \<in> set (x # xs)" "a < b" for a b
      using that x[of a] x[of b] ih(2)[of a b] Cons.prems(2) by (cases "a = x"; cases "b = x") auto
    ultimately show ?case using ih(1) by simp
  qed simp
  have "inj_on f (set ss)"
  proof (rule inj_onI)
    fix a b assume ab: "a \<in> set ss" "b \<in> set ss" "f a = f b"
    show "a = b"
    proof (rule ccontr)
      assume "a \<noteq> b"
      then consider "a + w < b" | "b + w < a" using dist ab by (metis linorder_neqE)
      then show False using f[OF ab(1)] f[OF ab(2)] ab(3) by cases linarith+
    qed
  qed
  then have "card (set ss) \<le> card A"
    using f assms(3) by (intro card_inj_on_le) auto
  with dist show ?thesis by (simp add: distinct_card)
qed


lemma sorted_rev_loss_streak:
  assumes "sorted (rev ts)" "loss_streak r ps = map Some ts"
  shows "fst (count_consecutive_losses ps r w) = length (cluster_starts w None (rev ts))"
  using assms fold_cluster_step[of w "rev ts" 0 None]
  by (simp add: count_consecutive_losses_def rev_map case_prod_beta)

text \<open>
  C18. The number of loss events is the least number of windows that cover the losses: the
  closing times of the streak fit into that many intervals of the cluster length, and into no
  fewer, so correlated losses count once and no loss is left out.
\<close>

theorem loss_events_minimal_cover:
  assumes "loss_streak r ps = map Some ts" "sorted (rev ts)" "0 \<le> w"
  shows "(\<exists>A. finite A \<and> card A = fst (count_consecutive_losses ps r w) \<and> covers w A ts)
       \<and> (\<forall>A. finite A \<and> covers w A ts \<longrightarrow> fst (count_consecutive_losses ps r w) \<le> card A)"
proof -
  let ?ss = "cluster_starts w None (rev ts)"
  have n: "fst (count_consecutive_losses ps r w) = length ?ss"
    by (rule sorted_rev_loss_streak[OF assms(2,1)])
  have apart: "sorted_wrt (\<lambda>a b. a + w < b) ?ss"
    using cluster_starts_apart[OF assms(2,3), of None] by simp
  have cov: "covers w (set ?ss) ts"
    using cluster_starts_cover[OF assms(2,3), of None] by (simp add: covers_def)
  have "length ?ss \<le> card A" if "finite A" "covers w A ts" for A
    using apart_card_le[OF apart assms(3) that(1)] that(2) cluster_starts_subset
    by (fastforce simp: covers_def)
  moreover from this[of "set ?ss"] have "card (set ?ss) = length ?ss"
    using cov card_length[of ?ss] by simp
  ultimately show ?thesis using n cov by (metis List.finite_set)
qed

definition losing :: "datetime \<Rightarrow> position" where
  "losing t =
     \<lparr>pos_id = 0, pos_symbol = ''BTC/USDT'', pos_status = CLOSED, pos_entry_order_id = 0,
      pos_exit_order_id = None, pos_entry_price = 1, pos_exit_price = None, pos_amount = 1,
      pos_pnl_usdt = Some (- 1), pos_pnl_pct = None, pos_opened_at = 0, pos_closed_at = Some t,
      pos_exit_reason = None, pos_fees_usdt = None, pos_fees_estimated = False,
      pos_r_multiple = None, pos_market_regime = None, pos_trade_score = None,
      pos_volatility_regime = None\<rparr>"

theorem loss_events_minimal_cover_witness:
  "fst (count_consecutive_losses (map losing [90, 50, 10]) None 60) = 2 \<and>
   (\<exists>A. finite A \<and> card A = 2 \<and> covers 60 A [90, 50, 10])"
proof -
  have s: "loss_streak None (map losing [90, 50, 10]) = map Some [90, 50, 10]"
    by (simp add: losing_def)
  have n: "fst (count_consecutive_losses (map losing [90, 50, 10]) None 60) = 2"
    by code_simp
  have "sorted (rev [90, 50, 10 :: int])" "(0 :: int) \<le> 60" by simp_all
  from loss_events_minimal_cover[OF s this] n show ?thesis by simp
qed

section \<open>The account state read from the tables\<close>

lemma set_closed_desc:
  "set (closed_desc d) = {p \<in> set (db_positions d). pos_status p = CLOSED \<and> pos_closed_at p \<noteq> None}"
  by (simp add: closed_desc_def)

lemma sorted_closed_desc: "sorted (map (\<lambda>p. - the (pos_closed_at p)) (closed_desc d))"
  by (simp add: closed_desc_def)

lemma map_of_sorted_desc:
  assumes "sorted (map (\<lambda>x. - f x) xs)" "map_of (map (\<lambda>x. (g x, f x :: int)) xs) k = Some t"
  shows "(\<exists>x \<in> set xs. g x = k \<and> f x = t) \<and> (\<forall>x \<in> set xs. g x = k \<longrightarrow> f x \<le> t)"
  using assms
proof (induction xs)
  case (Cons x xs)
  then show ?case by (cases "g x = k") auto
qed simp

lemma map_of_none: "map_of (map (\<lambda>x. (g x, f x)) xs) k = None \<longleftrightarrow> (\<forall>x \<in> set xs. g x \<noteq> k)"
  by (induction xs) auto

lemma load_account_state_sel:
  "ac_equity_usdt (load_account_state b w now d) = bal_equity_usdt b"
  "ac_free_balance_usdt (load_account_state b w now d) = bal_free_balance_usdt b"
  "ac_open_position_symbols (load_account_state b w now d) = pos_symbol ` set (open_positions d)"
  "ac_symbol_last_closed_at (load_account_state b w now d) =
     map_of (map (\<lambda>p. (pos_symbol p, the (pos_closed_at p))) (closed_desc d))"
  "ac_consecutive_losses (load_account_state b w now d) =
     fst (count_consecutive_losses (closed_desc d)
            (Option.bind (db_system_state d) sys_consecutive_loss_reset_at) w)"
  by (simp_all add: load_account_state_def Let_def case_prod_beta)

text \<open>
  The account state agrees with the tables: the open symbols are those of the open rows, and
  the last close of a symbol is the newest closing time among its closed positions, absent
  exactly when it has none.
\<close>

theorem account_state_reads_tables:
  "ac_open_position_symbols (load_account_state b w now d)
     = {pos_symbol p |p. p \<in> set (db_positions d) \<and> pos_status p = OPEN} \<and>
   ac_symbol_last_closed_at (load_account_state b w now d) s =
     (let times = {c. \<exists>p \<in> set (db_positions d). pos_status p = CLOSED \<and> pos_symbol p = s \<and>
                                                 pos_closed_at p = Some c}
      in if times = {} then None else Some (Max times))"
proof
  show "ac_open_position_symbols (load_account_state b w now d)
     = {pos_symbol p |p. p \<in> set (db_positions d) \<and> pos_status p = OPEN}"
    by (auto simp: load_account_state_sel open_positions_def)
  let ?m = "map_of (map (\<lambda>p. (pos_symbol p, the (pos_closed_at p))) (closed_desc d))"
  let ?times = "{c. \<exists>p \<in> set (db_positions d). pos_status p = CLOSED \<and> pos_symbol p = s \<and>
                                                 pos_closed_at p = Some c}"
  have times: "?times = (\<lambda>p. the (pos_closed_at p)) ` {p \<in> set (closed_desc d). pos_symbol p = s}"
    by (force simp: set_closed_desc)
  have "?m s = (if ?times = {} then None else Some (Max ?times))"
  proof (cases "?m s")
    case None
    then show ?thesis unfolding times by (auto simp: map_of_none)
  next
    case (Some t)
    from map_of_sorted_desc[OF sorted_closed_desc Some]
    have "t \<in> ?times" "\<forall>c \<in> ?times. c \<le> t" unfolding times by auto
    moreover have "finite ?times" unfolding times by simp
    ultimately show ?thesis using Some by (auto intro!: Max_eqI[symmetric])
  qed
  then show "ac_symbol_last_closed_at (load_account_state b w now d) s =
     (let times = ?times in if times = {} then None else Some (Max times))"
    by (simp add: load_account_state_sel Let_def)
qed

section \<open>The expectancy cohort\<close>

lemma score_bucket_bounds_Some:
  "score_bucket_bounds (Some s) =
     (if 0 \<le> s \<and> s \<le> 39 then Some (0, 39) else if 40 \<le> s \<and> s \<le> 69 then Some (40, 69)
      else if 70 \<le> s \<and> s \<le> 100 then Some (70, 100) else None)"
  by (auto simp: score_bucket_bounds_def SCORE_BUCKETS_def)

lemma score_bucket_label_Some:
  "score_bucket_label (Some s) =
     (if 0 \<le> s \<and> s \<le> 39 then ''0'' @ en_dash @ ''39''
      else if 40 \<le> s \<and> s \<le> 69 then ''40'' @ en_dash @ ''69''
      else if 70 \<le> s \<and> s \<le> 100 then ''70'' @ en_dash @ ''100'' else UNSCORED_LABEL)"
  by (auto simp: score_bucket_label_def SCORE_BUCKETS_def)

lemma score_bucket_label_None: "score_bucket_label None = UNSCORED_LABEL"
  by (simp add: score_bucket_label_def)

lemma same_bucket:
  assumes "score_bucket_bounds (Some s) = Some (lo, hi)"
  shows "opt_le lo x \<and> opt_ge hi x \<longleftrightarrow> score_bucket_label x = score_bucket_label (Some s)"
proof (cases x)
  case None
  with assms show ?thesis
    by (auto simp: opt_le_def score_bucket_label_None score_bucket_label_Some score_bucket_bounds_Some
        UNSCORED_LABEL_def split: if_splits)
next
  case (Some y)
  with assms show ?thesis
    by (auto simp: opt_le_def opt_ge_def score_bucket_label_Some score_bucket_bounds_Some
        UNSCORED_LABEL_def en_dash_def split: if_splits)
qed

lemma to_metrics_filter:
  assumes "\<And>p. P p \<longleftrightarrow> Q (pos_market_regime p) (pos_trade_score p)"
  shows "to_metrics (filter P ps) =
           filter (\<lambda>t. Q (tr_market_regime t) (tr_trade_score t)) (to_metrics ps)"
  by (induction ps) (simp_all add: assms split: option.splits)

text \<open>
  The expectancy consulted for a signal is the one the performance breakdowns report: the
  sample is exactly the closed trades with the signal's regime and the same score band, counted
  over those that carry an R multiple, and a signal without a regime or a band has no sample.
\<close>

theorem expectancy_cohort:
  "load_expectancy_state regime score d =
     (let trades = filter (\<lambda>t. tr_market_regime t = regime \<and>
                               score_bucket_label (tr_trade_score t) = score_bucket_label score)
                     (load_closed_trade_metrics
                        \<lparr>tf_symbol = None, tf_regime = None, tf_score_min = None,
                         tf_score_max = None, tf_since = None, tf_until = None\<rparr> d)
      in if regime = None \<or> score_bucket_label score = UNSCORED_LABEL
         then \<lparr>ev_setup_key = setup_key regime score, ev_sample_size = 0, ev_expectancy_r = None\<rparr>
         else \<lparr>ev_setup_key = setup_key regime score,
               ev_sample_size = count_if (\<lambda>t. tr_r_multiple t \<noteq> None) trades,
               ev_expectancy_r = compute_expectancy_r trades\<rparr>)"
proof (cases "regime = None \<or> score_bucket_bounds score = None")
  case True
  moreover have "score_bucket_bounds score = None \<longleftrightarrow> score_bucket_label score = UNSCORED_LABEL"
    by (cases score) (auto simp: score_bucket_bounds_def score_bucket_label_def SCORE_BUCKETS_def
        UNSCORED_LABEL_def en_dash_def)
  ultimately show ?thesis
    by (auto simp: load_expectancy_state_def Let_def split: option.splits)
next
  case False
  then obtain r s lo hi where rs: "regime = Some r" "score = Some s"
    and b: "score_bucket_bounds (Some s) = Some (lo, hi)"
    by (cases score) (auto simp: score_bucket_bounds_def)
  have lab: "score_bucket_label (Some s) \<noteq> UNSCORED_LABEL"
    using b by (auto simp: score_bucket_bounds_Some score_bucket_label_Some UNSCORED_LABEL_def
        split: if_splits)
  let ?Q = "\<lambda>rg sc. rg = Some r \<and> score_bucket_label sc = score_bucket_label (Some s)"
  let ?all = "\<lambda>p. pos_status p = CLOSED"
  have f: "filter_holds \<lparr>tf_symbol = None, tf_regime = Some r, tf_score_min = Some lo,
             tf_score_max = Some hi, tf_since = None, tf_until = None\<rparr> p
        \<longleftrightarrow> ?all p \<and> ?Q (pos_market_regime p) (pos_trade_score p)" for p
    using same_bucket[OF b, of "pos_trade_score p"] by (auto simp: filter_holds_def)
  have split: "filter (filter_holds \<lparr>tf_symbol = None, tf_regime = Some r, tf_score_min = Some lo,
             tf_score_max = Some hi, tf_since = None, tf_until = None\<rparr>) ps =
        filter (\<lambda>p. ?Q (pos_market_regime p) (pos_trade_score p)) (filter ?all ps)" for ps
    unfolding filter_filter by (rule filter_cong) (auto simp: f)
  have all: "filter_holds \<lparr>tf_symbol = None, tf_regime = None, tf_score_min = None,
             tf_score_max = None, tf_since = None, tf_until = None\<rparr> = ?all"
    by (auto simp: filter_holds_def)
  have loaded: "load_closed_trade_metrics \<lparr>tf_symbol = None, tf_regime = Some r, tf_score_min = Some lo,
             tf_score_max = Some hi, tf_since = None, tf_until = None\<rparr> d =
        filter (\<lambda>t. ?Q (tr_market_regime t) (tr_trade_score t))
          (load_closed_trade_metrics \<lparr>tf_symbol = None, tf_regime = None, tf_score_min = None,
             tf_score_max = None, tf_since = None, tf_until = None\<rparr> d)"
    unfolding load_closed_trade_metrics_def split all
    by (subst filter_sort[symmetric]) (rule to_metrics_filter[where Q = ?Q], rule refl)
  show ?thesis
    using lab by (simp add: rs load_expectancy_state_def b loaded build_expectancy_view_def Let_def)
qed

end
