(* ===== verification/Freqtrade_Client.thy ===== *)
theory Freqtrade_Client
  imports World Account_State
begin

text \<open>
  \<open>risk_engine/app/freqtrade_client.py\<close> and \<open>balance_monitor.py\<close>: the only code that sends
  requests to Freqtrade.  The history \<open>w_ft\<close> of the world records every request sent.
\<close>

section \<open>Exits\<close>

definition forceexit_attempts :: "externals \<Rightarrow> nat" where
  "forceexit_attempts ex = nat (max 1 (ex_exit_retry_attempts ex))"

text \<open>The retry loop with \<open>n\<close> attempts left.\<close>

fun forceexit_loop :: "externals \<Rightarrow> int \<Rightarrow> nat \<Rightarrow> world \<Rightarrow> (py_error + unit) \<times> world" where
  "forceexit_loop ex trade_id 0 w = (Inl AssertionError, w)"
| "forceexit_loop ex trade_id (Suc n) w =
     (case ft_call (ex_forceexit ex) (FT_forceexit trade_id) w of
        (Inr u, w') \<Rightarrow> (Inr u, w')
      | (Inl FreqtradeUnavailable, w') \<Rightarrow>
          if n = 0 then (Inl FreqtradeUnavailable, w') else forceexit_loop ex trade_id n w'
      | (Inl e, w') \<Rightarrow> (Inl e, w'))"

definition forceexit :: "externals \<Rightarrow> int \<Rightarrow> world \<Rightarrow> (py_error + unit) \<times> world" where
  "forceexit ex trade_id w = forceexit_loop ex trade_id (forceexit_attempts ex) w"

section \<open>Entries\<close>

text \<open>\<open>response.get("trade_id") or response.get("id")\<close>: zero is falsy.\<close>

definition response_trade_id :: "entry_response \<Rightarrow> int option" where
  "response_trade_id r =
     (case er_trade_id r of Some i \<Rightarrow> if i = 0 then er_id r else Some i | None \<Rightarrow> er_id r)"

definition forceenter ::
    "externals \<Rightarrow> string \<Rightarrow> rat \<Rightarrow> entry_tag option \<Rightarrow> world \<Rightarrow> (py_error + entry_response) \<times> world" where
  "forceenter ex pair stake_amount entry_tag w =
     then_do (ft_call (ex_forceenter ex) (FT_forceenter pair (flt stake_amount) entry_tag) w)
       (\<lambda>response w.
          if entry_tag \<noteq> None \<and> er_enter_tag response \<noteq> entry_tag
          then (Inl FreqtradeUnavailable,
                case response_trade_id response of
                  None \<Rightarrow> w
                | Some trade_id \<Rightarrow> snd (forceexit ex trade_id w))
          else (Inr response, w))"

section \<open>Reads\<close>

definition get_trade :: "externals \<Rightarrow> int \<Rightarrow> world \<Rightarrow> (py_error + FreqtradeTrade) \<times> world" where
  "get_trade ex trade_id w = ft_call (ex_trade ex) (FT_trade trade_id) w"

definition valid_balances :: "FreqtradeBalances \<Rightarrow> bool" where
  "valid_balances b \<longleftrightarrow> 0 \<le> fb_total b \<and>
     (\<forall>c \<in> set (fb_currencies b). 0 \<le> fc_free c \<and> 0 \<le> fc_balance c \<and> 0 \<le> fc_used c)"

definition get_account_balance ::
    "externals \<Rightarrow> datetime \<Rightarrow> world \<Rightarrow> (py_error + AccountBalanceSnapshot) \<times> world" where
  "get_account_balance ex now w =
     then_do (ft_call (ex_balance ex) FT_balance w) (\<lambda>balances w.
       if \<not> valid_balances balances then (Inl FreqtradeUnavailable, w)
       else if fb_stake balances \<noteq> ''USDT'' then (Inl FreqtradeUnavailable, w)
       else
         let stake_rows = filter (\<lambda>row. fc_currency row = fb_stake balances \<and>
                                        fc_stake row = fb_stake balances) (fb_currencies balances)
         in case stake_rows of
              [row] \<Rightarrow>
                (case make_balance_snapshot (fb_total balances) (fc_free row) now of
                   Inl _ \<Rightarrow> (Inl FreqtradeUnavailable, w)
                 | Inr s \<Rightarrow> (Inr s, w))
            | _ \<Rightarrow> (Inl FreqtradeUnavailable, w))"

definition snapshot_json :: "AccountBalanceSnapshot \<Rightarrow> json" where
  "snapshot_json s =
     JObj [(''equity_usdt'', JNum (bal_equity_usdt s)),
           (''free_balance_usdt'', JNum (bal_free_balance_usdt s)),
           (''captured_at'', JInt (bal_captured_at s)), (''source'', JStr ''freqtrade'')]"

definition publish_balance_snapshot ::
    "externals \<Rightarrow> datetime \<Rightarrow> world \<Rightarrow> (py_error + AccountBalanceSnapshot) \<times> world" where
  "publish_balance_snapshot ex now w =
     then_do (get_account_balance ex now w) (\<lambda>snapshot w.
     then_do (redis_call ex now (R_SET K_account_balance (snapshot_json snapshot)
                (Some ACCOUNT_BALANCE_SNAPSHOT_TTL_SECONDS)) w)
       (\<lambda>_ w. (Inr snapshot, w)))"

text \<open>One turn of \<open>run_balance_refresh_loop\<close>: on any failure the published snapshot is deleted.\<close>

definition balance_refresh_turn ::
    "externals \<Rightarrow> datetime \<Rightarrow> world \<Rightarrow> (py_error + unit) \<times> world" where
  "balance_refresh_turn ex now w =
     (case publish_balance_snapshot ex now w of
        (Inr _, w) \<Rightarrow> (Inr (), w)
      | (Inl _, w) \<Rightarrow>
          then_do (redis_call ex now (R_DELETE K_account_balance) w) (\<lambda>_ w. (Inr (), w)))"

section \<open>What the client sends\<close>

definition entries_sent :: "ft_request list \<Rightarrow> nat" where
  "entries_sent rs = length (filter (\<lambda>r. case r of FT_forceenter _ _ _ \<Rightarrow> True | _ \<Rightarrow> False) rs)"

definition exits_sent :: "ft_request list \<Rightarrow> nat" where
  "exits_sent rs = length (filter (\<lambda>r. case r of FT_forceexit _ \<Rightarrow> True | _ \<Rightarrow> False) rs)"

lemma sent_append [simp]:
  "entries_sent (a @ b) = entries_sent a + entries_sent b"
  "exits_sent (a @ b) = exits_sent a + exits_sent b"
  by (simp_all add: entries_sent_def exits_sent_def)

lemma sent_Nil [simp]: "entries_sent [] = 0" "exits_sent [] = 0"
  by (simp_all add: entries_sent_def exits_sent_def)

lemma sent_Cons [simp]:
  "entries_sent (FT_forceenter p a t # rs) = Suc (entries_sent rs)"
  "entries_sent (FT_forceexit i # rs) = entries_sent rs"
  "entries_sent (FT_trade i # rs) = entries_sent rs"
  "entries_sent (FT_balance # rs) = entries_sent rs"
  "exits_sent (FT_forceenter p a t # rs) = exits_sent rs"
  "exits_sent (FT_forceexit i # rs) = Suc (exits_sent rs)"
  "exits_sent (FT_trade i # rs) = exits_sent rs"
  "exits_sent (FT_balance # rs) = exits_sent rs"
  by (simp_all add: entries_sent_def exits_sent_def)

text \<open>Requests change nothing but the histories.\<close>

lemma forceexit_loop_effect:
  assumes "forceexit_loop ex t n w = (res, w')" "0 < n"
  shows "w_db w' = w_db w \<and> w_saved w' = w_saved w \<and> w_redis w' = w_redis w \<and>
    (\<exists>k. 1 \<le> k \<and> k \<le> n \<and> w_ft w' = w_ft w @ replicate k (FT_forceexit t)) \<and>
    (res = Inr () \<or> res = Inl FreqtradeUnavailable)"
  using assms
proof (induction n arbitrary: w)
  case (Suc n)
  let ?call = "ft_call (ex_forceexit ex) (FT_forceexit t) w"
  have frame: "w_db (snd ?call) = w_db w" "w_saved (snd ?call) = w_saved w" "w_redis (snd ?call) = w_redis w"
    "w_ft (snd ?call) = w_ft w @ [FT_forceexit t]" by simp_all
  have out: "fst ?call = Inr () \<or> fst ?call = Inl FreqtradeUnavailable"
    by (auto simp: ft_call_def split: http_reply.splits)
  show ?case
  proof (cases "fst ?call = Inl FreqtradeUnavailable \<and> n \<noteq> 0")
    case True
    then have "forceexit_loop ex t n (snd ?call) = (res, w')"
      using Suc.prems by (cases ?call) auto
    from Suc.IH[OF this] True obtain k where
      "w_db w' = w_db w" "w_saved w' = w_saved w" "w_redis w' = w_redis w" "1 \<le> k" "k \<le> n"
      "w_ft w' = w_ft w @ replicate (Suc k) (FT_forceexit t)"
      "res = Inr () \<or> res = Inl FreqtradeUnavailable" using frame by auto
    then show ?thesis by (intro conjI exI[of _ "Suc k"]) auto
  next
    case False
    then have "w' = snd ?call" "res = fst ?call"
      using Suc.prems out by (cases ?call; auto split: if_splits)+
    then show ?thesis using frame out by (auto intro!: exI[of _ 1])
  qed
qed simp

lemma forceexit_effect:
  assumes "forceexit ex t w = (res, w')"
  obtains k where "w_db w' = w_db w" "w_saved w' = w_saved w" "w_redis w' = w_redis w"
    "1 \<le> k" "k \<le> forceexit_attempts ex" "w_ft w' = w_ft w @ replicate k (FT_forceexit t)"
    "res = Inr () \<or> res = Inl FreqtradeUnavailable"
proof -
  have "0 < forceexit_attempts ex" by (simp add: forceexit_attempts_def)
  from forceexit_loop_effect[OF assms[unfolded forceexit_def] this] that show thesis by blast
qed

lemma replicate_exits [simp]:
  "entries_sent (replicate k (FT_forceexit t)) = 0" "exits_sent (replicate k (FT_forceexit t)) = k"
  by (simp_all add: entries_sent_def exits_sent_def)


lemma forceenter_effect:
  assumes "forceenter ex pair amt tag w = (res, w')"
  obtains ks where "w_db w' = w_db w" "w_saved w' = w_saved w" "w_redis w' = w_redis w"
    "w_ft w' = w_ft w @ FT_forceenter pair (flt amt) tag # ks" "entries_sent ks = 0"
    "exits_sent ks \<le> forceexit_attempts ex"
    "res = Inl FreqtradeUnavailable \<or>
       (\<exists>r. res = Inr r \<and> (tag = None \<or> er_enter_tag r = tag) \<and> ks = [])"
proof -
  let ?call = "ft_call (ex_forceenter ex) (FT_forceenter pair (flt amt) tag) w"
  show thesis
  proof (cases "ex_forceenter ex (w_ft w) (FT_forceenter pair (flt amt) tag)")
    case (Body r)
    then have call: "?call = (Inr r, w\<lparr>w_ft := w_ft w @ [FT_forceenter pair (flt amt) tag]\<rparr>)"
      by (simp add: ft_call_def)
    show thesis
    proof (cases "tag \<noteq> None \<and> er_enter_tag r \<noteq> tag")
      case False
      then have "res = Inr r" "w' = w\<lparr>w_ft := w_ft w @ [FT_forceenter pair (flt amt) tag]\<rparr>"
        using assms by (auto simp: forceenter_def call)
      then show thesis using False that[of "[]"] by auto
    next
      case True
      show thesis
      proof (cases "response_trade_id r")
        case None
        then have "res = Inl FreqtradeUnavailable" "w' = w\<lparr>w_ft := w_ft w @ [FT_forceenter pair (flt amt) tag]\<rparr>"
          using True assms by (auto simp: forceenter_def call)
        then show thesis using that[of "[]"] by simp
      next
        case (Some i)
        obtain r2 w2 where fx: "forceexit ex i (snd ?call) = (r2, w2)" by fastforce
        from forceexit_effect[OF this] obtain k where
          "w_db w2 = w_db (snd ?call)" "w_saved w2 = w_saved (snd ?call)" "w_redis w2 = w_redis (snd ?call)"
          "k \<le> forceexit_attempts ex" "w_ft w2 = w_ft (snd ?call) @ replicate k (FT_forceexit i)" .
        moreover have "res = Inl FreqtradeUnavailable" "w' = w2"
          using True Some assms fx by (auto simp: forceenter_def call)
        ultimately show thesis using that[of "replicate k (FT_forceexit i)"] by (simp add: call)
      qed
    qed
  qed (use assms that[of "[]"] in \<open>auto simp: forceenter_def ft_call_def\<close>)
qed

text \<open>
  C17. An entry that Freqtrade accepts without the requested protective stop is never reported as
  a success: the client either returns the response with exactly the tag it asked for, or fails,
  and when the unprotected trade can be identified it has already been told to close at market.
\<close>

theorem forceenter_protected:
  assumes "ex_forceenter ex (w_ft w) (FT_forceenter pair (flt amt) (Some tag)) = Body r"
    and "forceenter ex pair amt (Some tag) w = (res, w')"
  shows "if er_enter_tag r = Some tag then res = Inr r \<and> w_ft w' = w_ft w @ [FT_forceenter pair (flt amt) (Some tag)]
         else res = Inl FreqtradeUnavailable \<and>
           (case response_trade_id r of
              None \<Rightarrow> w_ft w' = w_ft w @ [FT_forceenter pair (flt amt) (Some tag)]
            | Some i \<Rightarrow> \<exists>k. 1 \<le> k \<and> k \<le> forceexit_attempts ex \<and>
                w_ft w' = w_ft w @ FT_forceenter pair (flt amt) (Some tag) # replicate k (FT_forceexit i))"
proof -
  let ?req = "FT_forceenter pair (flt amt) (Some tag)"
  have call: "ft_call (ex_forceenter ex) ?req w = (Inr r, w\<lparr>w_ft := w_ft w @ [?req]\<rparr>)"
    using assms(1) by (simp add: ft_call_def)
  show ?thesis
  proof (cases "response_trade_id r")
    case None
    with assms(2) show ?thesis by (auto simp: forceenter_def call)
  next
    case (Some i)
    obtain r2 w2 where fx: "forceexit ex i (w\<lparr>w_ft := w_ft w @ [?req]\<rparr>) = (r2, w2)" by fastforce
    from forceexit_effect[OF fx] obtain k where
      "1 \<le> k" "k \<le> forceexit_attempts ex" "w_ft w2 = w_ft w @ ?req # replicate k (FT_forceexit i)"
      by auto
    with Some assms(2) fx show ?thesis by (auto simp: forceenter_def call)
  qed
qed

definition sample_externals :: externals where
  "sample_externals =
     \<lparr>ex_redis = (\<lambda>hist now cmd. case cmd of
        R_SET_NX k v ttl \<Rightarrow>
          if list_ex (\<lambda>(t, c, r). case c of
               R_SET_NX k' v' ttl' \<Rightarrow> k' = k \<and> r = R_OK \<and> t \<le> now \<and> now < t + seconds ttl'
             | _ \<Rightarrow> False) hist
          then R_NIL else R_OK
      | _ \<Rightarrow> R_OK),
      ex_forceenter = (\<lambda>hist req. case req of
        FT_forceenter p a t \<Rightarrow> Body \<lparr>er_enter_tag = t, er_trade_id = Some 11, er_id = None\<rparr>
      | _ \<Rightarrow> HttpError),
      ex_forceexit = (\<lambda>hist req. Body ()),
      ex_trade = (\<lambda>hist req. HttpError),
      ex_balance = (\<lambda>hist req. Body
        \<lparr>fb_currencies = [\<lparr>fc_currency = ''USDT'', fc_free = 800, fc_balance = 1000, fc_used = 200,
                            fc_stake = ''USDT''\<rparr>],
         fb_total = 1000, fb_stake = ''USDT''\<rparr>),
      ex_exit_retry_attempts = 3\<rparr>"

text \<open>The same services, but Freqtrade drops the entry tag.\<close>

definition tagless_externals :: externals where
  "tagless_externals = sample_externals\<lparr>ex_forceenter := (\<lambda>hist req.
     Body \<lparr>er_enter_tag = None, er_trade_id = Some 11, er_id = None\<rparr>)\<rparr>"

definition empty_world :: world where
  "empty_world = \<lparr>w_db = empty_db, w_saved = empty_db, w_redis = [], w_ft = []\<rparr>"

theorem forceenter_protected_witness:
  "\<exists>k. 1 \<le> k \<and> k \<le> 3 \<and>
     w_ft (snd (forceenter tagless_externals ''BTC/USDT'' 40 (Some (TagSlpct (3 / 100))) empty_world)) =
       FT_forceenter ''BTC/USDT'' 40 (Some (TagSlpct (3 / 100))) # replicate k (FT_forceexit 11)"
proof -
  let ?r = "\<lparr>er_enter_tag = None, er_trade_id = Some 11, er_id = None\<rparr>"
  obtain res w' where run: "forceenter tagless_externals ''BTC/USDT'' 40 (Some (TagSlpct (3 / 100)))
      empty_world = (res, w')" by fastforce
  have body: "ex_forceenter tagless_externals (w_ft empty_world)
      (FT_forceenter ''BTC/USDT'' (flt 40) (Some (TagSlpct (3 / 100)))) = Body ?r"
    by (simp add: tagless_externals_def)
  have "forceexit_attempts tagless_externals = 3"
    by (simp add: forceexit_attempts_def tagless_externals_def sample_externals_def)
  with forceenter_protected[OF body run] run show ?thesis
    by (auto simp: response_trade_id_def empty_world_def)
qed

section \<open>Balance reads\<close>

lemma get_account_balance_effect:
  assumes "get_account_balance ex now w = (res, w')"
  shows "w_db w' = w_db w \<and> w_saved w' = w_saved w \<and> w_redis w' = w_redis w \<and> w_ft w' = w_ft w @ [FT_balance]"
proof -
  have "get_account_balance ex now w = (fst (get_account_balance ex now w), snd (ft_call (ex_balance ex) FT_balance w))"
    unfolding get_account_balance_def
    by (cases "ft_call (ex_balance ex) FT_balance w")
       (auto simp: then_do_def Let_def split: sum.splits list.splits)
  with assms have "w' = snd (ft_call (ex_balance ex) FT_balance w)" by simp
  then show ?thesis by simp
qed

lemma make_balance_snapshot_InrD:
  "make_balance_snapshot e f t = Inr s \<Longrightarrow>
     0 \<le> bal_free_balance_usdt s \<and> bal_free_balance_usdt s \<le> bal_equity_usdt s \<and> bal_captured_at s = t"
  by (auto simp: make_balance_snapshot_def split: if_splits)

lemma get_account_balance_Inr:
  assumes "get_account_balance ex now w = (Inr s, w')"
  shows "0 \<le> bal_free_balance_usdt s" "bal_free_balance_usdt s \<le> bal_equity_usdt s"
    "bal_captured_at s = now"
proof -
  have "\<exists>e f. make_balance_snapshot e f now = Inr s"
    using assms unfolding get_account_balance_def
    by (cases "ft_call (ex_balance ex) FT_balance w")
       (auto simp: then_do_def Let_def split: sum.splits list.splits if_splits)
  then show "0 \<le> bal_free_balance_usdt s" "bal_free_balance_usdt s \<le> bal_equity_usdt s"
    "bal_captured_at s = now" using make_balance_snapshot_InrD by blast+
qed

text \<open>
  Where the numbers of a balance come from: Freqtrade's own reply, its total and the free amount of
  its single stake row.
\<close>

definition balance_reported ::
    "externals \<Rightarrow> ft_request list \<Rightarrow> AccountBalanceSnapshot \<Rightarrow> bool" where
  "balance_reported ex hist balance \<longleftrightarrow>
     (\<exists>b row. ex_balance ex hist FT_balance = Body b \<and> valid_balances b \<and> fb_stake b = ''USDT'' \<and>
        filter (\<lambda>r. fc_currency r = ''USDT'' \<and> fc_stake r = ''USDT'') (fb_currencies b) = [row] \<and>
        bal_equity_usdt balance = fb_total b \<and> bal_free_balance_usdt balance = fc_free row)"

lemma get_account_balance_reported:
  assumes "get_account_balance ex now w = (Inr s, w')"
  shows "balance_reported ex (w_ft w) s"
proof (cases "ex_balance ex (w_ft w) FT_balance")
  case (Body b)
  then show ?thesis
    using assms
    by (auto simp: get_account_balance_def ft_call_def Let_def balance_reported_def
        make_balance_snapshot_def split: if_splits list.splits sum.splits)
qed (use assms in \<open>simp_all add: get_account_balance_def ft_call_def\<close>)

lemma ft_call_Inl: "ft_call reply req w = (Inl e, w') \<Longrightarrow> e = FreqtradeUnavailable"
  by (auto simp: ft_call_def split: http_reply.splits)

lemma get_account_balance_Inl:
  assumes "get_account_balance ex now w = (Inl e, w')"
  shows "e = FreqtradeUnavailable"
proof -
  obtain r0 w0 where c: "ft_call (ex_balance ex) FT_balance w = (r0, w0)" by fastforce
  show ?thesis
  proof (cases r0)
    case (Inl e')
    with assms c ft_call_Inl[of "ex_balance ex" FT_balance w e' w0] show ?thesis
      by (simp add: get_account_balance_def)
  next
    case (Inr b)
    with assms c show ?thesis
      by (auto simp: get_account_balance_def Let_def split: sum.splits list.splits if_splits)
  qed
qed

lemma publish_balance_snapshot_effect:
  assumes "publish_balance_snapshot ex now w = (res, w')"
  shows "w_db w' = w_db w \<and> w_saved w' = w_saved w \<and> w_ft w' = w_ft w @ [FT_balance] \<and>
    (w_redis w' = w_redis w \<or>
     (\<exists>v r. w_redis w' = w_redis w @ [(now, R_SET K_account_balance v
                          (Some ACCOUNT_BALANCE_SNAPSHOT_TTL_SECONDS), r)]))"
proof -
  obtain r1 w1 where g: "get_account_balance ex now w = (r1, w1)" by fastforce
  from get_account_balance_effect[OF g] show ?thesis
    using assms g by (cases r1) (auto simp: publish_balance_snapshot_def redis_call_def Let_def split: if_splits)
qed

end
