(* ===== verification/Scheduler.thy ===== *)
theory Scheduler
  imports Schedule Indicators Llm_Service Freqtrade_Client
begin

text \<open>
  \<open>scheduler/app/jobs.py\<close> and \<open>market_data.py\<close>: one trading cycle of a symbol, from the lock to the
  published signal, the tracking of an outage of the LLM service, and the daily performance snapshot.
  The exchange and the LLM service's HTTP endpoint are parameters, as Redis is.
\<close>

section \<open>ISO times\<close>

fun decimal_digits :: "nat \<Rightarrow> int \<Rightarrow> string" where
  "decimal_digits 0 n = []"
| "decimal_digits (Suc w) n = decimal_digits w (n div 10) @ [char_of (48 + n mod 10)]"

text \<open>The proleptic Gregorian date of a day number, day 0 being 1970-01-01.\<close>

definition civil :: "int \<Rightarrow> int \<times> int \<times> int" where
  "civil days =
     (let z = days + 719468; era = z div 146097; doe = z mod 146097;
          yoe = (doe - doe div 1460 + doe div 36524 - doe div 146096) div 365;
          doy = doe - (365 * yoe + yoe div 4 - yoe div 100);
          mp = (5 * doy + 2) div 153;
          month = (if mp < 10 then mp + 3 else mp - 9)
      in (yoe + era * 400 + (if month \<le> 2 then 1 else 0), month, doy - (153 * mp + 2) div 5 + 1))"

text \<open>\<open>datetime.fromtimestamp(ms / 1000, tz=utc).isoformat()\<close>\<close>

definition isoformat_ms :: "int \<Rightarrow> string" where
  "isoformat_ms ms =
     (let secs = ms div 1000; micro = ms mod 1000 * 1000; sod = secs mod 86400
      in case civil (secs div 86400) of (y, m, d) \<Rightarrow>
         decimal_digits 4 y @ ''-'' @ decimal_digits 2 m @ ''-'' @ decimal_digits 2 d @ ''T'' @
         decimal_digits 2 (sod div 3600) @ '':'' @ decimal_digits 2 (sod div 60 mod 60) @ '':'' @
         decimal_digits 2 (sod mod 60) @
         (if micro = 0 then [] else ''.'' @ decimal_digits 6 micro) @ ''+00:00'')"

lemma isoformat_sample: "isoformat_ms 1709210096000 = ''2024-02-29T12:34:56+00:00''"
  by code_simp

text \<open>
  \<open>Decimal(str(x))\<close>: \<open>repr\<close> gives the shortest decimal that reads back as the same float, with at most
  17 digits.
\<close>

definition dec_of_float :: "rat \<Rightarrow> rat" where
  "dec_of_float x =
     (case find (\<lambda>n. flt (round_sig 10 n x) = x) [1..<18] of
        None \<Rightarrow> x
      | Some n \<Rightarrow> round_sig 10 n x)"

section \<open>Market data\<close>

text \<open>The exchange client: \<open>fetch_ohlcv(symbol, timeframe, limit)\<close> and \<open>parse_timeframe\<close>.\<close>

record exchange =
  xc_fetch_ohlcv :: "string \<Rightarrow> string \<Rightarrow> int \<Rightarrow> py_error + ohlcv list"
  xc_parse_timeframe :: "string \<Rightarrow> py_error + int"

text \<open>\<open>xs[-n:]\<close>\<close>

definition slice_last :: "int \<Rightarrow> 'a list \<Rightarrow> 'a list" where
  "slice_last n xs = (if n > 0 then last_n (nat n) xs else drop (nat (- n)) xs)"

definition fetch_closed_candles ::
    "exchange \<Rightarrow> string \<Rightarrow> string \<Rightarrow> int \<Rightarrow> datetime \<Rightarrow> py_error + ohlcv list" where
  "fetch_closed_candles xc symbol timeframe limit now =
     bind_res (xc_fetch_ohlcv xc symbol timeframe (limit + 1)) (\<lambda>raw.
     bind_res (xc_parse_timeframe xc timeframe) (\<lambda>seconds.
       let timeframe_ms = seconds * 1000; now_ms = now div 1000;
           candles = filter (\<lambda>c. oc_t c + timeframe_ms \<le> now_ms) raw
       in Inr (slice_last limit candles)))"

section \<open>The analysis call\<close>

text \<open>The members of the \<open>/analyze\<close> answer that the scheduler reads; its shape is \<open>TradingSignal\<close>.\<close>

record llm_result =
  an_action :: Action
  an_confidence :: rat
  an_reasoning :: string
  an_model_name :: string
  an_raw_response :: json
  an_trade_score :: "int option"
  an_score_breakdown :: json
  an_setup_regime :: "string option"
  an_volatility_regime :: "string option"

definition unreachable_result :: llm_result where
  "unreachable_result =
     \<lparr>an_action = HOLD, an_confidence = 0, an_reasoning = ''llm_service_unreachable'',
      an_model_name = ''n/a'', an_raw_response = JNull, an_trade_score = None,
      an_score_breakdown = JNull, an_setup_regime = None, an_volatility_regime = None\<rparr>"

definition post_analyze :: "(AnalyzeRequest \<Rightarrow> llm_result http_reply) \<Rightarrow> AnalyzeRequest \<Rightarrow> llm_result" where
  "post_analyze endpoint payload =
     (case endpoint payload of Body r \<Rightarrow> r | _ \<Rightarrow> unreachable_result)"

definition wire_candle :: "ohlcv \<Rightarrow> Candle" where
  "wire_candle c = \<lparr>ca_t = isoformat_ms (oc_t c), ca_o = oc_o c, ca_h = oc_h c, ca_l = oc_l c,
                    ca_c = oc_c c, ca_v = oc_v c\<rparr>"

definition build_analyze_payload ::
    "SchedulerSettings \<Rightarrow> string \<Rightarrow> int \<Rightarrow> ohlcv list \<Rightarrow> Indicators \<Rightarrow> MarketSentiment \<Rightarrow> bool \<Rightarrow> rat option
     \<Rightarrow> EffectiveLLMConfig \<Rightarrow> AnalyzeRequest" where
  "build_analyze_payload st symbol candle_ts_ms candles indicators sentiment has_open_position
      unrealized_pnl_pct llm_config =
     \<lparr>rq_symbol = symbol, rq_timeframe = ss_timeframe st,
      rq_candle_close_time = isoformat_ms candle_ts_ms,
      rq_ohlcv = map wire_candle (slice_last (ss_llm_ohlcv_window st) candles),
      rq_indicators = indicators, rq_sentiment = Some sentiment,
      rq_position_context = \<lparr>pc_has_open_position = has_open_position,
                             pc_unrealized_pnl_pct = unrealized_pnl_pct\<rparr>,
      rq_provider_override = Some (dump_config llm_config)\<rparr>"

text \<open>The payload without \<open>provider_override\<close>, as \<open>Signal.model_input\<close> stores it.\<close>

definition reason_json :: "sentiment_reason \<Rightarrow> json" where
  "reason_json r = (case r of (t, labels, numbers) \<Rightarrow> JArr (JStr t # map JStr labels @ map JNum numbers))"

definition sentiment_json :: "MarketSentiment \<Rightarrow> json" where
  "sentiment_json s =
     JObj [(''score'', JInt (se_score s)),
           (''state'', JStr (case se_state s of FEAR \<Rightarrow> ''FEAR'' | NEUTRAL \<Rightarrow> ''NEUTRAL'' | GREED \<Rightarrow> ''GREED'')),
           (''confidence'', JNum (se_confidence s)), (''reasons'', JArr (map reason_json (se_reasons s)))]"

definition model_input_json :: "AnalyzeRequest \<Rightarrow> json" where
  "model_input_json rq =
     (let ind = rq_indicators rq; m = in_macd ind; pc = rq_position_context rq
      in JObj
        [(''symbol'', JStr (rq_symbol rq)), (''timeframe'', JStr (rq_timeframe rq)),
         (''candle_close_time'', JStr (rq_candle_close_time rq)),
         (''ohlcv'', JArr (map (\<lambda>c. JObj [(''t'', JStr (ca_t c)), (''o'', JNum (ca_o c)), (''h'', JNum (ca_h c)),
            (''l'', JNum (ca_l c)), (''c'', JNum (ca_c c)), (''v'', JNum (ca_v c))]) (rq_ohlcv rq))),
         (''indicators'', JObj
            [(''rsi_14'', JNum (in_rsi_14 ind)), (''ema_50'', JNum (in_ema_50 ind)),
             (''ema_200'', JNum (in_ema_200 ind)),
             (''macd'', JObj [(''macd'', JNum (macd_macd m)), (''signal'', JNum (macd_signal m)),
                              (''histogram'', JNum (macd_histogram m))]),
             (''atr_14'', JNum (in_atr_14 ind)), (''volume_sma_20'', JNum (in_volume_sma_20 ind))]),
         (''sentiment'', json_opt sentiment_json (rq_sentiment rq)),
         (''position_context'', JObj
            [(''has_open_position'', JBool (pc_has_open_position pc)),
             (''unrealized_pnl_pct'', json_opt JNum (pc_unrealized_pnl_pct pc))])])"

section \<open>Outage tracking\<close>

definition LLM_TIMEOUT_REASONS :: "string set" where
  "LLM_TIMEOUT_REASONS = {''llm_timeout'', ''llm_service_unreachable'', ''provider_error''}"

text \<open>
  A Redis error ends the tracking; an audit event joins the caller's session.  A reply that is not a
  number makes \<open>int()\<close> raise, which is swallowed the same way.
\<close>

definition track_llm_analyze_health ::
    "externals \<Rightarrow> datetime \<Rightarrow> string \<Rightarrow> nat \<Rightarrow> string \<Rightarrow> string \<Rightarrow> int \<Rightarrow> world \<Rightarrow> world" where
  "track_llm_analyze_health ex now symbol trace_id reasoning model_name threshold w =
     (if threshold \<le> 0 \<or> model_name = PREFILTER_MODEL_NAME then w
      else if reasoning \<in> LLM_TIMEOUT_REASONS then
        (case redis_query ex now (R_INCR K_llm_timeout_streak) w of
           (Inr (R_INT streak), w) \<Rightarrow>
             (case redis_call ex now (R_EXPIRE K_llm_timeout_streak LLM_TIMEOUT_STREAK_TTL_SECONDS) w of
                (Inl _, w) \<Rightarrow> w
              | (Inr _, w) \<Rightarrow>
                  if streak = threshold
                  then with_db (add_audit trace_id LLM_TIMEOUT_STREAK
                         [(''streak'', JInt streak), (''threshold'', JInt threshold),
                          (''symbol'', JStr symbol), (''reason'', JStr reasoning)] now) w
                  else w)
         | (_, w) \<Rightarrow> w)
      else
        (case redis_query ex now (R_GET K_llm_timeout_streak) w of
           (Inr raw, w) \<Rightarrow>
             (case (case raw of R_NIL \<Rightarrow> Some 0 | R_INT n \<Rightarrow> Some n | _ \<Rightarrow> None) of
                None \<Rightarrow> w
              | Some previous \<Rightarrow>
                  (case (if previous \<noteq> 0 then redis_call ex now (R_DELETE K_llm_timeout_streak) w
                         else (Inr True, w)) of
                     (Inl _, w) \<Rightarrow> w
                   | (Inr _, w) \<Rightarrow>
                       if previous \<ge> threshold
                       then with_db (add_audit trace_id LLM_TIMEOUT_RECOVERED
                              [(''recovered_after'', JInt previous), (''symbol'', JStr symbol)] now) w
                       else w))
         | (_, w) \<Rightarrow> w))"

section \<open>The cycle\<close>

record scheduler =
  sc_settings :: SchedulerSettings
  sc_llm_env :: LLMServiceSettings
  sc_pandas :: pandas
  sc_exchange :: exchange
  sc_analyze :: "AnalyzeRequest \<Rightarrow> llm_result http_reply"

definition signal_row_of ::
    "SchedulerSettings \<Rightarrow> string \<Rightarrow> int \<Rightarrow> ohlcv \<Rightarrow> Indicators \<Rightarrow> AnalyzeRequest \<Rightarrow> llm_result \<Rightarrow> nat \<Rightarrow> datetime
     \<Rightarrow> signal_row" where
  "signal_row_of st symbol close_ts_ms lt indicators payload r trace_id now =
     \<lparr>sig_id = 0, sig_trace_id = trace_id, sig_symbol = symbol, sig_timeframe = ss_timeframe st,
      sig_candle_ts = close_ts_ms * 1000, sig_action = an_action r,
      sig_confidence = numeric_col 2 (dec_of_float (an_confidence r)),
      sig_reasoning = an_reasoning r, sig_model_name = an_model_name r,
      sig_raw_response = an_raw_response r, sig_model_input = model_input_json payload,
      sig_price = numeric_col 8 (dec_of_float (oc_c lt)),
      sig_atr_14 = numeric_col 8 (dec_of_float (in_atr_14 indicators)), sig_status = PENDING,
      sig_trade_score = an_trade_score r, sig_score_breakdown = an_score_breakdown r,
      sig_setup_regime = an_setup_regime r, sig_volatility_regime = an_volatility_regime r,
      sig_created_at = now\<rparr>"

text \<open>\<open>String(500)\<close> and \<open>Numeric(3, 2)\<close>: the flush of a row that does not fit raises.\<close>

definition row_fits :: "signal_row \<Rightarrow> bool" where
  "row_fits s \<longleftrightarrow> length (sig_reasoning s) \<le> 500 \<and> \<bar>sig_confidence s\<bar> < 10"

definition signal_received_payload :: "string \<Rightarrow> nat \<Rightarrow> llm_result \<Rightarrow> (string \<times> json) list" where
  "signal_received_payload symbol signal_id r =
     [(''signal_id'', JId signal_id), (''symbol'', JStr symbol), (''action'', JAction (an_action r)),
      (''confidence'', JNum (an_confidence r)), (''trade_score'', json_opt JInt (an_trade_score r)),
      (''setup_regime'', json_opt JStr (an_setup_regime r)),
      (''volatility_regime'', json_opt JStr (an_volatility_regime r))]"

definition unrealized_pnl :: "rat \<Rightarrow> position option \<Rightarrow> py_error + rat option" where
  "unrealized_pnl close open_position =
     (case open_position of
        None \<Rightarrow> Inr None
      | Some p \<Rightarrow>
          bind_res (dec_div (dec (dec_of_float close - pos_entry_price p)) (pos_entry_price p))
            (\<lambda>x. Inr (Some (flt x))))"

text \<open>The part of the cycle inside the database session.\<close>

definition cycle_session ::
    "externals \<Rightarrow> scheduler \<Rightarrow> string \<Rightarrow> ohlcv list \<Rightarrow> int \<Rightarrow> Indicators \<Rightarrow> MarketSentiment \<Rightarrow> bool \<Rightarrow> nat
     \<Rightarrow> datetime \<Rightarrow> world \<Rightarrow> (py_error + nat option) \<times> world" where
  "cycle_session ex sc symbol candles close_ts_ms indicators sentiment commit_ok trace_id now w =
     (let open_position = find (\<lambda>p. pos_symbol p = symbol \<and> pos_status p = OPEN) (db_positions (w_db w))
      in case unrealized_pnl (oc_c (last candles)) open_position of
           Inl e \<Rightarrow> (Inl e, w)
         | Inr pnl \<Rightarrow>
             (let llm_config = load_effective_llm_config (sc_llm_env sc) (w_db w);
                  payload = build_analyze_payload (sc_settings sc) symbol close_ts_ms candles indicators
                              sentiment (open_position \<noteq> None) pnl llm_config;
                  r = post_analyze (sc_analyze sc) payload;
                  row = signal_row_of (sc_settings sc) symbol close_ts_ms (last candles) indicators payload r
                          trace_id now
              in if \<not> row_fits row then (Inl DatabaseError, w)
                 else
                   let signal_id = db_next_id (w_db w);
                       w = with_db (add_signal row) w;
                       w = with_db (add_audit trace_id SIGNAL_RECEIVED
                             (signal_received_payload symbol signal_id r) now) w;
                       w = track_llm_analyze_health ex now symbol trace_id (an_reasoning r) (an_model_name r)
                             (ss_llm_timeout_alert_threshold (sc_settings sc)) w
                   in then_do (commit commit_ok w)
                        (\<lambda>_ w. then_do (redis_call ex now (R_XADD signal_id) w)
                        (\<lambda>_ w. (Inr (Some trace_id), w)))))"

definition cycle_sentiment :: "ohlcv list \<Rightarrow> Indicators \<Rightarrow> py_error + MarketSentiment" where
  "cycle_sentiment candles indicators =
     (let lt = last candles; previous_close = oc_c (candles ! (length candles - 2))
      in bind_res (flt_div (flt (oc_c lt - previous_close)) previous_close) (\<lambda>change.
         bind_res (make_snapshot (indicator_snapshot lt change indicators)) (\<lambda>snapshot.
           classify_sentiment default_sentiment_providers SentimentWeights snapshot)))"

definition run_locked_cycle ::
    "externals \<Rightarrow> scheduler \<Rightarrow> string \<Rightarrow> bool \<Rightarrow> nat \<Rightarrow> datetime \<Rightarrow> world \<Rightarrow> (py_error + nat option) \<times> world" where
  "run_locked_cycle ex sc symbol commit_ok trace_id now w =
     (let st = sc_settings sc
      in case fetch_closed_candles (sc_exchange sc) symbol (ss_timeframe st) (ss_candle_lookback st) now of
           Inl e \<Rightarrow> (Inl e, w)
         | Inr candles \<Rightarrow>
             if length candles < 2 then (Inr None, w)
             else (case timeframe_to_seconds (ss_timeframe st) of
               Inl e \<Rightarrow> (Inl e, w)
             | Inr timeframe_seconds \<Rightarrow>
                 (let open_ts = oc_t (last candles); close_ts = open_ts + timeframe_seconds * 1000
                  in then_do (redis_call ex now
                        (R_SET_NX (K_candle_idempotency symbol (ss_timeframe st) open_ts) (JStr ''1'')
                           (2 * timeframe_seconds)) w)
                       (\<lambda>newly_claimed w.
                         if \<not> newly_claimed then (Inr None, w)
                         else
                           let indicators = the (compute_indicators (sc_pandas sc) candles)
                           in case cycle_sentiment candles indicators of
                                Inl e \<Rightarrow> (Inl e, w)
                              | Inr sentiment \<Rightarrow>
                                  run_session (cycle_session ex sc symbol candles close_ts indicators sentiment
                                    commit_ok trace_id now) w))))"

text \<open>The lock is released whatever happens; a failing release replaces the result.\<close>

definition run_cycle ::
    "externals \<Rightarrow> scheduler \<Rightarrow> string \<Rightarrow> bool \<Rightarrow> nat \<Rightarrow> datetime \<Rightarrow> world \<Rightarrow> (py_error + nat option) \<times> world" where
  "run_cycle ex sc symbol commit_ok trace_id now w =
     then_do (redis_call ex now (R_SET_NX (K_cycle_lock symbol) (JStr ''1'') CYCLE_LOCK_TTL_SECONDS) w)
       (\<lambda>acquired w.
          if \<not> acquired then (Inr None, w)
          else case run_locked_cycle ex sc symbol commit_ok trace_id now w of
                 (result, w) \<Rightarrow>
                   then_do (redis_call ex now (R_DELETE (K_cycle_lock symbol)) w) (\<lambda>_ w. (result, w)))"

text \<open>\<open>_run_scheduled_cycle\<close>: no exception leaves the job.\<close>

definition run_scheduled_cycle ::
    "externals \<Rightarrow> scheduler \<Rightarrow> string \<Rightarrow> bool \<Rightarrow> nat \<Rightarrow> datetime \<Rightarrow> world \<Rightarrow> world" where
  "run_scheduled_cycle ex sc symbol commit_ok trace_id now w =
     snd (run_cycle ex sc symbol commit_ok trace_id now w)"

section \<open>The performance snapshot\<close>

text \<open>\<open>AccountBalanceSnapshot.model_validate_json\<close> of the text another service wrote.\<close>

definition parse_balance_snapshot :: "json \<Rightarrow> py_error + AccountBalanceSnapshot" where
  "parse_balance_snapshot j =
     (case j of
        JObj kvs \<Rightarrow>
          if \<not> set (map fst kvs) \<subseteq> {''equity_usdt'', ''free_balance_usdt'', ''captured_at'', ''source''}
          then Inl ValidationError
          else (case (map_of kvs ''equity_usdt'', map_of kvs ''free_balance_usdt'', map_of kvs ''captured_at'') of
                  (Some (JNum equity), Some (JNum free), Some (JInt captured_at)) \<Rightarrow>
                    if map_of kvs ''source'' = None \<or> map_of kvs ''source'' = Some (JStr ''freqtrade'')
                    then make_balance_snapshot equity free captured_at
                    else Inl ValidationError
                | _ \<Rightarrow> Inl ValidationError)
      | _ \<Rightarrow> Inl ValidationError)"

definition resolve_equity_anchor ::
    "externals \<Rightarrow> datetime \<Rightarrow> world \<Rightarrow> (py_error + rat option) \<times> world" where
  "resolve_equity_anchor ex now w =
     then_do (redis_query ex now (R_GET K_account_balance) w) (\<lambda>raw w.
       (Inr (case raw of
               R_VALUE j \<Rightarrow>
                 (case parse_balance_snapshot j of
                    Inl _ \<Rightarrow> None
                  | Inr balance \<Rightarrow>
                      if is_fresh balance now ACCOUNT_BALANCE_SNAPSHOT_TTL_SECONDS
                      then Some (bal_equity_usdt balance) else None)
             | _ \<Rightarrow> None), w))"

definition every_trade :: trade_filter where
  "every_trade = \<lparr>tf_symbol = None, tf_regime = None, tf_score_min = None, tf_score_max = None,
                  tf_since = None, tf_until = None\<rparr>"

text \<open>The result is the row inserted, the \<open>vars\<close> of the report.\<close>

definition recompute_performance_snapshot ::
    "externals \<Rightarrow> bool \<Rightarrow> datetime \<Rightarrow> world \<Rightarrow> (py_error + PerformanceReport option) \<times> world" where
  "recompute_performance_snapshot ex commit_ok now =
     run_session (\<lambda>w.
       let trades = load_closed_trade_metrics every_trade (w_db w)
       in if trades = [] then (Inr None, w)
          else then_do (resolve_equity_anchor ex now w) (\<lambda>equity_anchor w.
                 let report = summarize trades equity_anchor
                 in then_do (commit commit_ok w) (\<lambda>_ w. (Inr (Some report), w))))"

end
