(* ===== verification/Evaluator.thy ===== *)
theory Evaluator
  imports Rules
begin

text \<open>
  The pure decision functions of the risk engine: \<open>evaluate\<close> (\<open>evaluator.py\<close>) for entries and
  \<open>evaluate_exit\<close> (\<open>exit_evaluator.py\<close>) for exits.  \<open>evaluate\<close> can raise (the sizing divides by
  the entry price and by the stop distance), so its value is a sum; \<open>evaluate_exit\<close> cannot.
\<close>

section \<open>Entries\<close>

record RiskDecisionResult =
  rdr_approved :: bool
  rdr_rejection_reason :: "RejectionReason option"
  rdr_equity_snapshot_usdt :: rat
  rdr_position_size_usdt :: "rat option"
  rdr_position_size_base :: "rat option"
  rdr_stop_loss_price :: "rat option"
  rdr_stop_distance_pct :: "rat option"
  rdr_risk_pct_applied :: "rat option"
  rdr_nominal_risk_amount_usdt :: "rat option"
  rdr_actual_risk_usdt :: "rat option"
  rdr_auto_trip_killswitch :: bool
  rdr_expectancy_check :: "ExpectancyCheck option"

definition rejected_result ::
    "RejectionReason \<Rightarrow> rat \<Rightarrow> bool \<Rightarrow> ExpectancyCheck option \<Rightarrow> RiskDecisionResult" where
  "rejected_result reason equity auto_trip check =
     \<lparr>rdr_approved = False, rdr_rejection_reason = Some reason,
      rdr_equity_snapshot_usdt = equity,
      rdr_position_size_usdt = None, rdr_position_size_base = None,
      rdr_stop_loss_price = None, rdr_stop_distance_pct = None,
      rdr_risk_pct_applied = None, rdr_nominal_risk_amount_usdt = None,
      rdr_actual_risk_usdt = None, rdr_auto_trip_killswitch = auto_trip,
      rdr_expectancy_check = check\<rparr>"

definition approved_result ::
    "rat \<Rightarrow> SizingResult \<Rightarrow> ExpectancyCheck \<Rightarrow> RiskDecisionResult" where
  "approved_result equity candidate check =
     \<lparr>rdr_approved = True, rdr_rejection_reason = None,
      rdr_equity_snapshot_usdt = equity,
      rdr_position_size_usdt = Some (sz_position_size_usdt candidate),
      rdr_position_size_base = Some (sz_position_size_base candidate),
      rdr_stop_loss_price = Some (sz_stop_loss_price candidate),
      rdr_stop_distance_pct = Some (sz_stop_distance_pct candidate),
      rdr_risk_pct_applied = Some (sz_risk_pct_applied candidate),
      rdr_nominal_risk_amount_usdt = Some (sz_nominal_risk_amount_usdt candidate),
      rdr_actual_risk_usdt = Some (sz_actual_risk_usdt candidate),
      rdr_auto_trip_killswitch = False, rdr_expectancy_check = Some check\<rparr>"

definition decision_of :: "RuleContext \<Rightarrow> RiskDecisionResult" where
  "decision_of ctx =
     (let expectancy_check = build_expectancy_check ctx
      in case first_violation RULES_IN_ORDER ctx of
           Some v \<Rightarrow> rejected_result (rv_reason v) (ac_equity_usdt (cx_account ctx))
                       (rv_auto_trip_killswitch v) (Some expectancy_check)
         | None \<Rightarrow> approved_result (ac_equity_usdt (cx_account ctx)) (cx_candidate ctx)
                     expectancy_check)"

definition context_of ::
    "SignalView \<Rightarrow> AccountState \<Rightarrow> RiskConfig \<Rightarrow> datetime \<Rightarrow> bool \<Rightarrow> bool \<Rightarrow> ExpectancyView
     \<Rightarrow> SizingResult \<Rightarrow> RuleContext" where
  "context_of signal account config now killswitch_enabled is_duplicate_decision expectancy candidate =
     \<lparr>cx_signal = signal, cx_account = account, cx_config = config, cx_now = now,
      cx_killswitch_enabled = killswitch_enabled,
      cx_is_duplicate_decision = is_duplicate_decision,
      cx_candidate = candidate, cx_expectancy = expectancy\<rparr>"

definition evaluate ::
    "SignalView \<Rightarrow> AccountState \<Rightarrow> RiskConfig \<Rightarrow> datetime \<Rightarrow> bool \<Rightarrow> bool \<Rightarrow> ExpectancyView
     \<Rightarrow> py_error + RiskDecisionResult" where
  "evaluate signal account config now killswitch_enabled is_duplicate_decision expectancy =
     bind_res (compute_sizing (ac_equity_usdt account) (ac_free_balance_usdt account)
                 (sv_price signal) (sv_atr_14 signal) (sv_confidence signal) config)
       (\<lambda>candidate. Inr (decision_of (context_of signal account config now killswitch_enabled
                                        is_duplicate_decision expectancy candidate)))"

lemma context_of_sel [simp]:
  "cx_signal (context_of s a c n k d x z) = s" "cx_account (context_of s a c n k d x z) = a"
  "cx_config (context_of s a c n k d x z) = c" "cx_now (context_of s a c n k d x z) = n"
  "cx_killswitch_enabled (context_of s a c n k d x z) = k"
  "cx_is_duplicate_decision (context_of s a c n k d x z) = d"
  "cx_candidate (context_of s a c n k d x z) = z"
  "cx_expectancy (context_of s a c n k d x z) = x"
  by (simp_all add: context_of_def)

lemma rejected_result_sel [simp]:
  "rdr_approved (rejected_result r e t ch) = False"
  "rdr_rejection_reason (rejected_result r e t ch) = Some r"
  "rdr_equity_snapshot_usdt (rejected_result r e t ch) = e"
  "rdr_position_size_usdt (rejected_result r e t ch) = None"
  "rdr_auto_trip_killswitch (rejected_result r e t ch) = t"
  "rdr_expectancy_check (rejected_result r e t ch) = ch"
  by (simp_all add: rejected_result_def)

lemma approved_result_sel [simp]:
  "rdr_approved (approved_result e z ch) = True"
  "rdr_rejection_reason (approved_result e z ch) = None"
  "rdr_equity_snapshot_usdt (approved_result e z ch) = e"
  "rdr_position_size_usdt (approved_result e z ch) = Some (sz_position_size_usdt z)"
  "rdr_auto_trip_killswitch (approved_result e z ch) = False"
  "rdr_expectancy_check (approved_result e z ch) = Some ch"
  "rdr_stop_distance_pct (approved_result e z ch) = Some (sz_stop_distance_pct z)"
  "rdr_actual_risk_usdt (approved_result e z ch) = Some (sz_actual_risk_usdt z)"
  "rdr_nominal_risk_amount_usdt (approved_result e z ch) = Some (sz_nominal_risk_amount_usdt z)"
  "rdr_stop_loss_price (approved_result e z ch) = Some (sz_stop_loss_price z)"
  by (simp_all add: approved_result_def)

lemma decision_of_None:
  "first_violation RULES_IN_ORDER ctx = None \<Longrightarrow>
     decision_of ctx = approved_result (ac_equity_usdt (cx_account ctx)) (cx_candidate ctx)
                         (build_expectancy_check ctx)"
  by (simp add: decision_of_def)

lemma decision_of_Some:
  "first_violation RULES_IN_ORDER ctx = Some v \<Longrightarrow>
     decision_of ctx = rejected_result (rv_reason v) (ac_equity_usdt (cx_account ctx))
                         (rv_auto_trip_killswitch v) (Some (build_expectancy_check ctx))"
  by (simp add: decision_of_def)

lemma decision_of_approved:
  "rdr_approved (decision_of ctx) \<longleftrightarrow> (\<forall>r \<in> set RULES_IN_ORDER. r ctx = None)"
proof (cases "first_violation RULES_IN_ORDER ctx")
  case None
  then have "rdr_approved (decision_of ctx)" by (simp only: decision_of_None approved_result_sel)
  with None show ?thesis unfolding first_violation_None[symmetric] by simp
next
  case (Some v)
  then have "\<not> rdr_approved (decision_of ctx)" by (simp only: decision_of_Some rejected_result_sel) simp
  with Some show ?thesis unfolding first_violation_None[symmetric] by simp
qed

lemma decision_of_reason:
  "rdr_rejection_reason (decision_of ctx) = map_option rv_reason (first_violation RULES_IN_ORDER ctx)"
  by (cases "first_violation RULES_IN_ORDER ctx") (simp_all add: decision_of_None decision_of_Some)

lemma decision_of_auto_trip:
  "rdr_auto_trip_killswitch (decision_of ctx) \<longleftrightarrow>
     (\<exists>v. first_violation RULES_IN_ORDER ctx = Some v \<and> rv_auto_trip_killswitch v)"
  by (cases "first_violation RULES_IN_ORDER ctx") (simp_all add: decision_of_None decision_of_Some)

lemma first_violation_auto_trip:
  "first_violation RULES_IN_ORDER ctx = Some v \<Longrightarrow>
     rv_auto_trip_killswitch v \<longleftrightarrow> rv_reason v \<in> {DAILY_LOSS_LIMIT_HIT, CONSECUTIVE_LOSS_PAUSE}"
  unfolding first_violation_Some by (metis rule_auto_trip in_set_conv_decomp)

lemma compute_sizing_expectancy_filter:
  "compute_sizing eq fr p a cf (c\<lparr>expectancy_filter_enabled := b\<rparr>) = compute_sizing eq fr p a cf c"
  by (simp add: compute_sizing_def stop_distance_def confidence_scale_def)

lemma evaluate_InrD:
  assumes "evaluate s a c n k d x = Inr r"
  shows "\<exists>z. compute_sizing (ac_equity_usdt a) (ac_free_balance_usdt a) (sv_price s) (sv_atr_14 s)
               (sv_confidence s) c = Inr z \<and> r = decision_of (context_of s a c n k d x z)"
  using assms unfolding evaluate_def bind_res_Inr by auto


lemma gate_conditions:
  "(\<forall>r \<in> set RULES_IN_ORDER. r ctx = None) \<longleftrightarrow>
     (let sg = cx_signal ctx; ac = cx_account ctx; cf = cx_config ctx; z = cx_candidate ctx in
       \<not> cx_killswitch_enabled ctx \<and> \<not> cx_is_duplicate_decision ctx \<and> sv_action sg \<noteq> HOLD \<and>
       cx_now ctx - sv_candle_ts sg \<le> minutes (signal_max_age_minutes cf) \<and>
       min_confidence cf \<le> sv_confidence sg \<and>
       \<not> (expectancy_filter_enabled cf \<and> expectancy_decision ctx = NEGATIVE_EXPECTANCY) \<and>
       sv_symbol sg \<notin> ac_open_position_symbols ac \<and>
       int (card (ac_open_position_symbols ac)) < max_open_positions cf \<and>
       dec (ac_total_exposure_usdt ac + sz_position_size_usdt z)
         \<le> dec (max_total_exposure_pct cf * ac_equity_usdt ac) \<and>
       dec (- max_daily_loss_pct cf) < ac_daily_pnl_pct ac \<and>
       int (ac_consecutive_losses ac) < consecutive_loss_limit cf \<and>
       (\<forall>t. ac_symbol_last_closed_at ac (sv_symbol sg) = Some t \<longrightarrow>
            minutes (cooldown_minutes cf) \<le> cx_now ctx - t) \<and>
       sz_position_size_usdt z \<le> ac_free_balance_usdt ac)"
  unfolding RULES_IN_ORDER_def Let_def
  by (simp add: rule_defs Let_def not_le not_less ball_conj_distrib split: option.splits)

section \<open>Exits\<close>

record ExitDecisionResult =
  xdr_approved :: bool
  xdr_rejection_reason :: "RejectionReason option"
  xdr_equity_snapshot_usdt :: rat

definition evaluate_exit ::
    "SignalView \<Rightarrow> AccountState \<Rightarrow> RiskConfig \<Rightarrow> datetime \<Rightarrow> bool \<Rightarrow> ExitDecisionResult" where
  "evaluate_exit signal account config now is_duplicate_decision =
     (if is_duplicate_decision then
        \<lparr>xdr_approved = False, xdr_rejection_reason = Some DUPLICATE_SIGNAL,
         xdr_equity_snapshot_usdt = ac_equity_usdt account\<rparr>
      else let max_age = minutes (signal_max_age_minutes config) in
      if now - sv_candle_ts signal > max_age then
        \<lparr>xdr_approved = False, xdr_rejection_reason = Some STALE_SIGNAL,
         xdr_equity_snapshot_usdt = ac_equity_usdt account\<rparr>
      else if sv_symbol signal \<notin> ac_open_position_symbols account then
        \<lparr>xdr_approved = False, xdr_rejection_reason = Some NO_POSITION_TO_EXIT,
         xdr_equity_snapshot_usdt = ac_equity_usdt account\<rparr>
      else
        \<lparr>xdr_approved = True, xdr_rejection_reason = None,
         xdr_equity_snapshot_usdt = ac_equity_usdt account\<rparr>)"

section \<open>Sample inputs\<close>

definition sample_signal :: SignalView where
  "sample_signal =
     \<lparr>sv_id = RowId 7, sv_symbol = ''BTC/USDT'', sv_action = BUY, sv_confidence = 85 / 100,
      sv_candle_ts = minutes 1000, sv_price = 60000, sv_atr_14 = 900,
      sv_setup_regime = Some ''TREND_UP'', sv_trade_score = Some 72\<rparr>"

definition sample_account :: AccountState where
  "sample_account =
     \<lparr>ac_equity_usdt = 1000, ac_free_balance_usdt = 800,
      ac_open_position_symbols = {''ETH/USDT''}, ac_total_exposure_usdt = 40,
      ac_daily_pnl_pct = - 1 / 100, ac_consecutive_losses = 1,
      ac_last_loss_closed_at = None, ac_symbol_last_closed_at = Map.empty\<rparr>"

definition sample_expectancy :: ExpectancyView where
  "sample_expectancy =
     \<lparr>ev_setup_key = ''TREND_UP|60-79'', ev_sample_size = 25, ev_expectancy_r = Some (- 3 / 10)\<rparr>"

definition sample_size :: SizingResult where
  "sample_size =
     \<lparr>sz_position_size_usdt = 75 / 2, sz_position_size_base = 1 / 1600,
      sz_stop_loss_price = 58200, sz_stop_distance_pct = 3 / 100,
      sz_risk_pct_applied = 1 / 100, sz_nominal_risk_amount_usdt = 10,
      sz_actual_risk_usdt = 9 / 8\<rparr>"

lemma sample_sizing:
  "compute_sizing (ac_equity_usdt sample_account) (ac_free_balance_usdt sample_account)
     (sv_price sample_signal) (sv_atr_14 sample_signal) (sv_confidence sample_signal)
     RiskConfig_defaults = Inr sample_size"
  by code_simp

lemma sample_evaluate:
  "evaluate sample_signal sample_account RiskConfig_defaults (minutes 1010) False False
     sample_expectancy =
   Inr (decision_of (context_of sample_signal sample_account RiskConfig_defaults (minutes 1010)
          False False sample_expectancy sample_size))"
  using sample_sizing by (simp add: evaluate_def)

lemma sample_gates:
  "sv_action sample_signal \<noteq> HOLD"
  "minutes 1010 - sv_candle_ts sample_signal \<le> minutes (signal_max_age_minutes RiskConfig_defaults)"
  "min_confidence RiskConfig_defaults \<le> sv_confidence sample_signal"
  "\<not> expectancy_filter_enabled RiskConfig_defaults"
  "sv_symbol sample_signal \<notin> ac_open_position_symbols sample_account"
  "int (card (ac_open_position_symbols sample_account)) < max_open_positions RiskConfig_defaults"
  "dec (ac_total_exposure_usdt sample_account + sz_position_size_usdt sample_size)
     \<le> dec (max_total_exposure_pct RiskConfig_defaults * ac_equity_usdt sample_account)"
  "dec (- max_daily_loss_pct RiskConfig_defaults) < ac_daily_pnl_pct sample_account"
  "int (ac_consecutive_losses sample_account) < consecutive_loss_limit RiskConfig_defaults"
  "ac_symbol_last_closed_at sample_account (sv_symbol sample_signal) = None"
  "sz_position_size_usdt sample_size \<le> ac_free_balance_usdt sample_account"
  by code_simp+

section \<open>Properties of the decision functions\<close>

text \<open>
  C4. An evaluated entry is approved exactly when every one of the twelve conditions the gates
  stand for holds of the inputs: the switch is off, the signal is new, actionable, fresh and
  confident enough, the enforced expectancy filter does not object, the symbol is free and the
  position count, exposure, daily loss, loss streak, cooldown and free balance limits all hold
  for the size that was computed.
\<close>

theorem evaluate_approved_iff:
  assumes "evaluate s a c now k d x = Inr r"
    and "compute_sizing (ac_equity_usdt a) (ac_free_balance_usdt a) (sv_price s) (sv_atr_14 s)
           (sv_confidence s) c = Inr z"
  shows "rdr_approved r \<longleftrightarrow>
     \<not> k \<and> \<not> d \<and> sv_action s \<noteq> HOLD \<and>
     now - sv_candle_ts s \<le> minutes (signal_max_age_minutes c) \<and>
     min_confidence c \<le> sv_confidence s \<and>
     \<not> (expectancy_filter_enabled c \<and> expectancy_min_sample_size c \<le> int (ev_sample_size x) \<and>
        (\<exists>e. ev_expectancy_r x = Some e \<and> e < expectancy_min_r c)) \<and>
     sv_symbol s \<notin> ac_open_position_symbols a \<and>
     int (card (ac_open_position_symbols a)) < max_open_positions c \<and>
     dec (ac_total_exposure_usdt a + sz_position_size_usdt z)
       \<le> dec (max_total_exposure_pct c * ac_equity_usdt a) \<and>
     dec (- max_daily_loss_pct c) < ac_daily_pnl_pct a \<and>
     int (ac_consecutive_losses a) < consecutive_loss_limit c \<and>
     (\<forall>t. ac_symbol_last_closed_at a (sv_symbol s) = Some t \<longrightarrow>
          minutes (cooldown_minutes c) \<le> now - t) \<and>
     sz_position_size_usdt z \<le> ac_free_balance_usdt a"
proof -
  let ?ctx = "context_of s a c now k d x z"
  have r: "r = decision_of ?ctx" using evaluate_InrD[OF assms(1)] assms(2) by auto
  have ex: "expectancy_decision ?ctx = NEGATIVE_EXPECTANCY \<longleftrightarrow>
      expectancy_min_sample_size c \<le> int (ev_sample_size x) \<and>
      (\<exists>e. ev_expectancy_r x = Some e \<and> e < expectancy_min_r c)"
    by (auto simp: expectancy_decision_def split: option.splits)
  show ?thesis
    unfolding r decision_of_approved gate_conditions Let_def context_of_sel ex ..
qed

theorem evaluate_approved_iff_witness:
  "\<exists>r. evaluate sample_signal sample_account RiskConfig_defaults (minutes 1010) False False
         sample_expectancy = Inr r \<and> rdr_approved r"
  using evaluate_approved_iff[OF sample_evaluate sample_sizing] sample_evaluate
  by (simp add: sample_gates)

text \<open>
  C5. A rejected entry carries the reason of the first gate that fails in the order of
  \<open>RULES_IN_ORDER\<close>, whatever the later gates would say, and trips the kill switch exactly
  for the daily-loss and the consecutive-loss reasons; an approved one carries no reason.
\<close>

theorem evaluate_first_failing_gate:
  assumes "evaluate s a c now k d x = Inr r"
    and "compute_sizing (ac_equity_usdt a) (ac_free_balance_usdt a) (sv_price s) (sv_atr_14 s)
           (sv_confidence s) c = Inr z"
    and "ctx = context_of s a c now k d x z"
  shows "(rdr_rejection_reason r = Some reason \<longleftrightarrow>
           (\<exists>i v. i < length RULES_IN_ORDER \<and> reason_rank reason = Some i \<and>
                  (RULES_IN_ORDER ! i) ctx = Some v \<and> rv_reason v = reason \<and>
                  (\<forall>j < i. (RULES_IN_ORDER ! j) ctx = None)))
    \<and> (rdr_approved r \<longleftrightarrow> rdr_rejection_reason r = None)
    \<and> (rdr_auto_trip_killswitch r \<longleftrightarrow>
           rdr_rejection_reason r \<in> {Some DAILY_LOSS_LIMIT_HIT, Some CONSECUTIVE_LOSS_PAUSE})"
proof (intro conjI)
  have r: "r = decision_of ctx" using evaluate_InrD[OF assms(1)] assms(2,3) by auto
  show "rdr_rejection_reason r = Some reason \<longleftrightarrow>
           (\<exists>i v. i < length RULES_IN_ORDER \<and> reason_rank reason = Some i \<and>
                  (RULES_IN_ORDER ! i) ctx = Some v \<and> rv_reason v = reason \<and>
                  (\<forall>j < i. (RULES_IN_ORDER ! j) ctx = None))"
    unfolding r decision_of_reason using first_violation_rank by auto
  show "rdr_approved r \<longleftrightarrow> rdr_rejection_reason r = None"
    unfolding r decision_of_reason decision_of_approved by (simp add: first_violation_None)
  show "rdr_auto_trip_killswitch r \<longleftrightarrow>
           rdr_rejection_reason r \<in> {Some DAILY_LOSS_LIMIT_HIT, Some CONSECUTIVE_LOSS_PAUSE}"
    unfolding r decision_of_reason decision_of_auto_trip using first_violation_auto_trip by auto
qed

theorem evaluate_first_failing_gate_witness:
  "\<exists>r. evaluate sample_signal sample_account RiskConfig_defaults (minutes 1010) True False
         sample_expectancy = Inr r \<and> rdr_rejection_reason r = Some KILLSWITCH_ACTIVE"
proof -
  let ?ctx = "context_of sample_signal sample_account RiskConfig_defaults (minutes 1010) True False
                sample_expectancy sample_size"
  have ev: "evaluate sample_signal sample_account RiskConfig_defaults (minutes 1010) True False
         sample_expectancy = Inr (decision_of ?ctx)"
    using sample_sizing by (simp add: evaluate_def)
  have "(RULES_IN_ORDER ! 0) ?ctx = Some (violation KILLSWITCH_ACTIVE)"
    by (simp add: RULES_IN_ORDER_def kill_switch_check_def)
  then show ?thesis
    using ev evaluate_first_failing_gate[OF ev sample_sizing refl, of KILLSWITCH_ACTIVE]
    by (auto simp: violation_def)
qed

text \<open>
  Turning the historical-expectancy filter on can only make the engine stricter: whatever
  it approves with the filter on it approves, with the same sizing, with the filter off.
\<close>

theorem expectancy_filter_only_stricter:
  assumes "evaluate s a (c\<lparr>expectancy_filter_enabled := True\<rparr>) now k d x = Inr r" "rdr_approved r"
  shows "\<exists>r'. evaluate s a (c\<lparr>expectancy_filter_enabled := False\<rparr>) now k d x = Inr r' \<and>
              rdr_approved r' \<and> rdr_position_size_usdt r' = rdr_position_size_usdt r \<and>
              rdr_stop_loss_price r' = rdr_stop_loss_price r"
proof -
  let ?on = "c\<lparr>expectancy_filter_enabled := True\<rparr>" and ?off = "c\<lparr>expectancy_filter_enabled := False\<rparr>"
  from evaluate_InrD[OF assms(1)] obtain z where
    z: "compute_sizing (ac_equity_usdt a) (ac_free_balance_usdt a) (sv_price s) (sv_atr_14 s)
          (sv_confidence s) ?on = Inr z"
    and r: "r = decision_of (context_of s a ?on now k d x z)" by blast
  have z': "compute_sizing (ac_equity_usdt a) (ac_free_balance_usdt a) (sv_price s) (sv_atr_14 s)
          (sv_confidence s) ?off = Inr z"
    using z by (simp add: compute_sizing_expectancy_filter)
  have on: "\<forall>g \<in> set RULES_IN_ORDER. g (context_of s a ?on now k d x z) = None"
    using assms(2) unfolding r decision_of_approved .
  then have off: "\<forall>g \<in> set RULES_IN_ORDER. g (context_of s a ?off now k d x z) = None"
    unfolding gate_conditions Let_def by simp
  show ?thesis
    using z' decision_of_None[of "context_of s a ?on now k d x z"] on
      decision_of_None[of "context_of s a ?off now k d x z"] off
    by (simp add: evaluate_def r first_violation_None)
qed

theorem expectancy_filter_only_stricter_witness:
  "\<exists>r'. evaluate sample_signal sample_account (RiskConfig_defaults\<lparr>expectancy_filter_enabled := False\<rparr>)
          (minutes 1010) False False sample_expectancy = Inr r' \<and> rdr_approved r'"
proof -
  let ?on = "RiskConfig_defaults\<lparr>expectancy_filter_enabled := True\<rparr>"
  let ?ctx = "context_of sample_signal sample_account ?on (minutes 1010) False False sample_expectancy
                sample_size"
  have ev: "evaluate sample_signal sample_account ?on (minutes 1010) False False sample_expectancy
      = Inr (decision_of ?ctx)"
    using sample_sizing by (simp add: evaluate_def compute_sizing_expectancy_filter)
  have "expectancy_decision ?ctx = INSUFFICIENT_DATA" by code_simp
  then have "rdr_approved (decision_of ?ctx)"
    unfolding decision_of_approved gate_conditions Let_def using sample_gates by simp
  from expectancy_filter_only_stricter[OF ev this] show ?thesis by blast
qed

text \<open>
  An exit is never held back by the kill switch, by confidence, by losses or by exposure:
  the decision depends only on the duplicate flag, the age of the candle and whether the symbol
  has an open position, in that order.
\<close>

theorem evaluate_exit_decision:
  "xdr_rejection_reason (evaluate_exit s a c now d) =
     (if d then Some DUPLICATE_SIGNAL
      else if now - sv_candle_ts s > minutes (signal_max_age_minutes c) then Some STALE_SIGNAL
      else if sv_symbol s \<notin> ac_open_position_symbols a then Some NO_POSITION_TO_EXIT
      else None)
   \<and> (xdr_approved (evaluate_exit s a c now d)
        = (xdr_rejection_reason (evaluate_exit s a c now d) = None))
   \<and> xdr_equity_snapshot_usdt (evaluate_exit s a c now d) = ac_equity_usdt a"
  by (simp add: evaluate_exit_def Let_def)

text \<open>
  C16. The balance gate never rejects: a size is cut to the free balance before it is compared with it, so an
  account with nothing free gets its entries approved, with size zero, instead of \<open>INSUFFICIENT_BALANCE\<close>.
\<close>

theorem balance_gate_never_fires:
  assumes "evaluate s a c now k d x = Inr r" "sane_sizing c"
    and "0 \<le> ac_free_balance_usdt a" "dec (ac_free_balance_usdt a) = ac_free_balance_usdt a"
  shows "rdr_rejection_reason r \<noteq> Some INSUFFICIENT_BALANCE \<and>
    (rdr_approved r \<and> ac_free_balance_usdt a = 0 \<longrightarrow> rdr_position_size_usdt r = Some 0)"
proof -
  obtain z where z: "compute_sizing (ac_equity_usdt a) (ac_free_balance_usdt a) (sv_price s) (sv_atr_14 s)
      (sv_confidence s) c = Inr z" "r = decision_of (context_of s a c now k d x z)"
    using evaluate_InrD[OF assms(1)] by blast
  let ?ctx = "context_of s a c now k d x z"
  from z(1) obtain y where "sz_position_size_usdt z =
      dec (max (min (min (dec y) (dec (ac_equity_usdt a * max_position_pct c))) (ac_free_balance_usdt a)) 0 *
           confidence_scale (sv_confidence s) c)" by (rule compute_sizing_InrE)
  moreover have "max (min (min (dec y) (dec (ac_equity_usdt a * max_position_pct c))) (ac_free_balance_usdt a)) 0
      \<le> ac_free_balance_usdt a" using assms(3) by simp
  ultimately have size: "sz_position_size_usdt z \<le> ac_free_balance_usdt a"
    using scaled_le(1)[OF assms(2), of _ "sv_confidence s"] dec_clamped[OF assms(4)] by (metis max.cobounded2 order_trans)
  have "rv_reason v \<noteq> INSUFFICIENT_BALANCE" if v: "first_violation RULES_IN_ORDER ?ctx = Some v" for v
  proof
    assume bal: "rv_reason v = INSUFFICIENT_BALANCE"
    from v obtain q where q: "q \<in> set RULES_IN_ORDER" "q ?ctx = Some v" unfolding first_violation_Some by (metis in_set_conv_decomp)
    have "q = insufficient_balance_check" using q bal rule_reason[of ?ctx v] by (auto simp: RULES_IN_ORDER_def)
    with q(2) size show False by (simp add: insufficient_balance_check_def)
  qed
  then have "rdr_rejection_reason r \<noteq> Some INSUFFICIENT_BALANCE" unfolding z(2) decision_of_reason by auto
  moreover have "rdr_position_size_usdt r = Some 0" if "rdr_approved r" "ac_free_balance_usdt a = 0"
  proof -
    have "first_violation RULES_IN_ORDER ?ctx = None"
      using that(1) unfolding z(2) decision_of_approved first_violation_None .
    then show ?thesis
      using no_free_balance_no_position(1)[OF z(1)] that(2) by (simp add: z(2) decision_of_None)
  qed
  ultimately show ?thesis by blast
qed

theorem balance_gate_never_fires_witness:
  "\<exists>r. evaluate sample_signal (sample_account\<lparr>ac_free_balance_usdt := 0\<rparr>) RiskConfig_defaults (minutes 1010) False False
         sample_expectancy = Inr r \<and> rdr_approved r \<and> rdr_position_size_usdt r = Some 0"
proof -
  let ?a = "sample_account\<lparr>ac_free_balance_usdt := 0\<rparr>"
  obtain z where z: "compute_sizing (ac_equity_usdt ?a) 0 (sv_price sample_signal) (sv_atr_14 sample_signal)
      (sv_confidence sample_signal) RiskConfig_defaults = Inr z"
    using compute_sizing_total[of "sv_price sample_signal" RiskConfig_defaults "ac_equity_usdt ?a" 0 "sv_atr_14 sample_signal"
        "sv_confidence sample_signal"] by (auto simp: RiskConfig_defaults_def sample_signal_def)
  let ?ctx = "context_of sample_signal ?a RiskConfig_defaults (minutes 1010) False False sample_expectancy z"
  have ev: "evaluate sample_signal ?a RiskConfig_defaults (minutes 1010) False False sample_expectancy = Inr (decision_of ?ctx)"
    using z by (simp add: evaluate_def)
  have "sz_position_size_usdt z = 0" using no_free_balance_no_position(1)[OF z] by simp
  then have "rdr_approved (decision_of ?ctx)"
    unfolding decision_of_approved gate_conditions Let_def using sample_gates
    by (simp add: sample_account_def sample_signal_def RiskConfig_defaults_def)
  with ev balance_gate_never_fires[OF ev sane_sizing_defaults] show ?thesis by simp
qed
end
