(* ===== verification/Risk_Main.thy ===== *)
theory Risk_Main
  imports Evaluator Freqtrade_Client
begin

text \<open>
  \<open>risk_engine/app/main.py\<close>: the processing of one signal, from the stream message to the order.
  The parameters \<open>now\<close> and \<open>commit_ok\<close> stand for the clock during the message and for whether the
  database accepts the commit; logging is left out.
\<close>

section \<open>Audit payloads\<close>

fun reason_value :: "RejectionReason \<Rightarrow> string" where
  "reason_value LOW_CONFIDENCE = ''LOW_CONFIDENCE''"
| "reason_value STALE_SIGNAL = ''STALE_SIGNAL''"
| "reason_value SIGNAL_WAS_HOLD = ''SIGNAL_WAS_HOLD''"
| "reason_value NEGATIVE_EXPECTANCY_SETUP = ''NEGATIVE_EXPECTANCY_SETUP''"
| "reason_value MAX_POSITIONS_REACHED = ''MAX_POSITIONS_REACHED''"
| "reason_value MAX_EXPOSURE_REACHED = ''MAX_EXPOSURE_REACHED''"
| "reason_value DAILY_LOSS_LIMIT_HIT = ''DAILY_LOSS_LIMIT_HIT''"
| "reason_value CONSECUTIVE_LOSS_PAUSE = ''CONSECUTIVE_LOSS_PAUSE''"
| "reason_value COOLDOWN_ACTIVE = ''COOLDOWN_ACTIVE''"
| "reason_value KILLSWITCH_ACTIVE = ''KILLSWITCH_ACTIVE''"
| "reason_value DUPLICATE_SIGNAL = ''DUPLICATE_SIGNAL''"
| "reason_value INSUFFICIENT_BALANCE = ''INSUFFICIENT_BALANCE''"
| "reason_value INVALID_SIGNAL_SCHEMA = ''INVALID_SIGNAL_SCHEMA''"
| "reason_value FREQTRADE_BALANCE_UNAVAILABLE = ''FREQTRADE_BALANCE_UNAVAILABLE''"
| "reason_value INTERNAL_ERROR = ''INTERNAL_ERROR''"
| "reason_value NO_POSITION_TO_EXIT = ''NO_POSITION_TO_EXIT''"

fun verdict_value :: "expectancy_verdict \<Rightarrow> string" where
  "verdict_value ALLOW = ''ALLOW''"
| "verdict_value INSUFFICIENT_DATA = ''INSUFFICIENT_DATA''"
| "verdict_value NEGATIVE_EXPECTANCY = ''NEGATIVE_EXPECTANCY''"

definition as_payload :: "ExpectancyCheck \<Rightarrow> json" where
  "as_payload c =
     JObj [(''setup_key'', JStr (ec_setup_key c)),
           (''sample_size'', JInt (int (ec_sample_size c))),
           (''historical_expectancy_r'', json_opt JNum (ec_historical_expectancy_r c)),
           (''decision'', JStr (verdict_value (ec_decision c))),
           (''enforced'', JBool (ec_enforced c))]"

definition decision_payload ::
    "signal_row \<Rightarrow> bool \<Rightarrow> RejectionReason option \<Rightarrow> rat option \<Rightarrow> rat option \<Rightarrow> rat option
     \<Rightarrow> ExpectancyCheck option \<Rightarrow> (string \<times> json) list" where
  "decision_payload signal approved reason nominal actual stop check =
     [(''signal_id'', JId (sig_id signal)), (''approved'', JBool approved),
      (''rejection_reason'', json_opt JReason reason)]
     @ (if approved
        then [(''nominal_risk_amount_usdt'', json_opt JNum nominal),
              (''actual_risk_usdt'', json_opt JNum actual),
              (''stop_distance_pct'', json_opt JNum stop)]
        else [])
     @ (case check of None \<Rightarrow> [] | Some c \<Rightarrow> [(''expectancy_check'', as_payload c)])"

definition write_decision_audit_event ::
    "signal_row \<Rightarrow> bool \<Rightarrow> RejectionReason option \<Rightarrow> rat option \<Rightarrow> rat option \<Rightarrow> rat option
     \<Rightarrow> ExpectancyCheck option \<Rightarrow> datetime \<Rightarrow> db \<Rightarrow> db" where
  "write_decision_audit_event signal approved reason nominal actual stop check now d =
     add_audit (sig_trace_id signal) (if approved then RISK_APPROVED else RISK_REJECTED)
       (decision_payload signal approved reason nominal actual stop check) now d"

section \<open>Rows\<close>

definition decision_row ::
    "signal_row \<Rightarrow> bool \<Rightarrow> RejectionReason option \<Rightarrow> rat option \<Rightarrow> datetime \<Rightarrow> risk_decision" where
  "decision_row signal approved reason equity now =
     \<lparr>dec_id = 0, dec_trace_id = sig_trace_id signal, dec_signal_id = sig_id signal,
      dec_approved = approved, dec_rejection_reason = reason,
      dec_position_size_usdt = None, dec_position_size_base = None, dec_stop_loss_price = None,
      dec_equity_snapshot_usdt = map_option (numeric_col 8) equity,
      dec_risk_pct_applied = None, dec_nominal_risk_amount_usdt = None,
      dec_actual_risk_usdt = None, dec_stop_distance_pct = None, dec_created_at = now\<rparr>"

definition entry_decision_row :: "signal_row \<Rightarrow> RiskDecisionResult \<Rightarrow> datetime \<Rightarrow> risk_decision" where
  "entry_decision_row signal result now =
     (decision_row signal (rdr_approved result) (rdr_rejection_reason result)
        (Some (rdr_equity_snapshot_usdt result)) now)
     \<lparr>dec_position_size_usdt := map_option (numeric_col 8) (rdr_position_size_usdt result),
      dec_position_size_base := map_option (numeric_col 8) (rdr_position_size_base result),
      dec_stop_loss_price := map_option (numeric_col 8) (rdr_stop_loss_price result),
      dec_risk_pct_applied := map_option (numeric_col 4) (rdr_risk_pct_applied result),
      dec_nominal_risk_amount_usdt := map_option (numeric_col 8) (rdr_nominal_risk_amount_usdt result),
      dec_actual_risk_usdt := map_option (numeric_col 8) (rdr_actual_risk_usdt result),
      dec_stop_distance_pct := map_option (numeric_col 6) (rdr_stop_distance_pct result)\<rparr>"

definition order_row ::
    "signal_row \<Rightarrow> nat \<Rightarrow> int option \<Rightarrow> OrderSide \<Rightarrow> OrderStatus \<Rightarrow> rat \<Rightarrow> bool \<Rightarrow> datetime \<Rightarrow> order" where
  "order_row signal decision_id trade_id side status amount dry now =
     \<lparr>ord_id = 0, ord_trace_id = sig_trace_id signal, ord_risk_decision_id = decision_id,
      ord_freqtrade_trade_id = trade_id, ord_symbol = sig_symbol signal, ord_side = side,
      ord_status = status, ord_requested_amount = numeric_col 8 amount,
      ord_filled_amount = None, ord_avg_price = None, ord_dry_run = dry, ord_created_at = now\<rparr>"

definition order_event_payload :: "signal_row \<Rightarrow> OrderSide \<Rightarrow> OrderStatus \<Rightarrow> (string \<times> json) list" where
  "order_event_payload signal side status =
     [(''symbol'', JStr (sig_symbol signal)), (''side'', JSide side), (''status'', JOrderStatus status)]"

section \<open>Submitting orders\<close>

definition entry_stop_distance :: "signal_row \<Rightarrow> rat option \<Rightarrow> rat option" where
  "entry_stop_distance signal stop_loss_price =
     (case stop_loss_price of
        None \<Rightarrow> None
      | Some s \<Rightarrow> if sig_price signal > 0 then Some (dec (1 - dec (s / sig_price signal))) else None)"

definition record_entry_order ::
    "RiskConfig \<Rightarrow> signal_row \<Rightarrow> nat \<Rightarrow> rat \<Rightarrow> datetime \<Rightarrow> int option \<Rightarrow> OrderStatus \<Rightarrow> AuditEventType
     \<Rightarrow> world \<Rightarrow> world" where
  "record_entry_order config signal decision_id size_base now trade_id status event w =
     (let w = with_db (add_order (order_row signal decision_id trade_id BUY_SIDE status
                                    size_base (dry_run config) now)) w
      in with_db (add_audit (sig_trace_id signal) event
                    (order_event_payload signal BUY_SIDE status) now) w)"

definition submit_entry_order ::
    "externals \<Rightarrow> RiskConfig \<Rightarrow> signal_row \<Rightarrow> nat \<Rightarrow> rat \<Rightarrow> rat \<Rightarrow> rat option \<Rightarrow> datetime \<Rightarrow> world
     \<Rightarrow> (py_error + unit) \<times> world" where
  "submit_entry_order ex config signal decision_id size_usdt size_base stop_loss_price now w =
     (let entry_tag = map_option TagSlpct (entry_stop_distance signal stop_loss_price);
          recorded = record_entry_order config signal decision_id size_base now
      in case forceenter ex (sig_symbol signal) size_usdt entry_tag w of
           (Inr response, w) \<Rightarrow>
             (Inr (), recorded (response_trade_id response) SUBMITTED ORDER_SUBMITTED w)
         | (Inl FreqtradeUnavailable, w) \<Rightarrow> (Inr (), recorded None FAILED ORDER_FAILED w)
         | (Inl e, w) \<Rightarrow> (Inl e, w))"

definition record_exit_order ::
    "RiskConfig \<Rightarrow> signal_row \<Rightarrow> nat \<Rightarrow> position \<Rightarrow> int \<Rightarrow> datetime \<Rightarrow> OrderStatus \<Rightarrow> AuditEventType
     \<Rightarrow> world \<Rightarrow> world" where
  "record_exit_order config signal decision_id position trade_id now status event w =
     (let order_id = db_next_id (w_db w);
          w = with_db (add_order (order_row signal decision_id (Some trade_id) SELL_SIDE status
                                    (pos_amount position) (dry_run config) now)) w;
          w = (if status = SUBMITTED
               then with_db (update_position (pos_id position)
                      (\<lambda>p. p\<lparr>pos_exit_order_id := Some order_id\<rparr>)) w
               else w)
      in with_db (add_audit (sig_trace_id signal) event
                    (order_event_payload signal SELL_SIDE status) now) w)"

text \<open>The guarded exit: only a trade that Freqtrade reports open on the same pair is closed.\<close>

definition attempt_exit ::
    "externals \<Rightarrow> signal_row \<Rightarrow> int \<Rightarrow> world \<Rightarrow> (py_error + unit) \<times> world" where
  "attempt_exit ex signal trade_id w =
     then_do (get_trade ex trade_id w) (\<lambda>trade w.
       if ft_pair trade \<noteq> sig_symbol signal \<or> \<not> ft_is_open trade
       then (Inl FreqtradeUnavailable, w)
       else forceexit ex trade_id w)"

definition submit_exit_order ::
    "externals \<Rightarrow> RiskConfig \<Rightarrow> signal_row \<Rightarrow> nat \<Rightarrow> datetime \<Rightarrow> world \<Rightarrow> (py_error + unit) \<times> world" where
  "submit_exit_order ex config signal decision_id now w =
     (case find (\<lambda>p. pos_symbol p = sig_symbol signal \<and> pos_status p = OPEN) (db_positions (w_db w)) of
        None \<Rightarrow> (Inr (), w)
      | Some position \<Rightarrow>
          (case Option.bind (get_order (w_db w) (pos_entry_order_id position)) ord_freqtrade_trade_id of
             None \<Rightarrow> (Inr (), w)
           | Some trade_id \<Rightarrow>
               let recorded = record_exit_order config signal decision_id position trade_id now
               in (case attempt_exit ex signal trade_id w of
                     (Inr _, w) \<Rightarrow> (Inr (), recorded SUBMITTED ORDER_SUBMITTED w)
                   | (Inl FreqtradeUnavailable, w) \<Rightarrow> (Inr (), recorded FAILED ORDER_FAILED w)
                   | (Inl e, w) \<Rightarrow> (Inl e, w))))"

section \<open>Handling a signal\<close>

definition record_balance_unavailable ::
    "bool \<Rightarrow> signal_row \<Rightarrow> datetime \<Rightarrow> world \<Rightarrow> (py_error + unit) \<times> world" where
  "record_balance_unavailable commit_ok signal now w =
     (let reason = FREQTRADE_BALANCE_UNAVAILABLE;
          w = with_db (add_decision (decision_row signal False (Some reason) None now)) w;
          w = with_db (write_decision_audit_event signal False (Some reason) None None None None now) w
      in commit commit_ok w)"

definition internal_error_result :: "AccountState \<Rightarrow> RiskDecisionResult" where
  "internal_error_result account =
     rejected_result INTERNAL_ERROR (ac_equity_usdt account) False None"

definition entry_result ::
    "SignalView \<Rightarrow> AccountState \<Rightarrow> RiskConfig \<Rightarrow> datetime \<Rightarrow> bool \<Rightarrow> bool \<Rightarrow> ExpectancyView
     \<Rightarrow> RiskDecisionResult" where
  "entry_result view account config now killswitch_enabled is_duplicate expectancy =
     (case evaluate view account config now killswitch_enabled is_duplicate expectancy of
        Inr r \<Rightarrow> r
      | Inl _ \<Rightarrow> internal_error_result account)"

definition record_entry_decision :: "signal_row \<Rightarrow> RiskDecisionResult \<Rightarrow> datetime \<Rightarrow> db \<Rightarrow> db" where
  "record_entry_decision signal result now d =
     write_decision_audit_event signal (rdr_approved result)
       (rdr_rejection_reason result) (rdr_nominal_risk_amount_usdt result)
       (rdr_actual_risk_usdt result) (rdr_stop_distance_pct result)
       (rdr_expectancy_check result) now
       (add_decision (entry_decision_row signal result now) d)"

definition handle_entry_signal ::
    "externals \<Rightarrow> RiskConfig \<Rightarrow> bool \<Rightarrow> signal_row \<Rightarrow> SignalView \<Rightarrow> AccountState \<Rightarrow> bool
     \<Rightarrow> ExpectancyView \<Rightarrow> datetime \<Rightarrow> world \<Rightarrow> (py_error + unit) \<times> world" where
  "handle_entry_signal ex config commit_ok signal view account is_duplicate expectancy now w =
     (let killswitch_enabled = is_enabled (w_db w);
          result = entry_result view account config now killswitch_enabled is_duplicate expectancy
      in then_do
           (if rdr_auto_trip_killswitch result
            then enable_killswitch ex
                   (case rdr_rejection_reason result of Some r \<Rightarrow> reason_value r | None \<Rightarrow> ''AUTO_TRIP'')
                   ''SYSTEM'' (sig_trace_id signal) now w
            else (Inr (), w)) (\<lambda>_ w.
         let decision_id = db_next_id (w_db w);
             w = with_db (record_entry_decision signal result now) w
         in then_do
              (if rdr_approved result
               then (case (rdr_position_size_usdt result, rdr_position_size_base result) of
                      (Some size_usdt, Some size_base) \<Rightarrow>
                        submit_entry_order ex config signal decision_id size_usdt size_base
                          (rdr_stop_loss_price result) now w
                    | _ \<Rightarrow> (Inl AssertionError, w))
               else (Inr (), w))
              (\<lambda>_ w. commit commit_ok w)))"

definition handle_exit_signal ::
    "externals \<Rightarrow> RiskConfig \<Rightarrow> bool \<Rightarrow> signal_row \<Rightarrow> SignalView \<Rightarrow> AccountState \<Rightarrow> bool
     \<Rightarrow> datetime \<Rightarrow> world \<Rightarrow> (py_error + unit) \<times> world" where
  "handle_exit_signal ex config commit_ok signal view account is_duplicate now w =
     (let result = evaluate_exit view account config now is_duplicate;
          decision_id = db_next_id (w_db w);
          w = with_db (add_decision (decision_row signal (xdr_approved result)
                (xdr_rejection_reason result) (Some (xdr_equity_snapshot_usdt result)) now)) w;
          w = with_db (write_decision_audit_event signal (xdr_approved result)
                (xdr_rejection_reason result) None None None None now) w
      in then_do
           (if xdr_approved result then submit_exit_order ex config signal decision_id now w
            else (Inr (), w))
           (\<lambda>_ w. commit commit_ok w))"

definition signal_view :: "signal_row \<Rightarrow> SignalView" where
  "signal_view signal =
     \<lparr>sv_id = RowId (sig_id signal), sv_symbol = sig_symbol signal, sv_action = sig_action signal,
      sv_confidence = sig_confidence signal, sv_candle_ts = sig_candle_ts signal,
      sv_price = sig_price signal, sv_atr_14 = sig_atr_14 signal,
      sv_setup_regime = sig_setup_regime signal, sv_trade_score = sig_trade_score signal\<rparr>"

definition process_signal ::
    "externals \<Rightarrow> RiskConfig \<Rightarrow> bool \<Rightarrow> nat \<Rightarrow> datetime \<Rightarrow> world \<Rightarrow> (py_error + unit) \<times> world" where
  "process_signal ex config commit_ok signal_id now w =
     (case get_signal (w_db w) signal_id of
        None \<Rightarrow> (Inr (), w)
      | Some signal \<Rightarrow>
          (case publish_balance_snapshot ex now w of
             (Inl FreqtradeUnavailable, w) \<Rightarrow> record_balance_unavailable commit_ok signal now w
           | (Inl e, w) \<Rightarrow> (Inl e, w)
           | (Inr balance, w) \<Rightarrow>
               then_do (redis_call ex now
                          (R_SET_NX (K_decision_idempotency (sig_id signal)) (JStr ''1'')
                             DECISION_IDEMPOTENCY_TTL_SECONDS) w) (\<lambda>was_set w.
                 let is_duplicate = (\<not> was_set);
                     account = load_account_state balance
                       (minutes (consecutive_loss_cluster_minutes config)) now (w_db w);
                     view = signal_view signal
                 in if sv_action view = SELL
                    then handle_exit_signal ex config commit_ok signal view account is_duplicate now w
                    else handle_entry_signal ex config commit_ok signal view account is_duplicate
                           (load_expectancy_state (sv_setup_regime view) (sv_trade_score view) (w_db w))
                           now w)))"

section \<open>Handling a message\<close>

text \<open>The \<open>signal_id\<close> field of a message: absent or empty, not a UUID, or the id of a signal.\<close>

datatype message_field = MissingField | BadField | SignalField nat

definition handle_message ::
    "externals \<Rightarrow> RiskConfig \<Rightarrow> bool \<Rightarrow> nat \<Rightarrow> message_field \<Rightarrow> datetime \<Rightarrow> world
     \<Rightarrow> (py_error + unit) \<times> world" where
  "handle_message ex env commit_ok message_id field now w =
     (if field = MissingField
      then then_do (redis_call ex now (R_XACK message_id) w) (\<lambda>_ w. (Inr (), w))
      else
        (case then_do
                (run_session (\<lambda>w.
                   case load_effective_risk_config env (w_db w) of
                     Inl e \<Rightarrow> (Inl e, w)
                   | Inr config \<Rightarrow>
                       (case field of
                          SignalField sid \<Rightarrow> process_signal ex config commit_ok sid now w
                        | _ \<Rightarrow> (Inl ValueError, w))) w)
                (\<lambda>_ w. then_do (redis_call ex now (R_XACK message_id) w) (\<lambda>_ w. (Inr (), w))) of
           (_, w) \<Rightarrow> (Inr (), w)))"


section \<open>What each step does\<close>

text \<open>A submission records one order and leaves the decisions alone.\<close>

definition records_order :: "OrderSide \<Rightarrow> signal_row \<Rightarrow> nat \<Rightarrow> db \<Rightarrow> db \<Rightarrow> bool" where
  "records_order side signal decision_id d d' \<longleftrightarrow>
     db_decisions d' = db_decisions d \<and> db_signals d' = db_signals d \<and> audit_grows d d' \<and>
     db_system_state d' = db_system_state d \<and> db_risk_overrides d' = db_risk_overrides d \<and>
     (\<exists>ord. db_orders d' = db_orders d @ [ord] \<and> ord_side ord = side \<and>
            ord_symbol ord = sig_symbol signal \<and> ord_risk_decision_id ord = decision_id \<and>
            (ord_status ord = SUBMITTED \<or> ord_status ord = FAILED))"

lemma record_entry_order_effect:
  assumes "status = SUBMITTED \<or> status = FAILED"
  shows "records_order BUY_SIDE signal dn (w_db w) (w_db (record_entry_order cf signal dn b now tid status ev w))"
    "db_positions (w_db (record_entry_order cf signal dn b now tid status ev w)) = db_positions (w_db w)"
    "w_ft (record_entry_order cf signal dn b now tid status ev w) = w_ft w"
    "w_redis (record_entry_order cf signal dn b now tid status ev w) = w_redis w"
    "w_saved (record_entry_order cf signal dn b now tid status ev w) = w_saved w"
  using assms
  by (auto simp: record_entry_order_def records_order_def add_order_def add_audit_def audit_grows_iff
      order_row_def)

lemma record_exit_order_effect:
  assumes "status = SUBMITTED \<or> status = FAILED"
  shows "records_order SELL_SIDE signal dn (w_db w) (w_db (record_exit_order cf signal dn p tid now status ev w))"
    "w_ft (record_exit_order cf signal dn p tid now status ev w) = w_ft w"
    "w_redis (record_exit_order cf signal dn p tid now status ev w) = w_redis w"
    "w_saved (record_exit_order cf signal dn p tid now status ev w) = w_saved w"
  using assms
  by (auto simp: record_exit_order_def records_order_def add_order_def add_audit_def audit_grows_iff
      order_row_def update_position_def Let_def)

lemma submit_entry_order_effect:
  assumes "submit_entry_order ex config signal dn sz b st now w = (res, w')"
  obtains ks where "res = Inr ()" "w_redis w' = w_redis w" "w_saved w' = w_saved w"
    "w_ft w' = w_ft w @ FT_forceenter (sig_symbol signal) (flt sz)
                          (map_option TagSlpct (entry_stop_distance signal st)) # ks"
    "entries_sent ks = 0" "exits_sent ks \<le> forceexit_attempts ex"
    "records_order BUY_SIDE signal dn (w_db w) (w_db w')"
    "db_positions (w_db w') = db_positions (w_db w)"
proof -
  let ?tag = "map_option TagSlpct (entry_stop_distance signal st)"
  let ?rec = "record_entry_order config signal dn b now"
  obtain r1 w1 where fe: "forceenter ex (sig_symbol signal) sz ?tag w = (r1, w1)" by fastforce
  from forceenter_effect[OF fe] obtain ks where k: "w_db w1 = w_db w" "w_saved w1 = w_saved w"
    "w_redis w1 = w_redis w" "w_ft w1 = w_ft w @ FT_forceenter (sig_symbol signal) (flt sz) ?tag # ks"
    "entries_sent ks = 0" "exits_sent ks \<le> forceexit_attempts ex"
    "r1 = Inl FreqtradeUnavailable \<or>
       (\<exists>r. r1 = Inr r \<and> (?tag = None \<or> er_enter_tag r = ?tag) \<and> ks = [])" .
  have "\<exists>tid status ev. (status = SUBMITTED \<or> status = FAILED) \<and> res = Inr () \<and> w' = ?rec tid status ev w1"
  proof (cases r1)
    case (Inl e)
    with k(7) fe assms have "res = Inr ()" "w' = ?rec None FAILED ORDER_FAILED w1"
      by (simp_all add: submit_entry_order_def Let_def)
    then show ?thesis by blast
  next
    case (Inr r)
    with fe assms have "res = Inr ()" "w' = ?rec (response_trade_id r) SUBMITTED ORDER_SUBMITTED w1"
      by (simp_all add: submit_entry_order_def Let_def)
    then show ?thesis by blast
  qed
  then obtain tid status ev where e: "status = SUBMITTED \<or> status = FAILED" "res = Inr ()"
    "w' = ?rec tid status ev w1" by blast
  note eff = record_entry_order_effect[OF e(1)]
  have "records_order BUY_SIDE signal dn (w_db w) (w_db w')"
    using eff(1)[of signal dn w1 config b now tid ev] unfolding e(3) k(1) .
  then show thesis using that[of ks] eff(2-5) k e(2) unfolding e(3) by simp
qed

lemma submit_entry_order_counts:
  assumes "submit_entry_order ex config signal dn sz b st now w = (res, w')"
  shows "res = Inr () \<and> w_redis w' = w_redis w \<and> w_saved w' = w_saved w \<and>
    (\<exists>ks. w_ft w' = w_ft w @ FT_forceenter (sig_symbol signal) (flt sz)
                          (map_option TagSlpct (entry_stop_distance signal st)) # ks \<and>
          entries_sent ks = 0) \<and>
    records_order BUY_SIDE signal dn (w_db w) (w_db w')"
  using assms by (rule submit_entry_order_effect) blast

lemma attempt_exit_effect:
  assumes "attempt_exit ex signal t w = (res, w')"
  shows "w_db w' = w_db w \<and> w_saved w' = w_saved w \<and> w_redis w' = w_redis w \<and>
    entries_sent (w_ft w') = entries_sent (w_ft w) \<and>
    exits_sent (w_ft w') \<le> exits_sent (w_ft w) + forceexit_attempts ex \<and>
    (res = Inr () \<or> res = Inl FreqtradeUnavailable)"
proof -
  obtain r0 w0 where gt: "get_trade ex t w = (r0, w0)" by fastforce
  have g: "w_db w0 = w_db w" "w_saved w0 = w_saved w" "w_redis w0 = w_redis w"
    "w_ft w0 = w_ft w @ [FT_trade t]" "\<And>e. r0 = Inl e \<Longrightarrow> e = FreqtradeUnavailable"
    using gt by (auto simp: get_trade_def ft_call_def split: http_reply.splits)
  show ?thesis
  proof (cases "\<exists>tr. r0 = Inr tr \<and> ft_pair tr = sig_symbol signal \<and> ft_is_open tr")
    case True
    then have fx: "forceexit ex t w0 = (res, w')"
      using assms gt by (auto simp: attempt_exit_def)
    then obtain k where "w_db w' = w_db w0" "w_saved w' = w_saved w0" "w_redis w' = w_redis w0"
      "1 \<le> k" "k \<le> forceexit_attempts ex" "w_ft w' = w_ft w0 @ replicate k (FT_forceexit t)"
      "res = Inr () \<or> res = Inl FreqtradeUnavailable" by (rule forceexit_effect)
    with g show ?thesis by simp
  next
    case False
    then have "w' = w0" "res = Inl FreqtradeUnavailable"
      using assms gt g(5) by (cases r0; auto simp: attempt_exit_def split: if_splits)+
    with g show ?thesis by simp
  qed
qed

lemma submit_exit_order_effect:
  assumes "submit_exit_order ex config signal dn now w = (res, w')"
  shows "res = Inr () \<and> w_redis w' = w_redis w \<and> w_saved w' = w_saved w \<and>
    entries_sent (w_ft w') = entries_sent (w_ft w) \<and>
    exits_sent (w_ft w') \<le> exits_sent (w_ft w) + forceexit_attempts ex \<and>
    (w_db w' = w_db w \<or> records_order SELL_SIDE signal dn (w_db w) (w_db w'))"
proof -
  let ?pos = "find (\<lambda>p. pos_symbol p = sig_symbol signal \<and> pos_status p = OPEN) (db_positions (w_db w))"
  consider "w' = w" "res = Inr ()" |
    position trade_id where "?pos = Some position"
      "Option.bind (get_order (w_db w) (pos_entry_order_id position)) ord_freqtrade_trade_id = Some trade_id"
    using assms by (auto simp: submit_exit_order_def split: option.splits)
  then show ?thesis
  proof cases
    case 1
    then show ?thesis by simp
  next
    case 2
    let ?rec = "record_exit_order config signal dn position trade_id now"
    obtain r1 w1 where at: "attempt_exit ex signal trade_id w = (r1, w1)" by fastforce
    note a = attempt_exit_effect[OF at]
    have "\<exists>status ev. (status = SUBMITTED \<or> status = FAILED) \<and> res = Inr () \<and> w' = ?rec status ev w1"
    proof (cases r1)
      case (Inl e)
      with a at assms 2 have "res = Inr ()" "w' = ?rec FAILED ORDER_FAILED w1"
        by (simp_all add: submit_exit_order_def Let_def)
      then show ?thesis by blast
    next
      case (Inr r)
      with at assms 2 have "res = Inr ()" "w' = ?rec SUBMITTED ORDER_SUBMITTED w1"
        by (simp_all add: submit_exit_order_def Let_def)
      then show ?thesis by blast
    qed
    then obtain status ev where e: "status = SUBMITTED \<or> status = FAILED" "res = Inr ()"
      "w' = ?rec status ev w1" by blast
    note eff = record_exit_order_effect[OF e(1)]
    have "records_order SELL_SIDE signal dn (w_db w) (w_db w')"
      using eff(1)[of signal dn w1 config position trade_id now ev] a unfolding e(3) by simp
    then show ?thesis using a e(2) eff(2-4) unfolding e(3) by simp
  qed
qed


section \<open>What a handled signal leaves behind\<close>

definition decided :: "signal_row \<Rightarrow> bool \<Rightarrow> RejectionReason option \<Rightarrow> db \<Rightarrow> db \<Rightarrow> bool" where
  "decided signal approved reason d d' \<longleftrightarrow>
     (\<exists>row. db_decisions d' = db_decisions d @ [row] \<and> dec_signal_id row = sig_id signal \<and>
            dec_approved row = approved \<and> dec_rejection_reason row = reason) \<and>
     (\<exists>e. e \<in> set (drop (length (db_audit d)) (db_audit d')) \<and>
          aud_event_type e = (if approved then RISK_APPROVED else RISK_REJECTED) \<and>
          aud_trace_id e = sig_trace_id signal) \<and>
     audit_grows d d' \<and> db_signals d' = db_signals d \<and>
     db_risk_overrides d' = db_risk_overrides d \<and> (is_enabled d \<longrightarrow> is_enabled d') \<and>
     (\<not> approved \<longrightarrow> db_orders d' = db_orders d)"

lemma decidedI:
  assumes "db_decisions d1 = db_decisions d" "audit_grows d d1" "db_signals d1 = db_signals d"
    "db_risk_overrides d1 = db_risk_overrides d" "db_orders d1 = db_orders d"
    "is_enabled d \<longrightarrow> is_enabled d1"
    and "d2 = write_decision_audit_event signal approved reason n a st ch now (add_decision row d1)"
    "dec_signal_id row = sig_id signal" "dec_approved row = approved" "dec_rejection_reason row = reason"
    and "d' = d2 \<or> approved \<and> records_order side signal dn d2 d'"
  shows "decided signal approved reason d d'"
proof -
  obtain es1 where es1: "db_audit d1 = db_audit d @ es1" using assms(2) by (auto simp: audit_grows_iff)
  obtain e where e: "db_audit d2 = db_audit d1 @ [e]"
    "aud_event_type e = (if approved then RISK_APPROVED else RISK_REJECTED)"
    "aud_trace_id e = sig_trace_id signal"
    by (auto simp: assms(7) write_decision_audit_event_def add_audit_def add_decision_def)
  obtain es2 where es2: "db_audit d' = db_audit d2 @ es2"
    using assms(11) by (auto simp: records_order_def audit_grows_iff)
  have "e \<in> set (drop (length (db_audit d)) (db_audit d'))" by (simp add: es1 es2 e(1))
  moreover have "db_decisions d' = db_decisions d @ [row\<lparr>dec_id := db_next_id d1\<rparr>]"
    "db_signals d' = db_signals d" "db_risk_overrides d' = db_risk_overrides d"
    "\<not> approved \<longrightarrow> db_orders d' = db_orders d" "is_enabled d \<longrightarrow> is_enabled d'"
    using assms by (auto simp: is_enabled_def records_order_def write_decision_audit_event_def add_audit_def add_decision_def)
  moreover have "audit_grows d d'" by (simp add: audit_grows_iff es1 es2 e(1))
  ultimately show ?thesis using e assms(8-10) unfolding decided_def by auto
qed

lemma entry_result_cases:
  obtains z where
    "compute_sizing (ac_equity_usdt a) (ac_free_balance_usdt a) (sv_price v) (sv_atr_14 v)
       (sv_confidence v) c = Inr z"
    "entry_result v a c now k d x = decision_of (context_of v a c now k d x z)"
  | "entry_result v a c now k d x = internal_error_result a"
proof (cases "evaluate v a c now k d x")
  case (Inl e)
  then show thesis using that(2) by (simp add: entry_result_def)
next
  case (Inr r)
  from evaluate_InrD[OF this] Inr show thesis using that(1) by (auto simp: entry_result_def)
qed

lemma entry_result_approved:
  assumes "rdr_approved (entry_result v a c now k d x)"
  obtains z where
    "compute_sizing (ac_equity_usdt a) (ac_free_balance_usdt a) (sv_price v) (sv_atr_14 v)
       (sv_confidence v) c = Inr z"
    "entry_result v a c now k d x = approved_result (ac_equity_usdt a) z
       (build_expectancy_check (context_of v a c now k d x z))"
    "\<forall>r \<in> set RULES_IN_ORDER. r (context_of v a c now k d x z) = None"
proof (cases rule: entry_result_cases[of a v c now k d x])
  case (1 z)
  with assms have "\<forall>r \<in> set RULES_IN_ORDER. r (context_of v a c now k d x z) = None"
    by (simp add: decision_of_approved)
  with 1 show thesis using that decision_of_None[of "context_of v a c now k d x z"]
    by (simp add: first_violation_None)
qed (use assms in \<open>simp add: internal_error_result_def\<close>)

text \<open>The request an entry verdict leads to.\<close>

definition entry_requests :: "signal_row \<Rightarrow> RiskDecisionResult \<Rightarrow> ft_request list" where
  "entry_requests signal R =
     (if rdr_approved R
      then [FT_forceenter (sig_symbol signal) (flt (the (rdr_position_size_usdt R)))
              (map_option TagSlpct (entry_stop_distance signal (rdr_stop_loss_price R)))]
      else [])"

lemma entries_sent_entry_requests [simp]:
  "entries_sent (entry_requests signal R) = (if rdr_approved R then 1 else 0)"
  by (simp add: entry_requests_def)

lemma handle_entry_signal_effect:
  assumes "handle_entry_signal ex config ok signal view account dup x now w = (res, w')"
    and "R = entry_result view account config now (is_enabled (w_db w)) dup x"
  shows "\<exists>ks. w_ft w' = w_ft w @ entry_requests signal R @ ks \<and> entries_sent ks = 0"
    and "\<exists>rs. w_redis w' = w_redis w @ rs \<and>
           (\<forall>e \<in> set rs. fst e = now \<and> fst (snd e) = R_SET K_killswitch_global (JStr ''1'') None)"
    and "res = Inr () \<Longrightarrow> w_saved w' = w_db w' \<and>
           decided signal (rdr_approved R) (rdr_rejection_reason R) (w_db w) (w_db w')"
    and "res \<noteq> Inr () \<Longrightarrow> w_saved w' = w_saved w"
    and "ok \<and> (\<forall>h t c. ex_redis ex h t c \<noteq> R_FAIL) \<Longrightarrow> res = Inr ()"
proof -
  let ?trip = "if rdr_auto_trip_killswitch R
            then enable_killswitch ex
                   (case rdr_rejection_reason R of Some r \<Rightarrow> reason_value r | None \<Rightarrow> ''AUTO_TRIP'')
                   ''SYSTEM'' (sig_trace_id signal) now w
            else (Inr (), w)"
  obtain r1 w1 where t: "?trip = (r1, w1)" by fastforce
  have w1: "w_ft w1 = w_ft w" "w_saved w1 = w_saved w"
    "\<exists>rs. w_redis w1 = w_redis w @ rs \<and>
           (\<forall>e \<in> set rs. fst e = now \<and> fst (snd e) = R_SET K_killswitch_global (JStr ''1'') None)"
    "db_decisions (w_db w1) = db_decisions (w_db w)" "audit_grows (w_db w) (w_db w1)"
    "db_signals (w_db w1) = db_signals (w_db w)" "db_orders (w_db w1) = db_orders (w_db w)"
    "db_risk_overrides (w_db w1) = db_risk_overrides (w_db w)"
    "\<not> rdr_auto_trip_killswitch R \<Longrightarrow> r1 = Inr ()"
    "is_enabled (w_db w) \<longrightarrow> is_enabled (w_db w1)"
    "(\<forall>h t c. ex_redis ex h t c \<noteq> R_FAIL) \<Longrightarrow> r1 = Inr ()"
    using t by (auto simp: is_enabled_def enable_killswitch_def redis_call_def Let_def with_db_def add_audit_def
        audit_grows_iff split: if_splits)
  have no_trip: "r1 = Inr ()" if "rdr_approved R"
  proof -
    from that obtain z where "R = approved_result (ac_equity_usdt account) z
       (build_expectancy_check (context_of view account config now (is_enabled (w_db w)) dup x z))"
      unfolding assms(2) by (rule entry_result_approved)
    then show ?thesis using w1(9) by simp
  qed
  let ?d2 = "record_entry_decision signal R now (w_db w1)"
  let ?w2 = "with_db (record_entry_decision signal R now) w1"
  note handle = assms(1)[unfolded handle_entry_signal_def Let_def, folded assms(2), unfolded t]
  have dec: "decided signal (rdr_approved R) (rdr_rejection_reason R) (w_db w) d'"
    if "d' = ?d2 \<or> rdr_approved R \<and> records_order BUY_SIDE signal dn ?d2 d'" for d' dn
    by (rule decidedI[OF w1(4,5,6,8,7,10) record_entry_decision_def _ _ _ that])
       (simp_all add: entry_decision_row_def decision_row_def)
  have goal: "(\<exists>ks. w_ft w' = w_ft w @ entry_requests signal R @ ks \<and> entries_sent ks = 0)
     \<and> (\<exists>rs. w_redis w' = w_redis w @ rs \<and>
           (\<forall>e \<in> set rs. fst e = now \<and> fst (snd e) = R_SET K_killswitch_global (JStr ''1'') None))
     \<and> (res = Inr () \<longrightarrow> w_saved w' = w_db w' \<and>
           decided signal (rdr_approved R) (rdr_rejection_reason R) (w_db w) (w_db w'))
     \<and> (res \<noteq> Inr () \<longrightarrow> w_saved w' = w_saved w)
     \<and> (ok \<and> (\<forall>h t c. ex_redis ex h t c \<noteq> R_FAIL) \<longrightarrow> res = Inr ())"
  proof (cases r1)
    case (Inl e)
    with no_trip have "\<not> rdr_approved R" by auto
    then show ?thesis using handle Inl w1 by (auto simp: entry_requests_def)
  next
    case r1: (Inr u)
    show ?thesis
    proof (cases "rdr_approved R")
      case False
      then have "(res, w') = commit ok ?w2" using handle r1 by simp
      with False w1 dec[of ?d2] show ?thesis
        by (auto simp: commit_def entry_requests_def split: if_splits)
    next
      case True
      then obtain z ch where z: "R = approved_result (ac_equity_usdt account) z ch"
        unfolding assms(2) by (rule entry_result_approved)
      let ?sub = "submit_entry_order ex config signal (db_next_id (w_db w1)) (sz_position_size_usdt z)
                    (the (rdr_position_size_base R)) (rdr_stop_loss_price R) now ?w2"
      have base: "rdr_position_size_base R = Some (the (rdr_position_size_base R))"
        by (simp add: z approved_result_def)
      obtain r3 w3 where sub: "?sub = (r3, w3)" by fastforce
      note s = submit_entry_order_counts[OF sub]
      have size_R: "rdr_position_size_usdt R = Some (sz_position_size_usdt z)" by (simp add: z)
      have "(res, w') = commit ok w3"
        using handle r1 True sub s base size_R by (simp split: option.splits)
      moreover have "decided signal True (rdr_rejection_reason R) (w_db w) (w_db w3)"
        using dec[of "w_db w3" "db_next_id (w_db w1)"] s True by simp
      ultimately show ?thesis using True s w1 size_R
        by (auto simp: commit_def entry_requests_def split: if_splits)
    qed
  qed
  show "\<exists>ks. w_ft w' = w_ft w @ entry_requests signal R @ ks \<and> entries_sent ks = 0"
    "\<exists>rs. w_redis w' = w_redis w @ rs \<and>
           (\<forall>e \<in> set rs. fst e = now \<and> fst (snd e) = R_SET K_killswitch_global (JStr ''1'') None)"
    "res = Inr () \<Longrightarrow> w_saved w' = w_db w' \<and>
           decided signal (rdr_approved R) (rdr_rejection_reason R) (w_db w) (w_db w')"
    "res \<noteq> Inr () \<Longrightarrow> w_saved w' = w_saved w"
    "ok \<and> (\<forall>h t c. ex_redis ex h t c \<noteq> R_FAIL) \<Longrightarrow> res = Inr ()"
    using goal by blast+
qed


lemma handle_exit_signal_effect:
  assumes "handle_exit_signal ex config ok signal view account dup now w = (res, w')"
    and "R = evaluate_exit view account config now dup"
  shows "entries_sent (w_ft w') = entries_sent (w_ft w) \<and> w_redis w' = w_redis w \<and>
    exits_sent (w_ft w') \<le> exits_sent (w_ft w) + forceexit_attempts ex \<and>
    (\<not> xdr_approved R \<longrightarrow> exits_sent (w_ft w') = exits_sent (w_ft w)) \<and>
    (res = Inr () \<longrightarrow> w_saved w' = w_db w' \<and>
       decided signal (xdr_approved R) (xdr_rejection_reason R) (w_db w) (w_db w')) \<and>
    (res \<noteq> Inr () \<longrightarrow> w_saved w' = w_saved w) \<and> (ok \<longrightarrow> res = Inr ())"
proof -
  let ?row = "decision_row signal (xdr_approved R) (xdr_rejection_reason R)
                (Some (xdr_equity_snapshot_usdt R)) now"
  let ?d2 = "write_decision_audit_event signal (xdr_approved R) (xdr_rejection_reason R)
               None None None None now (add_decision ?row (w_db w))"
  let ?w2 = "with_db (write_decision_audit_event signal (xdr_approved R) (xdr_rejection_reason R)
               None None None None now) (with_db (add_decision ?row) w)"
  note handle = assms(1)[unfolded handle_exit_signal_def Let_def, folded assms(2)]
  have dec: "decided signal (xdr_approved R) (xdr_rejection_reason R) (w_db w) d'"
    if "d' = ?d2 \<or> xdr_approved R \<and> records_order SELL_SIDE signal dn ?d2 d'" for d' dn
    by (rule decidedI[OF refl audit_grows_refl refl refl refl imp_refl refl _ _ _ that])
       (simp_all add: decision_row_def)
  show ?thesis
  proof (cases "xdr_approved R")
    case False
    then have "(res, w') = commit ok ?w2" using handle by simp
    with False dec[of ?d2] show ?thesis by (auto simp: commit_def split: if_splits)
  next
    case True
    obtain r3 w3 where sub: "submit_exit_order ex config signal (db_next_id (w_db w)) now ?w2 = (r3, w3)"
      by fastforce
    note s = submit_exit_order_effect[OF sub]
    have "(res, w') = commit ok w3" using handle True sub s by simp
    moreover have "decided signal (xdr_approved R) (xdr_rejection_reason R) (w_db w) (w_db w3)"
      using dec[of "w_db w3" "db_next_id (w_db w)"] s True by auto
    ultimately show ?thesis using True s by (auto simp: commit_def split: if_splits)
  qed
qed

section \<open>What a processed signal leaves behind\<close>

text \<open>The commands that set or remove a key, other than \<open>SET ... NX\<close>.\<close>

fun overwrites :: "redis_key \<Rightarrow> redis_cmd \<Rightarrow> bool" where
  "overwrites k (R_SET k' v ttl) \<longleftrightarrow> k' = k"
| "overwrites k (R_DELETE k') \<longleftrightarrow> k' = k"
| "overwrites k (R_INCR k') \<longleftrightarrow> k' = k"
| "overwrites k (R_EXPIRE k' ttl) \<longleftrightarrow> k' = k"
| "overwrites k _ \<longleftrightarrow> False"

abbreviation nx_command :: "nat \<Rightarrow> redis_cmd" where
  "nx_command i \<equiv> R_SET_NX (K_decision_idempotency i) (JStr ''1'') DECISION_IDEMPOTENCY_TTL_SECONDS"

text \<open>
  What happened to Redis during one signal: commands at the time of the signal that overwrite no
  decision key; if a decision was reached through the evaluators, the claim on the signal's key
  was among them.
\<close>

definition harmless :: "datetime \<Rightarrow> redis_history \<Rightarrow> bool" where
  "harmless now rs \<longleftrightarrow>
     (\<forall>e \<in> set rs. fst e = now \<and> (\<forall>i. \<not> overwrites (K_decision_idempotency i) (fst (snd e))))"

lemma harmless_simps [simp]:
  "harmless now []"
  "harmless now (a @ b) \<longleftrightarrow> harmless now a \<and> harmless now b"
  "harmless now ((t, c, r) # b) \<longleftrightarrow>
     (t = now \<and> (\<forall>i. \<not> overwrites (K_decision_idempotency i) c)) \<and> harmless now b"
  by (auto simp: harmless_def)

lemma redis_call_history:
  "redis_call ex now cmd w = (r, w') \<Longrightarrow>
     w_redis w' = w_redis w @ [(now, cmd, ex_redis ex (w_redis w) now cmd)] \<and>
     w_db w' = w_db w \<and> w_ft w' = w_ft w \<and> w_saved w' = w_saved w \<and>
     (r = Inr True \<longleftrightarrow> ex_redis ex (w_redis w) now cmd = R_OK)"
  by (auto simp: redis_call_def Let_def split: if_splits)

text \<open>The account and the verdict of an entry, as \<open>process_signal\<close> computes them.\<close>

definition signal_account :: "RiskConfig \<Rightarrow> AccountBalanceSnapshot \<Rightarrow> datetime \<Rightarrow> db \<Rightarrow> AccountState" where
  "signal_account config balance now d =
     load_account_state balance (minutes (consecutive_loss_cluster_minutes config)) now d"

definition signal_entry_result ::
    "RiskConfig \<Rightarrow> AccountBalanceSnapshot \<Rightarrow> signal_row \<Rightarrow> bool \<Rightarrow> datetime \<Rightarrow> db \<Rightarrow> RiskDecisionResult" where
  "signal_entry_result config balance signal dup now d =
     entry_result (signal_view signal) (signal_account config balance now d) config now (is_enabled d) dup
       (load_expectancy_state (sig_setup_regime signal) (sig_trade_score signal) d)"

lemma signal_view_sel [simp]:
  "sv_action (signal_view s) = sig_action s" "sv_symbol (signal_view s) = sig_symbol s"
  "sv_candle_ts (signal_view s) = sig_candle_ts s" "sv_confidence (signal_view s) = sig_confidence s"
  "sv_price (signal_view s) = sig_price s" "sv_setup_regime (signal_view s) = sig_setup_regime s"
  "sv_trade_score (signal_view s) = sig_trade_score s"
  by (simp_all add: signal_view_def)

lemma record_balance_unavailable_effect:
  assumes "record_balance_unavailable ok signal now w = (res, w')"
  shows "w_ft w' = w_ft w \<and> w_redis w' = w_redis w \<and>
    (res = Inr () \<longrightarrow> w_saved w' = w_db w' \<and>
       decided signal False (Some FREQTRADE_BALANCE_UNAVAILABLE) (w_db w) (w_db w')) \<and>
    (res \<noteq> Inr () \<longrightarrow> w_saved w' = w_saved w) \<and> (ok \<longrightarrow> res = Inr ())"
proof -
  let ?row = "decision_row signal False (Some FREQTRADE_BALANCE_UNAVAILABLE) None now"
  let ?d2 = "write_decision_audit_event signal False (Some FREQTRADE_BALANCE_UNAVAILABLE)
               None None None None now (add_decision ?row (w_db w))"
  have "decided signal False (Some FREQTRADE_BALANCE_UNAVAILABLE) (w_db w) ?d2"
    by (rule decidedI[OF refl audit_grows_refl refl refl refl imp_refl refl]) (simp_all add: decision_row_def)
  then show ?thesis
    using assms by (auto simp: record_balance_unavailable_def commit_def Let_def split: if_splits)
qed

text \<open>One inversion rule for \<open>process_signal\<close>: its five ways out.\<close>

lemma process_signal_cases:
  assumes "process_signal ex config ok sid now w = (res, w')"
  obtains (unknown) "get_signal (w_db w) sid = None" "res = Inr ()" "w' = w"
  | (no_balance) signal w1 where "get_signal (w_db w) sid = Some signal"
      "get_account_balance ex now w = (Inl FreqtradeUnavailable, w1)"
      "w_redis w1 = w_redis w" "w_db w1 = w_db w" "w_saved w1 = w_saved w" "w_ft w1 = w_ft w @ [FT_balance]"
      "record_balance_unavailable ok signal now w1 = (res, w')"
  | (redis_failed) signal rs where "get_signal (w_db w) sid = Some signal" "res = Inl RedisError"
      "w_redis w' = w_redis w @ rs" "harmless now rs" "\<exists>h c. ex_redis ex h now c = R_FAIL" "w_saved w' = w_saved w" "w_ft w' = w_ft w @ [FT_balance]"
  | (exit) signal balance h w2 dup where "get_signal (w_db w) sid = Some signal"
      "sig_action signal = SELL" "w_db w2 = w_db w" "w_saved w2 = w_saved w"
      "w_ft w2 = w_ft w @ [FT_balance]" "harmless now h"
      "w_redis w2 = w_redis w @ h @ [(now, nx_command (sig_id signal),
                     ex_redis ex (w_redis w @ h) now (nx_command (sig_id signal)))]"
      "dup \<longleftrightarrow> ex_redis ex (w_redis w @ h) now (nx_command (sig_id signal)) \<noteq> R_OK"
      "handle_exit_signal ex config ok signal (signal_view signal)
         (signal_account config balance now (w_db w)) dup now w2 = (res, w')"
  | (entry) signal balance h w2 dup where "get_signal (w_db w) sid = Some signal"
      "sig_action signal \<noteq> SELL" "w_db w2 = w_db w" "w_saved w2 = w_saved w"
      "w_ft w2 = w_ft w @ [FT_balance]" "harmless now h"
      "w_redis w2 = w_redis w @ h @ [(now, nx_command (sig_id signal),
                     ex_redis ex (w_redis w @ h) now (nx_command (sig_id signal)))]"
      "dup \<longleftrightarrow> ex_redis ex (w_redis w @ h) now (nx_command (sig_id signal)) \<noteq> R_OK"
      "handle_entry_signal ex config ok signal (signal_view signal)
         (signal_account config balance now (w_db w)) dup
         (load_expectancy_state (sig_setup_regime signal) (sig_trade_score signal) (w_db w)) now w2
       = (res, w')"
      "0 \<le> bal_free_balance_usdt balance" "bal_free_balance_usdt balance \<le> bal_equity_usdt balance"
      "balance_reported ex (w_ft w) balance"
proof (cases "get_signal (w_db w) sid")
  case None
  have "res = Inr ()" "w' = w" using assms None unfolding process_signal_def by simp_all
  from that(1)[OF None this] show thesis .
next
  case (Some signal)
  obtain r0 w0 where g: "get_account_balance ex now w = (r0, w0)" by fastforce
  note g' = get_account_balance_effect[OF g]
  have r0: "e = FreqtradeUnavailable" if "r0 = Inl e" for e
    using g that get_account_balance_Inl by blast
  show thesis
  proof (cases r0)
    case (Inl e)
    with r0 have g1: "get_account_balance ex now w = (Inl FreqtradeUnavailable, w0)" using g by simp
    have "record_balance_unavailable ok signal now w0 = (res, w')"
      using assms Some unfolding process_signal_def publish_balance_snapshot_def by (simp add: g1)
    from that(2)[OF Some g1 _ _ _ _ this] g' show thesis by blast
  next
    case (Inr balance)
    let ?c1 = "R_SET K_account_balance (snapshot_json balance) (Some ACCOUNT_BALANCE_SNAPSHOT_TTL_SECONDS)"
    obtain r1 w1 where c1: "redis_call ex now ?c1 w0 = (r1, w1)" by fastforce
    note h1 = redis_call_history[OF c1]
    let ?h = "[(now, ?c1, ex_redis ex (w_redis w0) now ?c1)]"
    have hh: "harmless now ?h" by simp
    note bal = get_account_balance_Inr[OF g[unfolded Inr]] get_account_balance_reported[OF g[unfolded Inr]]
    show thesis
    proof (cases r1)
      case (Inl e)
      then have "e = RedisError" "ex_redis ex (w_redis w0) now ?c1 = R_FAIL"
        using c1 by (auto simp: redis_call_def Let_def split: if_splits)
      moreover from this have "res = Inl RedisError" "w' = w1"
        using assms Some Inl \<open>r0 = Inr balance\<close> g c1
        unfolding process_signal_def publish_balance_snapshot_def by simp_all
      ultimately show thesis using that(3)[OF Some, of ?h] hh g' h1 by auto
    next
      case r1: (Inr b)
      obtain r2 w2 where c2: "redis_call ex now (nx_command (sig_id signal)) w1 = (r2, w2)" by fastforce
      note h2 = redis_call_history[OF c2]
      have rest: "process_signal ex config ok sid now w =
        then_do (r2, w2) (\<lambda>was_set w.
                 if sig_action signal = SELL
                 then handle_exit_signal ex config ok signal (signal_view signal)
                        (signal_account config balance now (w_db w)) (\<not> was_set) now w
                 else handle_entry_signal ex config ok signal (signal_view signal)
                        (signal_account config balance now (w_db w)) (\<not> was_set)
                        (load_expectancy_state (sig_setup_regime signal) (sig_trade_score signal) (w_db w))
                        now w)"
        using Some g Inr c1 r1 c2
        unfolding process_signal_def publish_balance_snapshot_def signal_account_def Let_def
          signal_view_sel by simp
      show thesis
      proof (cases r2)
        case (Inl e)
        then have "e = RedisError" "ex_redis ex (w_redis w1) now (nx_command (sig_id signal)) = R_FAIL"
          using c2 by (auto simp: redis_call_def Let_def split: if_splits)
        moreover from this have "res = Inl RedisError" "w' = w2" using rest assms Inl by simp_all
        ultimately show thesis
          using that(3)[OF Some, of "?h @ [(now, nx_command (sig_id signal), R_FAIL)]"] hh g' h1 h2 by auto
      next
        case (Inr was_set)
        have eqs: "w_db w2 = w_db w" "w_saved w2 = w_saved w" "w_ft w2 = w_ft w @ [FT_balance]"
          "w_redis w2 = w_redis w @ ?h @ [(now, nx_command (sig_id signal),
                     ex_redis ex (w_redis w @ ?h) now (nx_command (sig_id signal)))]"
          "(\<not> was_set) \<longleftrightarrow> ex_redis ex (w_redis w @ ?h) now (nx_command (sig_id signal)) \<noteq> R_OK"
          using g' h1 h2 Inr by auto
        show thesis
        proof (cases "sig_action signal = SELL")
          case True
          with rest Inr assms have "handle_exit_signal ex config ok signal (signal_view signal)
             (signal_account config balance now (w_db w)) (\<not> was_set) now w2 = (res, w')"
            using eqs(1) by simp
          from that(4)[OF Some True eqs(1-3) hh eqs(4,5) this] show thesis .
        next
          case False
          with rest Inr assms have "handle_entry_signal ex config ok signal (signal_view signal)
             (signal_account config balance now (w_db w)) (\<not> was_set)
             (load_expectancy_state (sig_setup_regime signal) (sig_trade_score signal) (w_db w)) now w2
             = (res, w')"
            using eqs(1) by simp
          from that(5)[OF Some False eqs(1-3) hh eqs(4,5) this bal(1,2,4)] show thesis .
        qed
      qed
    qed
  qed
qed

end
