(* ===== verification/Risk_Properties.thy ===== *)
theory Risk_Properties
  imports Risk_Main
begin

text \<open>
  The properties of the signal processing of the risk engine, one delivery at a time and over any
  sequence of deliveries, redeliveries included.
\<close>

section \<open>One signal\<close>

lemma entry_result_gates:
  assumes "R = signal_entry_result config balance signal dup now d" "rdr_approved R"
  obtains z where
    "compute_sizing (bal_equity_usdt balance) (bal_free_balance_usdt balance) (sig_price signal)
       (sig_atr_14 signal) (sig_confidence signal) config = Inr z"
    "rdr_position_size_usdt R = Some (sz_position_size_usdt z)"
    "rdr_stop_loss_price R = Some (sz_stop_loss_price z)"
    "\<not> is_enabled d" "\<not> dup" "sig_action signal \<noteq> HOLD"
    "now - sig_candle_ts signal \<le> minutes (signal_max_age_minutes config)"
    "min_confidence config \<le> sig_confidence signal"
    "sig_symbol signal \<notin> pos_symbol ` set (open_positions d)"
    "int (card (pos_symbol ` set (open_positions d))) < max_open_positions config"
    "sz_position_size_usdt z \<le> bal_free_balance_usdt balance"
proof -
  let ?a = "signal_account config balance now d"
  let ?x = "load_expectancy_state (sig_setup_regime signal) (sig_trade_score signal) d"
  have acc: "ac_equity_usdt ?a = bal_equity_usdt balance" "ac_free_balance_usdt ?a = bal_free_balance_usdt balance"
    "ac_open_position_symbols ?a = pos_symbol ` set (open_positions d)"
    by (simp_all add: signal_account_def load_account_state_sel)
  have atr: "sv_atr_14 (signal_view signal) = sig_atr_14 signal" by (simp add: signal_view_def)
  from assms obtain z where
    z: "compute_sizing (ac_equity_usdt ?a) (ac_free_balance_usdt ?a) (sv_price (signal_view signal))
          (sv_atr_14 (signal_view signal)) (sv_confidence (signal_view signal)) config = Inr z" and
    R: "R = approved_result (ac_equity_usdt ?a) z (build_expectancy_check
          (context_of (signal_view signal) ?a config now (is_enabled d) dup ?x z))" and
    g: "\<forall>r \<in> set RULES_IN_ORDER. r (context_of (signal_view signal) ?a config now (is_enabled d) dup ?x z) = None"
    unfolding signal_entry_result_def by (metis entry_result_approved)
  note g' = g[unfolded gate_conditions Let_def context_of_sel signal_view_sel acc]
  show thesis
    by (rule that[of z]) (use z R g' acc atr in simp_all)
qed

lemma process_signal_entry:
  assumes "process_signal ex config ok sid now w = (res, w')"
    and "entries_sent (w_ft w') \<noteq> entries_sent (w_ft w)"
  obtains signal balance h rs where
    "get_signal (w_db w) sid = Some signal" "sig_action signal \<noteq> SELL"
    "rdr_approved (signal_entry_result config balance signal False now (w_db w))"
    "w_redis w' = w_redis w @ h @ (now, nx_command (sig_id signal), R_OK) # rs"
    "harmless now h" "harmless now rs"
    "ex_redis ex (w_redis w @ h) now (nx_command (sig_id signal)) = R_OK"
    "\<exists>ks. w_ft w' = w_ft w @ [FT_balance] @
           entry_requests signal (signal_entry_result config balance signal False now (w_db w)) @ ks
         \<and> entries_sent ks = 0"
    "0 \<le> bal_free_balance_usdt balance" "bal_free_balance_usdt balance \<le> bal_equity_usdt balance"
    "balance_reported ex (w_ft w) balance"
  using assms(1)
proof (cases rule: process_signal_cases)
  case (no_balance signal w1)
  with assms(2) show ?thesis using record_balance_unavailable_effect[OF no_balance(7)] by simp
next
  case (exit signal balance h w2 dup)
  with assms(2) show ?thesis using handle_exit_signal_effect[OF exit(9) refl] by simp
next
  case (entry signal balance h w2 dup)
  let ?R = "signal_entry_result config balance signal dup now (w_db w)"
  have R: "?R = entry_result (signal_view signal) (signal_account config balance now (w_db w)) config now
      (is_enabled (w_db w2)) dup
      (load_expectancy_state (sig_setup_regime signal) (sig_trade_score signal) (w_db w))"
    by (simp add: signal_entry_result_def entry(3))
  note eff = handle_entry_signal_effect[OF entry(9) R]
  from eff(1) entry(5) have ft: "\<exists>ks. w_ft w' = w_ft w @ [FT_balance] @ entry_requests signal ?R @ ks
      \<and> entries_sent ks = 0" by simp
  with assms(2) have ap: "rdr_approved ?R" by (auto split: if_splits)
  from entry_result_gates[OF refl this] have "\<not> dup" by blast
  with entry(8) have ok: "ex_redis ex (w_redis w @ h) now (nx_command (sig_id signal)) = R_OK" by simp
  from eff(2) obtain rs where rs: "w_redis w' = w_redis w2 @ rs"
    "\<forall>e \<in> set rs. fst e = now \<and> fst (snd e) = R_SET K_killswitch_global (JStr ''1'') None" by blast
  then have "harmless now rs" by (auto simp: harmless_def)
  moreover have "w_redis w' = w_redis w @ h @ (now, nx_command (sig_id signal), R_OK) # rs"
    using rs(1) entry(7) ok by simp
  moreover have "dup = False" using \<open>\<not> dup\<close> by simp
  ultimately show ?thesis using that[of signal balance h rs] entry(1,2,6,10-12) ap ft ok by simp
qed (use assms(2) in simp_all)


section \<open>Sequences of deliveries\<close>

text \<open>
  A delivery: whether its commit succeeds, the stream entry, the field it carries, the time.  The
  environment configuration is fixed for the process.
\<close>

type_synonym delivery = "bool \<times> nat \<times> message_field \<times> datetime"

fun deliver :: "externals \<Rightarrow> RiskConfig \<Rightarrow> delivery \<Rightarrow> world \<Rightarrow> world" where
  "deliver ex env (ok, mid, field, now) w = snd (handle_message ex env ok mid field now w)"

fun delivery_time :: "delivery \<Rightarrow> datetime" where
  "delivery_time (ok, mid, field, now) = now"

fun delivers :: "nat \<Rightarrow> delivery \<Rightarrow> bool" where
  "delivers s (ok, mid, field, now) \<longleftrightarrow> field = SignalField s"

text \<open>How many entries the deliveries of one signal have sent to Freqtrade.\<close>

fun entries_for :: "externals \<Rightarrow> RiskConfig \<Rightarrow> nat \<Rightarrow> delivery list \<Rightarrow> world \<Rightarrow> nat" where
  "entries_for ex env s [] w = 0"
| "entries_for ex env s (dl # dls) w =
     (if delivers s dl then entries_sent (w_ft (deliver ex env dl w)) - entries_sent (w_ft w) else 0)
     + entries_for ex env s dls (deliver ex env dl w)"

text \<open>
  What Redis documents of \<open>SET key value NX EX ttl\<close>: after a success, and as long as nobody
  overwrites or deletes the key, it does not succeed again before the time to live is over.
\<close>

definition nx_law :: "externals \<Rightarrow> bool" where
  "nx_law ex \<longleftrightarrow>
     (\<forall>pre post k v ttl v' ttl' t now.
        (\<forall>e \<in> set post. \<not> overwrites k (fst (snd e))) \<and> t \<le> now \<and> now < t + seconds ttl \<longrightarrow>
        ex_redis ex (pre @ (t, R_SET_NX k v ttl, R_OK) # post) now (R_SET_NX k v' ttl') \<noteq> R_OK)"

definition claimed :: "nat \<Rightarrow> datetime \<Rightarrow> redis_history \<Rightarrow> bool" where
  "claimed s t hist \<longleftrightarrow>
     (\<exists>pre post. hist = pre @ (t, nx_command s, R_OK) # post \<and>
                 (\<forall>e \<in> set post. \<not> overwrites (K_decision_idempotency s) (fst (snd e))))"

lemma claimed_append: "claimed s t hist \<Longrightarrow> harmless now rs \<Longrightarrow> claimed s t (hist @ rs)"
proof -
  assume "claimed s t hist" and h: "harmless now rs"
  then obtain pre post where "hist = pre @ (t, nx_command s, R_OK) # post"
    "\<forall>e \<in> set post. \<not> overwrites (K_decision_idempotency s) (fst (snd e))" by (auto simp: claimed_def)
  then have "hist @ rs = pre @ (t, nx_command s, R_OK) # (post @ rs)
    \<and> (\<forall>e \<in> set (post @ rs). \<not> overwrites (K_decision_idempotency s) (fst (snd e)))"
    using h by (auto simp: harmless_def)
  then show ?thesis unfolding claimed_def by blast
qed

lemma claimed_refuses:
  assumes "nx_law ex" "claimed s t hist" "t \<le> now" "now < t + seconds DECISION_IDEMPOTENCY_TTL_SECONDS"
  shows "ex_redis ex hist now (nx_command s) \<noteq> R_OK"
  using assms unfolding nx_law_def claimed_def by blast

lemma process_signal_frame:
  assumes "process_signal ex config ok sid now w = (res, w')"
  shows "(\<exists>rs. w_redis w' = w_redis w @ rs \<and> harmless now rs) \<and>
    db_signals (w_saved w') \<in> {db_signals (w_db w), db_signals (w_saved w)} \<and>
    db_risk_overrides (w_saved w') \<in> {db_risk_overrides (w_db w), db_risk_overrides (w_saved w)}"
  using assms
proof (cases rule: process_signal_cases)
  case (no_balance signal w1)
  with record_balance_unavailable_effect[OF no_balance(7)] show ?thesis
    by (cases "res = Inr ()") (auto simp: decided_def intro!: exI[of _ "[]"])
next
  case (exit signal balance h w2 dup)
  let ?e = "(now, nx_command (sig_id signal), ex_redis ex (w_redis w @ h) now (nx_command (sig_id signal)))"
  have "harmless now (h @ [?e])" using exit(6) by simp
  moreover have "w_redis w' = w_redis w @ h @ [?e]"
    using handle_exit_signal_effect[OF exit(9) refl] exit(7) by simp
  ultimately have "\<exists>rs. w_redis w' = w_redis w @ rs \<and> harmless now rs" by blast
  then show ?thesis using handle_exit_signal_effect[OF exit(9) refl] exit(3,4)
    by (cases "res = Inr ()") (auto simp: decided_def)
next
  case (entry signal balance h w2 dup)
  let ?e = "(now, nx_command (sig_id signal), ex_redis ex (w_redis w @ h) now (nx_command (sig_id signal)))"
  note eff = handle_entry_signal_effect[OF entry(9) refl]
  from eff(2) obtain rs where rs: "w_redis w' = w_redis w2 @ rs"
    "\<forall>e \<in> set rs. fst e = now \<and> fst (snd e) = R_SET K_killswitch_global (JStr ''1'') None" by blast
  then have "harmless now ((h @ [?e]) @ rs)" using entry(6) by (auto simp: harmless_def)
  moreover have "w_redis w' = w_redis w @ (h @ [?e]) @ rs" using rs(1) entry(7) by simp
  ultimately have "\<exists>rs. w_redis w' = w_redis w @ rs \<and> harmless now rs" by blast
  then show ?thesis using eff(3,4) entry(3,4)
    by (cases "res = Inr ()") (auto simp: decided_def)
qed auto

text \<open>The world between deliveries: the session's view is what is committed.\<close>

lemma deliver_effect:
  assumes "deliver ex env (ok, mid, field, now) w = w'" "w_db w = w_saved w"
    and "load_effective_risk_config env (w_db w) = Inr config"
  shows "w_db w' = w_saved w' \<and> db_signals (w_db w') = db_signals (w_db w) \<and>
    db_risk_overrides (w_db w') = db_risk_overrides (w_db w) \<and>
    (\<exists>rs. w_redis w' = w_redis w @ rs \<and> harmless now rs) \<and>
    (entries_sent (w_ft w') = entries_sent (w_ft w) \<or>
     (\<exists>sid res w1 rs. field = SignalField sid \<and> process_signal ex config ok sid now w = (res, w1) \<and>
        w_ft w' = w_ft w1 \<and> w_redis w' = w_redis w1 @ rs \<and> harmless now rs \<and>
        entries_sent (w_ft w1) \<noteq> entries_sent (w_ft w)))"
proof (cases field)
  case MissingField
  obtain r w1 where c: "redis_call ex now (R_XACK mid) w = (r, w1)" by fastforce
  have "w' = w1" using assms(1) MissingField c
    by (cases r) (auto simp: handle_message_def)
  with redis_call_history[OF c] assms(2) show ?thesis by auto
next
  case BadField
  have "w' = w\<lparr>w_db := w_saved w\<rparr>"
    using assms BadField by (auto simp: handle_message_def run_session_def)
  with assms(2) show ?thesis by (auto intro!: exI[of _ "[]"])
next
  case (SignalField sid)
  obtain res w1 where p: "process_signal ex config ok sid now w = (res, w1)" by fastforce
  let ?w1 = "w1\<lparr>w_db := w_saved w1\<rparr>"
  note fr = process_signal_frame[OF p]
  have run: "w' = (case then_do (res, ?w1)
      (\<lambda>_ w. then_do (redis_call ex now (R_XACK mid) w) (\<lambda>_ w. (Inr (), w))) of (_, w) \<Rightarrow> w)"
    using assms(1,3) SignalField p by (auto simp: handle_message_def run_session_def split: prod.splits)
  have "\<exists>rs. w_redis w' = w_redis w1 @ rs \<and> harmless now rs \<and> w_ft w' = w_ft w1 \<and>
      w_saved w' = w_saved w1 \<and> w_db w' = w_saved w1"
  proof (cases res)
    case (Inl e)
    with run show ?thesis by (auto intro!: exI[of _ "[]"])
  next
    case (Inr u)
    obtain r w2 where c: "redis_call ex now (R_XACK mid) ?w1 = (r, w2)" by fastforce
    have "w' = w2" using run Inr c by (cases r) auto
    with redis_call_history[OF c] show ?thesis by auto
  qed
  then obtain rs where rs: "w_redis w' = w_redis w1 @ rs" "harmless now rs" "w_ft w' = w_ft w1"
      "w_saved w' = w_saved w1" "w_db w' = w_saved w1" by blast
  from fr obtain rs1 where "w_redis w1 = w_redis w @ rs1" "harmless now rs1" by blast
  then have "\<exists>rs. w_redis w' = w_redis w @ rs \<and> harmless now rs"
    using rs by (intro exI[of _ "rs1 @ rs"]) simp
  with rs fr assms(2) p SignalField show ?thesis by auto
qed


lemma get_signal_id: "get_signal d s = Some signal \<Longrightarrow> sig_id signal = s"
  by (auto simp: get_signal_def find_Some_iff)

lemma get_signal_cong: "db_signals d' = db_signals d \<Longrightarrow> get_signal d' s = get_signal d s"
  by (simp add: get_signal_def)

lemma load_config_cong:
  "db_risk_overrides d' = db_risk_overrides d \<Longrightarrow>
     load_effective_risk_config env d' = load_effective_risk_config env d"
  by (simp add: load_effective_risk_config_def)

text \<open>What a delivery that sends an entry requires and leaves.\<close>

lemma deliver_entry:
  assumes "deliver ex env dl w = w'" "w_db w = w_saved w"
    and "load_effective_risk_config env (w_db w) = Inr config"
    and "entries_sent (w_ft w') \<noteq> entries_sent (w_ft w)" "delivers s dl"
  obtains signal h where "get_signal (w_db w) s = Some signal"
    "entries_sent (w_ft w') = entries_sent (w_ft w) + 1"
    "delivery_time dl - sig_candle_ts signal \<le> minutes (signal_max_age_minutes config)"
    "harmless (delivery_time dl) h"
    "ex_redis ex (w_redis w @ h) (delivery_time dl) (nx_command s) = R_OK"
    "claimed s (delivery_time dl) (w_redis w')"
proof -
  obtain ok mid field now where dl: "dl = (ok, mid, field, now)" by (cases dl) auto
  have field: "field = SignalField s" using assms(5) dl by simp
  from deliver_effect[OF assms(1)[unfolded dl] assms(2,3)] assms(4) field obtain res w1 rs where
    p: "process_signal ex config ok s now w = (res, w1)" and w1: "w_ft w' = w_ft w1"
    "w_redis w' = w_redis w1 @ rs" "harmless now rs"
    and ne: "entries_sent (w_ft w1) \<noteq> entries_sent (w_ft w)" by auto
  from p ne obtain signal balance h rs' where
    sg: "get_signal (w_db w) s = Some signal" and
    ap: "rdr_approved (signal_entry_result config balance signal False now (w_db w))" and
    hist: "w_redis w1 = w_redis w @ h @ (now, nx_command (sig_id signal), R_OK) # rs'"
      "harmless now h" "harmless now rs'"
      "ex_redis ex (w_redis w @ h) now (nx_command (sig_id signal)) = R_OK" and
    ft: "\<exists>ks. w_ft w1 = w_ft w @ [FT_balance] @
           entry_requests signal (signal_entry_result config balance signal False now (w_db w)) @ ks
         \<and> entries_sent ks = 0"
    by (rule process_signal_entry)
  have id: "sig_id signal = s" by (rule get_signal_id[OF sg])
  from entry_result_gates[OF refl ap]
  have fresh: "now - sig_candle_ts signal \<le> minutes (signal_max_age_minutes config)" by blast
  have "w_redis w' = (w_redis w @ h) @ (now, nx_command s, R_OK) # (rs' @ rs)
      \<and> (\<forall>e \<in> set (rs' @ rs). \<not> overwrites (K_decision_idempotency s) (fst (snd e)))"
    using w1 hist id by (auto simp: harmless_def)
  then have "claimed s now (w_redis w')" unfolding claimed_def by blast
  moreover have "entries_sent (w_ft w') = entries_sent (w_ft w) + 1" using ft ap w1(1) by auto
  ultimately show thesis using that sg fresh hist id dl by simp
qed

lemma claimed_no_more_entries:
  assumes "nx_law ex" "claimed s t (w_redis w)" "w_db w = w_saved w"
    "load_effective_risk_config env (w_db w) = Inr config" "signal_max_age_minutes config < 24 * 60"
    "\<forall>signal. get_signal (w_db w) s = Some signal \<longrightarrow> sig_candle_ts signal \<le> t"
    "\<forall>dl \<in> set dls. t \<le> delivery_time dl"
  shows "entries_for ex env s dls w = 0"
  using assms(2-4,6,7)
proof (induction dls arbitrary: w)
  case (Cons dl dls)
  obtain ok mid field now where dl: "dl = (ok, mid, field, now)" by (cases dl) auto
  let ?w' = "deliver ex env dl w"
  note eff = deliver_effect[OF refl Cons.prems(2,3), of ex ok mid field now, folded dl]
  have here: "delivers s dl \<longrightarrow> entries_sent (w_ft ?w') = entries_sent (w_ft w)"
  proof (rule ccontr)
    assume "\<not> ?thesis"
    then have d: "delivers s dl" "entries_sent (w_ft ?w') \<noteq> entries_sent (w_ft w)" by auto
    from deliver_entry[OF refl Cons.prems(2,3) d(2,1)] obtain signal h where
      sg: "get_signal (w_db w) s = Some signal" and
      fresh: "now - sig_candle_ts signal \<le> minutes (signal_max_age_minutes config)" and
      h: "harmless now h" and ok: "ex_redis ex (w_redis w @ h) now (nx_command s) = R_OK"
      unfolding dl delivery_time.simps by blast
    have "sig_candle_ts signal \<le> t" "t \<le> now" using Cons.prems(4,5) sg dl by auto
    moreover have "claimed s t (w_redis w @ h)" by (rule claimed_append[OF Cons.prems(1) h])
    ultimately have "t + seconds DECISION_IDEMPOTENCY_TTL_SECONDS \<le> now"
      using claimed_refuses[OF assms(1)] ok by fastforce
    with fresh \<open>sig_candle_ts signal \<le> t\<close>
    have "seconds DECISION_IDEMPOTENCY_TTL_SECONDS \<le> minutes (signal_max_age_minutes config)" by linarith
    with assms(5) show False
      by (simp add: seconds_def minutes_def DECISION_IDEMPOTENCY_TTL_SECONDS_def)
  qed
  have "entries_for ex env s dls ?w' = 0"
  proof (rule Cons.IH)
    show "claimed s t (w_redis ?w')" using eff Cons.prems(1) claimed_append by auto
    show "w_db ?w' = w_saved ?w'" using eff by blast
    show "load_effective_risk_config env (w_db ?w') = Inr config"
      using eff Cons.prems(3) load_config_cong by metis
    show "\<forall>signal. get_signal (w_db ?w') s = Some signal \<longrightarrow> sig_candle_ts signal \<le> t"
      using eff Cons.prems(4) get_signal_cong by metis
    show "\<forall>dl \<in> set dls. t \<le> delivery_time dl" using Cons.prems(5) by simp
  qed
  with here show ?case by simp
qed simp

text \<open>
  C1. However often the stream delivers a signal, at whatever times and in whatever company of
  other signals, failed commits included, at most one entry is sent to Freqtrade for it: the
  claim on its Redis key keeps redeliveries out for a day, and after that its candle is stale.
\<close>

theorem at_most_one_entry:
  assumes "nx_law ex" "w_db w = w_saved w"
    and "load_effective_risk_config env (w_db w) = Inr config" "signal_max_age_minutes config < 24 * 60"
    and "sorted (map delivery_time dls)"
    and "\<forall>signal. get_signal (w_db w) s = Some signal \<longrightarrow>
           (\<forall>dl \<in> set dls. sig_candle_ts signal \<le> delivery_time dl)"
  shows "entries_for ex env s dls w \<le> 1"
  using assms(2,3,5,6)
proof (induction dls arbitrary: w)
  case (Cons dl dls)
  obtain ok mid field now where dl: "dl = (ok, mid, field, now)" by (cases dl) auto
  let ?w' = "deliver ex env dl w"
  note eff = deliver_effect[OF refl Cons.prems(1,2), of ex ok mid field now, folded dl]
  have sg: "get_signal (w_db ?w') s = get_signal (w_db w) s"
    using eff get_signal_cong by blast
  have w': "w_db ?w' = w_saved ?w'" "load_effective_risk_config env (w_db ?w') = Inr config"
    using eff Cons.prems(2) load_config_cong[of "w_db ?w'" "w_db w" env] by (blast, metis)
  have cs: "\<forall>signal. get_signal (w_db ?w') s = Some signal \<longrightarrow>
       (\<forall>dl \<in> set dls. sig_candle_ts signal \<le> delivery_time dl)"
    "\<forall>signal. get_signal (w_db ?w') s = Some signal \<longrightarrow> sig_candle_ts signal \<le> delivery_time dl"
    unfolding sg using Cons.prems(4) by simp_all
  show ?case
  proof (cases "delivers s dl \<and> entries_sent (w_ft ?w') \<noteq> entries_sent (w_ft w)")
    case False
    moreover have "entries_for ex env s dls ?w' \<le> 1"
      using Cons.IH[OF w' _ cs(1)] Cons.prems(3) by simp
    ultimately show ?thesis by auto
  next
    case True
    from deliver_entry[OF refl Cons.prems(1,2), of ex dl s] True
    have one: "entries_sent (w_ft ?w') = entries_sent (w_ft w) + 1"
      and cl: "claimed s (delivery_time dl) (w_redis ?w')" by blast+
    have "entries_for ex env s dls ?w' = 0"
      using Cons.prems(3) by (intro claimed_no_more_entries[OF assms(1) cl w' assms(4) cs(2)]) auto
    with one show ?thesis by simp
  qed
qed simp


definition sample_row :: signal_row where
  "sample_row =
     \<lparr>sig_id = 7, sig_trace_id = 70, sig_symbol = ''BTC/USDT'', sig_timeframe = ''1h'',
      sig_candle_ts = minutes 1000, sig_action = BUY, sig_confidence = 85 / 100,
      sig_reasoning = [], sig_model_name = ''m'', sig_raw_response = JNull,
      sig_model_input = JNull, sig_price = 60000, sig_atr_14 = 900, sig_status = PENDING,
      sig_trade_score = Some 72, sig_score_breakdown = JNull,
      sig_setup_regime = Some ''TREND_UP'', sig_volatility_regime = None,
      sig_created_at = minutes 1001\<rparr>"

definition sample_world :: world where
  "sample_world =
     (let d = empty_db\<lparr>db_signals := [sample_row], db_next_id := 100\<rparr>
      in \<lparr>w_db = d, w_saved = d, w_redis = [], w_ft = []\<rparr>)"

definition sample_deliveries :: "delivery list" where
  "sample_deliveries =
     [(False, 1, SignalField 7, minutes 1010), (True, 2, SignalField 7, minutes 1011)]"

lemma sample_nx_law: "nx_law sample_externals"
  by (auto simp: nx_law_def sample_externals_def)

lemma sample_load: "load_effective_risk_config RiskConfig_defaults (w_db sample_world) = Inr RiskConfig_defaults"
  using RiskConfig_of_dump[OF RiskConfig_defaults_cluster]
  by (simp add: load_effective_risk_config_def sample_world_def Let_def empty_db_def)

definition sample_balance :: "datetime \<Rightarrow> AccountBalanceSnapshot" where
  "sample_balance t = \<lparr>bal_equity_usdt = 1000, bal_free_balance_usdt = 800, bal_captured_at = t\<rparr>"

lemma sample_approved:
  "rdr_approved (signal_entry_result RiskConfig_defaults (sample_balance t) sample_row False
     (minutes 1010) (w_db sample_world))"
proof -
  let ?d = "w_db sample_world"
  let ?a = "signal_account RiskConfig_defaults (sample_balance t) (minutes 1010) ?d"
  let ?x = "load_expectancy_state (sig_setup_regime sample_row) (sig_trade_score sample_row) ?d"
  let ?ctx = "context_of (signal_view sample_row) ?a RiskConfig_defaults (minutes 1010) False False ?x sample_size"
  have d: "db_positions ?d = []" "db_system_state ?d = None"
    by (simp_all add: sample_world_def empty_db_def Let_def)
  have acc: "ac_equity_usdt ?a = 1000" "ac_free_balance_usdt ?a = 800" "ac_open_position_symbols ?a = {}"
    "ac_total_exposure_usdt ?a = 0" "ac_daily_pnl_pct ?a = 0" "ac_consecutive_losses ?a = 0"
    "ac_symbol_last_closed_at ?a = Map.empty"
    by (simp_all add: signal_account_def load_account_state_def Let_def open_positions_def closed_desc_def d
        count_consecutive_losses_def sample_balance_def)
  have sz: "compute_sizing (ac_equity_usdt ?a) (ac_free_balance_usdt ?a) (sv_price (signal_view sample_row))
      (sv_atr_14 (signal_view sample_row)) (sv_confidence (signal_view sample_row)) RiskConfig_defaults
      = Inr sample_size"
    using sample_sizing by (simp add: acc sample_account_def sample_signal_def signal_view_def sample_row_def)
  have "dec (0 + sz_position_size_usdt sample_size) \<le> dec (max_total_exposure_pct RiskConfig_defaults * 1000)"
    "dec (- max_daily_loss_pct RiskConfig_defaults) < 0" by code_simp+
  then have "\<forall>r \<in> set RULES_IN_ORDER. r ?ctx = None"
    unfolding gate_conditions Let_def
    by (simp add: acc) (simp add: sample_row_def RiskConfig_defaults_def sample_size_def minutes_def)
  then show ?thesis
    using sz d by (simp add: signal_entry_result_def entry_result_def evaluate_def is_enabled_def
        decision_of_approved)
qed

text \<open>The first delivery of the sample signal sends an entry.\<close>

lemma sample_process:
  assumes "process_signal sample_externals RiskConfig_defaults ok 7 (minutes 1010) sample_world = (res, w')"
  shows "entries_sent (w_ft w') = 1"
proof -
  let ?now = "minutes 1010"
  let ?b = "sample_balance ?now"
  let ?c1 = "R_SET K_account_balance (snapshot_json ?b) (Some ACCOUNT_BALANCE_SNAPSHOT_TTL_SECONDS)"
  let ?w1 = "sample_world\<lparr>w_ft := [FT_balance], w_redis := [(?now, ?c1, R_OK)]\<rparr>"
  let ?w2 = "?w1\<lparr>w_redis := [(?now, ?c1, R_OK), (?now, nx_command 7, R_OK)]\<rparr>"
  let ?d = "w_db sample_world"
  let ?R = "signal_entry_result RiskConfig_defaults ?b sample_row False ?now ?d"
  have row: "get_signal ?d 7 = Some sample_row"
    by (simp add: get_signal_def sample_world_def Let_def sample_row_def)
  have sw: "w_ft sample_world = []" "w_redis sample_world = []"
    by (simp_all add: sample_world_def Let_def)
  have bal: "get_account_balance sample_externals ?now sample_world
      = (Inr ?b, sample_world\<lparr>w_ft := [FT_balance]\<rparr>)"
    by (simp add: get_account_balance_def ft_call_def sample_externals_def valid_balances_def
        make_balance_snapshot_def sample_balance_def sw Let_def)
  have pub: "publish_balance_snapshot sample_externals ?now sample_world = (Inr ?b, ?w1)"
    by (simp add: publish_balance_snapshot_def bal redis_call_def Let_def sw)
       (simp add: sample_externals_def)
  have nx: "redis_call sample_externals ?now (nx_command (sig_id sample_row)) ?w1 = (Inr True, ?w2)"
    by (simp add: redis_call_def Let_def sample_externals_def sample_row_def)
  have "handle_entry_signal sample_externals RiskConfig_defaults ok sample_row (signal_view sample_row)
      (signal_account RiskConfig_defaults ?b ?now ?d) False
      (load_expectancy_state (sig_setup_regime sample_row) (sig_trade_score sample_row) ?d) ?now ?w2 = (res, w')"
    using assms unfolding process_signal_def row
    by (simp add: pub nx signal_account_def) (simp add: sample_row_def)
  moreover have "?R = entry_result (signal_view sample_row) (signal_account RiskConfig_defaults ?b ?now ?d)
      RiskConfig_defaults ?now (is_enabled (w_db ?w2)) False
      (load_expectancy_state (sig_setup_regime sample_row) (sig_trade_score sample_row) ?d)"
    by (simp add: signal_entry_result_def)
  ultimately obtain ks where "w_ft w' = w_ft ?w2 @ entry_requests sample_row ?R @ ks" "entries_sent ks = 0"
    using handle_entry_signal_effect(1) by blast
  then show ?thesis by (simp add: sample_approved)
qed

theorem at_most_one_entry_witness:
  "entries_for sample_externals RiskConfig_defaults 7 sample_deliveries sample_world = 1"
proof -
  have le: "entries_for sample_externals RiskConfig_defaults 7 sample_deliveries sample_world \<le> 1"
    by (rule at_most_one_entry[OF sample_nx_law _ sample_load])
       (auto simp: sample_world_def Let_def RiskConfig_defaults_def sample_deliveries_def get_signal_def
          sample_row_def minutes_def)
  let ?dl = "(False, 1, SignalField 7, minutes 1010) :: delivery"
  obtain res w1 where p: "process_signal sample_externals RiskConfig_defaults False 7 (minutes 1010) sample_world
      = (res, w1)" by fastforce
  have "w_ft (deliver sample_externals RiskConfig_defaults ?dl sample_world) = w_ft w1"
    by (auto simp: handle_message_def run_session_def sample_load p then_do_def redis_call_def Let_def
        split: sum.splits)
  with sample_process[OF p] have "1 \<le> entries_for sample_externals RiskConfig_defaults 7 sample_deliveries sample_world"
    by (simp add: sample_deliveries_def sample_world_def Let_def)
  with le show ?thesis by simp
qed

section \<open>Safety of one signal\<close>

text \<open>
  C2. Every entry request is backed by an approval: a signal that makes the engine ask Freqtrade
  to enter is a known BUY, the kill switch is off, the signal is fresh and confident enough, its
  symbol has no open position and there is room for one more, and the request it sends names the
  computed size and carries the computed stop as its tag.  The size is at most the free amount of
  the one USDT stake row in the reply Freqtrade gives to the balance request of this very signal,
  and it is computed from that amount and from the total of the same reply.
\<close>

theorem entry_request_approved:
  assumes "process_signal ex config ok sid now w = (res, w')"
    and "entries_sent (w_ft w') \<noteq> entries_sent (w_ft w)"
  shows "\<exists>signal (reply :: FreqtradeBalances) (row :: FreqtradeCurrencyBalance) (z :: SizingResult).
    ex_balance ex (w_ft w) FT_balance = Body reply \<and> valid_balances reply \<and> fb_stake reply = ''USDT'' \<and>
    filter (\<lambda>r. fc_currency r = ''USDT'' \<and> fc_stake r = ''USDT'') (fb_currencies reply) = [row] \<and>
    get_signal (w_db w) sid = Some signal \<and> sig_action signal = BUY \<and> \<not> is_enabled (w_db w) \<and>
    now - sig_candle_ts signal \<le> minutes (signal_max_age_minutes config) \<and>
    min_confidence config \<le> sig_confidence signal \<and>
    sig_symbol signal \<notin> pos_symbol ` set (open_positions (w_db w)) \<and>
    int (card (pos_symbol ` set (open_positions (w_db w)))) < max_open_positions config \<and>
    compute_sizing (fb_total reply) (fc_free row) (sig_price signal)
      (sig_atr_14 signal) (sig_confidence signal) config = Inr z \<and>
    sz_position_size_usdt z \<le> fc_free row \<and> fc_free row \<le> fb_total reply \<and>
    (\<exists>ks. w_ft w' = w_ft w @
         [FT_balance, FT_forceenter (sig_symbol signal) (flt (sz_position_size_usdt z))
            (map_option TagSlpct (entry_stop_distance signal (Some (sz_stop_loss_price z))))] @ ks
       \<and> entries_sent ks = 0)"
proof -
  from assms obtain signal balance where
    sg: "get_signal (w_db w) sid = Some signal" "sig_action signal \<noteq> SELL" and
    ap: "rdr_approved (signal_entry_result config balance signal False now (w_db w))" and
    ft: "\<exists>ks. w_ft w' = w_ft w @ [FT_balance] @
           entry_requests signal (signal_entry_result config balance signal False now (w_db w)) @ ks
         \<and> entries_sent ks = 0" and
    le: "bal_free_balance_usdt balance \<le> bal_equity_usdt balance" and
    rep: "balance_reported ex (w_ft w) balance"
    by (rule process_signal_entry)
  from rep obtain reply row where reply: "ex_balance ex (w_ft w) FT_balance = Body reply"
    "valid_balances reply" "fb_stake reply = ''USDT''"
    "filter (\<lambda>r. fc_currency r = ''USDT'' \<and> fc_stake r = ''USDT'') (fb_currencies reply) = [row]"
    and eq: "bal_equity_usdt balance = fb_total reply" "bal_free_balance_usdt balance = fc_free row"
    unfolding balance_reported_def by blast
  let ?R = "signal_entry_result config balance signal False now (w_db w)"
  obtain z where
    z: "compute_sizing (bal_equity_usdt balance) (bal_free_balance_usdt balance) (sig_price signal)
       (sig_atr_14 signal) (sig_confidence signal) config = Inr z"
    "rdr_position_size_usdt ?R = Some (sz_position_size_usdt z)"
    "rdr_stop_loss_price ?R = Some (sz_stop_loss_price z)"
    "\<not> is_enabled (w_db w)" "\<not> False" "sig_action signal \<noteq> HOLD"
    "now - sig_candle_ts signal \<le> minutes (signal_max_age_minutes config)"
    "min_confidence config \<le> sig_confidence signal"
    "sig_symbol signal \<notin> pos_symbol ` set (open_positions (w_db w))"
    "int (card (pos_symbol ` set (open_positions (w_db w)))) < max_open_positions config"
    "sz_position_size_usdt z \<le> bal_free_balance_usdt balance"
    by (rule entry_result_gates[OF refl ap])
  have buy: "sig_action signal = BUY" using sg(2) z(6) by (cases "sig_action signal") auto
  have "entry_requests signal ?R = [FT_forceenter (sig_symbol signal) (flt (sz_position_size_usdt z))
            (map_option TagSlpct (entry_stop_distance signal (Some (sz_stop_loss_price z))))]"
    using ap z(2,3) by (simp add: entry_requests_def)
  with ft have req: "\<exists>ks. w_ft w' = w_ft w @
         [FT_balance, FT_forceenter (sig_symbol signal) (flt (sz_position_size_usdt z))
            (map_option TagSlpct (entry_stop_distance signal (Some (sz_stop_loss_price z))))] @ ks
       \<and> entries_sent ks = 0" by simp
  show ?thesis
    by (rule exI[of _ signal], rule exI[of _ reply], rule exI[of _ row], rule exI[of _ z])
       (use sg(1) buy z(1,4,7-11)[unfolded eq] le[unfolded eq] req reply in simp)
qed

text \<open>
  C7. Silence is never an outcome: a known signal that is processed without an exception leaves
  exactly one decision row for it, committed together with its approval or rejection event; one
  that fails leaves the committed state as it was, and with Redis reachable and a working commit
  no signal fails.
\<close>

theorem known_signal_is_decided:
  assumes "process_signal ex config ok sid now w = (res, w')" "get_signal (w_db w) sid = Some signal"
  shows "(if res = Inr ()
          then w_saved w' = w_db w' \<and> (\<exists>approved reason. decided signal approved reason (w_db w) (w_db w'))
          else w_saved w' = w_saved w) \<and>
         (ok \<and> (\<forall>h t c. ex_redis ex h t c \<noteq> R_FAIL) \<longrightarrow> res = Inr ())"
  using assms(1)
proof (cases rule: process_signal_cases)
  case unknown
  with assms(2) show ?thesis by simp
next
  case (no_balance s w1)
  with assms(2) record_balance_unavailable_effect[OF no_balance(7)] show ?thesis by auto
next
  case (redis_failed s rs)
  then have "\<not> (\<forall>h t c. ex_redis ex h t c \<noteq> R_FAIL)" by blast
  with redis_failed show ?thesis by auto
next
  case (exit s balance h w2 dup)
  then have "s = signal" using assms(2) by simp
  with handle_exit_signal_effect[OF exit(9) refl] exit(3,4) show ?thesis by auto
next
  case (entry s balance h w2 dup)
  then have s: "s = signal" using assms(2) by simp
  from handle_entry_signal_effect[OF entry(9) refl] entry(3,4) show ?thesis
    unfolding s by auto
qed

theorem known_signal_is_decided_witness:
  "\<exists>res w' approved reason.
     process_signal sample_externals RiskConfig_defaults True 7 (minutes 1010) sample_world = (res, w') \<and>
     decided sample_row approved reason (w_db sample_world) (w_db w')"
proof -
  obtain res w' where run: "process_signal sample_externals RiskConfig_defaults True 7 (minutes 1010) sample_world
      = (res, w')" by fastforce
  have row: "get_signal (w_db sample_world) 7 = Some sample_row"
    by (simp add: get_signal_def sample_world_def Let_def sample_row_def)
  have "ex_redis sample_externals h t c \<noteq> R_FAIL" for h t c
    by (cases c) (simp_all add: sample_externals_def)
  with known_signal_is_decided[OF run row] run show ?thesis by (metis (full_types))
qed


theorem entry_request_approved_witness:
  "\<exists>w' (z :: SizingResult).
     snd (process_signal sample_externals RiskConfig_defaults True 7 (minutes 1010) sample_world) = w' \<and>
     compute_sizing 1000 800 60000 900 (85 / 100) RiskConfig_defaults = Inr z \<and>
     sz_position_size_usdt z \<le> 800 \<and>
     FT_forceenter ''BTC/USDT'' (flt (sz_position_size_usdt z))
       (map_option TagSlpct (entry_stop_distance sample_row (Some (sz_stop_loss_price z)))) \<in> set (w_ft w')"
proof -
  obtain res w' where run: "process_signal sample_externals RiskConfig_defaults True 7 (minutes 1010) sample_world
      = (res, w')" by fastforce
  have "entries_sent (w_ft sample_world) = 0" by (simp add: sample_world_def Let_def)
  then have "entries_sent (w_ft w') \<noteq> entries_sent (w_ft sample_world)"
    using sample_process[OF run] by simp
  from entry_request_approved[OF run this]
  obtain signal and reply :: FreqtradeBalances and row :: FreqtradeCurrencyBalance and z :: SizingResult and ks
  where b: "ex_balance sample_externals (w_ft sample_world) FT_balance = Body reply"
    "filter (\<lambda>r. fc_currency r = ''USDT'' \<and> fc_stake r = ''USDT'') (fb_currencies reply) = [row]"
    "compute_sizing (fb_total reply) (fc_free row) (sig_price signal) (sig_atr_14 signal)
       (sig_confidence signal) RiskConfig_defaults = Inr z" "sz_position_size_usdt z \<le> fc_free row" and
    s: "get_signal (w_db sample_world) 7 = Some signal"
    "w_ft w' = w_ft sample_world @ [FT_balance, FT_forceenter (sig_symbol signal) (flt (sz_position_size_usdt z))
       (map_option TagSlpct (entry_stop_distance signal (Some (sz_stop_loss_price z))))] @ ks" by blast
  have "signal = sample_row" using s(1) by (simp add: get_signal_def sample_world_def Let_def sample_row_def)
  moreover have "fb_total reply = 1000" "fc_free row = 800"
    using b(1,2) by (auto simp: sample_externals_def)
  ultimately show ?thesis
    using s(2) b(3,4) run by (intro exI[of _ w'] exI[of _ z]) (simp add: sample_row_def)
qed

section \<open>The kill switch over any run\<close>

lemma process_signal_keeps_switch:
  assumes "process_signal ex config ok sid now w = (res, w')" "is_enabled (w_db w)" "is_enabled (w_saved w)"
  shows "is_enabled (w_saved w') \<and> entries_sent (w_ft w') = entries_sent (w_ft w)"
proof
  show "entries_sent (w_ft w') = entries_sent (w_ft w)"
  proof (rule ccontr)
    assume "entries_sent (w_ft w') \<noteq> entries_sent (w_ft w)"
    with assms(1) obtain signal balance where
      "rdr_approved (signal_entry_result config balance signal False now (w_db w))"
      by (rule process_signal_entry)
    from entry_result_gates[OF refl this] assms(2) show False by blast
  qed
  show "is_enabled (w_saved w')"
    using assms(1)
  proof (cases rule: process_signal_cases)
    case (no_balance signal w1)
    with record_balance_unavailable_effect[OF no_balance(7)] assms show ?thesis
      by (cases "res = Inr ()") (auto simp: decided_def)
  next
    case (exit signal balance h w2 dup)
    with handle_exit_signal_effect[OF exit(9) refl] assms show ?thesis
      by (cases "res = Inr ()") (auto simp: decided_def)
  next
    case (entry signal balance h w2 dup)
    with handle_entry_signal_effect(3,4)[OF entry(9) refl] assms show ?thesis
      by (cases "res = Inr ()") (auto simp: decided_def)
  qed (use assms in simp_all)
qed

lemma deliver_keeps_switch:
  assumes "w_db w = w_saved w" "is_enabled (w_db w)"
  shows "w_db (deliver ex env dl w) = w_saved (deliver ex env dl w) \<and>
    is_enabled (w_db (deliver ex env dl w)) \<and>
    entries_sent (w_ft (deliver ex env dl w)) = entries_sent (w_ft w)"
proof -
  obtain ok mid field now where dl: "dl = (ok, mid, field, now)" by (cases dl) auto
  let ?ack = "\<lambda>w. then_do (redis_call ex now (R_XACK mid) w) (\<lambda>_ w. (Inr (), w))"
  have ack: "w_db (snd (?ack v)) = w_db v \<and> w_saved (snd (?ack v)) = w_saved v \<and> w_ft (snd (?ack v)) = w_ft v" for v
    by (cases "redis_call ex now (R_XACK mid) v")
       (auto simp: then_do_def redis_call_def Let_def split: sum.splits if_splits)
  let ?body = "\<lambda>w. case load_effective_risk_config env (w_db w) of
                     Inl e \<Rightarrow> (Inl e, w)
                   | Inr config \<Rightarrow>
                       (case field of
                          SignalField sid \<Rightarrow> process_signal ex config ok sid now w
                        | _ \<Rightarrow> (Inl ValueError, w))"
  obtain r w1 where b: "?body w = (r, w1)" by fastforce
  have w1: "is_enabled (w_saved w1) \<and> entries_sent (w_ft w1) = entries_sent (w_ft w)"
    using b assms process_signal_keeps_switch[of ex _ ok _ now w r w1]
    by (auto split: sum.splits message_field.splits)
  show ?thesis
  proof (cases "field = MissingField")
    case True
    with assms ack[of w] show ?thesis by (simp add: dl handle_message_def)
  next
    case False
    let ?v = "w1\<lparr>w_db := w_saved w1\<rparr>"
    have "deliver ex env dl w = (case r of Inl e \<Rightarrow> ?v | Inr u \<Rightarrow> snd (?ack ?v))"
      using False b by (auto simp: dl handle_message_def run_session_def case_prod_beta split: sum.splits)
    with w1 ack[of ?v] show ?thesis by (cases r) simp_all
  qed
qed

text \<open>
  C6. While the committed kill switch is on, no run of deliveries sends an entry to Freqtrade and
  the switch stays on: only the operator turns it off.
\<close>

theorem kill_switch_halts_entries:
  assumes "w_db w = w_saved w" "is_enabled (w_db w)"
  shows "entries_sent (w_ft (fold (deliver ex env) dls w)) = entries_sent (w_ft w) \<and>
         is_enabled (w_db (fold (deliver ex env) dls w))"
  using assms
proof (induction dls arbitrary: w)
  case (Cons dl dls)
  note d = deliver_keeps_switch[OF Cons.prems, of ex env dl]
  then have "w_db (deliver ex env dl w) = w_saved (deliver ex env dl w)"
    "is_enabled (w_db (deliver ex env dl w))" by blast+
  from Cons.IH[OF this] d show ?case by simp
qed simp

definition halted_world :: world where
  "halted_world = (let w = snd (apply_killswitch sample_externals True None ''drill'' True 1 0 sample_world) in w)"

theorem kill_switch_halts_entries_witness:
  "entries_sent (w_ft (fold (deliver sample_externals RiskConfig_defaults) sample_deliveries halted_world)) = 0"
proof -
  have h: "w_db halted_world = w_saved halted_world" "is_enabled (w_db halted_world)" "w_ft halted_world = []"
    by (simp_all add: halted_world_def Let_def apply_killswitch_def run_session_def enable_killswitch_def
        commit_def is_enabled_def redis_call_def sample_externals_def add_audit_def sample_world_def
        split: sum.splits)
  from kill_switch_halts_entries[OF h(1,2), of sample_externals RiskConfig_defaults sample_deliveries] h(3)
  show ?thesis by simp
qed

text \<open>
  An exit is a bounded effort: processing a SELL never sends an entry, and closes with at most
  the configured number of market exits, one at least being allowed whatever the setting.
\<close>

theorem sell_signal_effort:
  assumes "process_signal ex config ok sid now w = (res, w')"
    and "get_signal (w_db w) sid = Some signal" "sig_action signal = SELL"
  shows "entries_sent (w_ft w') = entries_sent (w_ft w) \<and>
         exits_sent (w_ft w') \<le> exits_sent (w_ft w) + nat (max 1 (ex_exit_retry_attempts ex))"
  using assms(1)
proof (cases rule: process_signal_cases)
  case (no_balance s w1)
  with record_balance_unavailable_effect[OF no_balance(7)] show ?thesis by simp
next
  case (exit s balance h w2 dup)
  with handle_exit_signal_effect[OF exit(9) refl] show ?thesis by (simp add: forceexit_attempts_def)
qed (use assms in auto)

definition sell_world :: world where
  "sell_world =
     (let d = empty_db\<lparr>db_signals := [sample_row\<lparr>sig_action := SELL\<rparr>], db_next_id := 100\<rparr>
      in \<lparr>w_db = d, w_saved = d, w_redis = [], w_ft = []\<rparr>)"

theorem sell_signal_effort_witness:
  "entries_sent (w_ft (snd (process_signal sample_externals RiskConfig_defaults True 7 (minutes 1010) sell_world))) = 0"
proof -
  obtain res w' where run: "process_signal sample_externals RiskConfig_defaults True 7 (minutes 1010) sell_world
      = (res, w')" by fastforce
  have "get_signal (w_db sell_world) 7 = Some (sample_row\<lparr>sig_action := SELL\<rparr>)" "w_ft sell_world = []"
    by (simp_all add: get_signal_def sell_world_def sample_row_def Let_def)
  with sell_signal_effort[OF run this(1)] run show ?thesis by simp
qed

end
