(* ===== verification/Cycle_Properties.thy ===== *)
theory Cycle_Properties
  imports Scheduler Risk_Properties
begin

text \<open>
  What a scheduler cycle does to the world: it publishes only what it has committed, exactly once, and
  its outage tracking refines a small state machine that alerts once per outage.
\<close>

section \<open>Effects\<close>

text \<open>
  The signal ids handed to Redis with \<open>XADD\<close>, whatever Redis replied, and those of them that Redis
  accepted: a call that fails is not a publication, although the row it names is committed.
\<close>

definition xadds_sent :: "redis_history \<Rightarrow> nat list" where
  "xadds_sent h = concat (map (\<lambda>(t, cmd, r). case cmd of R_XADD i \<Rightarrow> [i] | _ \<Rightarrow> []) h)"

lemma xadds_sent_append [simp]: "xadds_sent (h @ h') = xadds_sent h @ xadds_sent h'"
  by (simp add: xadds_sent_def)

lemma xadds_sent_one [simp]: "xadds_sent [(t, R_XADD i, r)] = [i]"
  "(\<And>i. cmd \<noteq> R_XADD i) \<Longrightarrow> xadds_sent [(t, cmd, r)] = []"
  by (auto simp: xadds_sent_def split: redis_cmd.split)

lemma xadds_sent_Cons:
  "xadds_sent (e # rs) = (case fst (snd e) of R_XADD i \<Rightarrow> [i] | _ \<Rightarrow> []) @ xadds_sent rs"
  by (simp add: xadds_sent_def split: prod.split)

lemma xadds_sent_Nil [simp]: "xadds_sent [] = []"
  by (simp add: xadds_sent_def)

definition published :: "redis_history \<Rightarrow> nat list" where
  "published h = xadds_sent (filter (\<lambda>(t, cmd, r). r \<noteq> R_FAIL) h)"

lemma published_Nil [simp]: "published [] = []"
  by (simp add: published_def)

lemma published_append [simp]: "published (h @ h') = published h @ published h'"
  by (simp add: published_def)

lemma published_one [simp]: "published [(t, R_XADD i, r)] = (if r = R_FAIL then [] else [i])"
  by (simp add: published_def)

lemma published_Cons:
  "published ((t, cmd, r) # rs) =
     (if r = R_FAIL then [] else case cmd of R_XADD i \<Rightarrow> [i] | _ \<Rightarrow> []) @ published rs"
  by (simp add: published_def xadds_sent_Cons)

lemma published_none: "xadds_sent h = [] \<Longrightarrow> published h = []"
  by (induction h) (auto simp: published_def xadds_sent_Cons split: redis_cmd.splits)

lemma redis_query_frame [simp]:
  "w_db (snd (redis_query ex now cmd w)) = w_db w"
  "w_ft (snd (redis_query ex now cmd w)) = w_ft w"
  "w_saved (snd (redis_query ex now cmd w)) = w_saved w"
  by (simp_all add: redis_query_def Let_def)

text \<open>Commands that leave every candle key alone and publish nothing.\<close>

definition tame :: "redis_history \<Rightarrow> bool" where
  "tame rs \<longleftrightarrow> (\<forall>e \<in> set rs. \<forall>a b c. \<not> overwrites (K_candle_idempotency a b c) (fst (snd e)))"

lemma tame_simps [simp]:
  "tame []" "tame (a @ b) \<longleftrightarrow> tame a \<and> tame b"
  "tame (e # b) \<longleftrightarrow> (\<forall>x y z. \<not> overwrites (K_candle_idempotency x y z) (fst (snd e))) \<and> tame b"
  by (auto simp: tame_def)

text \<open>Nothing durable and nothing outside changes.\<close>

definition quiet :: "world \<Rightarrow> world \<Rightarrow> bool" where
  "quiet w w' \<longleftrightarrow> w_saved w' = w_saved w \<and> w_ft w' = w_ft w \<and>
     (\<exists>rs. w_redis w' = w_redis w @ rs \<and> tame rs \<and> xadds_sent rs = [])"

lemma quiet_refl [simp]: "quiet w w"
  by (simp add: quiet_def)

lemma quiet_trans: "quiet a b \<Longrightarrow> quiet b c \<Longrightarrow> quiet a c"
  by (fastforce simp: quiet_def)

lemma redis_call_quiet:
  "redis_call ex now cmd w = (r, w') \<Longrightarrow> (\<And>i. cmd \<noteq> R_XADD i) \<Longrightarrow>
     (\<And>x y z. \<not> overwrites (K_candle_idempotency x y z) cmd) \<Longrightarrow> quiet w w' \<and> w_db w' = w_db w"
  by (auto simp: redis_call_def quiet_def Let_def)

lemma redis_query_quiet:
  "redis_query ex now cmd w = (r, w') \<Longrightarrow> (\<And>i. cmd \<noteq> R_XADD i) \<Longrightarrow>
     (\<And>x y z. \<not> overwrites (K_candle_idempotency x y z) cmd) \<Longrightarrow> quiet w w' \<and> w_db w' = w_db w"
  by (auto simp: redis_query_def quiet_def Let_def)

lemma with_db_quiet [simp]: "quiet w (with_db f w') = quiet w w'" "quiet (with_db f w) w' = quiet w w'"
  by (simp_all add: quiet_def)

lemma track_effect:
  fixes ex now symbol tr reasoning model threshold w
  defines "w' \<equiv> track_llm_analyze_health ex now symbol tr reasoning model threshold w"
  shows "quiet w w'" and "w_db w' = w_db w \<or> (\<exists>ty pl. w_db w' = add_audit tr ty pl now (w_db w))"
proof -
  have "quiet w w' \<and> (w_db w' = w_db w \<or> (\<exists>ty pl. w_db w' = add_audit tr ty pl now (w_db w)))"
  proof (cases "threshold \<le> 0 \<or> model = PREFILTER_MODEL_NAME")
    case True
    then show ?thesis by (simp add: w'_def track_llm_analyze_health_def)
  next
    case on: False
    show ?thesis
    proof (cases "reasoning \<in> LLM_TIMEOUT_REASONS")
      case True
      obtain r1 w1 where q: "redis_query ex now (R_INCR K_llm_timeout_streak) w = (r1, w1)" by fastforce
      obtain r2 w2 where c: "redis_call ex now (R_EXPIRE K_llm_timeout_streak LLM_TIMEOUT_STREAK_TTL_SECONDS) w1
        = (r2, w2)" by fastforce
      have 1: "quiet w w1 \<and> w_db w1 = w_db w" using q by (rule redis_query_quiet) simp_all
      have "quiet w1 w2 \<and> w_db w2 = w_db w1" using c by (rule redis_call_quiet) simp_all
      with 1 have 2: "quiet w w2 \<and> w_db w2 = w_db w" using quiet_trans by auto
      show ?thesis
        using on True 1 2
        by (auto simp: w'_def track_llm_analyze_health_def q c split: sum.splits redis_reply.splits)
    next
      case False
      obtain r1 w1 where q: "redis_query ex now (R_GET K_llm_timeout_streak) w = (r1, w1)" by fastforce
      obtain r2 w2 where c: "redis_call ex now (R_DELETE K_llm_timeout_streak) w1 = (r2, w2)" by fastforce
      have 1: "quiet w w1 \<and> w_db w1 = w_db w" using q by (rule redis_query_quiet) simp_all
      have "quiet w1 w2 \<and> w_db w2 = w_db w1" using c by (rule redis_call_quiet) simp_all
      with 1 have 2: "quiet w w2 \<and> w_db w2 = w_db w" using quiet_trans by auto
      show ?thesis
        using on False 1 2
        by (auto simp: w'_def track_llm_analyze_health_def q c split: sum.splits redis_reply.splits option.splits)
    qed
  qed
  then show "quiet w w'" "w_db w' = w_db w \<or> (\<exists>ty pl. w_db w' = add_audit tr ty pl now (w_db w))" by simp_all
qed

text \<open>
  The two ways a cycle can end: nothing became durable, or one row did, with its audit trail, and its id
  was then handed to the stream.
\<close>

definition new_signal :: "nat \<Rightarrow> string \<Rightarrow> datetime \<Rightarrow> db \<Rightarrow> db \<Rightarrow> signal_row \<Rightarrow> bool" where
  "new_signal tr symbol now d d' s \<longleftrightarrow>
     sig_trace_id s = tr \<and> sig_symbol s = symbol \<and> sig_status s = PENDING \<and> sig_id s = db_next_id d \<and>
     (\<exists>pl. d' = add_audit tr SIGNAL_RECEIVED pl now (add_signal s d) \<or>
       (\<exists>ty pl'. d' = add_audit tr ty pl' now (add_audit tr SIGNAL_RECEIVED pl now (add_signal s d))))"

lemma new_signal_tables:
  assumes "new_signal tr symbol now d d' s"
  shows "db_signals d' = db_signals d @ [s]" "db_decisions d' = db_decisions d" "db_orders d' = db_orders d"
    "db_positions d' = db_positions d" "db_system_state d' = db_system_state d"
    "db_risk_overrides d' = db_risk_overrides d"
    "\<exists>e es. db_audit d' = db_audit d @ e # es \<and> aud_event_type e = SIGNAL_RECEIVED \<and> aud_trace_id e = tr"
  using assms unfolding new_signal_def
  by (auto, simp_all add: add_signal_def add_audit_def signal_row.equality)

definition silent :: "world \<Rightarrow> py_error + nat option \<Rightarrow> world \<Rightarrow> bool" where
  "silent w res w' \<longleftrightarrow> quiet w w' \<and> (\<forall>t. res \<noteq> Inr (Some t))"

text \<open>
  Where a row comes from: the answer to a payload built from the candles, the indicators and the state
  the session read.
\<close>

definition open_position :: "db \<Rightarrow> string \<Rightarrow> position option" where
  "open_position d symbol = find (\<lambda>p. pos_symbol p = symbol \<and> pos_status p = OPEN) (db_positions d)"

definition from_analysis ::
    "scheduler \<Rightarrow> string \<Rightarrow> ohlcv list \<Rightarrow> Indicators \<Rightarrow> db \<Rightarrow> signal_row \<Rightarrow> bool" where
  "from_analysis sc symbol candles ind d s \<longleftrightarrow>
     (\<exists>payload. rq_symbol payload = symbol \<and> rq_timeframe payload = ss_timeframe (sc_settings sc) \<and>
        rq_ohlcv payload = map wire_candle (slice_last (ss_llm_ohlcv_window (sc_settings sc)) candles) \<and>
        rq_indicators payload = ind \<and>
        (\<exists>pnl. unrealized_pnl (oc_c (last candles)) (open_position d symbol) = Inr pnl \<and>
           rq_position_context payload =
             \<lparr>pc_has_open_position = (open_position d symbol \<noteq> None), pc_unrealized_pnl_pct = pnl\<rparr>) \<and>
        rq_provider_override payload = Some (dump_config (load_effective_llm_config (sc_llm_env sc) d)) \<and>
        sig_action s = an_action (post_analyze (sc_analyze sc) payload) \<and>
        sig_model_name s = an_model_name (post_analyze (sc_analyze sc) payload))"

definition signalled ::
    "scheduler \<Rightarrow> ohlcv list \<Rightarrow> Indicators \<Rightarrow> nat \<Rightarrow> string \<Rightarrow> datetime \<Rightarrow> world \<Rightarrow> py_error + nat option \<Rightarrow>
     world \<Rightarrow> signal_row \<Rightarrow> bool" where
  "signalled sc candles ind tr symbol now w res w' s \<longleftrightarrow>
     from_analysis sc symbol candles ind (w_saved w) s \<and>
     new_signal tr symbol now (w_saved w) (w_saved w') s \<and> w_ft w' = w_ft w \<and>
     (\<exists>rs. w_redis w' = w_redis w @ rs \<and> tame rs \<and> xadds_sent rs = [sig_id s] \<and>
        (published rs = [sig_id s] \<or> published rs = [] \<and> res = Inl RedisError)) \<and>
     (res = Inr (Some tr) \<or> res = Inl RedisError)"

lemma silent_simps [simp]:
  "silent w (Inl e) w' \<longleftrightarrow> quiet w w'" "silent w (Inr None) w' \<longleftrightarrow> quiet w w'"
  by (simp_all add: silent_def)

lemma cycle_session_effect:
  assumes run: "cycle_session ex sc symbol candles ts ind sentiment ok tr now w = (res, w')"
    and idle: "w_db w = w_saved w"
  shows "silent w res w' \<or> ok \<and> (\<exists>s. signalled sc candles ind tr symbol now w res w' s)"
proof -
  let ?pos = "find (\<lambda>p. pos_symbol p = symbol \<and> pos_status p = OPEN) (db_positions (w_db w))"
  let ?pnl = "unrealized_pnl (oc_c (last candles)) ?pos"
  show ?thesis
  proof (cases ?pnl)
    case (Inl e)
    with run show ?thesis by (auto simp: cycle_session_def)
  next
    case (Inr pnl)
    define payload where "payload = build_analyze_payload (sc_settings sc) symbol ts candles ind sentiment
      (?pos \<noteq> None) pnl (load_effective_llm_config (sc_llm_env sc) (w_db w))"
    define r where "r = post_analyze (sc_analyze sc) payload"
    define row where "row = signal_row_of (sc_settings sc) symbol ts (last candles) ind payload r tr now"
    define w1 where "w1 = with_db (add_audit tr SIGNAL_RECEIVED
      (signal_received_payload symbol (db_next_id (w_db w)) r) now) (with_db (add_signal row) w)"
    define w2 where "w2 = track_llm_analyze_health ex now symbol tr (an_reasoning r) (an_model_name r)
      (ss_llm_timeout_alert_threshold (sc_settings sc)) w1"
    have run': "(if \<not> row_fits row then (Inl DatabaseError, w)
       else then_do (commit ok w2) (\<lambda>_ v. then_do (redis_call ex now (R_XADD (db_next_id (w_db w))) v)
              (\<lambda>_ v. (Inr (Some tr), v)))) = (res, w')"
      using run unfolding cycle_session_def Let_def Inr sum.case w2_def w1_def row_def r_def payload_def .
    have q12: "quiet w1 w2" unfolding w2_def by (rule track_effect(1))
    show ?thesis
    proof (cases "row_fits row \<and> ok")
      case False
      have "quiet w w2" using q12 by (simp add: w1_def)
      with run' False show ?thesis by (auto simp: silent_def commit_def split: if_splits)
    next
      case True
      let ?s = "row\<lparr>sig_id := db_next_id (w_db w)\<rparr>"
      have db1: "w_db w1 = add_audit tr SIGNAL_RECEIVED (signal_received_payload symbol (db_next_id (w_db w)) r) now
          (add_signal ?s (w_saved w))"
        using idle by (simp add: w1_def add_signal_def)
      have q: "quiet w w2" using q12 by (simp add: w1_def)
      have db2: "w_db w2 = w_db w1 \<or> (\<exists>ty pl. w_db w2 = add_audit tr ty pl now (w_db w1))"
        unfolding w2_def by (rule track_effect(2))
      have new: "new_signal tr symbol now (w_saved w) (w_db w2) ?s"
        using db2 db1 idle by (auto simp: new_signal_def row_def signal_row_of_def)
      obtain x w3 where xadd: "redis_call ex now (R_XADD (db_next_id (w_db w))) (w2\<lparr>w_saved := w_db w2\<rparr>) = (x, w3)"
        by fastforce
      then have w3: "w_saved w3 = w_db w2" "w_ft w3 = w_ft w2"
        "\<exists>y. w_redis w3 = w_redis w2 @ [(now, R_XADD (db_next_id (w_db w)), y)] \<and>
           (y = R_FAIL \<longrightarrow> x = Inl RedisError) \<and> (\<forall>e. x = Inl e \<longrightarrow> e = RedisError)"
        by (auto simp: redis_call_def Let_def)
      have "w' = w3" "res = (case x of Inl e \<Rightarrow> Inl e | Inr _ \<Rightarrow> Inr (Some tr))"
        using run' True xadd by (auto simp: commit_def then_do_def split: sum.splits)
      moreover have "from_analysis sc symbol candles ind (w_saved w) ?s"
        unfolding from_analysis_def idle[symmetric]
        by (intro exI[of _ payload])
           (use Inr in \<open>simp add: payload_def build_analyze_payload_def row_def signal_row_of_def r_def open_position_def\<close>)
      moreover from q obtain rs where rs: "w_ft w2 = w_ft w" "w_redis w2 = w_redis w @ rs" "tame rs" "xadds_sent rs = []"
        by (auto simp: quiet_def)
      moreover from rs w3(3) obtain y where
        "w_redis w3 = w_redis w @ (rs @ [(now, R_XADD (db_next_id (w_db w)), y)])"
        "y = R_FAIL \<longrightarrow> x = Inl RedisError" "\<forall>e. x = Inl e \<longrightarrow> e = RedisError" by auto
      ultimately have "signalled sc candles ind tr symbol now w res w' ?s"
        unfolding signalled_def using w3(1,2) new published_none[OF rs(4)]
        by (intro conjI exI[of _ "rs @ [(now, R_XADD (db_next_id (w_db w)), y)]"])
           (auto split: sum.splits)
      with True show ?thesis by blast
    qed
  qed
qed

lemma run_session_silent:
  "silent w res w1 \<Longrightarrow> silent w res (w1\<lparr>w_db := w_saved w1\<rparr>)"
  "signalled sc candles ind tr symbol now w res w1 s \<Longrightarrow> signalled sc candles ind tr symbol now w res (w1\<lparr>w_db := w_saved w1\<rparr>) s"
  by (simp_all add: silent_def signalled_def quiet_def)

lemma quiet_then:
  assumes "quiet w w0"
  shows "silent w0 res w' \<Longrightarrow> silent w res w'"
    "signalled sc candles ind tr symbol now w0 res w' s \<Longrightarrow> signalled sc candles ind tr symbol now w res w' s"
proof -
  from assms obtain rs where rs: "w_redis w0 = w_redis w @ rs" "tame rs" "xadds_sent rs = []"
    "w_saved w0 = w_saved w" "w_ft w0 = w_ft w" by (auto simp: quiet_def)
  show "silent w0 res w' \<Longrightarrow> silent w res w'"
    using assms quiet_trans by (auto simp: silent_def)
  assume s: "signalled sc candles ind tr symbol now w0 res w' s"
  then obtain rs' where "w_redis w' = w_redis w @ (rs @ rs')" "tame (rs @ rs')" "xadds_sent (rs @ rs') = [sig_id s]"
    "published (rs @ rs') = [sig_id s] \<or> published (rs @ rs') = [] \<and> res = Inl RedisError"
    using rs published_none[OF rs(3)] by (auto simp: signalled_def)
  with s rs show "signalled sc candles ind tr symbol now w res w' s" unfolding signalled_def by metis
qed

text \<open>A locked cycle signals only after the candle's key was claimed.\<close>

definition cycle_candles :: "scheduler \<Rightarrow> string \<Rightarrow> datetime \<Rightarrow> ohlcv list" where
  "cycle_candles sc symbol now =
     projr (fetch_closed_candles (sc_exchange sc) symbol (ss_timeframe (sc_settings sc))
              (ss_candle_lookback (sc_settings sc)) now)"

definition cycle_indicators :: "scheduler \<Rightarrow> string \<Rightarrow> datetime \<Rightarrow> Indicators" where
  "cycle_indicators sc symbol now = the (compute_indicators (sc_pandas sc) (cycle_candles sc symbol now))"

definition candle_claim :: "scheduler \<Rightarrow> string \<Rightarrow> datetime \<Rightarrow> redis_cmd" where
  "candle_claim sc symbol now =
     (let st = sc_settings sc
      in R_SET_NX (K_candle_idempotency symbol (ss_timeframe st) (oc_t (last (cycle_candles sc symbol now)))) (JStr ''1'')
           (2 * projr (timeframe_to_seconds (ss_timeframe st))))"

lemma run_locked_cycle_effect:
  assumes run: "run_locked_cycle ex sc symbol ok tr now w = (res, w')" and idle: "w_db w = w_saved w"
  shows "w_db w' = w_saved w'"
    and "silent w res w' \<or>
      ok \<and> (\<exists>s w1. redis_call ex now (candle_claim sc symbol now) w = (Inr True, w1) \<and>
                  signalled sc (cycle_candles sc symbol now) (cycle_indicators sc symbol now) tr symbol now w1 res w' s)"
proof -
  let ?st = "sc_settings sc"
  have "w_db w' = w_saved w' \<and> (silent w res w' \<or>
      ok \<and> (\<exists>s w1. redis_call ex now (candle_claim sc symbol now) w = (Inr True, w1) \<and>
                  signalled sc (cycle_candles sc symbol now) (cycle_indicators sc symbol now) tr symbol now w1 res w' s))"
  proof (cases "fetch_closed_candles (sc_exchange sc) symbol (ss_timeframe ?st) (ss_candle_lookback ?st) now")
    case (Inl e)
    with run idle show ?thesis by (auto simp: run_locked_cycle_def)
  next
    case c: (Inr candles)
    show ?thesis
    proof (cases "length candles < 2")
      case True
      with run idle c show ?thesis by (auto simp: run_locked_cycle_def)
    next
      case len: False
      show ?thesis
      proof (cases "timeframe_to_seconds (ss_timeframe ?st)")
        case (Inl e)
        with run idle c len show ?thesis by (auto simp: run_locked_cycle_def)
      next
        case tf: (Inr secs)
        let ?claim = "R_SET_NX (K_candle_idempotency symbol (ss_timeframe ?st) (oc_t (last candles))) (JStr ''1'') (2 * secs)"
        have claim: "candle_claim sc symbol now = ?claim" by (simp add: candle_claim_def cycle_candles_def c tf Let_def)
        obtain x w1 where x: "redis_call ex now ?claim w = (x, w1)" by fastforce
        have q: "quiet w w1 \<and> w_db w1 = w_db w" using x by (rule redis_call_quiet) simp_all
        then have idle1: "w_db w1 = w_saved w1" using idle by (simp add: quiet_def)
        have stay: ?thesis if "silent w res w1" "w' = w1" using that idle1 by simp
        show ?thesis
        proof (cases x)
          case (Inl e)
          with run c len tf x q show ?thesis
            by (intro stay) (auto simp: run_locked_cycle_def)
        next
          case (Inr fresh)
          show ?thesis
          proof (cases fresh)
            case False
            with run c len tf x q Inr show ?thesis
              by (intro stay) (auto simp: run_locked_cycle_def)
          next
            case True
            show ?thesis
            proof (cases "cycle_sentiment candles (the (compute_indicators (sc_pandas sc) candles))")
              case (Inl e)
              with run c len tf x q Inr True show ?thesis
                by (intro stay) (auto simp: run_locked_cycle_def Let_def)
            next
              case se: (Inr sentiment)
              let ?ind = "the (compute_indicators (sc_pandas sc) candles)"
              let ?body = "cycle_session ex sc symbol candles (oc_t (last candles) + secs * 1000)
                  (the (compute_indicators (sc_pandas sc) candles)) sentiment ok tr now"
              obtain r2 w2 where b: "?body w1 = (r2, w2)" by fastforce
              have w': "res = r2" "w' = w2\<lparr>w_db := w_saved w2\<rparr>"
                using run c len tf x Inr True se b
                by (auto simp: run_locked_cycle_def Let_def run_session_def)
              from cycle_session_effect[OF b idle1]
              have "silent w1 r2 w' \<or> ok \<and> (\<exists>s. signalled sc candles ?ind tr symbol now w1 r2 w' s)"
                unfolding w'(2) using run_session_silent by blast
              then have "silent w res w' \<or> ok \<and> (\<exists>s. signalled sc candles ?ind tr symbol now w1 res w' s)"
                using q quiet_then w'(1) by blast
              then show ?thesis using x Inr True claim w'(2) by (auto simp: cycle_indicators_def cycle_candles_def c)
            qed
          qed
        qed
      qed
    qed
  qed
  then show "w_db w' = w_saved w'"
    "silent w res w' \<or>
      ok \<and> (\<exists>s w1. redis_call ex now (candle_claim sc symbol now) w = (Inr True, w1) \<and>
                  signalled sc (cycle_candles sc symbol now) (cycle_indicators sc symbol now) tr symbol now w1 res w' s)"
    by simp_all
qed

section \<open>One cycle\<close>

lemma run_cycle_cases:
  assumes run: "run_cycle ex sc symbol ok tr now w = (res, w')" and idle: "w_db w = w_saved w"
  obtains (silent) "w_db w' = w_saved w'" "quiet w w'" "\<forall>t. res \<noteq> Inr (Some t)"
  | (signal) s pre rs where "ok" "w_db w' = w_saved w'" "new_signal tr symbol now (w_saved w) (w_saved w') s"
      "w_ft w' = w_ft w" "w_redis w' = w_redis w @ pre @ (now, candle_claim sc symbol now, R_OK) # rs"
      "ex_redis ex (w_redis w @ pre) now (candle_claim sc symbol now) = R_OK"
      "tame pre" "xadds_sent pre = []" "tame rs" "xadds_sent rs = [sig_id s]" "from_analysis sc symbol (cycle_candles sc symbol now) (cycle_indicators sc symbol now) (w_saved w) s"
      "published rs = [sig_id s] \<or> published rs = [] \<and> res = Inl RedisError"
      "res = Inr (Some tr) \<or> res = Inl RedisError"
proof -
  obtain x w0 where lock: "redis_call ex now (R_SET_NX (K_cycle_lock symbol) (JStr ''1'') CYCLE_LOCK_TTL_SECONDS) w
      = (x, w0)" by fastforce
  have q0: "quiet w w0 \<and> w_db w0 = w_db w" using lock by (rule redis_call_quiet) simp_all
  then have idle0: "w_db w0 = w_saved w0" using idle by (simp add: quiet_def)
  consider e where "x = Inl e" | "x = Inr False" | "x = Inr True" by (cases x) (auto split: bool.splits)
  then show thesis
  proof cases
    case 3
    obtain r1 w1 where l: "run_locked_cycle ex sc symbol ok tr now w0 = (r1, w1)" by fastforce
    obtain y w2 where del: "redis_call ex now (R_DELETE (K_cycle_lock symbol)) w1 = (y, w2)" by fastforce
    have q2: "quiet w1 w2 \<and> w_db w2 = w_db w1" using del by (rule redis_call_quiet) simp_all
    have w': "w' = w2" "res = r1 \<or> res = Inl RedisError"
      using run lock 3 l del
      by (auto simp: run_cycle_def then_do_def redis_call_def Let_def split: sum.splits if_splits)
    note le = run_locked_cycle_effect[OF l idle0]
    have idle': "w_db w' = w_saved w'" using le(1) q2 w'(1) by (simp add: quiet_def)
    from le(2) show thesis
    proof
      assume "silent w0 r1 w1"
      then have q1: "quiet w0 w1" and none: "\<forall>t. r1 \<noteq> Inr (Some t)" by (simp_all add: silent_def)
      have "quiet w w'"
        unfolding w'(1) by (rule quiet_trans[OF conjunct1[OF q0] quiet_trans[OF q1 conjunct1[OF q2]]])
      with idle' none w'(2) that(1) show thesis by blast
    next
      assume "ok \<and> (\<exists>s w1'. redis_call ex now (candle_claim sc symbol now) w0 = (Inr True, w1') \<and>
          signalled sc (cycle_candles sc symbol now) (cycle_indicators sc symbol now) tr symbol now w1' r1 w1 s)"
      then obtain s v where ok and c: "redis_call ex now (candle_claim sc symbol now) w0 = (Inr True, v)"
        and sg: "signalled sc (cycle_candles sc symbol now) (cycle_indicators sc symbol now) tr symbol now v r1 w1 s" by blast
      from c have v: "w_redis v = w_redis w0 @ [(now, candle_claim sc symbol now, R_OK)]"
        "w_saved v = w_saved w0" "w_ft v = w_ft w0"
        "ex_redis ex (w_redis w0) now (candle_claim sc symbol now) = R_OK"
        by (auto simp: redis_call_def Let_def split: if_splits)
      from q0 obtain pre where pre: "w_redis w0 = w_redis w @ pre" "tame pre" "xadds_sent pre = []"
        "w_saved w0 = w_saved w" "w_ft w0 = w_ft w" by (auto simp: quiet_def)
      from sg obtain rs1 where rs1: "w_redis w1 = w_redis v @ rs1" "tame rs1" "xadds_sent rs1 = [sig_id s]"
        "new_signal tr symbol now (w_saved v) (w_saved w1) s" "w_ft w1 = w_ft v"
        "from_analysis sc symbol (cycle_candles sc symbol now) (cycle_indicators sc symbol now) (w_saved v) s"
        "published rs1 = [sig_id s] \<or> published rs1 = [] \<and> r1 = Inl RedisError"
        "r1 = Inr (Some tr) \<or> r1 = Inl RedisError" by (auto simp: signalled_def)
      from q2 obtain rs2 where rs2: "w_redis w2 = w_redis w1 @ rs2" "tame rs2" "xadds_sent rs2 = []"
        "w_saved w2 = w_saved w1" "w_ft w2 = w_ft w1" by (auto simp: quiet_def)
      have res: "published (rs1 @ rs2) = [sig_id s] \<or> published (rs1 @ rs2) = [] \<and> res = Inl RedisError"
        "res = Inr (Some tr) \<or> res = Inl RedisError"
        using rs1(7,8) w'(2) published_none[OF rs2(3)] by auto
      show thesis
        by (rule that(2)[of s pre "rs1 @ rs2"])
           (use \<open>ok\<close> idle' w'(1) v pre rs1 rs2 res in simp_all)
    qed
  qed (use run lock q0 idle0 that(1) in \<open>auto simp: run_cycle_def quiet_def\<close>)
qed

lemma run_cycle_idle:
  assumes "run_cycle ex sc symbol ok tr now w = (res, w')" "w_db w = w_saved w"
  shows "w_db w' = w_saved w' \<and> w_ft w' = w_ft w"
  by (rule run_cycle_cases[OF assms]) (simp_all add: quiet_def)

text \<open>
  C21. A cycle publishes only what is committed.  From an idle world it ends idle and sends Freqtrade
  nothing, and there are three ways it ends.  It saves nothing, hands nothing to the stream and reports no
  signal; or, its commit having succeeded, it has saved exactly one new PENDING signal of its trace and
  symbol with its \<open>SIGNAL_RECEIVED\<close> audit event, leaving decisions, orders and positions alone, and has
  handed exactly that row's id to the stream, once.  If Redis accepted the id it is published; if Redis
  failed, nothing is published, the row stays PENDING and the cycle fails with the Redis error.  A cycle that reports a trace has published, and reports its own.
\<close>

theorem cycle_publishes_committed:
  assumes "run_cycle ex sc symbol ok tr now w = (res, w')" and "w_db w = w_saved w"
  shows "w_db w' = w_saved w' \<and> w_ft w' = w_ft w \<and>
    (w_saved w' = w_saved w \<and> xadds_sent (w_redis w') = xadds_sent (w_redis w) \<and>
       published (w_redis w') = published (w_redis w) \<and> (\<forall>t. res \<noteq> Inr (Some t)) \<or>
     ok \<and> (\<exists>s. new_signal tr symbol now (w_saved w) (w_saved w') s \<and>
                xadds_sent (w_redis w') = xadds_sent (w_redis w) @ [sig_id s] \<and>
                (published (w_redis w') = published (w_redis w) @ [sig_id s] \<and>
                   res \<in> {Inr (Some tr), Inl RedisError} \<or>
                 published (w_redis w') = published (w_redis w) \<and> res = Inl RedisError)))"
  by (rule run_cycle_cases[OF assms])
     (auto simp: quiet_def xadds_sent_Cons published_Cons published_none candle_claim_def Let_def)

text \<open>
  C35. A candle yields at most one signal: once a cycle has handed a signal of a candle to the stream,
  whatever Redis replied, any cycle of the same symbol that still sees this candle as the last closed one
  within two candle periods, on whatever settings, services and state, hands over and saves nothing, as long as Redis honours \<open>SET NX EX\<close> and
  nobody overwrote the candle's key in between.
\<close>

theorem one_signal_per_candle:
  assumes "nx_law ex"
    and "run_cycle ex sc symbol ok tr t1 w = (r1, w1)" "w_db w = w_saved w"
    and "xadds_sent (w_redis w1) \<noteq> xadds_sent (w_redis w)"
    and "w_redis w2 = w_redis w1 @ between" "tame between" "w_db w2 = w_saved w2"
    and "run_cycle ex sc' symbol ok' tr' t2 w2 = (r2, w3)"
    and "candle_claim sc' symbol t2 = candle_claim sc symbol t1"
    and "timeframe_to_seconds (ss_timeframe (sc_settings sc)) = Inr tf" "t1 \<le> t2" "t2 < t1 + seconds (2 * tf)"
  shows "xadds_sent (w_redis w3) = xadds_sent (w_redis w2) \<and> w_saved w3 = w_saved w2"
proof (cases rule: run_cycle_cases[OF assms(8,7)])
  case 1
  then show ?thesis by (auto simp: quiet_def)
next
  case second: (2 s2 pre2 rs2)
  from assms(2,3) obtain pre1 rs1 where
    first: "w_redis w1 = w_redis w @ pre1 @ (t1, candle_claim sc symbol t1, R_OK) # rs1" "tame rs1"
    by (rule run_cycle_cases) (use assms(4) in \<open>auto simp: quiet_def\<close>)
  obtain k where k: "candle_claim sc symbol t1 = R_SET_NX k (JStr ''1'') (2 * tf)"
    "\<exists>x y z. k = K_candle_idempotency x y z"
    using assms(10) by (auto simp: candle_claim_def Let_def)
  let ?post = "rs1 @ between @ pre2"
  have hist: "w_redis w2 @ pre2 = (w_redis w @ pre1) @ (t1, R_SET_NX k (JStr ''1'') (2 * tf), R_OK) # ?post"
    using first(1) assms(5) k(1) by simp
  have "tame ?post" using first(2) assms(6) second by simp
  then have "\<forall>e \<in> set ?post. \<not> overwrites k (fst (snd e))" using k(2) by (auto simp: tame_def)
  with assms(1,11,12) have "ex_redis ex (w_redis w2 @ pre2) t2 (R_SET_NX k (JStr ''1'') (2 * tf)) \<noteq> R_OK"
    unfolding hist nx_law_def by blast
  with second assms(9) k(1) show ?thesis by simp
qed

section \<open>A sample cycle\<close>

definition sample_candle :: "int \<Rightarrow> rat \<Rightarrow> ohlcv" where
  "sample_candle t c = \<lparr>oc_t = t, oc_o = c, oc_h = c + 1, oc_l = c - 1, oc_c = c, oc_v = 7\<rparr>"

definition sample_scheduler :: scheduler where
  "sample_scheduler =
     \<lparr>sc_settings = SchedulerSettings_defaults, sc_llm_env = LLMServiceSettings_defaults,
      sc_pandas = \<lparr>pd_ewm = (\<lambda>\<alpha> xs. xs), pd_rolling_mean = (\<lambda>n xs. xs)\<rparr>,
      sc_exchange = \<lparr>xc_fetch_ohlcv = (\<lambda>s tf n. Inr [sample_candle 0 100, sample_candle 300000 102]),
                     xc_parse_timeframe = (\<lambda>tf. Inr 300)\<rparr>,
      sc_analyze = (\<lambda>rq. Body \<lparr>an_action = BUY, an_confidence = 3 / 4, an_reasoning = ''up'',
        an_model_name = ''ollama:m'', an_raw_response = JNull, an_trade_score = Some 80,
        an_score_breakdown = JNull, an_setup_regime = Some ''trend_pullback'',
        an_volatility_regime = Some ''NORMAL''\<rparr>)\<rparr>"

abbreviation sample_run :: "world \<Rightarrow> (py_error + nat option) \<times> world" where
  "sample_run \<equiv> run_cycle sample_externals sample_scheduler ''BTC/USDT'' True 9 (seconds 700)"

lemma sample_sentiment:
  "\<exists>m. cycle_sentiment [sample_candle 0 100, sample_candle 300000 102]
     (the (compute_indicators (sc_pandas sample_scheduler) [sample_candle 0 100, sample_candle 300000 102])) = Inr m"
proof -
  let ?ind = "\<lparr>in_rsi_14 = 100, in_ema_50 = 102, in_ema_200 = 102,
     in_macd = \<lparr>macd_macd = 0, macd_signal = 0, macd_histogram = 0\<rparr>, in_atr_14 = 3, in_volume_sma_20 = 7\<rparr>"
  let ?s = "indicator_snapshot (sample_candle 300000 102) (flt (2 / 100)) ?ind"
  have ind: "compute_indicators (sc_pandas sample_scheduler) [sample_candle 0 100, sample_candle 300000 102] = Some ?ind"
    by code_simp
  have ok: "snapshot_ok ?s" by (simp add: snapshot_ok_def indicator_snapshot_def sample_candle_def)
  have "\<forall>k \<in> set (contributions SentimentWeights ?s default_sentiment_providers). 0 \<le> ic_score k \<and> ic_score k \<le> 100"
    using default_service.contributions_range[OF ok] by blast
  from default_service.classify[OF ok _ _ _ this]
  obtain m where "classify_sentiment default_sentiment_providers SentimentWeights ?s = Inr m" by auto
  then show ?thesis unfolding ind using ok
    by (simp add: cycle_sentiment_def make_snapshot_def sample_candle_def)
qed

text \<open>The same Redis, refusing every \<open>XADD\<close>.\<close>

definition deaf_stream :: externals where
  "deaf_stream = sample_externals\<lparr>ex_redis := (\<lambda>h t c. case c of R_XADD i \<Rightarrow> R_FAIL
     | _ \<Rightarrow> ex_redis sample_externals h t c)\<rparr>"

abbreviation failed_run :: "world \<Rightarrow> (py_error + nat option) \<times> world" where
  "failed_run \<equiv> run_cycle deaf_stream sample_scheduler ''BTC/USDT'' True 9 (seconds 700)"

lemma sample_cycle:
  "xadds_sent (w_redis (snd (sample_run empty_world))) = [0]"
  "published (w_redis (snd (sample_run empty_world))) = [0]"
  "xadds_sent (w_redis (snd (failed_run empty_world))) = [0]"
  "published (w_redis (snd (failed_run empty_world))) = []"
proof -
  obtain m where m: "cycle_sentiment [sample_candle 0 100, sample_candle 300000 102]
     (the (compute_indicators (sc_pandas sample_scheduler) [sample_candle 0 100, sample_candle 300000 102])) = Inr m"
    using sample_sentiment by blast
  have conf: "numeric_col 2 (dec_of_float (3 / 4)) = 3 / 4" by code_simp
  have tf: "timeframe_to_seconds ''5m'' = Inr 300" by code_simp
  have candles: "fetch_closed_candles (sc_exchange sample_scheduler) ''BTC/USDT'' ''5m'' 200 (seconds 700) =
      Inr [sample_candle 0 100, sample_candle 300000 102]" by code_simp
  have sel: "sc_settings sample_scheduler = SchedulerSettings_defaults"
    "sc_analyze sample_scheduler rq = Body \<lparr>an_action = BUY, an_confidence = 3 / 4, an_reasoning = ''up'',
        an_model_name = ''ollama:m'', an_raw_response = JNull, an_trade_score = Some 80,
        an_score_breakdown = JNull, an_setup_regime = Some ''trend_pullback'',
        an_volatility_regime = Some ''NORMAL''\<rparr>" for rq
    by (simp_all add: sample_scheduler_def)
  have st: "ss_timeframe SchedulerSettings_defaults = ''5m''" "ss_candle_lookback SchedulerSettings_defaults = 200"
    by (simp_all add: SchedulerSettings_defaults_def)
  show "xadds_sent (w_redis (snd (sample_run empty_world))) = [0]"
    "published (w_redis (snd (sample_run empty_world))) = [0]"
    "xadds_sent (w_redis (snd (failed_run empty_world))) = [0]"
    "published (w_redis (snd (failed_run empty_world))) = []"
    by (simp_all add: deaf_stream_def run_cycle_def run_locked_cycle_def Let_def sel st candles tf m redis_call_def redis_query_def
        run_session_def cycle_session_def unrealized_pnl_def post_analyze_def row_fits_def signal_row_of_def conf
        commit_def track_llm_analyze_health_def sample_externals_def empty_world_def empty_db_def
        xadds_sent_Cons published_Cons LLM_TIMEOUT_REASONS_def)
qed

theorem cycle_publishes_committed_witness:
  "(\<exists>s. new_signal 9 ''BTC/USDT'' (seconds 700) empty_db (w_saved (snd (sample_run empty_world))) s \<and>
      published (w_redis (snd (sample_run empty_world))) = [sig_id s]) \<and>
   (\<exists>s. new_signal 9 ''BTC/USDT'' (seconds 700) empty_db (w_saved (snd (failed_run empty_world))) s \<and>
      published (w_redis (snd (failed_run empty_world))) = [] \<and> fst (failed_run empty_world) = Inl RedisError)"
proof -
  have idle: "w_db empty_world = w_saved empty_world" by (simp add: empty_world_def)
  from cycle_publishes_committed[OF surjective_pairing idle, of sample_externals sample_scheduler "''BTC/USDT''"
      True 9 "seconds 700"] sample_cycle(1,2)
  have "\<exists>s. new_signal 9 ''BTC/USDT'' (seconds 700) empty_db (w_saved (snd (sample_run empty_world))) s \<and>
      published (w_redis (snd (sample_run empty_world))) = [sig_id s]" by (auto simp: empty_world_def)
  moreover from cycle_publishes_committed[OF surjective_pairing idle, of deaf_stream sample_scheduler
      "''BTC/USDT''" True 9 "seconds 700"] sample_cycle(3,4)
  have "\<exists>s. new_signal 9 ''BTC/USDT'' (seconds 700) empty_db (w_saved (snd (failed_run empty_world))) s \<and>
      published (w_redis (snd (failed_run empty_world))) = [] \<and> fst (failed_run empty_world) = Inl RedisError"
    by (auto simp: empty_world_def)
  ultimately show ?thesis by blast
qed

theorem one_signal_per_candle_witness:
  "xadds_sent (w_redis (snd (sample_run (snd (sample_run empty_world))))) = [0]"
proof -
  let ?w = "snd (sample_run empty_world)"
  have idle: "w_db empty_world = w_saved empty_world" by (simp add: empty_world_def)
  have tf: "timeframe_to_seconds (ss_timeframe (sc_settings sample_scheduler)) = Inr 300" by code_simp
  have idle': "w_db ?w = w_saved ?w"
    using run_cycle_idle[OF surjective_pairing idle] by simp
  have pub: "xadds_sent (w_redis ?w) \<noteq> xadds_sent (w_redis empty_world)"
    using sample_cycle(1) by (simp add: empty_world_def)
  have "xadds_sent (w_redis (snd (sample_run ?w))) = xadds_sent (w_redis ?w)"
    using one_signal_per_candle[OF sample_nx_law surjective_pairing idle pub _ _ idle' surjective_pairing refl tf,
        of "[]"] by (simp add: seconds_def)
  with sample_cycle show ?thesis by simp
qed

end
