(* ===== verification/Webhooks.thy ===== *)
theory Webhooks
  imports Risk_Main
begin

text \<open>
  \<open>admin_api/app/routers/webhooks.py\<close>: the fills and cancellations Freqtrade reports, and the
  mark-to-market reads of \<open>position_service.py\<close>.  A handler maps the database a session sees to
  the database it leaves, or raises; the request commits at the end.
\<close>

section \<open>Payloads\<close>

text \<open>A templated date: absent or empty, not ISO, or an instant.\<close>

datatype iso_date = NoDate | BadDate | GoodDate datetime

record FreqtradeWebhookPayload =
  wh_event :: string
  wh_trade_id :: int
  wh_pair :: string
  wh_secret :: string
  wh_open_rate :: "rat option"
  wh_amount :: "rat option"
  wh_open_date :: iso_date
  wh_close_rate :: "rat option"
  wh_profit_amount :: "rat option"
  wh_profit_ratio :: "rat option"
  wh_close_date :: iso_date
  wh_exit_reason :: "string option"

fun parse_freqtrade_datetime :: "iso_date \<Rightarrow> datetime option" where
  "parse_freqtrade_datetime NoDate = None"
| "parse_freqtrade_datetime BadDate = None"
| "parse_freqtrade_datetime (GoodDate t) = Some t"

section \<open>Lookups\<close>

text \<open>\<open>.order_by(created_at.desc()).first()\<close>\<close>

definition latest_order :: "(order \<Rightarrow> bool) \<Rightarrow> db \<Rightarrow> order option" where
  "latest_order P d =
     (case sort_key (\<lambda>o'. - ord_created_at o') (filter P (db_orders d)) of
        [] \<Rightarrow> None
      | o' # _ \<Rightarrow> Some o')"

definition find_order :: "int \<Rightarrow> string \<Rightarrow> OrderSide \<Rightarrow> db \<Rightarrow> order option \<times> db" where
  "find_order trade_id pair side d =
     (case latest_order (\<lambda>o'. ord_freqtrade_trade_id o' = Some trade_id \<and> ord_symbol o' = pair
                              \<and> ord_side o' = side) d of
        Some o' \<Rightarrow> (Some o', d)
      | None \<Rightarrow>
          (case latest_order (\<lambda>o'. ord_symbol o' = pair \<and> ord_side o' = side
                                 \<and> ord_status o' = SUBMITTED \<and> ord_freqtrade_trade_id o' = None) d of
             None \<Rightarrow> (None, d)
           | Some o' \<Rightarrow>
               (Some (o'\<lparr>ord_freqtrade_trade_id := Some trade_id\<rparr>),
                update_order (ord_id o') (\<lambda>r. r\<lparr>ord_freqtrade_trade_id := Some trade_id\<rparr>) d)))"

definition load_entry_signal :: "order \<Rightarrow> db \<Rightarrow> signal_row option" where
  "load_entry_signal entry_order d =
     Option.bind (get_decision d (ord_risk_decision_id entry_order))
       (\<lambda>r. get_signal d (dec_signal_id r))"

definition load_actual_risk_usdt :: "position \<Rightarrow> db \<Rightarrow> rat option" where
  "load_actual_risk_usdt position d =
     Option.bind (get_order d (pos_entry_order_id position))
       (\<lambda>o'. Option.bind (get_decision d (ord_risk_decision_id o')) dec_actual_risk_usdt)"

definition estimate_fees_usdt ::
    "RiskConfig \<Rightarrow> position \<Rightarrow> FreqtradeWebhookPayload \<Rightarrow> db \<Rightarrow> py_error + rat option" where
  "estimate_fees_usdt env position payload d =
     (case (wh_close_rate payload, wh_amount payload) of
        (Some close_rate, Some amount) \<Rightarrow>
          bind_res (load_effective_risk_config env d) (\<lambda>config.
            let entry_notional = dec (pos_entry_price position * pos_amount position);
                exit_notional = dec (close_rate * amount)
            in Inr (Some (dec (estimated_fee_pct config * dec (entry_notional + exit_notional)))))
      | _ \<Rightarrow> Inr None)"

section \<open>Fills\<close>

definition filled :: "rat \<Rightarrow> rat \<Rightarrow> order \<Rightarrow> order" where
  "filled amount price r =
     r\<lparr>ord_status := FILLED, ord_filled_amount := Some (numeric_col 8 amount),
       ord_avg_price := Some (numeric_col 8 price)\<rparr>"

definition handle_entry_fill ::
    "FreqtradeWebhookPayload \<Rightarrow> datetime \<Rightarrow> db \<Rightarrow> py_error + db" where
  "handle_entry_fill payload now d =
     (case find_order (wh_trade_id payload) (wh_pair payload) BUY_SIDE d of
        (found, d) \<Rightarrow>
          (case (found, wh_open_rate payload, wh_amount payload) of
             (Some o', Some open_rate, Some amount) \<Rightarrow>
               let d = update_order (ord_id o') (filled amount open_rate) d;
                   entry_signal = load_entry_signal o' d;
                   opened_at = (case parse_freqtrade_datetime (wh_open_date payload) of
                                  Some t \<Rightarrow> t | None \<Rightarrow> now);
                   d = add_position
                         \<lparr>pos_id = 0, pos_symbol = wh_pair payload, pos_status = OPEN,
                          pos_entry_order_id = ord_id o', pos_exit_order_id = None,
                          pos_entry_price = numeric_col 8 open_rate, pos_exit_price = None,
                          pos_amount = numeric_col 8 amount, pos_pnl_usdt = None, pos_pnl_pct = None,
                          pos_opened_at = opened_at, pos_closed_at = None, pos_exit_reason = None,
                          pos_fees_usdt = None, pos_fees_estimated = False, pos_r_multiple = None,
                          pos_market_regime = Option.bind entry_signal sig_setup_regime,
                          pos_trade_score = Option.bind entry_signal sig_trade_score,
                          pos_volatility_regime = Option.bind entry_signal sig_volatility_regime\<rparr> d;
                   d = add_audit (ord_trace_id o') ORDER_FILLED
                         [(''trade_id'', JInt (wh_trade_id payload)), (''pair'', JStr (wh_pair payload)),
                          (''side'', JSide BUY_SIDE)] now d
               in Inr (add_audit (ord_trace_id o') POSITION_OPENED
                         [(''trade_id'', JInt (wh_trade_id payload)), (''pair'', JStr (wh_pair payload)),
                          (''entry_price'', JNum open_rate), (''amount'', JNum amount)] now d)
           | _ \<Rightarrow> Inr d))"

text \<open>
  An exit without an order of its own (ROI and stop-loss exits are Freqtrade's): the position and
  its entry order are found by trade id, and an exit order is made up.
\<close>

definition match_open_position :: "FreqtradeWebhookPayload \<Rightarrow> db \<Rightarrow> (position \<times> order) option" where
  "match_open_position payload d =
     find (\<lambda>(p, o'). True)
       [(p, o'). p \<leftarrow> db_positions d, o' \<leftarrow> db_orders d,
          pos_entry_order_id p = ord_id o' \<and> pos_symbol p = wh_pair payload \<and> pos_status p = OPEN \<and>
          ord_freqtrade_trade_id o' = Some (wh_trade_id payload) \<and> ord_side o' = BUY_SIDE]"

definition synthetic_exit_order ::
    "FreqtradeWebhookPayload \<Rightarrow> rat \<Rightarrow> rat \<Rightarrow> position \<Rightarrow> order \<Rightarrow> datetime \<Rightarrow> order" where
  "synthetic_exit_order payload close_rate amount position entry_order now =
     \<lparr>ord_id = 0, ord_trace_id = ord_trace_id entry_order,
      ord_risk_decision_id = ord_risk_decision_id entry_order,
      ord_freqtrade_trade_id = Some (wh_trade_id payload), ord_symbol = wh_pair payload,
      ord_side = SELL_SIDE, ord_status = FILLED, ord_requested_amount = pos_amount position,
      ord_filled_amount = Some (numeric_col 8 amount), ord_avg_price = Some (numeric_col 8 close_rate),
      ord_dry_run = ord_dry_run entry_order, ord_created_at = now\<rparr>"

definition exit_order_for ::
    "FreqtradeWebhookPayload \<Rightarrow> rat \<Rightarrow> rat \<Rightarrow> datetime \<Rightarrow> db \<Rightarrow> (order \<times> db) option \<times> db" where
  "exit_order_for payload close_rate amount now d =
     (case find_order (wh_trade_id payload) (wh_pair payload) SELL_SIDE d of
        (Some o', d) \<Rightarrow> (Some (o', d), d)
      | (None, d) \<Rightarrow>
          (case match_open_position payload d of
             None \<Rightarrow> (None, d)
           | Some (position, entry_order) \<Rightarrow>
               let o' = (synthetic_exit_order payload close_rate amount position entry_order now)
                          \<lparr>ord_id := db_next_id d\<rparr>;
                   d' = add_order o' d
               in (Some (o', d'), d')))"

definition exit_position :: "nat \<Rightarrow> string \<Rightarrow> db \<Rightarrow> position option" where
  "exit_position order_id pair d =
     (case find (\<lambda>p. pos_exit_order_id p = Some order_id) (db_positions d) of
        Some p \<Rightarrow> Some p
      | None \<Rightarrow> find (\<lambda>p. pos_symbol p = pair \<and> pos_status p = OPEN) (db_positions d))"

definition r_multiple_of :: "rat option \<Rightarrow> rat option \<Rightarrow> rat option" where
  "r_multiple_of profit actual_risk =
     (case (actual_risk, profit) of
        (Some a, Some p) \<Rightarrow> if a = 0 then None else Some (dec (p / a))
      | _ \<Rightarrow> None)"

definition close_position ::
    "FreqtradeWebhookPayload \<Rightarrow> rat \<Rightarrow> nat \<Rightarrow> rat option \<Rightarrow> rat option \<Rightarrow> datetime \<Rightarrow> position \<Rightarrow> position" where
  "close_position payload close_rate order_id r_multiple fees now p =
     p\<lparr>pos_status := CLOSED, pos_exit_order_id := Some order_id,
       pos_exit_price := Some (numeric_col 8 close_rate),
       pos_pnl_usdt := map_option (numeric_col 8) (wh_profit_amount payload),
       pos_pnl_pct := map_option (numeric_col 4) (wh_profit_ratio payload),
       pos_closed_at := Some (case parse_freqtrade_datetime (wh_close_date payload) of
                                Some t \<Rightarrow> t | None \<Rightarrow> now),
       pos_exit_reason := wh_exit_reason payload,
       pos_r_multiple := map_option (numeric_col 4) r_multiple,
       pos_fees_usdt := map_option (numeric_col 8) fees,
       pos_fees_estimated := True\<rparr>"

definition handle_exit_fill ::
    "RiskConfig \<Rightarrow> FreqtradeWebhookPayload \<Rightarrow> datetime \<Rightarrow> db \<Rightarrow> py_error + db" where
  "handle_exit_fill env payload now d0 =
     (case (wh_close_rate payload, wh_amount payload) of
        (Some close_rate, Some amount) \<Rightarrow>
          (case exit_order_for payload close_rate amount now d0 of
             (None, d) \<Rightarrow> Inr d
           | (Some (o', d1), _) \<Rightarrow>
               let d2 = update_order (ord_id o') (filled amount close_rate) d1
               in (case exit_position (ord_id o') (wh_pair payload) d2 of
                     None \<Rightarrow> Inr d2
                   | Some position \<Rightarrow>
                       let r_multiple = r_multiple_of (wh_profit_amount payload)
                                          (load_actual_risk_usdt position d2)
                       in bind_res (estimate_fees_usdt env position payload d2) (\<lambda>fees.
                            let d3 = update_position (pos_id position)
                                       (close_position payload close_rate (ord_id o') r_multiple fees now) d2;
                                d4 = add_audit (ord_trace_id o') ORDER_FILLED
                                       [(''trade_id'', JInt (wh_trade_id payload)),
                                        (''pair'', JStr (wh_pair payload)), (''side'', JSide SELL_SIDE),
                                        (''source'', JStr ''freqtrade_webhook''),
                                        (''exit_reason'', json_opt JStr (wh_exit_reason payload))] now d3
                            in Inr (add_audit (ord_trace_id o') POSITION_CLOSED
                                      [(''trade_id'', JInt (wh_trade_id payload)),
                                       (''pair'', JStr (wh_pair payload)),
                                       (''pnl_usdt'', json_opt JNum (wh_profit_amount payload)),
                                       (''source'', JStr ''freqtrade_webhook''),
                                       (''exit_reason'', json_opt JStr (wh_exit_reason payload)),
                                       (''r_multiple'', json_opt JNum r_multiple),
                                       (''fees_usdt'', json_opt JNum fees),
                                       (''fees_estimated'', JBool True)] now d4))))
      | _ \<Rightarrow> Inr (snd (find_order (wh_trade_id payload) (wh_pair payload) SELL_SIDE d0)))"

section \<open>Cancellations\<close>

definition mark_cancelled ::
    "FreqtradeWebhookPayload \<Rightarrow> OrderSide \<Rightarrow> datetime \<Rightarrow> db \<Rightarrow> py_error + db" where
  "mark_cancelled payload side now d =
     (case find_order (wh_trade_id payload) (wh_pair payload) side d of
        (None, d) \<Rightarrow> Inr d
      | (Some o', d) \<Rightarrow>
          Inr (add_audit (ord_trace_id o') ORDER_CANCELLED
                 [(''trade_id'', JInt (wh_trade_id payload)), (''pair'', JStr (wh_pair payload)),
                  (''side'', JSide side)] now
                 (update_order (ord_id o') (\<lambda>r. r\<lparr>ord_status := CANCELLED\<rparr>) d)))"

section \<open>The endpoint\<close>

definition EVENT_HANDLERS ::
    "RiskConfig \<Rightarrow> datetime \<Rightarrow> (string \<times> (FreqtradeWebhookPayload \<Rightarrow> db \<Rightarrow> py_error + db)) list" where
  "EVENT_HANDLERS env now =
     [(''entry_fill'', \<lambda>p. handle_entry_fill p now),
      (''exit_fill'', \<lambda>p. handle_exit_fill env p now),
      (''entry_cancel'', \<lambda>p. mark_cancelled p BUY_SIDE now),
      (''exit_cancel'', \<lambda>p. mark_cancelled p SELL_SIDE now)]"

definition freqtrade_webhook ::
    "RiskConfig \<Rightarrow> string \<Rightarrow> bool \<Rightarrow> FreqtradeWebhookPayload \<Rightarrow> datetime \<Rightarrow> db \<Rightarrow> (http_error + unit) \<times> db" where
  "freqtrade_webhook env webhook_shared_secret commit_ok payload now d =
     (if webhook_shared_secret = [] \<or> wh_secret payload \<noteq> webhook_shared_secret
      then (Inl Unauthorized, d)
      else case map_of (EVENT_HANDLERS env now) (wh_event payload) of
        None \<Rightarrow> (Inr (), d)
      | Some handler \<Rightarrow>
          (case handler payload d of
             Inl e \<Rightarrow> (Inl (ServerError e), d)
           | Inr d' \<Rightarrow> if commit_ok then (Inr (), d') else (Inl (ServerError DatabaseError), d)))"

section \<open>Marks\<close>

record position_mark =
  mk_current_price :: rat
  mk_current_value_usdt :: rat
  mk_unrealized_pnl_usdt :: rat
  mk_unrealized_pnl_pct :: rat
  mk_price_updated_at :: datetime

definition position_with_mark :: "position \<Rightarrow> signal_row option \<Rightarrow> position_mark option" where
  "position_with_mark position signal =
     (case signal of
        None \<Rightarrow> None
      | Some s \<Rightarrow>
          if pos_status position \<noteq> OPEN then None
          else
            let current_price = sig_price s
            in Some \<lparr>mk_current_price = current_price,
                     mk_current_value_usdt = dec (pos_amount position * current_price),
                     mk_unrealized_pnl_usdt =
                       dec (dec (current_price - pos_entry_price position) * pos_amount position),
                     mk_unrealized_pnl_pct =
                       (if pos_entry_price position > 0
                        then dec (dec (current_price - pos_entry_price position) / pos_entry_price position)
                        else 0),
                     mk_price_updated_at = sig_candle_ts s\<rparr>)"

text \<open>The latest signal of a symbol; of several on its newest candle the last row wins.\<close>

definition latest_signal :: "string \<Rightarrow> db \<Rightarrow> signal_row option" where
  "latest_signal symbol d =
     (let rows = filter (\<lambda>s. sig_symbol s = symbol) (db_signals d);
          newest = filter (\<lambda>s. list_all (\<lambda>r. sig_candle_ts r \<le> sig_candle_ts s) rows) rows
      in if newest = [] then None else Some (last newest))"

definition list_positions_with_marks ::
    "PositionStatus option \<Rightarrow> db \<Rightarrow> (position \<times> position_mark option) list" where
  "list_positions_with_marks status_filter d =
     (let rows = sort_key (\<lambda>p. - pos_opened_at p)
                   (filter (\<lambda>p. case status_filter of None \<Rightarrow> True | Some st \<Rightarrow> pos_status p = st)
                      (db_positions d));
          open_symbols = set (map pos_symbol (filter (\<lambda>p. pos_status p = OPEN) rows))
      in map (\<lambda>p. (p, position_with_mark p
                         (if pos_symbol p \<in> open_symbols then latest_signal (pos_symbol p) d else None))) rows)"

end
