(* ===== verification/Reconciliation.thy ===== *)
theory Reconciliation
  imports Freqtrade_Client
begin

text \<open>
  \<open>risk_engine/app/reconciliation.py\<close>: one turn of the reconciliation loop.  The state is the
  \<open>world\<close> (the lookups are requests to Freqtrade) and every helper returns whether it reconciled
  something; the loop itself, its pause and its logging are left out.
\<close>

section \<open>Alerts\<close>

definition alert_exists :: "nat \<Rightarrow> db \<Rightarrow> bool" where
  "alert_exists trace d \<longleftrightarrow>
     list_ex (\<lambda>e. aud_trace_id e = trace \<and> aud_event_type e = RECONCILIATION_REQUIRED) (db_audit d)"

definition alert_once :: "order \<Rightarrow> string \<Rightarrow> datetime \<Rightarrow> db \<Rightarrow> db" where
  "alert_once ord reason now d =
     (if alert_exists (ord_trace_id ord) d then d
      else add_audit (ord_trace_id ord) RECONCILIATION_REQUIRED
             [(''order_id'', JId (ord_id ord)), (''symbol'', JStr (ord_symbol ord)),
              (''reason'', JStr reason)] now d)"

section \<open>One order\<close>

definition order_filled :: "rat option \<Rightarrow> rat option \<Rightarrow> order \<Rightarrow> order" where
  "order_filled amount price r =
     r\<lparr>ord_status := FILLED, ord_filled_amount := map_option (numeric_col 8) amount,
       ord_avg_price := map_option (numeric_col 8) price\<rparr>"

definition fill_payload :: "nat \<Rightarrow> int \<Rightarrow> string \<Rightarrow> OrderSide \<Rightarrow> string \<Rightarrow> (string \<times> json) list" where
  "fill_payload order_id trade_id pair side source =
     [(''order_id'', JId order_id), (''trade_id'', JInt trade_id), (''pair'', JStr pair),
      (''side'', JSide side), (''source'', JStr source)]"

definition closed_payload :: "nat \<Rightarrow> int \<Rightarrow> string \<Rightarrow> rat option \<Rightarrow> string \<Rightarrow> (string \<times> json) list" where
  "closed_payload order_id trade_id pair pnl source =
     [(''order_id'', JId order_id), (''trade_id'', JInt trade_id), (''pair'', JStr pair),
      (''pnl_usdt'', json_opt JNum pnl), (''source'', JStr source)]"

definition entry_confirmed :: "FreqtradeTrade \<Rightarrow> bool" where
  "entry_confirmed trade \<longleftrightarrow>
     \<not> (ft_open_rate trade = None \<or> ft_amount trade = None
        \<or> (case ft_amount trade of Some a \<Rightarrow> a \<le> 0 | None \<Rightarrow> False)
        \<or> ft_has_open_orders trade \<noteq> Some False \<or> ft_open_fill_date trade = None)"

definition reconcile_open_entry ::
    "order \<Rightarrow> FreqtradeTrade \<Rightarrow> datetime \<Rightarrow> db \<Rightarrow> bool \<times> db" where
  "reconcile_open_entry ord trade now d =
     (if \<not> entry_confirmed trade
      then (False, alert_once ord ''entry_not_confirmed_filled'' now d)
      else
        let position = find (\<lambda>p. pos_entry_order_id p = ord_id ord) (db_positions d);
            d = update_order (ord_id ord) (order_filled (ft_amount trade) (ft_open_rate trade)) d;
            d = (if position = None
                 then add_position
                        \<lparr>pos_id = 0, pos_symbol = ord_symbol ord, pos_status = OPEN,
                         pos_entry_order_id = ord_id ord, pos_exit_order_id = None,
                         pos_entry_price = numeric_col 8 (the (ft_open_rate trade)), pos_exit_price = None,
                         pos_amount = numeric_col 8 (the (ft_amount trade)), pos_pnl_usdt = None,
                         pos_pnl_pct = None,
                         pos_opened_at = (case ft_open_date trade of Some t \<Rightarrow> t | None \<Rightarrow> now),
                         pos_closed_at = None, pos_exit_reason = None, pos_fees_usdt = None,
                         pos_fees_estimated = False, pos_r_multiple = None, pos_market_regime = None,
                         pos_trade_score = None, pos_volatility_regime = None\<rparr> d
                 else d);
            d = add_audit (ord_trace_id ord) ORDER_FILLED
                  (fill_payload (ord_id ord) (ft_trade_id trade) (ord_symbol ord) BUY_SIDE ''reconciliation'') now d
        in (True, add_audit (ord_trace_id ord) POSITION_OPENED
                    [(''order_id'', JId (ord_id ord)), (''trade_id'', JInt (ft_trade_id trade)),
                     (''pair'', JStr (ord_symbol ord)), (''source'', JStr ''reconciliation'')] now d))"

definition closed_by_trade :: "FreqtradeTrade \<Rightarrow> datetime \<Rightarrow> position \<Rightarrow> position" where
  "closed_by_trade trade now p =
     p\<lparr>pos_status := CLOSED,
       pos_exit_price := map_option (numeric_col 8) (ft_close_rate trade),
       pos_pnl_usdt := map_option (numeric_col 8) (ft_profit_abs trade),
       pos_pnl_pct := map_option (numeric_col 4) (ft_profit_ratio trade),
       pos_closed_at := Some (case ft_close_date trade of Some t \<Rightarrow> t | None \<Rightarrow> now)\<rparr>"

definition reconcile_closed_exit ::
    "order \<Rightarrow> FreqtradeTrade \<Rightarrow> datetime \<Rightarrow> db \<Rightarrow> bool \<times> db" where
  "reconcile_closed_exit ord trade now d =
     (if ft_close_rate trade = None \<or> ft_amount trade = None
      then (False, alert_once ord ''exit_fill_fields_missing'' now d)
      else case find (\<lambda>p. pos_exit_order_id p = Some (ord_id ord)) (db_positions d) of
        None \<Rightarrow> (False, alert_once ord ''open_position_missing'' now d)
      | Some position \<Rightarrow>
          let d = update_order (ord_id ord) (order_filled (ft_amount trade) (ft_close_rate trade)) d;
              d = update_position (pos_id position) (closed_by_trade trade now) d;
              d = add_audit (ord_trace_id ord) ORDER_FILLED
                    (fill_payload (ord_id ord) (ft_trade_id trade) (ord_symbol ord) SELL_SIDE
                       ''reconciliation'') now d
          in (True, add_audit (ord_trace_id ord) POSITION_CLOSED
                      (closed_payload (ord_id ord) (ft_trade_id trade) (ord_symbol ord)
                         (ft_profit_abs trade) ''reconciliation'') now d))"

definition on_db :: "(db \<Rightarrow> bool \<times> db) \<Rightarrow> world \<Rightarrow> bool \<times> world" where
  "on_db f w = (let (b, d) = f (w_db w) in (b, w\<lparr>w_db := d\<rparr>))"

definition alert :: "order \<Rightarrow> string \<Rightarrow> datetime \<Rightarrow> world \<Rightarrow> bool \<times> world" where
  "alert ord reason now w = on_db (\<lambda>d. (False, alert_once ord reason now d)) w"

text \<open>The body of the loop over stale SUBMITTED orders.\<close>

definition reconcile_order :: "externals \<Rightarrow> datetime \<Rightarrow> order \<Rightarrow> world \<Rightarrow> bool \<times> world" where
  "reconcile_order ex now ord w =
     (case ord_freqtrade_trade_id ord of
        None \<Rightarrow> alert ord ''missing_freqtrade_trade_id'' now w
      | Some trade_id \<Rightarrow>
          (case get_trade ex trade_id w of
             (Inl _, w) \<Rightarrow> alert ord ''freqtrade_lookup_failed'' now w
           | (Inr trade, w) \<Rightarrow>
               if ft_pair trade \<noteq> ord_symbol ord then alert ord ''freqtrade_pair_mismatch'' now w
               else if ord_side ord = BUY_SIDE \<and> ft_is_open trade
               then on_db (reconcile_open_entry ord trade now) w
               else if ord_side ord = SELL_SIDE \<and> \<not> ft_is_open trade
               then on_db (reconcile_closed_exit ord trade now) w
               else alert ord ''remote_state_ambiguous'' now w))"

section \<open>One open position\<close>

definition exit_order_of_trade :: "position \<Rightarrow> order \<Rightarrow> FreqtradeTrade \<Rightarrow> datetime \<Rightarrow> order" where
  "exit_order_of_trade position entry_order trade now =
     \<lparr>ord_id = 0, ord_trace_id = ord_trace_id entry_order,
      ord_risk_decision_id = ord_risk_decision_id entry_order,
      ord_freqtrade_trade_id = Some (ft_trade_id trade), ord_symbol = pos_symbol position,
      ord_side = SELL_SIDE, ord_status = FILLED, ord_requested_amount = pos_amount position,
      ord_filled_amount = map_option (numeric_col 8) (ft_amount trade),
      ord_avg_price = map_option (numeric_col 8) (ft_close_rate trade),
      ord_dry_run = ord_dry_run entry_order, ord_created_at = now\<rparr>"

definition close_open_position ::
    "position \<Rightarrow> order \<Rightarrow> FreqtradeTrade \<Rightarrow> datetime \<Rightarrow> db \<Rightarrow> bool \<times> db" where
  "close_open_position position entry_order trade now d =
     (let order_id = db_next_id d;
          d = add_order (exit_order_of_trade position entry_order trade now) d;
          d = update_position (pos_id position)
                (\<lambda>p. (closed_by_trade trade now p)\<lparr>pos_exit_order_id := Some order_id\<rparr>) d;
          d = add_audit (ord_trace_id entry_order) ORDER_FILLED
                (fill_payload order_id (ft_trade_id trade) (pos_symbol position) SELL_SIDE
                   ''position_reconciliation'') now d
      in (True, add_audit (ord_trace_id entry_order) POSITION_CLOSED
                  (closed_payload order_id (ft_trade_id trade) (pos_symbol position)
                     (ft_profit_abs trade) ''position_reconciliation'') now d))"

definition reconcile_position ::
    "externals \<Rightarrow> datetime \<Rightarrow> position \<times> order \<Rightarrow> world \<Rightarrow> bool \<times> world" where
  "reconcile_position ex now = (\<lambda>(position, entry_order) w.
     case ord_freqtrade_trade_id entry_order of
       None \<Rightarrow> (False, w)
     | Some trade_id \<Rightarrow>
         (case get_trade ex trade_id w of
            (Inl _, w) \<Rightarrow> alert entry_order ''freqtrade_position_lookup_failed'' now w
          | (Inr trade, w) \<Rightarrow>
              if ft_pair trade \<noteq> pos_symbol position
              then alert entry_order ''freqtrade_position_pair_mismatch'' now w
              else if ft_is_open trade then (False, w)
              else if ft_close_rate trade = None \<or> ft_amount trade = None
              then alert entry_order ''position_exit_fields_missing'' now w
              else on_db (close_open_position position entry_order trade now) w))"

section \<open>One turn\<close>

fun reconcile_all :: "('a \<Rightarrow> world \<Rightarrow> bool \<times> world) \<Rightarrow> 'a list \<Rightarrow> world \<Rightarrow> nat \<times> world" where
  "reconcile_all f [] w = (0, w)"
| "reconcile_all f (x # xs) w =
     (let (b, w') = f x w; (n, w'') = reconcile_all f xs w'
      in ((if b then Suc n else n), w''))"

definition stale_orders :: "datetime \<Rightarrow> timedelta \<Rightarrow> db \<Rightarrow> order list" where
  "stale_orders now stale_after d =
     filter (\<lambda>r. ord_status r = SUBMITTED \<and> ord_created_at r \<le> now - stale_after) (db_orders d)"

definition open_with_entry :: "db \<Rightarrow> (position \<times> order) list" where
  "open_with_entry d =
     [(p, r). p \<leftarrow> db_positions d, r \<leftarrow> db_orders d,
        pos_entry_order_id p = ord_id r \<and> pos_status p = OPEN \<and>
        ord_freqtrade_trade_id r \<noteq> None \<and> ord_side r = BUY_SIDE]"

definition reconcile_open_positions :: "externals \<Rightarrow> datetime \<Rightarrow> world \<Rightarrow> nat \<times> world" where
  "reconcile_open_positions ex now w =
     reconcile_all (reconcile_position ex now) (open_with_entry (w_db w)) w"

definition reconcile_submitted_orders ::
    "externals \<Rightarrow> bool \<Rightarrow> datetime \<Rightarrow> timedelta \<Rightarrow> world \<Rightarrow> (py_error + nat) \<times> world" where
  "reconcile_submitted_orders ex commit_ok now stale_after w =
     (let (n, w) = reconcile_all (reconcile_order ex now) (stale_orders now stale_after (w_db w)) w;
          (m, w) = reconcile_open_positions ex now w
      in then_do (commit commit_ok w) (\<lambda>_ w. (Inr (n + m), w)))"

text \<open>One turn of \<open>run_reconciliation_loop\<close>: any exception is swallowed.\<close>

definition reconciliation_turn :: "externals \<Rightarrow> bool \<Rightarrow> datetime \<Rightarrow> int \<Rightarrow> world \<Rightarrow> world" where
  "reconciliation_turn ex commit_ok now order_age_minutes w =
     snd (run_session (reconcile_submitted_orders ex commit_ok now (minutes order_age_minutes)) w)"

end
