(* ===== verification/Ledger.thy ===== *)
theory Ledger
  imports Risk_Main Webhooks Reconciliation
begin

text \<open>
  The trading ledger (decisions, orders, positions, audit log) as one shared structure.  The risk
  engine, the webhook receiver and the reconciliation loop each change it through the session
  operations of \<open>Domain\<close>; the locale states what a predicate on databases must be closed under,
  its lemmas run every service once over it, and the interpretations give the well-formedness of the
  ledger and the fact that it only grows.
\<close>

section \<open>Well-formed rows\<close>

definition has_order :: "db \<Rightarrow> nat \<Rightarrow> OrderSide \<Rightarrow> bool" where
  "has_order d i side \<longleftrightarrow> list_ex (\<lambda>r. ord_id r = i \<and> ord_side r = side) (db_orders d)"

definition has_approval :: "db \<Rightarrow> nat \<Rightarrow> bool" where
  "has_approval d i \<longleftrightarrow> list_ex (\<lambda>r. dec_id r = i \<and> dec_approved r) (db_decisions d)"

definition fill_ok :: "order \<Rightarrow> bool" where
  "fill_ok r \<longleftrightarrow> (ord_status r = FILLED \<longrightarrow> ord_filled_amount r \<noteq> None \<and> ord_avg_price r \<noteq> None)"

definition position_ok :: "db \<Rightarrow> position \<Rightarrow> bool" where
  "position_ok d p \<longleftrightarrow>
     has_order d (pos_entry_order_id p) BUY_SIDE \<and>
     (case pos_exit_order_id p of Some i \<Rightarrow> has_order d i SELL_SIDE | None \<Rightarrow> pos_status p = OPEN) \<and>
     (pos_status p = CLOSED \<longleftrightarrow> pos_closed_at p \<noteq> None) \<and>
     (pos_status p = CLOSED \<longleftrightarrow> pos_exit_price p \<noteq> None)"

definition ledger_ok :: "db \<Rightarrow> bool" where
  "ledger_ok d \<longleftrightarrow>
     distinct (map ord_id (db_orders d)) \<and> distinct (map pos_id (db_positions d)) \<and>
     list_all (\<lambda>r. ord_id r < db_next_id d \<and> has_approval d (ord_risk_decision_id r) \<and> fill_ok r)
       (db_orders d) \<and>
     list_all (\<lambda>p. pos_id p < db_next_id d \<and> position_ok d p) (db_positions d)"

section \<open>Changes of rows\<close>

definition new_order_ok :: "db \<Rightarrow> order \<Rightarrow> bool" where
  "new_order_ok d r \<longleftrightarrow> has_approval d (ord_risk_decision_id r) \<and> fill_ok r"

definition order_kept :: "order \<Rightarrow> order \<Rightarrow> bool" where
  "order_kept r r' \<longleftrightarrow>
     ord_id r' = ord_id r \<and> ord_trace_id r' = ord_trace_id r \<and> ord_symbol r' = ord_symbol r \<and>
     ord_side r' = ord_side r \<and> ord_risk_decision_id r' = ord_risk_decision_id r \<and>
     ord_requested_amount r' = ord_requested_amount r \<and> ord_created_at r' = ord_created_at r"

definition order_change :: "order \<Rightarrow> order \<Rightarrow> bool" where
  "order_change r r' \<longleftrightarrow> order_kept r r' \<and> (fill_ok r \<longrightarrow> fill_ok r')"

definition position_kept :: "position \<Rightarrow> position \<Rightarrow> bool" where
  "position_kept p p' \<longleftrightarrow>
     pos_id p' = pos_id p \<and> pos_symbol p' = pos_symbol p \<and> pos_entry_order_id p' = pos_entry_order_id p \<and>
     pos_entry_price p' = pos_entry_price p \<and> pos_amount p' = pos_amount p \<and>
     pos_opened_at p' = pos_opened_at p \<and> (pos_status p = CLOSED \<longrightarrow> pos_status p' = CLOSED)"

definition position_change :: "db \<Rightarrow> position \<Rightarrow> position \<Rightarrow> bool" where
  "position_change d p p' \<longleftrightarrow> position_kept p p' \<and> (position_ok d p \<longrightarrow> position_ok d p')"

text \<open>One database extends another: rows stay, in place, with their identifying fields.\<close>

definition grows :: "('a \<Rightarrow> 'a \<Rightarrow> bool) \<Rightarrow> 'a list \<Rightarrow> 'a list \<Rightarrow> bool" where
  "grows kept xs ys \<longleftrightarrow> list_all2 kept xs (take (length xs) ys)"

definition extends :: "db \<Rightarrow> db \<Rightarrow> bool" where
  "extends d d' \<longleftrightarrow>
     grows (=) (db_decisions d) (db_decisions d') \<and> audit_grows d d' \<and>
     grows order_kept (db_orders d) (db_orders d') \<and>
     grows position_kept (db_positions d) (db_positions d')"

lemma grows_refl: "(\<And>x. kept x x) \<Longrightarrow> grows kept xs xs"
  by (simp add: grows_def list_all2_refl)

lemma grows_append: "grows kept xs ys \<Longrightarrow> grows kept xs (ys @ zs)"
  using list_all2_lengthD by (fastforce simp: grows_def)

lemma grows_map:
  assumes "grows kept xs ys" "\<And>x y. y \<in> set ys \<Longrightarrow> kept x y \<Longrightarrow> kept x (f y)"
  shows "grows kept xs (map f ys)"
  using assms(1) unfolding grows_def take_map list_all2_map2
  by (rule list.rel_mono_strong) (blast intro: assms(2) dest: in_set_takeD)

lemma has_order_simps [simp]:
  "has_order (add_audit tr ty pl now d) = has_order d"
  "has_order (add_decision c d) = has_order d"
  "has_order (add_position p d) = has_order d"
  "has_order (update_position i g d) = has_order d"
  "has_order (d\<lparr>db_system_state := s\<rparr>) = has_order d"
  "has_order (d\<lparr>db_risk_overrides := ov\<rparr>) = has_order d"
  "has_order (d\<lparr>db_llm_overrides := lo\<rparr>) = has_order d"
  "has_order (add_signal sg d) = has_order d"
  "has_order (add_order r d) k side \<longleftrightarrow> (k = db_next_id d \<and> ord_side r = side) \<or> has_order d k side"
  by (auto simp: has_order_def fun_eq_iff)

lemma has_approval_simps [simp]:
  "has_approval (add_audit tr ty pl now d) = has_approval d"
  "has_approval (add_order r d) = has_approval d"
  "has_approval (add_position p d) = has_approval d"
  "has_approval (update_position i g d) = has_approval d"
  "has_approval (update_order i f d) = has_approval d"
  "has_approval (d\<lparr>db_system_state := s\<rparr>) = has_approval d"
  "has_approval (d\<lparr>db_risk_overrides := ov\<rparr>) = has_approval d"
  "has_approval (d\<lparr>db_llm_overrides := lo\<rparr>) = has_approval d"
  "has_approval (add_signal sg d) = has_approval d"
  "has_approval (add_decision c d) k \<longleftrightarrow> (k = db_next_id d \<and> dec_approved c) \<or> has_approval d k"
  by (auto simp: has_approval_def fun_eq_iff)

lemma has_order_update_order:
  assumes "\<And>r. ord_id (f r) = ord_id r \<and> ord_side (f r) = ord_side r"
  shows "has_order (update_order i f d) k side \<longleftrightarrow> has_order d k side"
  using assms by (auto simp: has_order_def update_order_def list_ex_iff)

lemma has_order_mem: "r \<in> set (db_orders d) \<Longrightarrow> has_order d (ord_id r) (ord_side r)"
  by (auto simp: has_order_def list_ex_iff)

text \<open>An order a service has loaded before: its row may have changed, not its identity.\<close>

definition known :: "db \<Rightarrow> order \<Rightarrow> bool" where
  "known d r \<longleftrightarrow> has_order d (ord_id r) (ord_side r) \<and> has_approval d (ord_risk_decision_id r)"

text \<open>The row functions of the services.\<close>

lemma filled_kept [simp]: "order_change r (filled a p r)" "order_change r (order_filled (Some a) (Some p) r)"
  "order_change r (r\<lparr>ord_status := CANCELLED\<rparr>)" "order_change r (r\<lparr>ord_freqtrade_trade_id := t\<rparr>)"
  by (simp_all add: order_change_def order_kept_def fill_ok_def filled_def order_filled_def)

lemma order_change_same: "order_change r r' \<Longrightarrow> ord_id r' = ord_id r \<and> ord_side r' = ord_side r"
  by (simp add: order_change_def order_kept_def)

lemma filled_same [simp]:
  "ord_id (filled a p r) = ord_id r" "ord_side (filled a p r) = ord_side r"
  "ord_id (order_filled b q r) = ord_id r" "ord_side (order_filled b q r) = ord_side r"
  by (simp_all add: filled_def order_filled_def)

lemma closing_change:
  assumes "has_order d k SELL_SIDE"
  shows "position_change d p (close_position pl cr k rm fees now p)"
    "ft_close_rate trade \<noteq> None \<Longrightarrow>
       position_change d p ((closed_by_trade trade now p)\<lparr>pos_exit_order_id := Some k\<rparr>)"
  using assms
  by (simp_all add: position_change_def position_kept_def position_ok_def close_position_def closed_by_trade_def)

lemma exit_placed_change:
  "has_order d k SELL_SIDE \<Longrightarrow> position_change d p (p\<lparr>pos_exit_order_id := Some k\<rparr>)"
  by (auto simp: position_change_def position_kept_def position_ok_def split: option.splits)

section \<open>The ledger as an interface\<close>

locale session_invariant =
  fixes I :: "db \<Rightarrow> bool"
  assumes audit: "I d \<Longrightarrow> I (add_audit tr ty pl now d)"
    and decision: "I d \<Longrightarrow> I (add_decision c d)"
    and order: "I d \<Longrightarrow> new_order_ok d r \<Longrightarrow> I (add_order r d)"
    and position: "I d \<Longrightarrow> position_ok d p \<Longrightarrow> I (add_position p d)"
    and order_update: "I d \<Longrightarrow> (\<And>r. order_change r (f r)) \<Longrightarrow> I (update_order i f d)"
    and position_update: "I d \<Longrightarrow>
      (\<And>p. p \<in> set (db_positions d) \<Longrightarrow> pos_id p = i \<Longrightarrow> position_change d p (g p)) \<Longrightarrow>
      I (update_position i g d)"
    and switch: "I d \<Longrightarrow> I (d\<lparr>db_system_state := s\<rparr>)"
    and overrides: "I d \<Longrightarrow> I (d\<lparr>db_risk_overrides := ov\<rparr>)"
    and llm_overrides: "I d \<Longrightarrow> I (d\<lparr>db_llm_overrides := lo\<rparr>)"
    and signal: "I d \<Longrightarrow> I (add_signal sg d)"
    and decided_order: "I d \<Longrightarrow> r \<in> set (db_orders d) \<Longrightarrow> has_approval d (ord_risk_decision_id r)"
    and one_row: "I d \<Longrightarrow> p \<in> set (db_positions d) \<Longrightarrow> q \<in> set (db_positions d) \<Longrightarrow>
      pos_id p = pos_id q \<Longrightarrow> p = q"
begin

subsection \<open>The risk engine\<close>

lemma enable_keeps:
  assumes "enable_killswitch ex reason b tr now w = (res, w')" "I (w_db w)"
  shows "I (w_db w') \<and> w_saved w' = w_saved w"
proof -
  have "w_db w' = add_audit tr KILLSWITCH_ENABLED [(''reason'', JStr reason), (''updated_by'', JStr b)] now
      ((w_db w)\<lparr>db_system_state := Some ((current_state (w_db w))\<lparr>sys_killswitch_enabled := True,
         sys_killswitch_reason := Some reason, sys_killswitch_updated_by := Some b\<rparr>)\<rparr>)"
    "w_saved w' = w_saved w"
    using assms(1) by (auto simp: enable_killswitch_def redis_call_def Let_def split: if_splits)
  then show ?thesis using assms(2) by (simp add: audit switch)
qed

lemma disable_keeps:
  assumes "disable_killswitch ex reason b tr now w = (res, w')" "I (w_db w)"
  shows "I (w_db w') \<and> w_saved w' = w_saved w"
proof -
  have "w_db w' = add_audit tr KILLSWITCH_DISABLED [(''reason'', JStr reason), (''updated_by'', JStr b)] now
      ((w_db w)\<lparr>db_system_state := Some ((current_state (w_db w))\<lparr>sys_killswitch_enabled := False,
         sys_killswitch_reason := Some reason, sys_killswitch_updated_by := Some b,
         sys_consecutive_loss_reset_at := Some now\<rparr>)\<rparr>)"
    "w_saved w' = w_saved w"
    using assms(1) by (auto simp: disable_killswitch_def redis_call_def Let_def split: if_splits)
  then show ?thesis using assms(2) by (simp add: audit switch)
qed

lemma record_entry_order_keeps:
  assumes "I (w_db w)" "has_approval (w_db w) dn" "status \<noteq> FILLED"
  shows "I (w_db (record_entry_order cf signal dn b now tid status ev w))"
  using assms unfolding record_entry_order_def Let_def with_db_sel
  by (intro audit order) (simp_all add: new_order_ok_def fill_ok_def order_row_def)

lemma submit_entry_order_keeps:
  assumes "submit_entry_order ex cf signal dn sz b st now w = (res, w')" "I (w_db w)"
    "has_approval (w_db w) dn"
  shows "I (w_db w') \<and> w_saved w' = w_saved w"
proof -
  let ?tag = "map_option TagSlpct (entry_stop_distance signal st)"
  obtain r1 w1 where fe: "forceenter ex (sig_symbol signal) sz ?tag w = (r1, w1)" by fastforce
  have f: "w_db w1 = w_db w \<and> w_saved w1 = w_saved w" using fe by (rule forceenter_effect) simp
  have r1: "r1 = Inl FreqtradeUnavailable \<or> (\<exists>r. r1 = Inr r)" using fe by (rule forceenter_effect) blast
  note keeps = record_entry_order_keeps[of w1 dn]
  from r1 show ?thesis
  proof
    assume "r1 = Inl FreqtradeUnavailable"
    then have "w' = record_entry_order cf signal dn b now None FAILED ORDER_FAILED w1"
      using assms(1) fe by (simp add: submit_entry_order_def Let_def)
    then show ?thesis using keeps[of FAILED] f assms(2,3) by (simp add: record_entry_order_effect(5))
  next
    assume "\<exists>r. r1 = Inr r"
    then obtain r where "r1 = Inr r" ..
    then have "w' = record_entry_order cf signal dn b now (response_trade_id r) SUBMITTED ORDER_SUBMITTED w1"
      using assms(1) fe by (simp add: submit_entry_order_def Let_def)
    then show ?thesis using keeps[of SUBMITTED] f assms(2,3) by (simp add: record_entry_order_effect(5))
  qed
qed

lemma record_exit_order_keeps:
  assumes "I (w_db w)" "has_approval (w_db w) dn" "status \<noteq> FILLED"
  shows "I (w_db (record_exit_order cf signal dn p tid now status ev w))"
proof -
  let ?o = "order_row signal dn (Some tid) SELL_SIDE status (pos_amount p) (dry_run cf) now"
  let ?d = "add_order ?o (w_db w)"
  have o: "I ?d" using assms by (intro order) (simp_all add: new_order_ok_def fill_ok_def order_row_def)
  have u: "I (update_position (pos_id p) (\<lambda>p. p\<lparr>pos_exit_order_id := Some (db_next_id (w_db w))\<rparr>) ?d)"
    by (intro position_update o exit_placed_change) (simp add: order_row_def)
  show ?thesis
    by (cases "status = SUBMITTED") (use u o in \<open>simp_all add: record_exit_order_def Let_def audit\<close>)
qed

lemma submit_exit_order_keeps:
  assumes "submit_exit_order ex cf signal dn now w = (res, w')" "I (w_db w)" "has_approval (w_db w) dn"
  shows "I (w_db w')"
proof (cases "find (\<lambda>p. pos_symbol p = sig_symbol signal \<and> pos_status p = OPEN) (db_positions (w_db w))")
  case None
  then show ?thesis using assms by (simp add: submit_exit_order_def)
next
  case (Some p)
  show ?thesis
  proof (cases "Option.bind (get_order (w_db w) (pos_entry_order_id p)) ord_freqtrade_trade_id")
    case None
    then show ?thesis using assms Some by (simp add: submit_exit_order_def)
  next
    case t: (Some tid)
    obtain r1 w1 where ae: "attempt_exit ex signal tid w = (r1, w1)" by fastforce
    note a = attempt_exit_effect[OF ae]
    let ?rec = "\<lambda>status ev. record_exit_order cf signal dn p tid now status ev w1"
    have "w' = ?rec SUBMITTED ORDER_SUBMITTED \<or> w' = ?rec FAILED ORDER_FAILED"
      using assms(1) Some t ae a by (auto simp: submit_exit_order_def Let_def)
    moreover have "I (w_db (?rec status ev))" if "status \<noteq> FILLED" for status ev
      using record_exit_order_keeps[OF _ _ that] a assms(2,3) by simp
    ultimately show ?thesis by auto
  qed
qed

lemma commit_saved:
  "commit ok w = (res, w') \<Longrightarrow> I (w_db w) \<Longrightarrow> I (w_saved w) \<Longrightarrow> I (w_saved w')"
  by (auto simp: commit_def split: if_splits)

lemma recorded_keeps: "I d \<Longrightarrow> I (write_decision_audit_event s a r n ac st ch now (add_decision c d))"
  by (simp add: write_decision_audit_event_def audit decision)

lemma recorded_approval [simp]:
  "dec_approved c \<Longrightarrow>
     has_approval (write_decision_audit_event s a r n ac st ch now (add_decision c d)) (db_next_id d)"
  by (simp add: write_decision_audit_event_def)

lemma handle_exit_signal_keeps:
  assumes "handle_exit_signal ex cf ok signal v a dup now w = (res, w')" "I (w_db w)" "I (w_saved w)"
  shows "I (w_saved w')"
proof -
  let ?r = "evaluate_exit v a cf now dup"
  let ?w1 = "with_db (write_decision_audit_event signal (xdr_approved ?r) (xdr_rejection_reason ?r)
      None None None None now) (with_db (add_decision (decision_row signal (xdr_approved ?r)
      (xdr_rejection_reason ?r) (Some (xdr_equity_snapshot_usdt ?r)) now)) w)"
  have w1: "I (w_db ?w1)" "w_saved ?w1 = w_saved w"
    "xdr_approved ?r \<Longrightarrow> has_approval (w_db ?w1) (db_next_id (w_db w))"
    using assms(2) by (simp_all add: recorded_keeps decision_row_def)
  show ?thesis
  proof (cases "xdr_approved ?r")
    case False
    then have "commit ok ?w1 = (res, w')"
      using assms(1) by (simp add: handle_exit_signal_def Let_def del: with_db_sel)
    then show ?thesis by (rule commit_saved) (use w1 assms(3) in simp_all)
  next
    case True
    obtain r2 w2 where s: "submit_exit_order ex cf signal (db_next_id (w_db w)) now ?w1 = (r2, w2)"
      by fastforce
    note s2 = submit_exit_order_effect[OF s] and i2 = submit_exit_order_keeps[OF s w1(1) w1(3)[OF True]]
    have "commit ok w2 = (res, w')"
      using assms(1) s s2 True by (simp add: handle_exit_signal_def Let_def del: with_db_sel)
    then show ?thesis by (rule commit_saved) (use i2 s2 w1(2) assms(3) in simp_all)
  qed
qed

lemma handle_entry_signal_keeps:
  assumes "handle_entry_signal ex cf ok signal v a dup x now w = (res, w')" "I (w_db w)" "I (w_saved w)"
  shows "I (w_saved w')"
proof -
  let ?R = "entry_result v a cf now (is_enabled (w_db w)) dup x"
  obtain r1 w1 where t: "(if rdr_auto_trip_killswitch ?R
            then enable_killswitch ex
                   (case rdr_rejection_reason ?R of Some r \<Rightarrow> reason_value r | None \<Rightarrow> ''AUTO_TRIP'')
                   ''SYSTEM'' (sig_trace_id signal) now w
            else (Inr (), w)) = (r1, w1)" by fastforce
  have w1: "I (w_db w1)" "w_saved w1 = w_saved w"
    using t enable_keeps assms(2) by (auto split: if_splits)
  let ?w2 = "with_db (record_entry_decision signal ?R now) w1"
  have w2: "I (w_db ?w2)" "w_saved ?w2 = w_saved w"
    "rdr_approved ?R \<Longrightarrow> has_approval (w_db ?w2) (db_next_id (w_db w1))"
    using w1 by (simp_all add: record_entry_decision_def recorded_keeps entry_decision_row_def decision_row_def)
  note handle = assms(1)[unfolded handle_entry_signal_def Let_def t]
  show ?thesis
  proof (cases r1)
    case (Inl e)
    then show ?thesis using handle w1(2) assms(3) by simp
  next
    case r1: (Inr u)
    show ?thesis
    proof (cases "rdr_approved ?R")
      case False
      then have "commit ok ?w2 = (res, w')" using handle r1 by simp
      then show ?thesis by (rule commit_saved) (use w2 assms(3) in simp_all)
    next
      case True
      then obtain z ch where z: "?R = approved_result (ac_equity_usdt a) z ch"
        by (rule entry_result_approved)
      obtain r3 w3 where sub: "submit_entry_order ex cf signal (db_next_id (w_db w1))
          (sz_position_size_usdt z) (the (rdr_position_size_base ?R)) (rdr_stop_loss_price ?R) now ?w2
        = (r3, w3)" by fastforce
      note s = submit_entry_order_keeps[OF sub w2(1) w2(3)[OF True]] submit_entry_order_counts[OF sub]
      have "rdr_position_size_usdt ?R = Some (sz_position_size_usdt z)"
        "rdr_position_size_base ?R = Some (the (rdr_position_size_base ?R))"
        by (simp_all add: z approved_result_def)
      then have "commit ok w3 = (res, w')"
        using handle r1 True sub s by (simp split: option.splits)
      then show ?thesis by (rule commit_saved) (use s w2(2) assms(3) in simp_all)
    qed
  qed
qed

lemma process_signal_keeps:
  assumes "process_signal ex cf ok sid now w = (res, w')" "I (w_db w)" "I (w_saved w)"
  shows "I (w_saved w')"
proof (cases rule: process_signal_cases[OF assms(1)])
  case (2 signal w1)
  then have "commit ok (with_db (write_decision_audit_event signal False
      (Some FREQTRADE_BALANCE_UNAVAILABLE) None None None None now)
      (with_db (add_decision (decision_row signal False (Some FREQTRADE_BALANCE_UNAVAILABLE) None now)) w1))
    = (res, w')" by (simp add: record_balance_unavailable_def Let_def)
  then show ?thesis by (rule commit_saved) (use 2 assms(2,3) in \<open>simp_all add: recorded_keeps\<close>)
next
  case (4 signal balance h w2 dup)
  from handle_exit_signal_keeps[OF 4(9)] 4(3,4) assms(2,3) show ?thesis by simp
next
  case (5 signal balance h w2 dup)
  from handle_entry_signal_keeps[OF 5(9)] 5(3,4) assms(2,3) show ?thesis by simp
qed (use assms in simp_all)

lemma handle_message_keeps:
  assumes "I (w_db w)" "I (w_saved w)"
  shows "I (w_saved (snd (handle_message ex env ok mid field now w)))"
proof -
  let ?body = "\<lambda>w. case load_effective_risk_config env (w_db w) of
       Inl e \<Rightarrow> (Inl e, w)
     | Inr config \<Rightarrow> (case field of
           SignalField sid \<Rightarrow> process_signal ex config ok sid now w
         | _ \<Rightarrow> (Inl ValueError, w))"
  have body: "I (w_saved (snd (?body w)))"
    using assms process_signal_keeps by (auto split: sum.splits message_field.splits) (metis surjective_pairing)
  obtain r1 w1 where r: "run_session ?body w = (r1, w1)" by fastforce
  then have w1: "I (w_saved w1)" using body by (auto simp: run_session_def split: prod.splits)
  show ?thesis
  proof (cases r1)
    case (Inl e)
    with r w1 assms show ?thesis by (auto simp: handle_message_def then_do_def redis_call_def Let_def)
  next
    case (Inr u)
    with r w1 assms show ?thesis by (auto simp: handle_message_def then_do_def redis_call_def Let_def)
  qed
qed

lemma apply_killswitch_keeps:
  assumes "I (w_db w)" "I (w_saved w)"
  shows "I (w_saved (snd (apply_killswitch ex enable b reason ok tr now w)))"
proof -
  let ?b = "case b of Some u \<Rightarrow> if u = [] then ''api:admin'' else u | None \<Rightarrow> ''api:admin''"
  obtain r1 w1 where e: "(if enable then enable_killswitch else disable_killswitch)
      ex reason ?b tr now w = (r1, w1)" by fastforce
  then have "I (w_db w1)" "w_saved w1 = w_saved w"
    using enable_keeps disable_keeps assms(1) by (auto split: if_splits)
  then show ?thesis
    using e assms(2)
    by (cases r1) (auto simp: apply_killswitch_def run_session_def commit_def Let_def split: option.splits)
qed

subsection \<open>The webhook receiver\<close>

lemma latest_order_mem: "latest_order P d = Some r \<Longrightarrow> r \<in> set (db_orders d) \<and> P r"
proof -
  assume a: "latest_order P d = Some r"
  let ?l = "sort_key (\<lambda>o'. - ord_created_at o') (filter P (db_orders d))"
  from a have "r \<in> set ?l" by (cases ?l) (simp_all add: latest_order_def)
  then show ?thesis by simp
qed

lemma find_order_keeps:
  assumes "find_order t pair side d = (found, d')" "I d"
  shows "I d' \<and> (\<forall>r. found = Some r \<longrightarrow> has_order d' (ord_id r) side)"
proof (cases "latest_order (\<lambda>o'. ord_freqtrade_trade_id o' = Some t \<and> ord_symbol o' = pair
                              \<and> ord_side o' = side) d")
  case (Some r)
  with assms latest_order_mem[OF this] has_order_mem[of r d] show ?thesis by (auto simp: find_order_def)
next
  case None
  let ?P = "\<lambda>o'. ord_symbol o' = pair \<and> ord_side o' = side \<and> ord_status o' = SUBMITTED \<and>
                 ord_freqtrade_trade_id o' = None"
  show ?thesis
  proof (cases "latest_order ?P d")
    case none: None
    then show ?thesis using assms None by (auto simp: find_order_def)
  next
    case (Some r)
    then have m: "r \<in> set (db_orders d)" "ord_side r = side" using latest_order_mem by blast+
    let ?f = "\<lambda>r :: order. r\<lparr>ord_freqtrade_trade_id := Some t\<rparr>"
    have "found = Some (?f r)" "d' = update_order (ord_id r) ?f d"
      using assms(1) None Some by (auto simp: find_order_def)
    then show ?thesis using assms(2) m has_order_mem[of r d]
      by (auto simp: has_order_update_order intro: order_update)
  qed
qed

lemma position_ok_opened:
  assumes "has_order d k BUY_SIDE" "pos_entry_order_id p = k" "pos_status p = OPEN"
    "pos_exit_order_id p = None" "pos_closed_at p = None" "pos_exit_price p = None"
  shows "position_ok d p"
  using assms by (simp add: position_ok_def)

lemma handle_entry_fill_keeps:
  assumes "handle_entry_fill pl now d = Inr d'" "I d"
  shows "I d'"
proof -
  obtain found d1 where f: "find_order (wh_trade_id pl) (wh_pair pl) BUY_SIDE d = (found, d1)" by fastforce
  note keeps = find_order_keeps[OF f assms(2)]
  show ?thesis
  proof (cases "\<exists>r rate amount. found = Some r \<and> wh_open_rate pl = Some rate \<and> wh_amount pl = Some amount")
    case False
    then have "d' = d1" using assms(1) f by (auto simp: handle_entry_fill_def split: option.splits)
    then show ?thesis using keeps by simp
  next
    case True
    then obtain r rate amount where r: "found = Some r" "wh_open_rate pl = Some rate" "wh_amount pl = Some amount"
      by blast
    let ?d2 = "update_order (ord_id r) (filled amount rate) d1"
    have d2: "I ?d2" "has_order ?d2 (ord_id r) BUY_SIDE"
      using keeps r by (auto simp: has_order_update_order intro: order_update)
    show ?thesis
      using assms(1) f r unfolding handle_entry_fill_def Let_def
      by (auto intro!: audit position d2 position_ok_opened[OF d2(2)])
  qed
qed

lemma match_open_position_mem:
  "match_open_position pl d = Some (p, r) \<Longrightarrow> p \<in> set (db_positions d) \<and> r \<in> set (db_orders d)"
  by (auto simp: match_open_position_def find_Some_iff dest!: nth_mem)

lemma exit_order_for_keeps:
  assumes "exit_order_for pl cr am now d = (res, d')" "I d"
  shows "(res = None \<longrightarrow> I d') \<and> (\<forall>r d1. res = Some (r, d1) \<longrightarrow> I d1 \<and> has_order d1 (ord_id r) SELL_SIDE)"
proof -
  obtain found d1 where f: "find_order (wh_trade_id pl) (wh_pair pl) SELL_SIDE d = (found, d1)" by fastforce
  note keeps = find_order_keeps[OF f assms(2)]
  show ?thesis
  proof (cases found)
    case (Some r)
    then show ?thesis using assms(1) f keeps by (auto simp: exit_order_for_def)
  next
    case None
    show ?thesis
    proof (cases "match_open_position pl d1")
      case none: None
      then show ?thesis using assms(1) f None keeps by (auto simp: exit_order_for_def)
    next
      case (Some m)
      obtain p r where m: "m = (p, r)" by fastforce
      let ?o = "(synthetic_exit_order pl cr am p r now)\<lparr>ord_id := db_next_id d1\<rparr>"
      have "has_approval d1 (ord_risk_decision_id r)"
        using decided_order keeps match_open_position_mem Some m by blast
      then have "I (add_order ?o d1)"
        using keeps by (intro order) (simp_all add: new_order_ok_def fill_ok_def synthetic_exit_order_def)
      moreover have "res = Some (?o, add_order ?o d1)"
        using assms(1) f None Some m by (auto simp: exit_order_for_def Let_def)
      ultimately show ?thesis by (simp add: synthetic_exit_order_def)
    qed
  qed
qed

lemma handle_exit_fill_keeps:
  assumes "handle_exit_fill env pl now d = Inr d'" "I d"
  shows "I d'"
proof (cases "\<exists>cr am. wh_close_rate pl = Some cr \<and> wh_amount pl = Some am")
  case False
  then have "d' = snd (find_order (wh_trade_id pl) (wh_pair pl) SELL_SIDE d)"
    using assms(1) by (auto simp: handle_exit_fill_def split: option.splits)
  then show ?thesis using find_order_keeps[OF surjective_pairing assms(2)] by blast
next
  case True
  then obtain cr am where pl: "wh_close_rate pl = Some cr" "wh_amount pl = Some am" by blast
  obtain res d0 where e: "exit_order_for pl cr am now d = (res, d0)" by fastforce
  note keeps = exit_order_for_keeps[OF e assms(2)]
  show ?thesis
  proof (cases res)
    case None
    then show ?thesis using assms(1) pl e keeps by (auto simp: handle_exit_fill_def)
  next
    case (Some m)
    obtain r d1 where m: "m = (r, d1)" by fastforce
    let ?d2 = "update_order (ord_id r) (filled am cr) d1"
    have d2: "I ?d2" "has_order ?d2 (ord_id r) SELL_SIDE"
      using keeps Some m by (auto simp: has_order_update_order intro: order_update)
    show ?thesis
      using assms(1) pl e Some m unfolding handle_exit_fill_def Let_def
      by (auto split: option.splits intro!: audit position_update d2 closing_change)
  qed
qed

lemma freqtrade_webhook_keeps:
  assumes "I d"
  shows "I (snd (freqtrade_webhook env secret ok pl now d))"
proof (cases "secret = [] \<or> wh_secret pl \<noteq> secret")
  case False
  have cancel: "I d'" if c: "mark_cancelled pl side now d = Inr d'" for side d'
  proof -
    obtain found d1 where f: "find_order (wh_trade_id pl) (wh_pair pl) side d = (found, d1)" by fastforce
    note k = find_order_keeps[OF f assms]
    then have "I (update_order i (\<lambda>r. r\<lparr>ord_status := CANCELLED\<rparr>) d1)" for i
      by (intro order_update) simp_all
    with c f k show ?thesis by (auto simp: mark_cancelled_def audit split: option.splits)
  qed
  have "I d'" if "map_of (EVENT_HANDLERS env now) (wh_event pl) = Some h" "h pl d = Inr d'" for h d'
    using that handle_entry_fill_keeps[OF _ assms] handle_exit_fill_keeps[OF _ assms] cancel
    by (auto simp: EVENT_HANDLERS_def split: if_splits)
  with False assms show ?thesis by (auto simp: freqtrade_webhook_def split: option.splits sum.splits)
qed (simp add: freqtrade_webhook_def assms)

subsection \<open>The reconciliation loop\<close>

text \<open>The loop works through rows it has loaded at its start, so those must stay known.\<close>

definition I_known :: "order list \<Rightarrow> db \<Rightarrow> bool" where
  "I_known R d \<longleftrightarrow> I d \<and> (\<forall>r \<in> set R. known d r)"

lemma known_audit: "I_known R d \<Longrightarrow> I_known R (add_audit tr ty pl now d)"
  by (simp add: I_known_def known_def audit)

lemma known_order: "I_known R d \<Longrightarrow> new_order_ok d r \<Longrightarrow> I_known R (add_order r d)"
  by (simp add: I_known_def known_def order)

lemma known_position: "I_known R d \<Longrightarrow> position_ok d p \<Longrightarrow> I_known R (add_position p d)"
  by (simp add: I_known_def known_def position)

lemma known_order_update: "I_known R d \<Longrightarrow> (\<And>r. order_change r (f r)) \<Longrightarrow> I_known R (update_order i f d)"
  by (simp add: I_known_def known_def order_update has_order_update_order order_change_same)

lemma known_position_update: "I_known R d \<Longrightarrow>
    (\<And>p. p \<in> set (db_positions d) \<Longrightarrow> pos_id p = i \<Longrightarrow> position_change d p (g p)) \<Longrightarrow>
    I_known R (update_position i g d)"
  by (simp add: I_known_def known_def position_update)

lemmas known_intros = known_audit known_order known_position known_order_update known_position_update

lemma alert_once_keeps: "I_known R d \<Longrightarrow> I_known R (alert_once r reason now d)"
  by (simp add: alert_once_def known_audit)

lemma reconcile_open_entry_keeps:
  assumes "I_known R d" "r \<in> set R" "ord_side r = BUY_SIDE"
  shows "I_known R (snd (reconcile_open_entry r trade now d))"
proof (cases "entry_confirmed trade")
  case False
  then show ?thesis using assms by (simp add: reconcile_open_entry_def alert_once_keeps)
next
  case True
  then obtain rate am where t: "ft_open_rate trade = Some rate" "ft_amount trade = Some am"
    by (auto simp: entry_confirmed_def)
  let ?d1 = "update_order (ord_id r) (order_filled (Some am) (Some rate)) d"
  have d1: "I_known R ?d1" by (intro known_intros assms(1)) simp
  have h: "has_order ?d1 (ord_id r) BUY_SIDE"
    using assms by (auto simp: I_known_def known_def has_order_update_order)
  show ?thesis
    using True t unfolding reconcile_open_entry_def Let_def
    by (auto intro!: known_audit known_position d1 position_ok_opened[OF h])
qed

lemma reconcile_closed_exit_keeps:
  assumes "I_known R d" "r \<in> set R" "ord_side r = SELL_SIDE"
  shows "I_known R (snd (reconcile_closed_exit r trade now d))"
proof (cases "ft_close_rate trade = None \<or> ft_amount trade = None")
  case True
  then show ?thesis using assms by (simp add: reconcile_closed_exit_def alert_once_keeps)
next
  case False
  then obtain rate am where t: "ft_close_rate trade = Some rate" "ft_amount trade = Some am" by auto
  let ?find = "find (\<lambda>p. pos_exit_order_id p = Some (ord_id r)) (db_positions d)"
  show ?thesis
  proof (cases ?find)
    case None
    then show ?thesis using t assms by (simp add: reconcile_closed_exit_def alert_once_keeps)
  next
    case (Some p)
    then have p: "p \<in> set (db_positions d)" "pos_exit_order_id p = Some (ord_id r)"
      by (auto simp: find_Some_iff)
    let ?d1 = "update_order (ord_id r) (order_filled (Some am) (Some rate)) d"
    have d1: "I_known R ?d1" by (intro known_intros assms(1)) simp
    have "I_known R (update_position (pos_id p) (closed_by_trade trade now) ?d1)"
    proof (rule known_position_update[OF d1])
      fix q assume "q \<in> set (db_positions ?d1)" "pos_id q = pos_id p"
      then have q: "q = p" using one_row[of d q p] p(1) assms(1) by (simp add: I_known_def)
      have "has_order ?d1 (ord_id r) SELL_SIDE"
        using assms by (auto simp: I_known_def known_def has_order_update_order)
      from closing_change(2)[OF this, of trade p now] t
      have "position_change ?d1 p ((closed_by_trade trade now p)\<lparr>pos_exit_order_id := Some (ord_id r)\<rparr>)"
        by simp
      moreover have "(closed_by_trade trade now p)\<lparr>pos_exit_order_id := Some (ord_id r)\<rparr>
                     = closed_by_trade trade now p"
        using p(2) by (simp add: closed_by_trade_def)
      ultimately show "position_change ?d1 q (closed_by_trade trade now q)" by (simp only: q)
    qed
    then show ?thesis
      using t Some unfolding reconcile_closed_exit_def Let_def by (auto intro!: known_audit)
  qed
qed

lemma close_open_position_keeps:
  assumes "I_known R d" "r \<in> set R" "ft_close_rate trade = Some rate" "ft_amount trade = Some am"
  shows "I_known R (snd (close_open_position p r trade now d))"
proof -
  let ?o = "exit_order_of_trade p r trade now"
  let ?d1 = "add_order ?o d"
  have d1: "I_known R ?d1"
    using assms by (intro known_order) (auto simp: new_order_ok_def fill_ok_def exit_order_of_trade_def
        I_known_def known_def)
  have "has_order ?d1 (db_next_id d) SELL_SIDE" by (simp add: exit_order_of_trade_def)
  from closing_change(2)[OF this] assms(3)
  have "I_known R (update_position (pos_id p)
      (\<lambda>q. (closed_by_trade trade now q)\<lparr>pos_exit_order_id := Some (db_next_id d)\<rparr>) ?d1)"
    by (intro known_position_update d1) simp
  then show ?thesis unfolding close_open_position_def Let_def snd_conv by (intro known_audit)
qed

lemma get_trade_frame:
  "get_trade ex t w = (r, w') \<Longrightarrow> w_db w' = w_db w \<and> w_saved w' = w_saved w \<and> w_redis w' = w_redis w"
  by (auto simp: get_trade_def ft_call_def)

lemma reconcile_order_keeps:
  assumes "I_known R (w_db w)" "r \<in> set R"
  shows "I_known R (w_db (snd (reconcile_order ex now r w))) \<and> w_saved (snd (reconcile_order ex now r w)) = w_saved w"
proof (cases "ord_freqtrade_trade_id r")
  case None
  then show ?thesis
    using alert_once_keeps[OF assms(1)] by (simp add: reconcile_order_def alert_def on_db_def)
next
  case (Some t)
  obtain g w1 where g: "get_trade ex t w = (g, w1)" by fastforce
  note f = get_trade_frame[OF g]
  have keep: "I_known R (w_db (snd (on_db h w1))) \<and> w_saved (snd (on_db h w1)) = w_saved w"
    if "I_known R (snd (h (w_db w)))" for h
    using that f by (auto simp: on_db_def split: prod.splits)
  have al: "I_known R (w_db (snd (alert r s now w1))) \<and> w_saved (snd (alert r s now w1)) = w_saved w" for s
    unfolding alert_def by (rule keep) (simp add: alert_once_keeps assms)
  show ?thesis
  proof (cases g)
    case (Inl e)
    then show ?thesis using Some g al by (simp add: reconcile_order_def)
  next
    case (Inr trade)
    then show ?thesis
      using Some g al keep[of "reconcile_open_entry r trade now", OF reconcile_open_entry_keeps[OF assms]]
        keep[of "reconcile_closed_exit r trade now", OF reconcile_closed_exit_keeps[OF assms]]
      by (simp add: reconcile_order_def)
  qed
qed

lemma reconcile_position_keeps:
  assumes "I_known R (w_db w)" "snd pr \<in> set R"
  shows "I_known R (w_db (snd (reconcile_position ex now pr w))) \<and>
         w_saved (snd (reconcile_position ex now pr w)) = w_saved w"
proof -
  obtain p r where pr: "pr = (p, r)" by fastforce
  show ?thesis
  proof (cases "ord_freqtrade_trade_id r")
    case None
    then show ?thesis using assms pr by (simp add: reconcile_position_def)
  next
    case (Some t)
    obtain g w1 where g: "get_trade ex t w = (g, w1)" by fastforce
    note f = get_trade_frame[OF g]
    have keep: "I_known R (w_db (snd (on_db h w1))) \<and> w_saved (snd (on_db h w1)) = w_saved w"
      if "I_known R (snd (h (w_db w)))" for h
      using that f by (auto simp: on_db_def split: prod.splits)
    have al: "I_known R (w_db (snd (alert r s now w1))) \<and> w_saved (snd (alert r s now w1)) = w_saved w" for s
      unfolding alert_def by (rule keep) (simp add: alert_once_keeps assms)
    show ?thesis
    proof (cases g)
      case (Inl e)
      then show ?thesis using Some g al pr by (simp add: reconcile_position_def)
    next
      case (Inr trade)
      have "r \<in> set R" using assms pr by simp
      note cl = keep[of "close_open_position p r trade now", OF close_open_position_keeps[OF assms(1) this]]
      show ?thesis
        using Some g Inr al f assms pr cl by (auto simp: reconcile_position_def)
    qed
  qed
qed

lemma reconcile_all_keeps:
  assumes "\<And>x w. x \<in> set xs \<Longrightarrow> I_known R (w_db w) \<Longrightarrow>
             I_known R (w_db (snd (f x w))) \<and> w_saved (snd (f x w)) = w_saved w"
    and "I_known R (w_db w)"
  shows "I_known R (w_db (snd (reconcile_all f xs w))) \<and> w_saved (snd (reconcile_all f xs w)) = w_saved w"
  using assms
proof (induction xs arbitrary: w)
  case (Cons x xs)
  obtain b w1 where x: "f x w = (b, w1)" by fastforce
  have "I_known R (w_db w1)" "w_saved w1 = w_saved w" using Cons.prems(1)[of x w] Cons.prems(2) x by auto
  then show ?case using Cons.IH[of w1] Cons.prems(1) x by (auto simp: Let_def split: prod.splits)
qed simp

lemma reconciliation_turn_keeps:
  assumes "I (w_db w)" "I (w_saved w)"
  shows "I (w_saved (reconciliation_turn ex ok now mins w))"
proof -
  let ?R = "stale_orders now (minutes mins) (w_db w)"
  have known0: "known d r" if "I d" "r \<in> set (db_orders d)" for d r
    using that has_order_mem decided_order by (simp add: known_def)
  have R: "I_known ?R (w_db w)" using assms known0 by (auto simp: I_known_def stale_orders_def)
  obtain n w1 where a: "reconcile_all (reconcile_order ex now) ?R w = (n, w1)" by fastforce
  have w1: "I (w_db w1)" "w_saved w1 = w_saved w"
    using reconcile_all_keeps[of ?R ?R "reconcile_order ex now" w, OF reconcile_order_keeps R] a
    by (simp_all add: I_known_def)
  let ?P = "open_with_entry (w_db w1)"
  have P: "I_known (map snd ?P) (w_db w1)"
    using w1 known0 by (auto simp: I_known_def open_with_entry_def)
  obtain m w2 where b: "reconcile_open_positions ex now w1 = (m, w2)" by fastforce
  have w2: "I (w_db w2)" "w_saved w2 = w_saved w"
    using reconcile_all_keeps[of ?P "map snd ?P" "reconcile_position ex now" w1, OF reconcile_position_keeps P]
      b w1(2) by (simp_all add: I_known_def reconcile_open_positions_def)
  show ?thesis
    using w2 assms(2) a b
    by (simp add: reconciliation_turn_def run_session_def reconcile_submitted_orders_def Let_def commit_def)
qed

end

section \<open>The two readings of the interface\<close>

lemma ledger_okD:
  assumes "ledger_ok d"
  shows "distinct (map ord_id (db_orders d))" "distinct (map pos_id (db_positions d))"
    "r \<in> set (db_orders d) \<Longrightarrow> ord_id r < db_next_id d \<and> has_approval d (ord_risk_decision_id r) \<and> fill_ok r"
    "p \<in> set (db_positions d) \<Longrightarrow> pos_id p < db_next_id d \<and> position_ok d p"
  using assms by (auto simp: ledger_ok_def list_all_iff)

lemma ledger_okI:
  assumes "distinct (map ord_id (db_orders d))" "distinct (map pos_id (db_positions d))"
    "\<And>r. r \<in> set (db_orders d) \<Longrightarrow> ord_id r < db_next_id d \<and> has_approval d (ord_risk_decision_id r) \<and> fill_ok r"
    "\<And>p. p \<in> set (db_positions d) \<Longrightarrow> pos_id p < db_next_id d \<and> position_ok d p"
  shows "ledger_ok d"
  using assms by (auto simp: ledger_ok_def list_all_iff)

lemma position_ok_mono:
  "position_ok d p \<Longrightarrow> (\<And>i s. has_order d i s \<Longrightarrow> has_order d' i s) \<Longrightarrow> position_ok d' p"
  by (auto simp: position_ok_def split: option.splits)

lemma position_ok_cong: "has_order d' = has_order d \<Longrightarrow> position_ok d' p = position_ok d p"
  by (auto dest: position_ok_mono[of d' p d] position_ok_mono[of d p d'])

lemma position_ok_id [simp]: "position_ok d (p\<lparr>pos_id := k\<rparr>) = position_ok d p"
  by (simp add: position_ok_def split: option.split)

lemma map_update_ids:
  assumes "\<And>r. g (f r) = g r"
  shows "map g (map (\<lambda>r. if g r = i then f r else r) xs) = map g xs"
  using assms by (induction xs) auto

lemma ledger_ok_add_order:
  assumes "ledger_ok d" "new_order_ok d r"
  shows "ledger_ok (add_order r d)"
proof (rule ledger_okI)
  note ok = ledger_okD[OF assms(1)]
  have "db_next_id d \<notin> ord_id ` set (db_orders d)" using ok(3) by force
  then show "distinct (map ord_id (db_orders (add_order r d)))" using ok(1) by simp
  show "distinct (map pos_id (db_positions (add_order r d)))" using ok(2) by simp
  show "ord_id q < db_next_id (add_order r d) \<and> has_approval (add_order r d) (ord_risk_decision_id q) \<and> fill_ok q"
    if "q \<in> set (db_orders (add_order r d))" for q
    using that ok(3)[of q] assms(2) by (auto simp: new_order_ok_def fill_ok_def)
  show "pos_id p < db_next_id (add_order r d) \<and> position_ok (add_order r d) p"
    if "p \<in> set (db_positions (add_order r d))" for p
    using that ok(4)[of p] by (auto intro: position_ok_mono)
qed

lemma ledger_ok_add_position:
  assumes "ledger_ok d" "position_ok d p"
  shows "ledger_ok (add_position p d)"
proof (rule ledger_okI)
  note ok = ledger_okD[OF assms(1)]
  have "db_next_id d \<notin> pos_id ` set (db_positions d)" using ok(4) by force
  then show "distinct (map pos_id (db_positions (add_position p d)))" using ok(2) by simp
  show "distinct (map ord_id (db_orders (add_position p d)))" using ok(1) by simp
  show "ord_id q < db_next_id (add_position p d) \<and> has_approval (add_position p d) (ord_risk_decision_id q) \<and> fill_ok q"
    if "q \<in> set (db_orders (add_position p d))" for q
    using that ok(3)[of q] by auto
  show "pos_id q < db_next_id (add_position p d) \<and> position_ok (add_position p d) q"
    if "q \<in> set (db_positions (add_position p d))" for q
    using that ok(4)[of q] assms(2) by (auto simp: position_ok_cong[of "add_position p d" d])
qed

lemma ledger_ok_update_order:
  assumes "ledger_ok d" "\<And>r. order_change r (f r)"
  shows "ledger_ok (update_order i f d)"
proof (rule ledger_okI)
  note ok = ledger_okD[OF assms(1)]
  have k: "order_kept r (f r)" "fill_ok r \<longrightarrow> fill_ok (f r)" for r
    using assms(2)[of r] by (simp_all add: order_change_def)
  have "map ord_id (db_orders (update_order i f d)) = map ord_id (db_orders d)"
    unfolding update_order_def using map_update_ids[of ord_id f i] k by (simp add: order_kept_def del: map_map)
  then show "distinct (map ord_id (db_orders (update_order i f d)))" using ok(1) by simp
  show "distinct (map pos_id (db_positions (update_order i f d)))" using ok(2) by simp
  show "ord_id q < db_next_id (update_order i f d) \<and>
        has_approval (update_order i f d) (ord_risk_decision_id q) \<and> fill_ok q"
    if "q \<in> set (db_orders (update_order i f d))" for q
    using that ok(3) k by (auto simp: update_order_def order_kept_def has_approval_def)
  have "has_order (update_order i f d) = has_order d"
    using k by (intro ext) (simp add: has_order_update_order order_kept_def)
  then show "pos_id p < db_next_id (update_order i f d) \<and> position_ok (update_order i f d) p"
    if "p \<in> set (db_positions (update_order i f d))" for p
    using that ok(4)[of p] by (simp add: position_ok_cong[of "update_order i f d" d])
qed

lemma ledger_ok_update_position:
  assumes "ledger_ok d"
    "\<And>p. p \<in> set (db_positions d) \<Longrightarrow> pos_id p = i \<Longrightarrow> position_change d p (g p)"
  shows "ledger_ok (update_position i g d)"
proof (rule ledger_okI)
  note ok = ledger_okD[OF assms(1)]
  let ?u = "\<lambda>p. if pos_id p = i then g p else p"
  have k: "pos_id (?u p) = pos_id p \<and> position_ok d (?u p)" if "p \<in> set (db_positions d)" for p
    using assms(2)[OF that] ok(4)[OF that] by (auto simp: position_change_def position_kept_def)
  then have "map pos_id (db_positions (update_position i g d)) = map pos_id (db_positions d)"
    by (auto simp: update_position_def)
  then show "distinct (map pos_id (db_positions (update_position i g d)))" using ok(2) by simp
  show "distinct (map ord_id (db_orders (update_position i g d)))" using ok(1) by simp
  show "ord_id q < db_next_id (update_position i g d) \<and>
        has_approval (update_position i g d) (ord_risk_decision_id q) \<and> fill_ok q"
    if "q \<in> set (db_orders (update_position i g d))" for q
    using that ok(3)[of q] by simp
  show "pos_id p < db_next_id (update_position i g d) \<and> position_ok (update_position i g d) p"
    if p: "p \<in> set (db_positions (update_position i g d))" for p
  proof -
    from p obtain q where q: "q \<in> set (db_positions d)" "p = ?u q"
      by (auto simp: update_position_def)
    then show ?thesis using k[OF q(1)] ok(4)[OF q(1)] position_ok_cong[of "update_position i g d" d]
      unfolding q(2) by simp
  qed
qed

lemma ledger_ok_frame:
  "ledger_ok d \<Longrightarrow> ledger_ok (add_audit tr ty pl now d)"
  "ledger_ok d \<Longrightarrow> ledger_ok (add_decision c d)"
  "ledger_ok d \<Longrightarrow> ledger_ok (d\<lparr>db_system_state := s\<rparr>)"
  "ledger_ok d \<Longrightarrow> ledger_ok (d\<lparr>db_risk_overrides := ov\<rparr>)"
  "ledger_ok d \<Longrightarrow> ledger_ok (d\<lparr>db_llm_overrides := lo\<rparr>)"
  "ledger_ok d \<Longrightarrow> ledger_ok (add_signal sg d)"
  by (auto simp: ledger_ok_def list_all_iff position_ok_def has_approval_def has_order_def split: option.splits)

lemma same_id: "distinct (map f xs) \<Longrightarrow> p \<in> set xs \<Longrightarrow> q \<in> set xs \<Longrightarrow> f p = f q \<Longrightarrow> p = q"
  by (metis distinct_map inj_on_def)

interpretation wf: session_invariant ledger_ok
  by unfold_locales
    (auto intro: ledger_ok_frame ledger_ok_add_order ledger_ok_add_position ledger_ok_update_order
      ledger_ok_update_position dest: ledger_okD(3) same_id[OF ledger_okD(2)])

lemma extends_refl: "extends d d"
  by (simp add: extends_def grows_refl order_kept_def position_kept_def)

lemma extends_frame:
  "extends d0 d \<Longrightarrow> extends d0 (add_audit tr ty pl now d)"
  "extends d0 d \<Longrightarrow> extends d0 (add_decision c d)"
  "extends d0 d \<Longrightarrow> extends d0 (add_order r d)"
  "extends d0 d \<Longrightarrow> extends d0 (add_position p d)"
  "extends d0 d \<Longrightarrow> extends d0 (d\<lparr>db_system_state := s\<rparr>)"
  "extends d0 d \<Longrightarrow> extends d0 (d\<lparr>db_risk_overrides := ov\<rparr>)"
  "extends d0 d \<Longrightarrow> extends d0 (d\<lparr>db_llm_overrides := lo\<rparr>)"
  "extends d0 d \<Longrightarrow> extends d0 (add_signal sg d)"
  by (auto simp: extends_def audit_grows_iff add_audit_def grows_append)

lemma extends_update_order:
  assumes "extends d0 d" "\<And>r. order_change r (f r)"
  shows "extends d0 (update_order i f d)"
proof -
  have "grows order_kept (db_orders d0) (map (\<lambda>r. if ord_id r = i then f r else r) (db_orders d))"
  proof (rule grows_map)
    show "grows order_kept (db_orders d0) (db_orders d)" using assms(1) by (simp add: extends_def)
    fix x y assume "order_kept x y"
    then show "order_kept x (if ord_id y = i then f y else y)"
      using assms(2)[of y] by (auto simp: order_change_def order_kept_def)
  qed
  with assms(1) show ?thesis by (simp add: extends_def audit_grows_def update_order_def)
qed

lemma extends_update_position:
  assumes "extends d0 d"
    "\<And>p. p \<in> set (db_positions d) \<Longrightarrow> pos_id p = i \<Longrightarrow> position_change d p (g p)"
  shows "extends d0 (update_position i g d)"
proof -
  have "grows position_kept (db_positions d0) (map (\<lambda>r. if pos_id r = i then g r else r) (db_positions d))"
  proof (rule grows_map)
    show "grows position_kept (db_positions d0) (db_positions d)" using assms(1) by (simp add: extends_def)
    fix x y assume "y \<in> set (db_positions d)" "position_kept x y"
    then show "position_kept x (if pos_id y = i then g y else y)"
      using assms(2)[of y] by (auto simp: position_change_def position_kept_def)
  qed
  with assms(1) show ?thesis by (simp add: extends_def audit_grows_def update_position_def)
qed

interpretation growth: session_invariant "\<lambda>d. ledger_ok d \<and> extends d0 d" for d0
  by unfold_locales
    (auto intro: wf.audit wf.decision wf.order wf.position wf.switch wf.overrides wf.llm_overrides wf.signal
      extends_frame ledger_ok_update_order ledger_ok_update_position extends_update_order
      extends_update_position dest: wf.decided_order wf.one_row)

end
