(* ===== verification/System.thy ===== *)
theory System
  imports Cycle_Properties Ledger
begin

text \<open>
  The services together.  Each works on the shared world in its own session: the risk engine on
  stream messages, the admin API on webhooks, configuration patches and the kill switch, the balance
  monitor and the reconciliation loop on their timers, and the scheduler by running a cycle of a symbol.
  A run is any interleaving of such steps, each with its own clock and commit outcome.
\<close>

section \<open>Steps\<close>

inductive service_step :: "externals \<Rightarrow> RiskConfig \<Rightarrow> string \<Rightarrow> world \<Rightarrow> world \<Rightarrow> bool"
  for ex env secret where
  message: "service_step ex env secret w (snd (handle_message ex env ok mid field now w))"
| webhook: "service_step ex env secret w
    (w\<lparr>w_db := snd (freqtrade_webhook env secret ok pl now (w_saved w)),
       w_saved := snd (freqtrade_webhook env secret ok pl now (w_saved w))\<rparr>)"
| reconcile: "service_step ex env secret w (reconciliation_turn ex ok now mins w)"
| press: "service_step ex env secret w (snd (apply_killswitch ex enable b reason ok tr now w))"
| refresh: "service_step ex env secret w (snd (balance_refresh_turn ex now w))"
| configure: "patch_config env changes conf tr doc now (w_saved w) = Inr (c, d) \<Longrightarrow>
    service_step ex env secret w (w\<lparr>w_db := d, w_saved := d\<rparr>)"
| configure_llm: "patch_llm_config llm_env patch tr doc now (w_saved w) = Inr (e, d) \<Longrightarrow>
    service_step ex env secret w (w\<lparr>w_db := d, w_saved := d\<rparr>)"
| cycle: "service_step ex env secret w (snd (run_cycle ex sc symbol ok tr now w))"

inductive service_run :: "externals \<Rightarrow> RiskConfig \<Rightarrow> string \<Rightarrow> world \<Rightarrow> world \<Rightarrow> bool"
  for ex env secret where
  start: "service_run ex env secret w w"
| step: "service_run ex env secret w w1 \<Longrightarrow> service_step ex env secret w1 w2 \<Longrightarrow>
    service_run ex env secret w w2"

inductive_cases service_stepE: "service_step ex env secret w w'"

text \<open>Between steps no session is open: what is read is what is saved.\<close>

definition idle :: "world \<Rightarrow> bool" where
  "idle w \<longleftrightarrow> w_db w = w_saved w"

lemma run_session_idle: "idle (snd (run_session body w))"
  by (simp add: idle_def run_session_def split: prod.split)

lemma handle_message_idle:
  assumes "idle w"
  shows "idle (snd (handle_message ex env ok mid field now w))"
proof (cases "field = MissingField")
  case True
  then show ?thesis using assms by (simp add: handle_message_def idle_def then_do_def redis_call_def Let_def)
next
  case False
  have idle1: "idle (snd (then_do (run_session body w)
      (\<lambda>_ w. then_do (redis_call ex now (R_XACK mid) w) (\<lambda>_ w. (Inr (), w)))))" for body
    using run_session_idle[of body w]
    by (cases "run_session body w"; cases "fst (run_session body w)")
       (auto simp: idle_def then_do_def redis_call_def Let_def)
  have drop_result: "snd (case m of (_, w) \<Rightarrow> (Inr (), w)) = snd m"
    for m :: "(py_error + unit) \<times> world" by (cases m) simp
  show ?thesis using False idle1 by (simp add: handle_message_def drop_result)
qed

lemma balance_refresh_frame:
  assumes "balance_refresh_turn ex now w = (res, w')"
  shows "w_db w' = w_db w \<and> w_saved w' = w_saved w \<and> w_ft w' = w_ft w @ [FT_balance]"
proof -
  obtain r1 w1 where p: "publish_balance_snapshot ex now w = (r1, w1)" by fastforce
  from publish_balance_snapshot_effect[OF p] assms p show ?thesis
    by (cases r1) (auto simp: balance_refresh_turn_def redis_call_def Let_def split: if_splits)
qed

lemma service_step_idle:
  assumes "service_step ex env secret w w'" "idle w"
  shows "idle w'"
  using assms(1)
proof cases
  case (refresh now)
  then show ?thesis using balance_refresh_frame[OF surjective_pairing] assms(2) by (simp add: idle_def)
next
  case (cycle sc symbol ok tr now)
  then show ?thesis using run_cycle_idle[OF surjective_pairing] assms(2) by (simp add: idle_def)
qed (use assms(2) in \<open>simp_all add: handle_message_idle run_session_idle reconciliation_turn_def
      apply_killswitch_def, simp_all add: idle_def\<close>)

section \<open>Invariants of the ledger\<close>

context session_invariant
begin

lemma patch_config_keeps:
  assumes "patch_config env changes conf tr doc now d = Inr (c, d')" "I d"
  shows "I d'"
  using assms
  by (auto simp: patch_config_def apply_risk_config_patch_def Let_def audit overrides
      split: if_splits sum.splits)

lemma patch_llm_config_keeps:
  assumes "patch_llm_config env patch tr doc now d = Inr (e, d')" "I d"
  shows "I d'"
  unfolding patch_llm_config_frame[OF assms(1)] using assms(2) by (intro audit llm_overrides)

lemma run_cycle_keeps:
  assumes "run_cycle ex sc symbol ok tr now w = (res, w')" "w_db w = w_saved w" "I (w_saved w)"
  shows "I (w_saved w')"
proof (cases rule: run_cycle_cases[OF assms(1,2)])
  case (2 s pre rs)
  from 2(3) assms(3) show ?thesis unfolding new_signal_def by (auto intro!: audit signal)
qed (use assms(3) in \<open>simp add: quiet_def\<close>)

lemma service_step_keeps:
  assumes "service_step ex env secret w w'" "idle w" "I (w_saved w)"
  shows "I (w_saved w')"
  using assms(1)
proof cases
  case (refresh now)
  then show ?thesis using balance_refresh_frame[OF surjective_pairing] assms(3) by simp
next
  case (configure changes conf tr doc now c d)
  then show ?thesis using patch_config_keeps assms(3) by simp
next
  case (configure_llm llm_env patch tr doc now e d)
  then show ?thesis using patch_llm_config_keeps assms(3) by simp
next
  case (cycle sc symbol ok tr now)
  then show ?thesis using run_cycle_keeps[OF surjective_pairing] assms(2,3) by (simp add: idle_def)
qed (use assms(2,3) in \<open>simp_all add: idle_def handle_message_keeps freqtrade_webhook_keeps
      reconciliation_turn_keeps apply_killswitch_keeps\<close>)

lemma service_run_keeps:
  "service_run ex env secret w w' \<Longrightarrow> idle w \<Longrightarrow> I (w_saved w) \<Longrightarrow> idle w' \<and> I (w_saved w')"
  by (induction rule: service_run.induct) (auto intro: service_step_idle service_step_keeps)

end

text \<open>
  C3. In every run of the services from a well-formed ledger the ledger stays well-formed: order and
  position ids are unique, every order rests on an approved risk decision, a FILLED order has an
  amount and a price, every position was entered by an existing buy order and left by an existing
  sell order, and it is CLOSED exactly when it has a closing time and an exit price.
\<close>

theorem ledger_invariant:
  assumes "service_run ex env secret w w'" "idle w" "ledger_ok (w_saved w)"
  shows "ledger_ok (w_saved w')"
  using wf.service_run_keeps[OF assms] by simp

lemma sample_world_ok: "idle sample_world" "ledger_ok (w_saved sample_world)"
  by (simp_all add: idle_def sample_world_def Let_def ledger_ok_def empty_db_def)

theorem ledger_invariant_witness:
  "ledger_ok (w_saved (snd (handle_message sample_externals RiskConfig_defaults True 1 (SignalField 7)
     (minutes 1010) sample_world)))"
  by (rule ledger_invariant[where secret = "''s''",
        OF service_run.step[OF service_run.start service_step.message] sample_world_ok])

text \<open>
  C9. No service loses history: over any run the decisions and the audit log only grow at their end,
  no order or position disappears or changes what it was placed with (an order's trace, side, symbol,
  amount and decision; a position's symbol, entry order, entry price, amount and opening time), and a
  closed position is never reopened.
\<close>

theorem history_append_only:
  assumes "service_run ex env secret w w'" "idle w" "ledger_ok (w_saved w)"
  shows "extends (w_saved w) (w_saved w')"
  using growth.service_run_keeps[OF assms(1,2)] assms(3) extends_refl by blast

theorem history_append_only_witness:
  "extends (w_saved sample_world) (w_saved (reconciliation_turn sample_externals True (minutes 1010) 5 sample_world))"
  by (rule history_append_only[where secret = "''s''" and env = RiskConfig_defaults,
        OF service_run.step[OF service_run.start service_step.reconcile] sample_world_ok])

section \<open>Who trades\<close>

lemma reconcile_order_reads:
  "entries_sent (w_ft (snd (reconcile_order ex now r w))) = entries_sent (w_ft w) \<and>
   exits_sent (w_ft (snd (reconcile_order ex now r w))) = exits_sent (w_ft w)"
proof (cases "ord_freqtrade_trade_id r")
  case (Some t)
  obtain g w1 where g: "get_trade ex t w = (g, w1)" by fastforce
  then have "w_ft w1 = w_ft w @ [FT_trade t]" by (auto simp: get_trade_def ft_call_def)
  then show ?thesis
    using Some g by (cases g) (simp_all add: reconcile_order_def alert_def on_db_def split: prod.split)
qed (simp add: reconcile_order_def alert_def on_db_def)

lemma reconcile_position_reads:
  "entries_sent (w_ft (snd (reconcile_position ex now pr w))) = entries_sent (w_ft w) \<and>
   exits_sent (w_ft (snd (reconcile_position ex now pr w))) = exits_sent (w_ft w)"
proof -
  obtain p r where pr: "pr = (p, r)" by fastforce
  show ?thesis
  proof (cases "ord_freqtrade_trade_id r")
    case (Some t)
    obtain g w1 where g: "get_trade ex t w = (g, w1)" by fastforce
    then have "w_ft w1 = w_ft w @ [FT_trade t]" by (auto simp: get_trade_def ft_call_def)
    then show ?thesis
      using Some g pr
      by (cases g) (simp_all add: reconcile_position_def alert_def on_db_def split: prod.split)
  qed (simp add: reconcile_position_def pr)
qed

lemma reconcile_all_reads:
  assumes "\<And>x w. entries_sent (w_ft (snd (f x w))) = entries_sent (w_ft w) \<and>
                  exits_sent (w_ft (snd (f x w))) = exits_sent (w_ft w)"
  shows "entries_sent (w_ft (snd (reconcile_all f xs w))) = entries_sent (w_ft w) \<and>
         exits_sent (w_ft (snd (reconcile_all f xs w))) = exits_sent (w_ft w)"
proof (induction xs arbitrary: w)
  case (Cons x xs)
  obtain b w1 where x: "f x w = (b, w1)" by fastforce
  with assms[of x w] Cons.IH[of w1] show ?case by (auto simp: Let_def split: prod.splits)
qed simp

lemma reconciliation_turn_reads:
  "entries_sent (w_ft (reconciliation_turn ex ok now mins w)) = entries_sent (w_ft w) \<and>
   exits_sent (w_ft (reconciliation_turn ex ok now mins w)) = exits_sent (w_ft w)"
proof -
  obtain n w1 where a: "reconcile_all (reconcile_order ex now) (stale_orders now (minutes mins) (w_db w)) w = (n, w1)"
    by fastforce
  obtain m w2 where b: "reconcile_open_positions ex now w1 = (m, w2)" by fastforce
  note ra = reconcile_all_reads[of "reconcile_order ex now" "stale_orders now (minutes mins) (w_db w)" w,
      OF reconcile_order_reads, unfolded a snd_conv]
  note rb = reconcile_all_reads[of "reconcile_position ex now" "open_with_entry (w_db w1)" w1,
      OF reconcile_position_reads, folded reconcile_open_positions_def, unfolded b snd_conv]
  show ?thesis
    using ra rb a b
    by (simp add: reconciliation_turn_def run_session_def reconcile_submitted_orders_def Let_def commit_def)
qed

lemma apply_killswitch_reads: "w_ft (snd (apply_killswitch ex enable b reason ok tr now w)) = w_ft w"
proof -
  let ?b = "case b of Some u \<Rightarrow> if u = [] then ''api:admin'' else u | None \<Rightarrow> ''api:admin''"
  obtain r1 w1 where e: "(if enable then enable_killswitch else disable_killswitch)
      ex reason ?b tr now w = (r1, w1)" by fastforce
  then have "trading_tables w1 = trading_tables w"
    using enable_killswitch_effect(2) disable_killswitch_effect(2) by (auto split: if_splits)
  then show ?thesis
    using e by (cases r1) (auto simp: trading_tables_def apply_killswitch_def run_session_def commit_def
        Let_def split: option.splits)
qed

lemma handle_message_not_signal:
  assumes "\<And>sid. field \<noteq> SignalField sid"
  shows "w_ft (snd (handle_message ex env ok mid field now w)) = w_ft w"
  using assms
  by (cases field) (auto simp: handle_message_def run_session_def then_do_def redis_call_def Let_def
      split: sum.splits)

text \<open>
  Only the risk engine trades, and only on a signal: a step of any service that sends Freqtrade
  an entry or an exit is the handling of a stream message that names a signal.  Webhooks,
  reconciliation, configuration, the kill switch, the balance monitor and the scheduler send neither.
\<close>

theorem only_signals_trade:
  assumes "service_step ex env secret w w'" "idle w"
    and "entries_sent (w_ft w') \<noteq> entries_sent (w_ft w) \<or> exits_sent (w_ft w') \<noteq> exits_sent (w_ft w)"
  shows "\<exists>ok mid sid now. w' = snd (handle_message ex env ok mid (SignalField sid) now w)"
  using assms(1)
proof cases
  case (message ok mid field now)
  then show ?thesis using handle_message_not_signal assms(3) by metis
next
  case (refresh now)
  then show ?thesis using balance_refresh_frame[OF surjective_pairing] assms(3) by simp
next
  case (press enable b reason ok tr now)
  then show ?thesis using apply_killswitch_reads assms(3) by simp
next
  case (reconcile ok now mins)
  then show ?thesis using reconciliation_turn_reads assms(3) by simp
next
  case (cycle sc symbol ok tr now)
  then show ?thesis using run_cycle_idle[OF surjective_pairing] assms(2,3) by (simp add: idle_def)
qed (use assms(3) in simp_all)

theorem only_signals_trade_witness:
  "\<exists>ok mid sid now. snd (handle_message sample_externals RiskConfig_defaults False 1 (SignalField 7) (minutes 1010) sample_world)
     = snd (handle_message sample_externals RiskConfig_defaults ok mid (SignalField sid) now sample_world)"
proof (rule only_signals_trade[where secret = "''s''", OF service_step.message sample_world_ok(1)])
  obtain res w1 where p: "process_signal sample_externals RiskConfig_defaults False 7 (minutes 1010) sample_world
      = (res, w1)" by fastforce
  have "w_ft (snd (handle_message sample_externals RiskConfig_defaults False 1 (SignalField 7) (minutes 1010)
      sample_world)) = w_ft w1"
    by (auto simp: handle_message_def run_session_def sample_load p then_do_def redis_call_def Let_def
        split: sum.splits)
  then show "entries_sent (w_ft (snd (handle_message sample_externals RiskConfig_defaults False 1 (SignalField 7)
        (minutes 1010) sample_world))) \<noteq> entries_sent (w_ft sample_world) \<or>
      exits_sent (w_ft (snd (handle_message sample_externals RiskConfig_defaults False 1 (SignalField 7)
        (minutes 1010) sample_world))) \<noteq> exits_sent (w_ft sample_world)"
    using sample_process[OF p] by (simp add: sample_world_def Let_def)
qed

end
