(* ===== verification/Fills.thy ===== *)
theory Fills
  imports Ledger
begin

text \<open>
  What the webhook handlers and the reconciliation loop do to the ledger, branch by branch.
\<close>

section \<open>Webhook errors\<close>

text \<open>
  A webhook changes nothing unless it is authentic, known and committed: a wrong or unconfigured
  secret is refused with 401, an unknown event is accepted and ignored, and whatever ends in an error
  leaves the database as it was.
\<close>

theorem webhook_refused:
  shows "(secret = [] \<or> wh_secret pl \<noteq> secret \<longrightarrow>
            freqtrade_webhook env secret ok pl now d = (Inl Unauthorized, d)) \<and>
         (wh_event pl \<notin> {''entry_fill'', ''exit_fill'', ''entry_cancel'', ''exit_cancel''} \<longrightarrow>
            snd (freqtrade_webhook env secret ok pl now d) = d) \<and>
         (\<forall>e. fst (freqtrade_webhook env secret ok pl now d) = Inl e \<longrightarrow>
            snd (freqtrade_webhook env secret ok pl now d) = d) \<and>
         (secret \<noteq> [] \<and> wh_secret pl = secret \<and> \<not> ok \<longrightarrow>
            snd (freqtrade_webhook env secret ok pl now d) = d)"
  by (auto simp: freqtrade_webhook_def EVENT_HANDLERS_def split: option.splits sum.splits if_splits)

definition sample_payload :: FreqtradeWebhookPayload where
  "sample_payload =
     \<lparr>wh_event = ''entry_fill'', wh_trade_id = 11, wh_pair = ''BTC/USDT'', wh_secret = ''s'',
      wh_open_rate = Some 60010, wh_amount = Some (1 / 1000), wh_open_date = NoDate,
      wh_close_rate = None, wh_profit_amount = None, wh_profit_ratio = None, wh_close_date = NoDate,
      wh_exit_reason = None\<rparr>"

theorem webhook_refused_witness:
  "freqtrade_webhook RiskConfig_defaults [] True sample_payload 0 empty_db = (Inl Unauthorized, empty_db)"
  using webhook_refused[of "[]" sample_payload RiskConfig_defaults True 0 empty_db] by simp

section \<open>Entry fills\<close>

lemma insort_key_map:
  "k \<circ> g = k \<Longrightarrow> insort_key k (g x) (map g xs) = map g (insort_key k x xs)"
  by (induction xs) (auto simp: fun_eq_iff)

lemma sort_key_map: "k \<circ> g = k \<Longrightarrow> sort_key k (map g xs) = map g (sort_key k xs)"
  by (induction xs) (simp_all add: insort_key_map)

lemma latest_order_update:
  assumes "\<And>r. r \<in> set (db_orders d) \<Longrightarrow> P (if ord_id r = i then f r else r) = P r"
    and "\<And>r. ord_created_at (f r) = ord_created_at r"
  shows "latest_order P (update_order i f d)
       = map_option (\<lambda>r. if ord_id r = i then f r else r) (latest_order P d)"
proof -
  let ?u = "\<lambda>r. if ord_id r = i then f r else r"
  have k: "(\<lambda>o'. - ord_created_at o') \<circ> ?u = (\<lambda>o'. - ord_created_at o')"
    using assms(2) by (auto simp: fun_eq_iff)
  have "filter P (map ?u xs) = map ?u (filter P xs)" if "set xs \<subseteq> set (db_orders d)" for xs
    using that assms(1) by (induction xs) (simp_all del: split_paired_All)
  then have "filter P (db_orders (update_order i f d)) = map ?u (filter P (db_orders d))"
    by (simp add: update_order_def)
  then show ?thesis
    unfolding latest_order_def
    by (simp add: sort_key_map[OF k] split: list.split)
qed

lemma filled_matches [simp]:
  "ord_freqtrade_trade_id (filled a p r) = ord_freqtrade_trade_id r"
  "ord_symbol (filled a p r) = ord_symbol r" "ord_created_at (filled a p r) = ord_created_at r"
  by (simp_all add: filled_def)

lemma latest_order_frame: "db_orders d' = db_orders d \<Longrightarrow> latest_order P d' = latest_order P d"
  by (simp add: latest_order_def)

lemma latest_order_NoneD: "latest_order P d = None \<Longrightarrow> r \<in> set (db_orders d) \<Longrightarrow> \<not> P r"
proof -
  assume n: "latest_order P d = None" and r: "r \<in> set (db_orders d)"
  have "sort_key (\<lambda>o'. - ord_created_at o') (filter P (db_orders d)) = []"
    using n unfolding latest_order_def by (auto split: list.splits)
  then have "filter P (db_orders d) = []" by (metis length_0_conv length_sort)
  with r show ?thesis by (simp add: filter_empty_conv)
qed

text \<open>The first delivery decides which order a trade belongs to; later ones find the same order.\<close>

lemma find_order_again:
  assumes "find_order t pair side d = (Some r, d1)" "ledger_ok d"
    and "db_orders d2 = db_orders (update_order (ord_id r) (filled a p) d1)"
  shows "\<exists>r' d3. find_order t pair side d2 = (Some r', d3) \<and> ord_id r' = ord_id r \<and> d3 = d2"
proof -
  let ?P = "\<lambda>o'. ord_freqtrade_trade_id o' = Some t \<and> ord_symbol o' = pair \<and> ord_side o' = side"
  have l: "latest_order ?P d2 = latest_order ?P (update_order (ord_id r) (filled a p) d1)"
    using assms(3) by (rule latest_order_frame)
  also have "\<dots> = map_option (\<lambda>q. if ord_id q = ord_id r then filled a p q else q) (latest_order ?P d1)"
    by (rule latest_order_update) auto
  finally have l: "latest_order ?P d2
      = map_option (\<lambda>q. if ord_id q = ord_id r then filled a p q else q) (latest_order ?P d1)" .
  have "\<exists>q. latest_order ?P d1 = Some q \<and> ord_id q = ord_id r"
  proof (cases "latest_order ?P d")
    case (Some q)
    then show ?thesis using assms(1) by (auto simp: find_order_def)
  next
    case None
    then obtain q where q: "latest_order (\<lambda>o'. ord_symbol o' = pair \<and> ord_side o' = side
         \<and> ord_status o' = SUBMITTED \<and> ord_freqtrade_trade_id o' = None) d = Some q"
      "r = q\<lparr>ord_freqtrade_trade_id := Some t\<rparr>"
      "d1 = update_order (ord_id q) (\<lambda>r. r\<lparr>ord_freqtrade_trade_id := Some t\<rparr>) d"
      using assms(1) by (auto simp: find_order_def split: option.splits)
    then have q_mem: "q \<in> set (db_orders d)" "ord_symbol q = pair" "ord_side q = side"
      using wf.latest_order_mem[OF q(1)] by auto
    have only: "ord_id x = ord_id q" if "x \<in> set (db_orders d1)" "?P x" for x
      using that latest_order_NoneD[OF None] unfolding q(3) update_order_def by (auto split: if_splits)
    have "q\<lparr>ord_freqtrade_trade_id := Some t\<rparr> \<in> set (db_orders d1)"
      using q_mem unfolding q(3) update_order_def by auto
    then have "latest_order ?P d1 \<noteq> None" using latest_order_NoneD[of ?P d1] q_mem by fastforce
    then obtain x where x: "latest_order ?P d1 = Some x" by blast
    with only wf.latest_order_mem[OF x] show ?thesis by (simp add: q(2))
  qed
  with l show ?thesis by (auto simp: find_order_def)
qed

definition fill_position :: "FreqtradeWebhookPayload \<Rightarrow> nat \<Rightarrow> position \<Rightarrow> bool" where
  "fill_position pl order_id p \<longleftrightarrow>
     pos_status p = OPEN \<and> pos_entry_order_id p = order_id \<and> pos_symbol p = wh_pair pl \<and>
     Some (pos_entry_price p) = map_option (numeric_col 8) (wh_open_rate pl) \<and>
     Some (pos_amount p) = map_option (numeric_col 8) (wh_amount pl)"

lemma find_order_frame:
  assumes "find_order t pair side d = (found, d1)"
  shows "db_positions d1 = db_positions d" "db_decisions d1 = db_decisions d"
    "db_signals d1 = db_signals d" "db_audit d1 = db_audit d" "db_next_id d1 = db_next_id d"
    "db_risk_overrides d1 = db_risk_overrides d"
  using assms by (auto simp: find_order_def split: option.splits)

lemma load_entry_signal_frame:
  "db_decisions d' = db_decisions d \<Longrightarrow> db_signals d' = db_signals d \<Longrightarrow>
     load_entry_signal r d' = load_entry_signal r d"
  by (simp add: load_entry_signal_def get_decision_def get_signal_def)

lemma handle_entry_fill_opens:
  assumes f: "find_order (wh_trade_id pl) (wh_pair pl) BUY_SIDE d = (Some r, d1)"
    and pl: "wh_open_rate pl = Some rate" "wh_amount pl = Some amount"
  shows "\<exists>d2 p. handle_entry_fill pl now d = Inr d2 \<and> db_positions d2 = db_positions d @ [p] \<and>
    fill_position pl (ord_id r) p \<and>
    pos_market_regime p = Option.bind (load_entry_signal r d) sig_setup_regime \<and>
    pos_trade_score p = Option.bind (load_entry_signal r d) sig_trade_score \<and>
    db_orders d2 = db_orders (update_order (ord_id r) (filled amount rate) d1)"
proof -
  note frame = find_order_frame[OF f]
  have "load_entry_signal r (update_order (ord_id r) (filled amount rate) d1) = load_entry_signal r d"
    by (rule load_entry_signal_frame) (simp_all add: frame)
  then show ?thesis
    using f pl frame(1) by (simp add: handle_entry_fill_def Let_def fill_position_def)
qed

text \<open>
  C40. An entry fill opens exactly one position, with the rounded price and amount of the fill and the
  regime and score of the signal behind the order; but the handler does not remember that it did: the
  same webhook delivered twice opens two positions for the same order.
\<close>

theorem entry_fill_opens_each_time:
  assumes "find_order (wh_trade_id pl) (wh_pair pl) BUY_SIDE d = (Some r, d1)" "ledger_ok d"
    and "wh_open_rate pl \<noteq> None" "wh_amount pl \<noteq> None"
  shows "\<exists>d2 d3 p q. handle_entry_fill pl now d = Inr d2 \<and> db_positions d2 = db_positions d @ [p] \<and>
    fill_position pl (ord_id r) p \<and>
    pos_market_regime p = Option.bind (load_entry_signal r d) sig_setup_regime \<and>
    pos_trade_score p = Option.bind (load_entry_signal r d) sig_trade_score \<and>
    handle_entry_fill pl later d2 = Inr d3 \<and> db_positions d3 = db_positions d @ [p, q] \<and>
    fill_position pl (ord_id r) q"
proof -
  obtain rate amount where pl: "wh_open_rate pl = Some rate" "wh_amount pl = Some amount"
    using assms(3,4) by auto
  from handle_entry_fill_opens[OF assms(1) pl] obtain d2 p where
    d2: "handle_entry_fill pl now d = Inr d2" "db_positions d2 = db_positions d @ [p]"
      "fill_position pl (ord_id r) p"
      "pos_market_regime p = Option.bind (load_entry_signal r d) sig_setup_regime"
      "pos_trade_score p = Option.bind (load_entry_signal r d) sig_trade_score"
      "db_orders d2 = db_orders (update_order (ord_id r) (filled amount rate) d1)" by blast
  from find_order_again[OF assms(1,2) d2(6)] obtain r' where
    "find_order (wh_trade_id pl) (wh_pair pl) BUY_SIDE d2 = (Some r', d2)" "ord_id r' = ord_id r" by blast
  from handle_entry_fill_opens[OF this(1) pl, of later] this(2) obtain d3 q where
    "handle_entry_fill pl later d2 = Inr d3" "db_positions d3 = db_positions d2 @ [q]"
    "fill_position pl (ord_id r) q" by auto
  with d2 show ?thesis by (intro exI[of _ d2] exI[of _ d3] exI[of _ p] exI[of _ q]) simp
qed

definition sample_order :: order where
  "sample_order =
     \<lparr>ord_id = 3, ord_trace_id = 70, ord_risk_decision_id = 2, ord_freqtrade_trade_id = Some 11,
      ord_symbol = ''BTC/USDT'', ord_side = BUY_SIDE, ord_status = SUBMITTED,
      ord_requested_amount = 1 / 1000, ord_filled_amount = None, ord_avg_price = None,
      ord_dry_run = True, ord_created_at = 5\<rparr>"

definition sample_decision :: risk_decision where
  "sample_decision =
     \<lparr>dec_id = 2, dec_trace_id = 70, dec_signal_id = 1, dec_approved = True,
      dec_rejection_reason = None, dec_position_size_usdt = Some 60, dec_position_size_base = Some (1 / 1000),
      dec_stop_loss_price = Some 58000, dec_equity_snapshot_usdt = Some 1000,
      dec_risk_pct_applied = Some (1 / 100), dec_nominal_risk_amount_usdt = Some 10,
      dec_actual_risk_usdt = Some 2, dec_stop_distance_pct = Some (1 / 30), dec_created_at = 5\<rparr>"

definition sample_ledger :: db where
  "sample_ledger = empty_db\<lparr>db_decisions := [sample_decision], db_orders := [sample_order], db_next_id := 4\<rparr>"

lemma sample_ledger_ok: "ledger_ok sample_ledger"
  by (simp add: ledger_ok_def sample_ledger_def empty_db_def sample_decision_def sample_order_def
      has_approval_def fill_ok_def)

lemma sample_found:
  "find_order (wh_trade_id sample_payload) (wh_pair sample_payload) BUY_SIDE sample_ledger
     = (Some sample_order, sample_ledger)"
  by (simp add: find_order_def latest_order_def sample_ledger_def sample_order_def sample_payload_def)

theorem entry_fill_opens_each_time_witness:
  "\<exists>d2 d3 p q. handle_entry_fill sample_payload 10 sample_ledger = Inr d2 \<and>
     handle_entry_fill sample_payload 11 d2 = Inr d3 \<and> db_positions d3 = [p, q]"
  using entry_fill_opens_each_time[OF sample_found sample_ledger_ok, of 10 11]
  by (auto simp: sample_payload_def sample_ledger_def empty_db_def)

section \<open>Exit fills\<close>

text \<open>The ledger after an exit that Freqtrade made on its own (stop-loss or ROI).\<close>

lemma exit_position_open:
  assumes "\<forall>q \<in> set (db_positions d). pos_exit_order_id q \<noteq> Some k"
  shows "exit_position k pair d = find (\<lambda>q. pos_symbol q = pair \<and> pos_status q = OPEN) (db_positions d)"
proof -
  have "find (\<lambda>q. pos_exit_order_id q = Some k) (db_positions d) = None"
    using assms by (auto simp: find_None_iff)
  then show ?thesis by (simp add: exit_position_def)
qed

lemma find_only:
  assumes "find P xs = Some q" "p \<in> set xs" "P p" "\<forall>x \<in> set xs. P x \<longrightarrow> x = p"
  shows "q = p"
proof -
  from assms(1) have "q \<in> set xs" "P q" by (auto simp: find_Some_iff)
  with assms(4) show ?thesis by blast
qed

lemma find_append: "find P xs \<noteq> None \<Longrightarrow> find P (xs @ ys) = find P xs"
  by (induction xs) auto

lemma fresh_exit:
  assumes "ledger_ok d" "q \<in> set (db_positions d)"
  shows "pos_exit_order_id q \<noteq> Some (db_next_id d)"
proof
  assume "pos_exit_order_id q = Some (db_next_id d)"
  with ledger_okD(4)[OF assms] have "has_order d (db_next_id d) SELL_SIDE" by (simp add: position_ok_def)
  then obtain r where "r \<in> set (db_orders d)" "ord_id r = db_next_id d"
    by (auto simp: has_order_def list_ex_iff)
  with ledger_okD(3)[OF assms(1) this(1)] show False by simp
qed

lemma map_update_position:
  assumes "ledger_ok d" "p \<in> set (db_positions d)"
  shows "map (\<lambda>q. if pos_id q = pos_id p then g q else q) (db_positions d)
       = map (\<lambda>q. if q = p then g p else q) (db_positions d)"
  using wf.one_row[OF assms(1) _ assms(2)] by auto

lemma find_order_None: "find_order t pair side d = (None, d1) \<Longrightarrow> d1 = d"
  by (auto simp: find_order_def split: option.splits)

text \<open>
  C10. An exit fill for which the program has no order (Freqtrade's own stop-loss or ROI exit) closes
  one OPEN position and leaves every other position as it was: that position gets the exit price, the
  profit, and as R-multiple the profit over the actual risk of its own entry decision, and a FILLED sell
  order on the decision and trace of the trade's entry is added for it.  The position closed is the first
  OPEN one of the pair that the second lookup of the handler finds, not the one matched by trade id: the
  two agree when the trade's position is the only OPEN one of its pair, and with two OPEN positions of a
  pair the fill of one trade can close the position of the other.
\<close>

theorem autonomous_exit_closes:
  assumes "ledger_ok d"
    and "fst (find_order (wh_trade_id pl) (wh_pair pl) SELL_SIDE d) = None"
    and "match_open_position pl d = Some (p, r)"
    and "wh_close_rate pl = Some cr" "wh_amount pl = Some am"
    and "load_effective_risk_config env d = Inr config"
  shows "\<exists>c d' c' o'. handle_exit_fill env pl now d = Inr d' \<and>
    find (\<lambda>q. pos_symbol q = wh_pair pl \<and> pos_status q = OPEN) (db_positions d) = Some c \<and>
    ((\<forall>q \<in> set (db_positions d). pos_symbol q = wh_pair pl \<and> pos_status q = OPEN \<longrightarrow> q = p) \<longrightarrow> c = p) \<and>
    db_positions d' = map (\<lambda>q. if q = c then c' else q) (db_positions d) \<and>
    pos_id c' = pos_id c \<and> pos_status c' = CLOSED \<and> pos_exit_order_id c' = Some (ord_id o') \<and>
    pos_exit_price c' = Some (numeric_col 8 cr) \<and>
    pos_pnl_usdt c' = map_option (numeric_col 8) (wh_profit_amount pl) \<and>
    pos_r_multiple c' = (case (load_actual_risk_usdt c d, wh_profit_amount pl) of
       (Some a, Some x) \<Rightarrow> if a = 0 then None else Some (numeric_col 4 (dec (x / a))) | _ \<Rightarrow> None) \<and>
    db_orders d' = db_orders d @ [o'] \<and> ord_side o' = SELL_SIDE \<and> ord_status o' = FILLED \<and>
    ord_risk_decision_id o' = ord_risk_decision_id r \<and> ord_trace_id o' = ord_trace_id r"
proof -
  have f: "find_order (wh_trade_id pl) (wh_pair pl) SELL_SIDE d = (None, d)"
    using assms(2) find_order_None by (metis prod.collapse)
  have p: "p \<in> set (db_positions d)" "pos_symbol p = wh_pair pl \<and> pos_status p = OPEN"
    using assms(3) by (auto simp: match_open_position_def find_Some_iff dest!: nth_mem)
  then have "find (\<lambda>q. pos_symbol q = wh_pair pl \<and> pos_status q = OPEN) (db_positions d) \<noteq> None"
    by (auto simp: find_None_iff)
  then obtain c where c: "find (\<lambda>q. pos_symbol q = wh_pair pl \<and> pos_status q = OPEN) (db_positions d) = Some c"
    by blast
  then have mem: "c \<in> set (db_positions d)" by (auto simp: find_Some_iff)
  have only: "c = p" if "\<forall>q \<in> set (db_positions d). pos_symbol q = wh_pair pl \<and> pos_status q = OPEN \<longrightarrow> q = p"
    by (rule find_only[OF c p that])
  define o' where "o' = (synthetic_exit_order pl cr am p r now)\<lparr>ord_id := db_next_id d\<rparr>"
  have o': "filled am cr o' = o'" "ord_id o' = db_next_id d" "ord_side o' = SELL_SIDE"
    "ord_status o' = FILLED" "ord_risk_decision_id o' = ord_risk_decision_id r" "ord_trace_id o' = ord_trace_id r"
    by (simp_all add: o'_def filled_def synthetic_exit_order_def)
  have ex: "exit_order_for pl cr am now d = (Some (o', add_order o' d), add_order o' d)"
    using assms(3) f by (simp add: exit_order_for_def Let_def o'_def)
  let ?d2 = "update_order (ord_id o') (filled am cr) (add_order o' d)"
  have same: "map (\<lambda>q. if ord_id q = db_next_id d then filled am cr q else q) (db_orders d) = db_orders d"
    using ledger_okD(3)[OF assms(1)] by (intro map_idI) force
  have oid: "o'\<lparr>ord_id := db_next_id d\<rparr> = o'" by (simp add: o'_def)
  have d2 [simp]: "db_orders ?d2 = db_orders d @ [o']" "db_positions ?d2 = db_positions d"
    "db_decisions ?d2 = db_decisions d" "db_risk_overrides ?d2 = db_risk_overrides d"
    using same by (simp_all add: update_order_def o'(1,2) oid)
  have xp: "exit_position (ord_id o') (wh_pair pl) ?d2 = Some c"
    using exit_position_open[of ?d2 "ord_id o'" "wh_pair pl"] fresh_exit[OF assms(1)] c unfolding o'(2) by simp
  have "find (\<lambda>x. ord_id x = pos_entry_order_id c) (db_orders ?d2)
      = find (\<lambda>x. ord_id x = pos_entry_order_id c) (db_orders d)"
  proof -
    have "has_order d (pos_entry_order_id c) BUY_SIDE"
      using ledger_okD(4)[OF assms(1) mem] by (simp add: position_ok_def)
    then have "find (\<lambda>x. ord_id x = pos_entry_order_id c) (db_orders d) \<noteq> None"
      by (auto simp: has_order_def list_ex_iff find_None_iff)
    then show ?thesis unfolding d2(1) by (rule find_append)
  qed
  then have risk: "load_actual_risk_usdt c ?d2 = load_actual_risk_usdt c d"
    by (simp add: load_actual_risk_usdt_def get_order_def get_decision_def d2)
  have cfg: "load_effective_risk_config env ?d2 = Inr config"
    using assms(6) by (simp add: load_effective_risk_config_def d2)
  let ?rm = "r_multiple_of (wh_profit_amount pl) (load_actual_risk_usdt c d)"
  obtain fees where fees: "estimate_fees_usdt env c pl ?d2 = Inr (Some fees)"
    using cfg assms(4,5) by (simp add: estimate_fees_usdt_def Let_def)
  let ?c' = "close_position pl cr (ord_id o') ?rm (Some fees) now c"
  have upd: "map (\<lambda>q. if pos_id q = pos_id c then close_position pl cr (ord_id o') ?rm (Some fees) now q else q)
       (db_positions d) = map (\<lambda>q. if q = c then ?c' else q) (db_positions d)"
    by (rule map_update_position[OF assms(1) mem])
  have run: "\<exists>d'. handle_exit_fill env pl now d = Inr d' \<and>
      db_positions d' = map (\<lambda>q. if q = c then ?c' else q) (db_positions d) \<and> db_orders d' = db_orders d @ [o']"
    using upd by (simp add: handle_exit_fill_def Let_def assms(4,5) ex xp fees risk update_position_def)
  have "pos_id ?c' = pos_id c \<and> pos_status ?c' = CLOSED \<and> pos_exit_order_id ?c' = Some (ord_id o') \<and>
    pos_exit_price ?c' = Some (numeric_col 8 cr) \<and>
    pos_pnl_usdt ?c' = map_option (numeric_col 8) (wh_profit_amount pl) \<and>
    pos_r_multiple ?c' = (case (load_actual_risk_usdt c d, wh_profit_amount pl) of
       (Some a, Some x) \<Rightarrow> if a = 0 then None else Some (numeric_col 4 (dec (x / a))) | _ \<Rightarrow> None)"
    by (simp add: close_position_def r_multiple_of_def split: option.split)
  with run o' c only show ?thesis by blast
qed

text \<open>A stop-loss of the sample trade: two dollars risked, one lost.\<close>

definition sample_position :: position where
  "sample_position =
     \<lparr>pos_id = 4, pos_symbol = ''BTC/USDT'', pos_status = OPEN, pos_entry_order_id = 3,
      pos_exit_order_id = None, pos_entry_price = 60010, pos_exit_price = None, pos_amount = 1 / 1000,
      pos_pnl_usdt = None, pos_pnl_pct = None, pos_opened_at = 6, pos_closed_at = None,
      pos_exit_reason = None, pos_fees_usdt = None, pos_fees_estimated = False, pos_r_multiple = None,
      pos_market_regime = None, pos_trade_score = None, pos_volatility_regime = None\<rparr>"

definition sample_open_ledger :: db where
  "sample_open_ledger = sample_ledger\<lparr>db_positions := [sample_position], db_next_id := 5\<rparr>"

definition sample_exit_payload :: FreqtradeWebhookPayload where
  "sample_exit_payload = sample_payload\<lparr>wh_event := ''exit_fill'', wh_close_rate := Some 59010,
     wh_profit_amount := Some (- 1), wh_exit_reason := Some ''stop_loss''\<rparr>"

lemma sample_open_ledger_ok: "ledger_ok sample_open_ledger"
  by (simp add: ledger_ok_def sample_open_ledger_def sample_ledger_def empty_db_def sample_decision_def
      sample_order_def sample_position_def has_approval_def has_order_def fill_ok_def position_ok_def)

text \<open>A second trade of the same pair, and its stop-loss.\<close>

definition second_order :: order where
  "second_order = sample_order\<lparr>ord_id := 6, ord_freqtrade_trade_id := Some 12\<rparr>"

definition second_position :: position where
  "second_position = sample_position\<lparr>pos_id := 7, pos_entry_order_id := 6\<rparr>"

definition two_trades_ledger :: db where
  "two_trades_ledger = sample_ledger\<lparr>db_orders := [sample_order, second_order],
     db_positions := [sample_position, second_position], db_next_id := 8\<rparr>"

definition second_exit_payload :: FreqtradeWebhookPayload where
  "second_exit_payload = sample_exit_payload\<lparr>wh_trade_id := 12\<rparr>"

lemma two_trades_ledger_ok: "ledger_ok two_trades_ledger"
  by (simp add: ledger_ok_def two_trades_ledger_def sample_ledger_def empty_db_def sample_decision_def
      sample_order_def second_order_def sample_position_def second_position_def has_approval_def has_order_def
      fill_ok_def position_ok_def)

theorem autonomous_exit_closes_witness:
  "(\<exists>d' c' o'. handle_exit_fill RiskConfig_defaults sample_exit_payload 20 sample_open_ledger = Inr d' \<and>
     db_positions d' = [c'] \<and> pos_status c' = CLOSED \<and> ord_status o' = FILLED \<and>
     db_orders d' = [sample_order, o']) \<and>
   (\<exists>d' c'. handle_exit_fill RiskConfig_defaults second_exit_payload 20 two_trades_ledger = Inr d' \<and>
     db_positions d' = [c', second_position] \<and> pos_id c' = pos_id sample_position \<and> pos_status c' = CLOSED)"
proof
  have f: "fst (find_order (wh_trade_id sample_exit_payload) (wh_pair sample_exit_payload) SELL_SIDE
      sample_open_ledger) = None"
    by (simp add: find_order_def latest_order_def sample_open_ledger_def sample_ledger_def sample_order_def)
  have m: "match_open_position sample_exit_payload sample_open_ledger = Some (sample_position, sample_order)"
    by (simp add: match_open_position_def sample_open_ledger_def sample_ledger_def sample_order_def
        sample_position_def sample_exit_payload_def sample_payload_def)
  have c: "load_effective_risk_config RiskConfig_defaults d = Inr RiskConfig_defaults"
    if "db_risk_overrides d = db_risk_overrides empty_db" for d
    using RiskConfig_of_dump[OF RiskConfig_defaults_cluster] that
    by (simp add: load_effective_risk_config_def empty_db_def)
  have c1: "load_effective_risk_config RiskConfig_defaults sample_open_ledger = Inr RiskConfig_defaults"
    by (rule c) (simp add: sample_open_ledger_def sample_ledger_def)
  from autonomous_exit_closes[OF sample_open_ledger_ok f m _ _ c1, of 59010 "1 / 1000" 20]
  show "\<exists>d' c' o'. handle_exit_fill RiskConfig_defaults sample_exit_payload 20 sample_open_ledger = Inr d' \<and>
     db_positions d' = [c'] \<and> pos_status c' = CLOSED \<and> ord_status o' = FILLED \<and>
     db_orders d' = [sample_order, o']"
    by (auto simp: sample_open_ledger_def sample_ledger_def empty_db_def sample_exit_payload_def sample_payload_def
        sample_position_def)
  have f2: "fst (find_order (wh_trade_id second_exit_payload) (wh_pair second_exit_payload) SELL_SIDE
      two_trades_ledger) = None"
    by (simp add: find_order_def latest_order_def two_trades_ledger_def sample_ledger_def sample_order_def
        second_order_def second_exit_payload_def)
  have m2: "match_open_position second_exit_payload two_trades_ledger = Some (second_position, second_order)"
    by (simp add: match_open_position_def two_trades_ledger_def sample_ledger_def sample_order_def second_order_def
        second_position_def sample_position_def second_exit_payload_def sample_exit_payload_def sample_payload_def)
  have c2: "load_effective_risk_config RiskConfig_defaults two_trades_ledger = Inr RiskConfig_defaults"
    by (rule c) (simp add: two_trades_ledger_def sample_ledger_def)
  have pl: "wh_close_rate second_exit_payload = Some 59010" "wh_amount second_exit_payload = Some (1 / 1000)"
    "wh_pair second_exit_payload = ''BTC/USDT''"
    by (simp_all add: second_exit_payload_def sample_exit_payload_def sample_payload_def)
  have ps: "db_positions two_trades_ledger = [sample_position, second_position]"
    "pos_symbol sample_position = ''BTC/USDT''" "pos_status sample_position = OPEN"
    "second_position \<noteq> sample_position"
    by (simp_all add: two_trades_ledger_def second_position_def sample_position_def)
  from autonomous_exit_closes[OF two_trades_ledger_ok f2 m2 pl(1,2) c2, of 20]
  show "\<exists>d' c'. handle_exit_fill RiskConfig_defaults second_exit_payload 20 two_trades_ledger = Inr d' \<and>
     db_positions d' = [c', second_position] \<and> pos_id c' = pos_id sample_position \<and> pos_status c' = CLOSED"
    unfolding pl(3) by (auto simp: ps)
qed

section \<open>Reconciliation\<close>

text \<open>What Freqtrade must have confirmed before an order is reconciled.\<close>

definition confirmed :: "order \<Rightarrow> FreqtradeTrade \<Rightarrow> db \<Rightarrow> bool" where
  "confirmed r trade d \<longleftrightarrow> ft_pair trade = ord_symbol r \<and>
     (case ord_side r of
        BUY_SIDE \<Rightarrow> ft_is_open trade \<and> ft_open_rate trade \<noteq> None \<and>
          (case ft_amount trade of Some a \<Rightarrow> 0 < a | None \<Rightarrow> False) \<and>
          ft_has_open_orders trade = Some False \<and> ft_open_fill_date trade \<noteq> None
      | SELL_SIDE \<Rightarrow> \<not> ft_is_open trade \<and> ft_close_rate trade \<noteq> None \<and> ft_amount trade \<noteq> None \<and>
          list_ex (\<lambda>p. pos_exit_order_id p = Some (ord_id r)) (db_positions d))"

definition alerted :: "order \<Rightarrow> datetime \<Rightarrow> db \<Rightarrow> db \<Rightarrow> bool" where
  "alerted r now d d' \<longleftrightarrow>
     (if alert_exists (ord_trace_id r) d then d' = d
      else list_ex (\<lambda>reason. d' = add_audit (ord_trace_id r) RECONCILIATION_REQUIRED
             [(''order_id'', JId (ord_id r)), (''symbol'', JStr (ord_symbol r)), (''reason'', JStr reason)] now d)
           [''missing_freqtrade_trade_id'', ''freqtrade_lookup_failed'', ''freqtrade_pair_mismatch'',
            ''entry_not_confirmed_filled'', ''exit_fill_fields_missing'', ''open_position_missing'',
            ''remote_state_ambiguous''])"

lemma alert_once_alerted:
  "reason \<in> {''missing_freqtrade_trade_id'', ''freqtrade_lookup_failed'', ''freqtrade_pair_mismatch'',
      ''entry_not_confirmed_filled'', ''exit_fill_fields_missing'', ''open_position_missing'',
      ''remote_state_ambiguous''} \<Longrightarrow> alerted r now d (alert_once r reason now d)"
  by (auto simp: alerted_def alert_once_def)

lemma reconcile_open_entry_cases:
  assumes "reconcile_open_entry r trade now d = (b, d')"
  shows "if b then entry_confirmed trade else alerted r now d d'"
  using assms
  by (auto simp: reconcile_open_entry_def Let_def alert_once_alerted split: if_splits)

lemma reconcile_closed_exit_cases:
  assumes "reconcile_closed_exit r trade now d = (b, d')"
  shows "if b then ft_close_rate trade \<noteq> None \<and> ft_amount trade \<noteq> None \<and>
            list_ex (\<lambda>p. pos_exit_order_id p = Some (ord_id r)) (db_positions d)
         else alerted r now d d'"
  using assms
  by (auto simp: reconcile_closed_exit_def Let_def alert_once_alerted list_ex_iff find_Some_iff
      split: if_splits option.splits)

text \<open>
  C8. Reconciliation never guesses: an order is counted as reconciled only when Freqtrade answered
  the lookup of its own trade id with a trade on the same pair, open and completely filled for a buy,
  closed with a price and an amount for a sell whose position is known.  In every other case, a missing
  id, a failed lookup, a mismatch or an ambiguous answer, the database is unchanged but for one alert,
  written at most once per trace, with one of the seven documented reasons.
\<close>

theorem reconcile_never_guesses:
  assumes "reconcile_order ex now r w = (b, w')"
  shows "if b then \<exists>t trade. ord_freqtrade_trade_id r = Some t \<and>
              ex_trade ex (w_ft w) (FT_trade t) = Body trade \<and> confirmed r trade (w_db w)
         else alerted r now (w_db w) (w_db w')"
proof (cases "ord_freqtrade_trade_id r")
  case None
  then show ?thesis
    using assms by (auto simp: reconcile_order_def alert_def on_db_def alert_once_alerted)
next
  case (Some t)
  obtain g w1 where g: "get_trade ex t w = (g, w1)" by fastforce
  then have w1: "w_db w1 = w_db w" by (auto simp: get_trade_def ft_call_def)
  show ?thesis
  proof (cases g)
    case (Inl e)
    then show ?thesis
      using assms Some g w1 by (auto simp: reconcile_order_def alert_def on_db_def alert_once_alerted)
  next
    case (Inr trade)
    then have body: "ex_trade ex (w_ft w) (FT_trade t) = Body trade"
      using g by (auto simp: get_trade_def ft_call_def split: http_reply.splits)
    note run = assms[unfolded reconcile_order_def Some g Inr option.case sum.case prod.case]
    consider "ft_pair trade \<noteq> ord_symbol r"
      | "ft_pair trade = ord_symbol r" "ord_side r = BUY_SIDE" "ft_is_open trade"
      | "ft_pair trade = ord_symbol r" "ord_side r = SELL_SIDE" "\<not> ft_is_open trade"
      | "ft_pair trade = ord_symbol r" "ord_side r = BUY_SIDE \<longleftrightarrow> \<not> ft_is_open trade"
      by (cases "ord_side r") auto
    then show ?thesis
    proof cases
      case 1
      then show ?thesis using run w1 by (auto simp: alert_def on_db_def alert_once_alerted)
    next
      case 2
      obtain b1 d1 where d1: "reconcile_open_entry r trade now (w_db w) = (b1, d1)" by fastforce
      with reconcile_open_entry_cases[OF d1] run 2 w1 body Some show ?thesis
        by (auto simp: on_db_def confirmed_def entry_confirmed_def split: option.split)
    next
      case 3
      obtain b1 d1 where d1: "reconcile_closed_exit r trade now (w_db w) = (b1, d1)" by fastforce
      with reconcile_closed_exit_cases[OF d1] run 3 w1 body Some show ?thesis
        by (auto simp: on_db_def confirmed_def)
    next
      case 4
      then show ?thesis
        using run w1 by (cases "ord_side r") (auto simp: alert_def on_db_def alert_once_alerted)
    qed
  qed
qed

theorem reconcile_never_guesses_witness:
  "\<exists>w'. reconcile_order sample_externals 9 sample_order (empty_world\<lparr>w_db := sample_ledger\<rparr>) = (False, w') \<and>
     alerted sample_order 9 sample_ledger (w_db w')"
proof -
  let ?w = "empty_world\<lparr>w_db := sample_ledger\<rparr>"
  obtain b w' where run: "reconcile_order sample_externals 9 sample_order ?w = (b, w')" by fastforce
  have "ex_trade sample_externals (w_ft ?w) req = HttpError" for req by (simp add: sample_externals_def)
  with reconcile_never_guesses[OF run] run show ?thesis by (auto split: if_splits)
qed

end
