(* ===== verification/Outage.thy ===== *)
theory Outage
  imports Scheduler
begin

text \<open>
  The outage tracking of \<open>_track_llm_analyze_health\<close> (\<open>scheduler/app/jobs.py\<close>) as a state machine: a
  counter of unusable answers that Redis forgets after a day, and two edges an operator is told about.
  The code refines it for a Redis that keeps a counter.
\<close>

section \<open>The machine\<close>

datatype llm_answer = Skipped | Unusable | Usable

definition answer_of :: "string \<Rightarrow> string \<Rightarrow> llm_answer" where
  "answer_of model_name reasoning =
     (if model_name = PREFILTER_MODEL_NAME then Skipped
      else if reasoning \<in> LLM_TIMEOUT_REASONS then Unusable else Usable)"

text \<open>A count with the time it is forgotten, as Redis keeps an expiring key.\<close>

type_synonym streak = "int \<times> datetime option"

definition alive :: "datetime \<Rightarrow> streak \<Rightarrow> int" where
  "alive now s = (case snd s of None \<Rightarrow> fst s | Some t \<Rightarrow> if t \<le> now then 0 else fst s)"

datatype edge = Outage_Alert int | Outage_Over int

definition health_step :: "int \<Rightarrow> datetime \<Rightarrow> llm_answer \<Rightarrow> streak \<Rightarrow> streak \<times> edge list" where
  "health_step threshold now a s =
     (case a of
        Skipped \<Rightarrow> (s, [])
      | Unusable \<Rightarrow>
          ((alive now s + 1, Some (now + seconds LLM_TIMEOUT_STREAK_TTL_SECONDS)),
           if alive now s + 1 = threshold then [Outage_Alert threshold] else [])
      | Usable \<Rightarrow>
          (if alive now s \<noteq> 0 then (0, None) else s,
           if threshold \<le> alive now s then [Outage_Over (alive now s)] else []))"

fun health_run :: "int \<Rightarrow> (datetime \<times> llm_answer) list \<Rightarrow> streak \<Rightarrow> streak \<times> edge list" where
  "health_run threshold [] s = (s, [])"
| "health_run threshold ((now, a) # xs) s =
     (case health_step threshold now a s of (s1, e1) \<Rightarrow>
      case health_run threshold xs s1 of (s2, e2) \<Rightarrow> (s2, e1 @ e2))"

section \<open>The counter Redis keeps\<close>

definition streak_step :: "datetime \<times> redis_cmd \<times> redis_reply \<Rightarrow> streak \<Rightarrow> streak" where
  "streak_step e s =
     (case e of (t, cmd, r) \<Rightarrow>
        (case cmd of
           R_INCR k \<Rightarrow> if k = K_llm_timeout_streak
             then (alive t s + 1, if alive t s = 0 then None else snd s) else s
         | R_EXPIRE k ttl \<Rightarrow> if k = K_llm_timeout_streak then (fst s, Some (t + seconds ttl)) else s
         | R_DELETE k \<Rightarrow> if k = K_llm_timeout_streak then (0, None) else s
         | _ \<Rightarrow> s))"

definition streak_of :: "redis_history \<Rightarrow> streak" where
  "streak_of h = fold streak_step h (0, None)"

lemma streak_of_append [simp]: "streak_of (h @ h') = fold streak_step h' (streak_of h)"
  by (simp add: streak_of_def)

text \<open>Nobody stores another value under the key.\<close>

definition streak_owned :: "redis_history \<Rightarrow> bool" where
  "streak_owned h \<longleftrightarrow> (\<forall>e \<in> set h. case fst (snd e) of
     R_SET k v ttl \<Rightarrow> k \<noteq> K_llm_timeout_streak
   | R_SET_NX k v ttl \<Rightarrow> k \<noteq> K_llm_timeout_streak
   | _ \<Rightarrow> True)"

text \<open>What Redis documents for the four commands on a key holding a number.\<close>

definition counter_law :: "externals \<Rightarrow> bool" where
  "counter_law ex \<longleftrightarrow> (\<forall>h now. streak_owned h \<longrightarrow>
     ex_redis ex h now (R_INCR K_llm_timeout_streak) = R_INT (alive now (streak_of h) + 1) \<and>
     ex_redis ex h now (R_GET K_llm_timeout_streak) =
       (if alive now (streak_of h) = 0 then R_NIL else R_INT (alive now (streak_of h))) \<and>
     ex_redis ex h now (R_DELETE K_llm_timeout_streak) \<noteq> R_FAIL \<and>
     (\<forall>ttl. ex_redis ex h now (R_EXPIRE K_llm_timeout_streak ttl) \<noteq> R_FAIL))"

section \<open>The code refines the machine\<close>

definition log_edge :: "nat \<Rightarrow> string \<Rightarrow> string \<Rightarrow> int \<Rightarrow> datetime \<Rightarrow> edge \<Rightarrow> db \<Rightarrow> db" where
  "log_edge tr symbol reasoning threshold now e =
     (case e of
        Outage_Alert n \<Rightarrow> add_audit tr LLM_TIMEOUT_STREAK
          [(''streak'', JInt n), (''threshold'', JInt threshold), (''symbol'', JStr symbol),
           (''reason'', JStr reasoning)] now
      | Outage_Over n \<Rightarrow> add_audit tr LLM_TIMEOUT_RECOVERED
          [(''recovered_after'', JInt n), (''symbol'', JStr symbol)] now)"

lemma streak_owned_append [simp]:
  "streak_owned (h @ h') \<longleftrightarrow> streak_owned h \<and> streak_owned h'"
  "streak_owned []"
  "streak_owned ((t, R_INCR k, r) # h) = streak_owned h"
  "streak_owned ((t, R_EXPIRE k ttl, r) # h) = streak_owned h"
  "streak_owned ((t, R_DELETE k, r) # h) = streak_owned h"
  "streak_owned ((t, R_GET k, r) # h) = streak_owned h"
  by (auto simp: streak_owned_def)

lemma track_refines:
  fixes symbol :: string and tr :: nat
  assumes law: "counter_law ex" and owned: "streak_owned (w_redis w)" and "0 < threshold"
    and stp: "health_step threshold now (answer_of model reasoning) (streak_of (w_redis w)) = (s', es)"
  defines "w' \<equiv> track_llm_analyze_health ex now symbol tr reasoning model threshold w"
  shows "streak_of (w_redis w') = s'" and "streak_owned (w_redis w')"
    and "w_db w' = fold (log_edge tr symbol reasoning threshold now) es (w_db w)"
proof -
  let ?n = "alive now (streak_of (w_redis w))"
  from law owned have
    incr: "ex_redis ex (w_redis w) now (R_INCR K_llm_timeout_streak) = R_INT (?n + 1)" and
    get: "ex_redis ex (w_redis w) now (R_GET K_llm_timeout_streak) = (if ?n = 0 then R_NIL else R_INT ?n)"
    by (simp_all add: counter_law_def)
  have del: "ex_redis ex (w_redis w @ [(now, R_GET K_llm_timeout_streak, r)]) now
      (R_DELETE K_llm_timeout_streak) \<noteq> R_FAIL" for r
    using law owned by (simp add: counter_law_def)
  have expire: "ex_redis ex (w_redis w @ [(now, R_INCR K_llm_timeout_streak, r)]) now
      (R_EXPIRE K_llm_timeout_streak ttl) \<noteq> R_FAIL" for r ttl
    using law owned by (simp add: counter_law_def)
  have "streak_of (w_redis w') = s' \<and> streak_owned (w_redis w') \<and>
      w_db w' = fold (log_edge tr symbol reasoning threshold now) es (w_db w)"
  proof (cases "answer_of model reasoning")
    case Skipped
    then have "w' = w"
      by (auto simp: w'_def track_llm_analyze_health_def answer_of_def split: if_splits)
    with stp Skipped owned show ?thesis by (simp add: health_step_def)
  next
    case Unusable
    then have "model \<noteq> PREFILTER_MODEL_NAME" "reasoning \<in> LLM_TIMEOUT_REASONS"
      by (auto simp: answer_of_def split: if_splits)
    with stp Unusable owned \<open>0 < threshold\<close> show ?thesis
      by (auto simp: w'_def track_llm_analyze_health_def health_step_def redis_query_def redis_call_def
          incr expire Let_def streak_step_def log_edge_def)
  next
    case Usable
    then have "model \<noteq> PREFILTER_MODEL_NAME" "reasoning \<notin> LLM_TIMEOUT_REASONS"
      by (auto simp: answer_of_def split: if_splits)
    with stp Usable owned \<open>0 < threshold\<close> show ?thesis
      by (auto simp: w'_def track_llm_analyze_health_def health_step_def redis_query_def redis_call_def
          get del Let_def streak_step_def log_edge_def)
  qed
  then show "streak_of (w_redis w') = s'" "streak_owned (w_redis w')"
    "w_db w' = fold (log_edge tr symbol reasoning threshold now) es (w_db w)" by simp_all
qed

section \<open>An outage\<close>

text \<open>A sequence of analyses: the time, the symbol, the trace and what the answer carried.\<close>

type_synonym analysis = "datetime \<times> string \<times> nat \<times> string \<times> string"

definition answered :: "analysis \<Rightarrow> datetime \<times> llm_answer" where
  "answered c = (case c of (now, symbol, tr, reasoning, model) \<Rightarrow> (now, answer_of model reasoning))"

lemma answered_simp [simp]: "answered (now, symbol, tr, reasoning, model) = (now, answer_of model reasoning)"
  by (simp add: answered_def)

fun track_run :: "externals \<Rightarrow> int \<Rightarrow> analysis list \<Rightarrow> world \<Rightarrow> world" where
  "track_run ex threshold [] w = w"
| "track_run ex threshold ((now, symbol, tr, reasoning, model) # cs) w =
     track_run ex threshold cs (track_llm_analyze_health ex now symbol tr reasoning model threshold w)"

text \<open>The outage events of the audit log, with the number each reports.\<close>

definition outage_events :: "db \<Rightarrow> edge list" where
  "outage_events d = concat (map (\<lambda>a.
     if aud_event_type a = LLM_TIMEOUT_STREAK
     then (case map_of (aud_payload a) ''streak'' of Some (JInt n) \<Rightarrow> [Outage_Alert n] | _ \<Rightarrow> [])
     else if aud_event_type a = LLM_TIMEOUT_RECOVERED
     then (case map_of (aud_payload a) ''recovered_after'' of Some (JInt n) \<Rightarrow> [Outage_Over n] | _ \<Rightarrow> [])
     else []) (db_audit d))"

lemma outage_events_log_edge:
  "outage_events (fold (log_edge tr symbol reasoning threshold now) es d) = outage_events d @ es"
proof (induction es arbitrary: d)
  case (Cons e es)
  have "outage_events (log_edge tr symbol reasoning threshold now e d) = outage_events d @ [e]"
    by (cases e) (simp_all add: log_edge_def outage_events_def add_audit_def)
  with Cons.IH show ?case by simp
qed simp

lemma track_run_refines:
  assumes "counter_law ex" "streak_owned (w_redis w)" "0 < threshold"
    and "health_run threshold (map answered cs) (streak_of (w_redis w)) = (s', es)"
  shows "streak_of (w_redis (track_run ex threshold cs w)) = s' \<and>
    outage_events (w_db (track_run ex threshold cs w)) = outage_events (w_db w) @ es"
  using assms(2,4)
proof (induction cs arbitrary: w es)
  case (Cons c cs)
  obtain now symbol tr reasoning model where c: "c = (now, symbol, tr, reasoning, model)" by (cases c) auto
  obtain s1 e1 where s: "health_step threshold now (answer_of model reasoning) (streak_of (w_redis w)) = (s1, e1)"
    by fastforce
  obtain e2 where r: "health_run threshold (map answered cs) s1 = (s', e2)" "es = e1 @ e2"
    using Cons.prems(2) s c by (auto split: prod.splits)
  note t = track_refines[OF assms(1) Cons.prems(1) assms(3) s]
  show ?case
    using Cons.IH[of "track_llm_analyze_health ex now symbol tr reasoning model threshold w" e2] t r c
    by (simp add: outage_events_log_edge)
qed simp

text \<open>Answers that come before the counter is forgotten.\<close>

definition unusable_count :: "(datetime \<times> llm_answer) list \<Rightarrow> int" where
  "unusable_count xs = int (length (filter (\<lambda>x. snd x = Unusable) xs))"

fun paced :: "datetime option \<Rightarrow> (datetime \<times> llm_answer) list \<Rightarrow> bool" where
  "paced prev [] = True"
| "paced prev ((now, a) # xs) =
     (if a = Skipped then paced prev xs
      else (case prev of None \<Rightarrow> True | Some t \<Rightarrow> now < t + seconds LLM_TIMEOUT_STREAK_TTL_SECONDS) \<and>
           paced (Some now) xs)"

lemma unusable_count_simps [simp]:
  "unusable_count [] = 0"
  "unusable_count ((t, a) # xs) = (if a = Unusable then 1 else 0) + unusable_count xs"
  "unusable_count (xs @ ys) = unusable_count xs + unusable_count ys"
  by (simp_all add: unusable_count_def)

lemma unusable_count_nonneg: "0 \<le> unusable_count xs"
  by (simp add: unusable_count_def)

text \<open>The machine during an outage, from a count that is known and remembered.\<close>

definition remembered :: "datetime option \<Rightarrow> int \<Rightarrow> streak \<Rightarrow> bool" where
  "remembered prev n s \<longleftrightarrow>
     (case prev of
        None \<Rightarrow> n = 0 \<and> (\<forall>t. alive t s = 0)
      | Some t \<Rightarrow> s = (n, Some (t + seconds LLM_TIMEOUT_STREAK_TTL_SECONDS)))"

lemma remembered_alive:
  assumes "remembered prev n s"
    and "case prev of None \<Rightarrow> True | Some t \<Rightarrow> now < t + seconds LLM_TIMEOUT_STREAK_TTL_SECONDS"
  shows "alive now s = n"
proof (cases prev)
  case (Some t)
  with assms show ?thesis by (simp add: remembered_def alive_def)
qed (use assms in \<open>simp add: remembered_def\<close>)

lemma health_run_outage:
  assumes "\<forall>x \<in> set xs. snd x \<noteq> Usable" "paced prev (xs @ [(t, Usable)])" "remembered prev n s" "0 \<le> n"
    and "0 < threshold"
  shows "snd (health_run threshold xs s) =
      (if n < threshold \<and> threshold \<le> n + unusable_count xs then [Outage_Alert threshold] else []) \<and>
    snd (health_run threshold (xs @ [(t, Usable)]) s) =
      (if n < threshold \<and> threshold \<le> n + unusable_count xs then [Outage_Alert threshold] else []) @
      (if threshold \<le> n + unusable_count xs then [Outage_Over (n + unusable_count xs)] else [])"
  using assms(1-4)
proof (induction xs arbitrary: prev n s)
  case Nil
  then have "alive t s = n" by (intro remembered_alive) auto
  then show ?case by (simp add: health_step_def split: if_splits)
next
  case (Cons x xs)
  obtain now a where x: "x = (now, a)" by fastforce
  show ?case
  proof (cases "a = Skipped")
    case True
    with Cons.IH[of prev n s] Cons.prems x show ?thesis by (simp add: health_step_def split: prod.split)
  next
    case False
    with Cons.prems(1) x have a: "a = Unusable" by (cases a) auto
    let ?s = "(n + 1, Some (now + seconds LLM_TIMEOUT_STREAK_TTL_SECONDS))"
    have "alive now s = n" using Cons.prems(2,3) x a by (intro remembered_alive) auto
    then have "health_step threshold now a s = (?s, if n + 1 = threshold then [Outage_Alert threshold] else [])"
      by (simp add: health_step_def a)
    moreover have "remembered (Some now) (n + 1) ?s" by (simp add: remembered_def)
    note IH = Cons.IH[OF _ _ this]
    ultimately show ?thesis
      using IH Cons.prems x a unusable_count_nonneg[of xs]
      by (auto simp: split: prod.split)
  qed
qed

text \<open>
  C36. An outage is reported exactly once and its end exactly once: with a Redis that counts, starting
  from a forgotten counter and with at most a day between two answers, any number of skipped and
  \<open>m\<close> unusable answers adds one \<open>LLM_TIMEOUT_STREAK\<close> event, carrying the threshold, if \<open>m\<close> reaches the
  threshold and none otherwise; the first usable answer after them then adds one
  \<open>LLM_TIMEOUT_RECOVERED\<close> event carrying \<open>m\<close>, and none if there was no alert.
\<close>

theorem outage_alerted_once:
  assumes "counter_law ex" "streak_owned (w_redis w)" "0 < threshold" "\<forall>t. alive t (streak_of (w_redis w)) = 0"
    and "\<forall>c \<in> set cs. snd (answered c) \<noteq> Usable" "snd (answered good) = Usable"
    and "paced None (map answered (cs @ [good]))"
  defines "m \<equiv> unusable_count (map answered cs)"
  shows "outage_events (w_db (track_run ex threshold cs w)) =
      outage_events (w_db w) @ (if threshold \<le> m then [Outage_Alert threshold] else []) \<and>
    outage_events (w_db (track_run ex threshold (cs @ [good]) w)) =
      outage_events (w_db w) @ (if threshold \<le> m then [Outage_Alert threshold, Outage_Over m] else [])"
proof -
  have good: "answered good = (fst (answered good), Usable)" using assms(6) by (metis prod.collapse)
  have "remembered None 0 (streak_of (w_redis w))" using assms(4) by (simp add: remembered_def)
  moreover have "paced None (map answered cs @ [(fst (answered good), Usable)])"
    using assms(7) good by simp
  ultimately have run: "snd (health_run threshold (map answered cs) (streak_of (w_redis w))) =
      (if threshold \<le> m then [Outage_Alert threshold] else [])"
    "snd (health_run threshold (map answered cs @ [(fst (answered good), Usable)]) (streak_of (w_redis w))) =
      (if threshold \<le> m then [Outage_Alert threshold, Outage_Over m] else [])"
    using health_run_outage[of "map answered cs" None "fst (answered good)" 0 "streak_of (w_redis w)" threshold]
      assms(3,5) by (simp_all add: m_def)
  note ref = track_run_refines[OF assms(1-3) surjective_pairing]
  from ref[of cs] ref[of "cs @ [good]"] run good show ?thesis by simp
qed

text \<open>A Redis that counts, and three unanswered cycles among skipped ones.\<close>

definition counting_externals :: externals where
  "counting_externals = sample_externals\<lparr>ex_redis := (\<lambda>h now cmd. case cmd of
     R_INCR k \<Rightarrow> R_INT (alive now (streak_of h) + 1)
   | R_GET k \<Rightarrow> if alive now (streak_of h) = 0 then R_NIL else R_INT (alive now (streak_of h))
   | _ \<Rightarrow> R_OK)\<rparr>"

definition sample_outage :: "analysis list" where
  "sample_outage =
     [(minutes 5, ''BTC/USDT'', 1, ''llm_timeout'', ''n/a''),
      (minutes 10, ''BTC/USDT'', 2, ''no setup'', PREFILTER_MODEL_NAME),
      (minutes 15, ''BTC/USDT'', 3, ''llm_service_unreachable'', ''n/a''),
      (minutes 20, ''BTC/USDT'', 4, ''provider_error'', ''ollama:m'')]"

theorem outage_alerted_once_witness:
  "outage_events (w_db (track_run counting_externals 3
     (sample_outage @ [(minutes 25, ''BTC/USDT'', 5, ''up'', ''ollama:m'')]) empty_world)) =
   [Outage_Alert 3, Outage_Over 3]"
proof -
  have law: "counter_law counting_externals" by (simp add: counter_law_def counting_externals_def)
  have owned: "streak_owned (w_redis empty_world)" by (simp add: streak_owned_def empty_world_def)
  have zero: "\<forall>t. alive t (streak_of (w_redis empty_world)) = 0"
    by (simp add: alive_def streak_of_def empty_world_def)
  have cs: "map answered sample_outage =
      [(minutes 5, Unusable), (minutes 10, Skipped), (minutes 15, Unusable), (minutes 20, Unusable)]"
    by (simp add: sample_outage_def answer_of_def LLM_TIMEOUT_REASONS_def PREFILTER_MODEL_NAME_def)
  have good: "answered (minutes 25, ''BTC/USDT'', 5, ''up'', ''ollama:m'') = (minutes 25, Usable)"
    by (simp add: answer_of_def LLM_TIMEOUT_REASONS_def PREFILTER_MODEL_NAME_def)
  have ok: "\<forall>c \<in> set sample_outage. snd (answered c) \<noteq> Usable"
    using cs by (simp add: sample_outage_def)
  have "paced None (map answered (sample_outage @ [(minutes 25, ''BTC/USDT'', 5, ''up'', ''ollama:m'')]))"
    unfolding map_append cs list.map good
    by (simp add: minutes_def seconds_def LLM_TIMEOUT_STREAK_TTL_SECONDS_def)
  from outage_alerted_once[OF law owned _ zero ok _ this, of 3] good cs show ?thesis
    by (simp add: empty_world_def empty_db_def outage_events_def)
qed

end
