(* ===== verification/Strategy.thy ===== *)
theory Strategy
  imports Risk_Properties
begin

text \<open>
  \<open>freqtrade/user_data/strategies/ExternalSignalStrategy.py\<close>: the stop Freqtrade applies to a trade.
  \<open>stoploss_from_absolute\<close> is Freqtrade's and a parameter.  Rates are floats; an entry tag is kept with
  the number it spells.
\<close>

section \<open>The strategy\<close>

text \<open>The table as the decimals it is written with; in the strategy they are floats.\<close>

definition strategy_minimal_roi :: "(int \<times> rat) list" where
  "strategy_minimal_roi =
     [(0, 6 / 100), (240, 3 / 100), (720, 2 / 100), (1440, 15 / 1000), (2880, 1 / 100), (5760, 5 / 1000)]"

definition strategy_stoploss :: rat where
  "strategy_stoploss = flt (- (8 / 100))"

definition trailing_activation_pct :: rat where
  "trailing_activation_pct = flt (2 / 100)"

definition trailing_distance_pct :: rat where
  "trailing_distance_pct = flt (15 / 1000)"

text \<open>The columns of \<open>Trade\<close> that are read; \<open>max_rate\<close> is the highest rate seen.\<close>

record Trade =
  tr_enter_tag :: "entry_tag option"
  tr_open_rate :: rat
  tr_max_rate :: rat

text \<open>
  The rate before the trailing step; \<open>None\<close> stands for the early returns of the static stop.  A tag of
  another form, or one whose number does not parse, is \<open>TagText\<close>.
\<close>

definition tagged_stop_rate :: "Trade \<Rightarrow> rat option" where
  "tagged_stop_rate trade =
     (case tr_enter_tag trade of
        Some (TagSlpct d) \<Rightarrow>
          let stop_distance_pct = flt d
          in if \<not> (0 < stop_distance_pct \<and> stop_distance_pct \<le> \<bar>strategy_stoploss\<bar>) then None
             else Some (flt (tr_open_rate trade * flt (1 - stop_distance_pct)))
      | Some (TagSl r) \<Rightarrow> Some (flt r)
      | _ \<Rightarrow> None)"

definition trailed_stop_rate :: "Trade \<Rightarrow> rat \<Rightarrow> rat \<Rightarrow> rat" where
  "trailed_stop_rate trade stop_rate peak_profit =
     (if peak_profit \<ge> trailing_activation_pct
      then max stop_rate (flt (tr_max_rate trade * flt (1 - trailing_distance_pct)))
      else stop_rate)"

definition custom_stoploss :: "(rat \<Rightarrow> rat \<Rightarrow> rat) \<Rightarrow> Trade \<Rightarrow> rat \<Rightarrow> py_error + rat" where
  "custom_stoploss stoploss_from_absolute trade current_rate =
     (case tagged_stop_rate trade of
        None \<Rightarrow> Inr strategy_stoploss
      | Some stop_rate \<Rightarrow>
          bind_res (flt_div (flt (tr_max_rate trade - tr_open_rate trade)) (tr_open_rate trade)) (\<lambda>peak_profit.
            Inr (stoploss_from_absolute (trailed_stop_rate trade stop_rate peak_profit) current_rate)))"

text \<open>
  The stop never fails open: with a malformed or missing tag the static stop applies, otherwise the rate
  handed on is the tagged one or a tighter one.
\<close>

lemma trailed_at_least: "stop_rate \<le> trailed_stop_rate trade stop_rate peak"
  by (simp add: trailed_stop_rate_def)

section \<open>From the risk engine to the strategy\<close>

lemma abs_mult_le: "\<bar>a\<bar> \<le> b \<Longrightarrow> \<bar>c\<bar> \<le> d \<Longrightarrow> \<bar>a * c\<bar> \<le> b * (d :: rat)"
  unfolding abs_mult by (intro mult_mono) auto

text \<open>A rounding of a number of at most one stays within one unit of the error.\<close>

lemma dec_near: "\<bar>x\<bar> \<le> 1 \<Longrightarrow> \<bar>dec x - x\<bar> \<le> 1 / (2 * 10 ^ 27)"
proof -
  assume "\<bar>x\<bar> \<le> 1"
  then have "1 / (2 * 10 ^ 27) * \<bar>x\<bar> \<le> 1 / (2 * 10 ^ 27) * 1" by (intro mult_left_mono) simp_all
  with dec.error[of x] show ?thesis by linarith
qed

lemma flt_near: "\<bar>x\<bar> \<le> 1 \<Longrightarrow> \<bar>flt x - x\<bar> \<le> 1 / 2 ^ 53"
proof -
  assume "\<bar>x\<bar> \<le> 1"
  then have "1 / 2 ^ 53 * \<bar>x\<bar> \<le> 1 / 2 ^ 53 * 1" by (intro mult_left_mono) simp_all
  with flt.error[of x] show ?thesis by linarith
qed

text \<open>The distance in the tag is the distance the size was computed with, up to four roundings.\<close>

lemma tag_distance_close:
  assumes "0 < price" "0 \<le> d" "d \<le> 1"
  shows "\<bar>dec (1 - dec (dec (price * dec (1 - d)) / price)) - d\<bar> \<le> 4 / 10 ^ 27"
proof -
  define e where "e = (1 :: rat) / (2 * 10 ^ 27)"
  define u where "u = dec (1 - d)"
  define q where "q = dec (price * u) / price"
  have e: "0 < e" "e \<le> 1 / 10" "5 * e \<le> 4 / 10 ^ 27" by (simp_all add: e_def)
  have u: "0 \<le> u" "u \<le> 1" "\<bar>u - (1 - d)\<bar> \<le> e"
    using assms dec.unit[of "1 - d"] dec_near[of "1 - d"] by (simp_all add: u_def e_def)
  have "\<bar>dec (price * u) - price * u\<bar> \<le> e * (price * u)"
    using dec.error[of "price * u"] assms(1) u(1) by (simp add: e_def)
  then have "\<bar>dec (price * u) - price * u\<bar> / price \<le> e * u"
    using assms(1) by (simp add: pos_divide_le_eq mult.assoc mult.commute[of price])
  moreover have "q - u = (dec (price * u) - price * u) / price"
    using assms(1) by (simp add: q_def diff_divide_distrib)
  then have "\<bar>dec (price * u) - price * u\<bar> / price = \<bar>q - u\<bar>" using assms(1) by simp
  moreover have "e * u \<le> e" using u e by (simp add: mult_left_le)
  ultimately have q: "\<bar>q - u\<bar> \<le> e" by linarith
  have "0 \<le> q" using assms(1) u(1) by (simp add: q_def dec.nonneg)
  have v: "\<bar>dec q - q\<bar> \<le> 2 * e"
  proof -
    have "\<bar>dec q - q\<bar> \<le> e * q" using dec.error[of q] \<open>0 \<le> q\<close> by (simp add: e_def)
    also have "\<dots> \<le> e * 2" using q u e \<open>0 \<le> q\<close> by (intro mult_left_mono) linarith+
    finally show ?thesis by simp
  qed
  have "0 \<le> dec q" "dec q \<le> 2" using \<open>0 \<le> q\<close> v q u e by (auto simp: dec.nonneg)
  then have "\<bar>dec (1 - dec q) - (1 - dec q)\<bar> \<le> e" using dec_near[of "1 - dec q"] by (simp add: e_def abs_le_iff)
  with u(3) q v have "\<bar>dec (1 - dec q) - d\<bar> \<le> 5 * e" by linarith
  with e(3) show ?thesis unfolding q_def u_def by linarith
qed

lemma flt_static_tie: "flt (8 / 100 + 4 / 10 ^ 27) = flt (8 / 100)"
  by code_simp

lemma strategy_stoploss_abs: "\<bar>strategy_stoploss\<bar> = flt (8 / 100)"
  by (simp add: strategy_stoploss_def flt.minus flt.nonneg)

text \<open>The rate the strategy computes from the tag.\<close>

lemma tagged_rate_close:
  assumes "0 < open_rate" "0 \<le> d" "d \<le> 8 / 100" "\<bar>t - d\<bar> \<le> 4 / 10 ^ 27" "0 < t"
  shows "0 < flt t \<and> flt t \<le> \<bar>strategy_stoploss\<bar>"
    and "\<bar>flt (open_rate * flt (1 - flt t)) - open_rate * (1 - d)\<bar> \<le> open_rate / 2 ^ 51"
proof -
  define f where "f = (1 :: rat) / 2 ^ 53"
  have small: "(4 :: rat) / 10 ^ 27 \<le> f" "0 < f" by (simp_all add: f_def)
  have "t \<le> 8 / 100 + 4 / 10 ^ 27" using assms(3) abs_le_D1[OF assms(4)] by linarith
  from flt.mono[OF this] have "flt t \<le> \<bar>strategy_stoploss\<bar>"
    unfolding flt_static_tie strategy_stoploss_abs .
  then show tag: "0 < flt t \<and> flt t \<le> \<bar>strategy_stoploss\<bar>" using assms(5) by simp
  have t: "0 \<le> t" "t \<le> 1" using assms(3,5) abs_le_D1[OF assms(4)] by simp_all
  have x: "0 \<le> flt t" "flt t \<le> 1" "\<bar>flt t - t\<bar> \<le> f"
    using flt.unit[OF t] flt_near[of t] t by (simp_all add: f_def)
  define y where "y = flt (1 - flt t)"
  have y: "0 \<le> y" "y \<le> 1" "\<bar>y - (1 - flt t)\<bar> \<le> f"
    using flt.unit[of "1 - flt t"] flt_near[of "1 - flt t"] x by (simp_all add: y_def f_def)
  have "\<bar>flt (open_rate * y) - open_rate * y\<bar> \<le> f * (open_rate * y)"
    using flt.error[of "open_rate * y"] assms(1) y(1) by (simp add: f_def)
  also have "\<dots> \<le> f * (open_rate * 1)" using assms(1) y small by (intro mult_left_mono) auto
  finally have r: "\<bar>flt (open_rate * y) - open_rate * y\<bar> \<le> open_rate * f" by (simp add: mult.commute)
  have "\<bar>y - (1 - d)\<bar> \<le> 3 * f" using y x assms(4) small by linarith
  then have "open_rate * \<bar>y - (1 - d)\<bar> \<le> open_rate * (3 * f)" using assms(1) by (intro mult_left_mono) auto
  then have "\<bar>open_rate * y - open_rate * (1 - d)\<bar> \<le> open_rate * (3 * f)"
    using assms(1) by (simp add: abs_mult flip: right_diff_distrib)
  with r have "\<bar>flt (open_rate * y) - open_rate * (1 - d)\<bar> \<le> 4 * (open_rate * f)" by linarith
  also have "4 * (open_rate * f) = open_rate / 2 ^ 51" by (simp add: f_def)
  finally show "\<bar>flt (open_rate * flt (1 - flt t)) - open_rate * (1 - d)\<bar> \<le> open_rate / 2 ^ 51"
    unfolding y_def .
qed

text \<open>Which peaks are past the activation of the trailing stop.\<close>

lemma peak_activates:
  assumes "0 < open_rate" "open_rate * (10201 / 10000) \<le> max_rate"
  shows "trailing_activation_pct \<le> flt (flt (max_rate - open_rate) / open_rate)"
proof -
  have "201 / 10000 * open_rate * (1 - 1 / 2 ^ 53) \<le> (max_rate - open_rate) * (1 - 1 / 2 ^ 53)"
    using assms by (intro mult_right_mono) simp_all
  also have "\<dots> \<le> flt (max_rate - open_rate)" using assms by (intro flt.lower) simp
  finally have "2 / 100 * open_rate \<le> flt (max_rate - open_rate)" using assms(1) by simp
  then have "2 / 100 \<le> flt (max_rate - open_rate) / open_rate" using assms(1) by (simp add: pos_le_divide_eq)
  then show ?thesis unfolding trailing_activation_pct_def by (rule flt.mono)
qed

lemma below_activation: "flt (1995 / 100000) < trailing_activation_pct"
  unfolding trailing_activation_pct_def by code_simp

lemma peak_inactive:
  assumes "0 < open_rate" "max_rate \<le> open_rate * (10199 / 10000)"
  shows "flt (flt (max_rate - open_rate) / open_rate) < trailing_activation_pct"
proof -
  have "flt (max_rate - open_rate) \<le> flt (199 / 10000 * open_rate)" using assms(2) by (intro flt.mono) simp
  also have "\<dots> \<le> 199 / 10000 * open_rate * (1 + 1 / 2 ^ 53)" using assms(1) by (intro flt.upper) simp
  finally have "flt (max_rate - open_rate) \<le> 1995 / 100000 * open_rate" using assms(1) by simp
  then have "flt (max_rate - open_rate) / open_rate \<le> 1995 / 100000" using assms(1) by (simp add: pos_divide_le_eq)
  then have "flt (flt (max_rate - open_rate) / open_rate) \<le> flt (1995 / 100000)" by (rule flt.mono)
  with below_activation show ?thesis by (rule order.strict_trans1[rotated])
qed

section \<open>The stop of a trade\<close>

text \<open>What the trade's stop is for the tag of an approved size.\<close>

lemma custom_stoploss_of_size:
  assumes "compute_sizing eq fr price a c config = Inr z" "0 < price"
    and "4 / 10 ^ 27 < min_stop_loss_pct config" "min_stop_loss_pct config \<le> max_stop_loss_pct config"
      "max_stop_loss_pct config \<le> 8 / 100"
    and "tr_enter_tag trade = map_option TagSlpct (entry_stop_distance signal (Some (sz_stop_loss_price z)))"
      "sig_price signal = price" "0 < tr_open_rate trade"
  obtains stop where
    "custom_stoploss sfa trade rate = Inr (sfa stop rate)"
    "tr_open_rate trade * (1 - sz_stop_distance_pct z) - tr_open_rate trade / 2 ^ 51 \<le> stop"
    "tr_max_rate trade \<le> tr_open_rate trade \<Longrightarrow>
       stop \<le> tr_open_rate trade * (1 - sz_stop_distance_pct z) + tr_open_rate trade / 2 ^ 51"
    "tr_open_rate trade * (103 / 100) \<le> tr_max_rate trade \<Longrightarrow>
       flt (tr_max_rate trade * flt (1 - trailing_distance_pct)) \<le> stop"
proof -
  let ?d = "sz_stop_distance_pct z" and ?o = "tr_open_rate trade" and ?m = "tr_max_rate trade"
  from assms(1) obtain st where st: "stop_distance a price config = Inr st" "?d = st"
    "sz_stop_loss_price z = dec (price * dec (1 - st))" by (rule compute_sizing_InrE)
  have d: "min_stop_loss_pct config \<le> ?d" "?d \<le> max_stop_loss_pct config"
    using st clamp_bounds[OF assms(4)] by (simp_all add: stop_distance_Inr)
  let ?t = "dec (1 - dec (sz_stop_loss_price z / price))"
  have tag: "tr_enter_tag trade = Some (TagSlpct ?t)"
    using assms(2,6,7) by (simp add: entry_stop_distance_def)
  have t: "\<bar>?t - ?d\<bar> \<le> 4 / 10 ^ 27"
    unfolding st(2,3) using tag_distance_close[OF assms(2), of st] d assms(3,5) st(2) by simp
  have "0 < ?t" using abs_le_D2[OF t] d assms(3) by linarith
  note close = tagged_rate_close[OF assms(8) _ _ t this]
  let ?r = "flt (?o * flt (1 - flt ?t))"
  let ?peak = "flt (flt (?m - ?o) / ?o)"
  have rate: "tagged_stop_rate trade = Some ?r"
    using tag close(1) d assms(3,5) by (simp add: tagged_stop_rate_def Let_def)
  have near: "\<bar>?r - ?o * (1 - ?d)\<bar> \<le> ?o / 2 ^ 51" using close(2) d assms(3,5) by simp
  let ?stop = "trailed_stop_rate trade ?r ?peak"
  show thesis
  proof (rule that[of ?stop])
    show "custom_stoploss sfa trade rate = Inr (sfa ?stop rate)"
      using rate assms(8) by (simp add: custom_stoploss_def)
    show "?o * (1 - ?d) - ?o / 2 ^ 51 \<le> ?stop"
      using abs_le_D2[OF near] trailed_at_least[of ?r trade ?peak] by linarith
    show "flt (?m * flt (1 - trailing_distance_pct)) \<le> ?stop" if "?o * (103 / 100) \<le> ?m"
      using peak_activates[of ?o ?m] assms(8) that by (simp add: trailed_stop_rate_def)
    show "?stop \<le> ?o * (1 - ?d) + ?o / 2 ^ 51" if "?m \<le> ?o"
    proof -
      have "flt (?m - ?o) / ?o \<le> 0" using that assms(8) by (simp add: divide_le_0_iff)
      then have "?peak \<le> 0" by (rule flt.nonpos)
      moreover have "0 < trailing_activation_pct" by (simp add: trailing_activation_pct_def)
      ultimately have "\<not> trailing_activation_pct \<le> ?peak" by linarith
      then have "?stop = ?r" by (simp only: trailed_stop_rate_def if_False)
      with abs_le_D1[OF near] show ?thesis by linarith
    qed
  qed
qed

text \<open>
  C22. The stop the risk engine sized with is the stop the strategy enforces: whenever the engine asks for
  an entry, under a stop band inside (4e-27, 8%], the request carries a tag for which
  \<open>custom_stoploss\<close> never falls back to the static stop.  For a trade filled at any rate, it hands Freqtrade a
  rate that is the fill rate less the computed distance to within 2^-51 of it, never looser than that, and
  once the peak is three percent above the fill at least the trailing rate behind the peak.
\<close>

theorem stop_reaches_strategy:
  assumes "process_signal ex config ok sid now w = (res, w')"
    and "entries_sent (w_ft w') \<noteq> entries_sent (w_ft w)"
    and "\<forall>s \<in> set (db_signals (w_db w)). 0 < sig_price s"
    and "4 / 10 ^ 27 < min_stop_loss_pct config" "min_stop_loss_pct config \<le> max_stop_loss_pct config"
      "max_stop_loss_pct config \<le> 8 / 100"
  shows "\<exists>signal (balance :: AccountBalanceSnapshot) z tag.
    get_signal (w_db w) sid = Some signal \<and>
    compute_sizing (bal_equity_usdt balance) (bal_free_balance_usdt balance) (sig_price signal)
      (sig_atr_14 signal) (sig_confidence signal) config = Inr z \<and>
    FT_forceenter (sig_symbol signal) (flt (sz_position_size_usdt z)) (Some tag) \<in> set (w_ft w') \<and>
    (\<forall>trade sfa rate. tr_enter_tag trade = Some tag \<and> 0 < tr_open_rate trade \<longrightarrow>
       (\<exists>stop. custom_stoploss sfa trade rate = Inr (sfa stop rate) \<and>
          tr_open_rate trade * (1 - sz_stop_distance_pct z) - tr_open_rate trade / 2 ^ 51 \<le> stop \<and>
          (tr_max_rate trade \<le> tr_open_rate trade \<longrightarrow>
             stop \<le> tr_open_rate trade * (1 - sz_stop_distance_pct z) + tr_open_rate trade / 2 ^ 51) \<and>
          (tr_open_rate trade * (103 / 100) \<le> tr_max_rate trade \<longrightarrow>
             flt (tr_max_rate trade * flt (1 - trailing_distance_pct)) \<le> stop)))"
proof -
  from assms(1,2) obtain signal balance where
    sg: "get_signal (w_db w) sid = Some signal" and
    ap: "rdr_approved (signal_entry_result config balance signal False now (w_db w))" and
    ft: "\<exists>ks. w_ft w' = w_ft w @ [FT_balance] @
           entry_requests signal (signal_entry_result config balance signal False now (w_db w)) @ ks
         \<and> entries_sent ks = 0"
    by (rule process_signal_entry)
  obtain z where z: "compute_sizing (bal_equity_usdt balance) (bal_free_balance_usdt balance)
      (sig_price signal) (sig_atr_14 signal) (sig_confidence signal) config = Inr z"
    "rdr_position_size_usdt (signal_entry_result config balance signal False now (w_db w)) = Some (sz_position_size_usdt z)"
    "rdr_stop_loss_price (signal_entry_result config balance signal False now (w_db w)) = Some (sz_stop_loss_price z)"
    by (rule entry_result_gates[OF refl ap])
  have price: "0 < sig_price signal"
    using assms(3) sg by (auto simp: get_signal_def find_Some_iff)
  then obtain tag where tag: "map_option TagSlpct (entry_stop_distance signal (Some (sz_stop_loss_price z))) = Some tag"
    by (simp add: entry_stop_distance_def)
  have "FT_forceenter (sig_symbol signal) (flt (sz_position_size_usdt z)) (Some tag) \<in> set (w_ft w')"
    using ft ap z(2,3) tag by (auto simp: entry_requests_def)
  moreover have "\<exists>stop. custom_stoploss sfa trade rate = Inr (sfa stop rate) \<and>
          tr_open_rate trade * (1 - sz_stop_distance_pct z) - tr_open_rate trade / 2 ^ 51 \<le> stop \<and>
          (tr_max_rate trade \<le> tr_open_rate trade \<longrightarrow>
             stop \<le> tr_open_rate trade * (1 - sz_stop_distance_pct z) + tr_open_rate trade / 2 ^ 51) \<and>
          (tr_open_rate trade * (103 / 100) \<le> tr_max_rate trade \<longrightarrow>
             flt (tr_max_rate trade * flt (1 - trailing_distance_pct)) \<le> stop)"
    if "tr_enter_tag trade = Some tag" "0 < tr_open_rate trade" for trade sfa rate
    using custom_stoploss_of_size[OF z(1) price assms(4-6) that(1)[folded tag] refl that(2), of sfa rate] by metis
  ultimately show ?thesis using sg z(1) by blast
qed

theorem stop_reaches_strategy_witness:
  "\<exists>pair stake tag stop. FT_forceenter pair stake (Some tag)
       \<in> set (w_ft (snd (process_signal sample_externals RiskConfig_defaults True 7 (minutes 1010) sample_world))) \<and>
     custom_stoploss (\<lambda>stop rate. stop) \<lparr>tr_enter_tag = Some tag, tr_open_rate = 100, tr_max_rate = 100\<rparr> 100
       = Inr stop \<and> 91 \<le> stop \<and> stop \<le> 100"
proof -
  obtain res w' where run: "process_signal sample_externals RiskConfig_defaults True 7 (minutes 1010) sample_world
      = (res, w')" by fastforce
  have "entries_sent (w_ft sample_world) = 0" by (simp add: sample_world_def Let_def)
  then have sent: "entries_sent (w_ft w') \<noteq> entries_sent (w_ft sample_world)"
    using sample_process[OF run] by simp
  have price: "\<forall>s \<in> set (db_signals (w_db sample_world)). 0 < sig_price s"
    by (simp add: sample_world_def Let_def sample_row_def)
  have band: "4 / 10 ^ 27 < min_stop_loss_pct RiskConfig_defaults"
    "min_stop_loss_pct RiskConfig_defaults \<le> max_stop_loss_pct RiskConfig_defaults"
    "max_stop_loss_pct RiskConfig_defaults \<le> 8 / 100"
    by (simp_all add: RiskConfig_defaults_def)
  from stop_reaches_strategy[OF run sent price band] obtain signal :: signal_row and z :: SizingResult and tag and balance :: AccountBalanceSnapshot where
    w: "compute_sizing (bal_equity_usdt balance) (bal_free_balance_usdt balance) (sig_price signal)
      (sig_atr_14 signal) (sig_confidence signal) RiskConfig_defaults = Inr z"
      "FT_forceenter (sig_symbol signal) (flt (sz_position_size_usdt z)) (Some tag) \<in> set (w_ft w')" and
    all: "\<forall>trade sfa rate. tr_enter_tag trade = Some tag \<and> 0 < tr_open_rate trade \<longrightarrow>
       (\<exists>stop. custom_stoploss sfa trade rate = Inr (sfa stop rate) \<and>
          tr_open_rate trade * (1 - sz_stop_distance_pct z) - tr_open_rate trade / 2 ^ 51 \<le> stop \<and>
          (tr_max_rate trade \<le> tr_open_rate trade \<longrightarrow>
             stop \<le> tr_open_rate trade * (1 - sz_stop_distance_pct z) + tr_open_rate trade / 2 ^ 51) \<and>
          (tr_open_rate trade * (103 / 100) \<le> tr_max_rate trade \<longrightarrow>
             flt (tr_max_rate trade * flt (1 - trailing_distance_pct)) \<le> stop))" by blast
  have "min_stop_loss_pct RiskConfig_defaults \<le> sz_stop_distance_pct z \<and>
      sz_stop_distance_pct z \<le> max_stop_loss_pct RiskConfig_defaults"
    using w(1) band(2) by (auto elim!: compute_sizing_InrE simp: stop_distance_Inr clamp_bounds)
  then have d: "1 / 1000 \<le> sz_stop_distance_pct z" "sz_stop_distance_pct z \<le> 8 / 100"
    by (simp_all add: RiskConfig_defaults_def)
  from all[rule_format, of "\<lparr>tr_enter_tag = Some tag, tr_open_rate = 100, tr_max_rate = 100\<rparr>" "\<lambda>stop rate. stop" 100]
  obtain stop where "custom_stoploss (\<lambda>stop rate. stop)
      \<lparr>tr_enter_tag = Some tag, tr_open_rate = 100, tr_max_rate = 100\<rparr> 100 = Inr stop"
    "100 * (1 - sz_stop_distance_pct z) - 100 / 2 ^ 51 \<le> stop"
    "stop \<le> 100 * (1 - sz_stop_distance_pct z) + 100 / 2 ^ 51" by auto
  moreover from this d have "91 \<le> stop" "stop \<le> 100" by simp_all
  ultimately show ?thesis using w(2) run by auto
qed

end
