(* ===== verification/Backtest_Ledger.thy ===== *)
theory Backtest_Ledger
  imports Scheduler Strategy "HOL-Library.AList"
begin

text \<open>
  \<open>scripts/backtest/ledger.py\<close>: the in-memory account the offline replays trade on, with the same
  \<open>evaluate\<close> and \<open>evaluate_exit\<close> as the risk engine and a mirror of the strategy's own exits.  A Python
  dict is an association list: a new key goes to the end, an old one keeps its place.
\<close>

section \<open>Data\<close>

definition STATIC_STOPLOSS_PCT :: rat where
  "STATIC_STOPLOSS_PCT = - (8 / 100)"

definition MINIMAL_ROI :: "(int \<times> rat) list" where
  "MINIMAL_ROI =
     [(0, 6 / 100), (240, 3 / 100), (720, 2 / 100), (1440, 15 / 1000), (2880, 1 / 100), (5760, 5 / 1000)]"

definition TRAILING_ACTIVATION_PCT :: rat where
  "TRAILING_ACTIVATION_PCT = 2 / 100"

definition TRAILING_DISTANCE_PCT :: rat where
  "TRAILING_DISTANCE_PCT = 15 / 1000"

record SimPosition =
  sp_symbol :: string
  sp_entry_time :: datetime
  sp_entry_price :: rat
  sp_size_usdt :: rat
  sp_size_base :: rat
  sp_stop_loss_price :: rat
  sp_peak_price :: rat
  sp_actual_risk_usdt :: "rat option"

record ClosedTrade =
  ct_symbol :: string
  ct_entry_time :: datetime
  ct_exit_time :: datetime
  ct_entry_price :: rat
  ct_exit_price :: rat
  ct_size_usdt :: rat
  ct_pnl_usdt :: rat
  ct_pnl_pct :: rat
  ct_exit_reason :: string
  ct_r_multiple :: "rat option"

record Ledger =
  lg_starting_equity_usdt :: rat
  lg_fee_pct :: rat
  lg_slippage_pct :: rat
  lg_compounding :: bool
  lg_ignore_killswitch :: bool
  lg_positions :: "(string \<times> SimPosition) list"
  lg_closed_trades :: "ClosedTrade list"
  lg_consecutive_losses :: nat
  lg_last_loss_closed_at :: "datetime option"
  lg_symbol_last_closed_at :: "string \<rightharpoonup> datetime"
  lg_killswitch_tripped :: bool
  lg_realized_pnl_usdt :: rat

definition fresh_ledger :: "rat \<Rightarrow> rat \<Rightarrow> rat \<Rightarrow> bool \<Rightarrow> bool \<Rightarrow> Ledger" where
  "fresh_ledger starting fee slippage compounding ignore =
     \<lparr>lg_starting_equity_usdt = starting, lg_fee_pct = fee, lg_slippage_pct = slippage,
      lg_compounding = compounding, lg_ignore_killswitch = ignore, lg_positions = [],
      lg_closed_trades = [], lg_consecutive_losses = 0, lg_last_loss_closed_at = None,
      lg_symbol_last_closed_at = Map.empty, lg_killswitch_tripped = False, lg_realized_pnl_usdt = 0\<rparr>"

section \<open>Derived figures\<close>

definition lg_equity_usdt :: "Ledger \<Rightarrow> rat" where
  "lg_equity_usdt L =
     (if lg_compounding L then dec (lg_starting_equity_usdt L + lg_realized_pnl_usdt L)
      else lg_starting_equity_usdt L)"

definition lg_total_exposure_usdt :: "Ledger \<Rightarrow> rat" where
  "lg_total_exposure_usdt L = dec_sum (map (sp_size_usdt \<circ> snd) (lg_positions L))"

definition lg_free_balance_usdt :: "Ledger \<Rightarrow> rat" where
  "lg_free_balance_usdt L = max (dec (lg_equity_usdt L - lg_total_exposure_usdt L)) 0"

definition lg_daily_pnl_pct :: "datetime \<Rightarrow> Ledger \<Rightarrow> rat" where
  "lg_daily_pnl_pct now L =
     (let today = date_of now;
          daily = dec_sum (map ct_pnl_usdt (filter (\<lambda>t. date_of (ct_exit_time t) = today) (lg_closed_trades L)));
          equity = lg_equity_usdt L
      in if equity > 0 then dec (daily / equity) else 0)"

definition lg_account_state :: "datetime \<Rightarrow> Ledger \<Rightarrow> AccountState" where
  "lg_account_state now L =
     \<lparr>ac_equity_usdt = lg_equity_usdt L, ac_free_balance_usdt = lg_free_balance_usdt L,
      ac_open_position_symbols = fst ` set (lg_positions L),
      ac_total_exposure_usdt = lg_total_exposure_usdt L, ac_daily_pnl_pct = lg_daily_pnl_pct now L,
      ac_consecutive_losses = lg_consecutive_losses L, ac_last_loss_closed_at = lg_last_loss_closed_at L,
      ac_symbol_last_closed_at = lg_symbol_last_closed_at L\<rparr>"

section \<open>Closing\<close>

definition closed_trade :: "Ledger \<Rightarrow> SimPosition \<Rightarrow> datetime \<Rightarrow> rat \<Rightarrow> string \<Rightarrow> ClosedTrade" where
  "closed_trade L position exit_time exit_price reason =
     (let proceeds = dec (dec (sp_size_base position * exit_price) *
                          dec (dec (1 - lg_fee_pct L) - lg_slippage_pct L));
          pnl_usdt = dec (proceeds - sp_size_usdt position)
      in \<lparr>ct_symbol = sp_symbol position, ct_entry_time = sp_entry_time position, ct_exit_time = exit_time,
          ct_entry_price = sp_entry_price position, ct_exit_price = exit_price,
          ct_size_usdt = sp_size_usdt position, ct_pnl_usdt = pnl_usdt,
          ct_pnl_pct = (if sp_size_usdt position > 0 then dec (pnl_usdt / sp_size_usdt position) else 0),
          ct_exit_reason = reason,
          ct_r_multiple = (case sp_actual_risk_usdt position of
             None \<Rightarrow> None | Some risk \<Rightarrow> if risk > 0 then Some (dec (pnl_usdt / risk)) else None)\<rparr>)"

definition record_close ::
    "SimPosition \<Rightarrow> datetime \<Rightarrow> rat \<Rightarrow> string \<Rightarrow> Ledger \<Rightarrow> ClosedTrade \<times> Ledger" where
  "record_close position exit_time exit_price reason L =
     (let trade = closed_trade L position exit_time exit_price reason; pnl_usdt = ct_pnl_usdt trade
      in (trade,
          L\<lparr>lg_closed_trades := lg_closed_trades L @ [trade],
            lg_realized_pnl_usdt := dec (lg_realized_pnl_usdt L + pnl_usdt),
            lg_symbol_last_closed_at := (lg_symbol_last_closed_at L)(sp_symbol position \<mapsto> exit_time),
            lg_consecutive_losses := (if pnl_usdt < 0 then lg_consecutive_losses L + 1 else 0),
            lg_last_loss_closed_at := (if pnl_usdt < 0 then Some exit_time else lg_last_loss_closed_at L),
            lg_positions := AList.delete (sp_symbol position) (lg_positions L)\<rparr>))"

section \<open>The exits Freqtrade makes by itself\<close>

definition effective_stop :: "SimPosition \<Rightarrow> rat \<Rightarrow> rat \<times> string" where
  "effective_stop position peak_profit_pct =
     (let stop_price = max (sp_stop_loss_price position)
                           (dec (sp_entry_price position * dec (1 + STATIC_STOPLOSS_PCT)));
          trailing_price = dec (sp_peak_price position * dec (1 - TRAILING_DISTANCE_PCT))
      in if peak_profit_pct \<ge> TRAILING_ACTIVATION_PCT \<and> trailing_price > stop_price
         then (trailing_price, ''trailing_stop'')
         else (stop_price, ''atr_stoploss''))"

definition elapsed_minutes :: "datetime \<Rightarrow> datetime \<Rightarrow> rat" where
  "elapsed_minutes entry_time now = flt (total_seconds (now - entry_time) / 60)"

text \<open>The first mark, from the longest down, that the trade has reached.\<close>

definition roi_threshold :: "rat \<Rightarrow> rat option" where
  "roi_threshold elapsed =
     map_option snd (find (\<lambda>(mark, roi). elapsed \<ge> of_int mark) (rev (sort_key fst MINIMAL_ROI)))"

definition peak_profit_pct :: "SimPosition \<Rightarrow> py_error + rat" where
  "peak_profit_pct position =
     dec_div (dec (sp_peak_price position - sp_entry_price position)) (sp_entry_price position)"

text \<open>Where and why the position is closed by this candle, once the candle's high is in its peak.\<close>

definition static_exit_fill :: "SimPosition \<Rightarrow> ohlcv \<Rightarrow> datetime \<Rightarrow> py_error + (rat \<times> string) option" where
  "static_exit_fill position candle candle_close_time =
     (let low = dec_of_float (oc_l candle); high = dec_of_float (oc_h candle); open_p = dec_of_float (oc_o candle)
      in bind_res (peak_profit_pct position) (\<lambda>peak_profit.
         let (stop_price, exit_reason) = effective_stop position peak_profit
         in Inr (if low \<le> stop_price
                 then Some (if open_p < stop_price then min open_p stop_price else stop_price, exit_reason)
                 else (case roi_threshold (elapsed_minutes (sp_entry_time position) candle_close_time) of
                         None \<Rightarrow> None
                       | Some threshold \<Rightarrow>
                           let roi_price = dec (sp_entry_price position * dec (1 + threshold))
                           in if high \<ge> roi_price
                              then Some (if open_p > roi_price then max open_p roi_price else roi_price,
                                         ''minimal_roi'')
                              else None))))"

definition mark_peak :: "ohlcv \<Rightarrow> SimPosition \<Rightarrow> SimPosition" where
  "mark_peak candle position =
     position\<lparr>sp_peak_price := max (sp_peak_price position) (dec_of_float (oc_h candle))\<rparr>"

definition check_static_exit ::
    "string \<Rightarrow> ohlcv \<Rightarrow> datetime \<Rightarrow> Ledger \<Rightarrow> (py_error + ClosedTrade option) \<times> Ledger" where
  "check_static_exit symbol candle candle_close_time L =
     (case map_of (lg_positions L) symbol of
        None \<Rightarrow> (Inr None, L)
      | Some position \<Rightarrow>
          let position = mark_peak candle position;
              L = L\<lparr>lg_positions := AList.update symbol position (lg_positions L)\<rparr>
          in case static_exit_fill position candle candle_close_time of
               Inl e \<Rightarrow> (Inl e, L)
             | Inr None \<Rightarrow> (Inr None, L)
             | Inr (Some (fill, reason)) \<Rightarrow>
                 let (trade, L) = record_close position candle_close_time fill reason L
                 in (Inr (Some trade), L))"

section \<open>Signals\<close>

definition NO_EXPECTANCY :: ExpectancyView where
  "NO_EXPECTANCY = \<lparr>ev_setup_key = ''(backtest)'', ev_sample_size = 0, ev_expectancy_r = None\<rparr>"

definition sim_position ::
    "string \<Rightarrow> RiskDecisionResult \<Rightarrow> datetime \<Rightarrow> rat \<Rightarrow> Ledger \<Rightarrow> SimPosition" where
  "sim_position symbol r now fill_price L =
     (let effective_price = dec (fill_price * dec (dec (1 + lg_fee_pct L) + lg_slippage_pct L));
          size_usdt = the (rdr_position_size_usdt r)
      in \<lparr>sp_symbol = symbol, sp_entry_time = now, sp_entry_price = fill_price, sp_size_usdt = size_usdt,
          sp_size_base = (if effective_price > 0 then dec (size_usdt / effective_price) else 0),
          sp_stop_loss_price = the (rdr_stop_loss_price r), sp_peak_price = fill_price,
          sp_actual_risk_usdt = rdr_actual_risk_usdt r\<rparr>)"

definition apply_entry ::
    "string \<Rightarrow> SignalView \<Rightarrow> RiskConfig \<Rightarrow> datetime \<Rightarrow> rat \<Rightarrow> Ledger
     \<Rightarrow> (py_error + (RiskDecisionResult \<times> SimPosition option)) \<times> Ledger" where
  "apply_entry symbol view config now fill_price L =
     (case evaluate view (lg_account_state now L) config now
             (lg_killswitch_tripped L \<and> \<not> lg_ignore_killswitch L) False NO_EXPECTANCY of
        Inl e \<Rightarrow> (Inl e, L)
      | Inr r \<Rightarrow>
          let L = (if rdr_auto_trip_killswitch r
                   then L\<lparr>lg_killswitch_tripped := True,
                          lg_consecutive_losses :=
                            (if lg_ignore_killswitch L then 0 else lg_consecutive_losses L)\<rparr>
                   else L)
          in if \<not> rdr_approved r then (Inr (r, None), L)
             else
               let position = sim_position symbol r now fill_price L
               in (Inr (r, Some position), L\<lparr>lg_positions := AList.update symbol position (lg_positions L)\<rparr>))"

definition apply_exit_signal ::
    "string \<Rightarrow> SignalView \<Rightarrow> RiskConfig \<Rightarrow> datetime \<Rightarrow> rat \<Rightarrow> Ledger
     \<Rightarrow> (py_error + (ExitDecisionResult \<times> ClosedTrade option)) \<times> Ledger" where
  "apply_exit_signal symbol view config now fill_price L =
     (let r = evaluate_exit view (lg_account_state now L) config now False
      in if \<not> xdr_approved r then (Inr (r, None), L)
         else (case map_of (lg_positions L) symbol of
                 None \<Rightarrow> (Inl KeyError, L)
               | Some position \<Rightarrow>
                   let (trade, L) = record_close position now fill_price ''llm_sell_signal'' L
                   in (Inr (r, Some trade), L)))"

section \<open>The counters of the ledger\<close>

text \<open>Every counter is a function of the list of closed trades.\<close>

definition loss :: "ClosedTrade \<Rightarrow> bool" where
  "loss t \<longleftrightarrow> ct_pnl_usdt t < 0"

definition counters_ok :: "Ledger \<Rightarrow> bool" where
  "counters_ok L \<longleftrightarrow>
     lg_realized_pnl_usdt L = dec_sum (map ct_pnl_usdt (lg_closed_trades L)) \<and>
     lg_symbol_last_closed_at L = map_of (map (\<lambda>t. (ct_symbol t, ct_exit_time t)) (rev (lg_closed_trades L))) \<and>
     lg_last_loss_closed_at L = map_option ct_exit_time (find loss (rev (lg_closed_trades L))) \<and>
     lg_consecutive_losses L \<le> length (takeWhile loss (rev (lg_closed_trades L))) \<and>
     (\<not> lg_ignore_killswitch L \<longrightarrow>
        lg_consecutive_losses L = length (takeWhile loss (rev (lg_closed_trades L))))"

definition positions_ok :: "RiskConfig \<Rightarrow> Ledger \<Rightarrow> bool" where
  "positions_ok config L \<longleftrightarrow>
     distinct (map fst (lg_positions L)) \<and>
     (\<forall>(k, p) \<in> set (lg_positions L). k = sp_symbol p \<and> sp_entry_price p \<le> sp_peak_price p) \<and>
     int (length (lg_positions L)) \<le> max 0 (max_open_positions config)"

lemma dec_sum_snoc [simp]: "dec_sum (xs @ [x]) = dec (dec_sum xs + x)"
  by (simp add: dec_sum_def)

lemma counters_record_close:
  "counters_ok L \<Longrightarrow> counters_ok (snd (record_close p t x r L))"
  by (auto simp: counters_ok_def record_close_def Let_def loss_def closed_trade_def)

lemma map_fst_delete: "map fst (AList.delete k xs) = filter (\<lambda>x. x \<noteq> k) (map fst xs)"
  by (induction xs) (auto simp: AList.delete_eq)

lemma length_delete_le: "length (AList.delete k xs) \<le> length xs"
  by (simp add: AList.delete_eq)

lemma positions_record_close:
  assumes "positions_ok config L"
  shows "positions_ok config (snd (record_close p t x r L))"
proof -
  have "set (AList.delete (sp_symbol p) (lg_positions L)) \<subseteq> set (lg_positions L)"
    by (auto simp: AList.delete_eq)
  with assms length_delete_le[of "sp_symbol p" "lg_positions L"] show ?thesis
    by (auto simp: positions_ok_def record_close_def Let_def map_fst_delete)
qed

lemma set_update:
  "distinct (map fst xs) \<Longrightarrow> set (AList.update k v xs) = insert (k, v) {x \<in> set xs. fst x \<noteq> k}"
  by (induction xs) (auto simp: image_iff)

lemma length_update: "length (AList.update k v xs) = (if k \<in> fst ` set xs then length xs else length xs + 1)"
  by (induction xs) auto

lemma positions_update:
  assumes "positions_ok config L" "sp_symbol p = k" "sp_entry_price p \<le> sp_peak_price p"
    and "k \<notin> fst ` set (lg_positions L) \<Longrightarrow> int (length (lg_positions L)) < max_open_positions config"
  shows "positions_ok config (L\<lparr>lg_positions := AList.update k p (lg_positions L)\<rparr>)"
proof -
  have "distinct (map fst (AList.update k p (lg_positions L)))"
    using assms(1) by (simp add: positions_ok_def AList.distinct_update)
  with assms show ?thesis
    by (auto simp: positions_ok_def set_update length_update)
qed

lemma account_symbols [simp]: "ac_open_position_symbols (lg_account_state now L) = fst ` set (lg_positions L)"
  by (simp add: lg_account_state_def)

lemma apply_entry_ok:
  assumes "counters_ok L" "positions_ok config L" "sv_symbol v = symbol"
  shows "counters_ok (snd (apply_entry symbol v config now x L)) \<and>
    positions_ok config (snd (apply_entry symbol v config now x L))"
proof (cases "evaluate v (lg_account_state now L) config now (lg_killswitch_tripped L \<and> \<not> lg_ignore_killswitch L)
    False NO_EXPECTANCY")
  case (Inl e)
  with assms show ?thesis by (simp add: apply_entry_def)
next
  case (Inr r)
  define M where "M = (if rdr_auto_trip_killswitch r
     then L\<lparr>lg_killswitch_tripped := True,
            lg_consecutive_losses := (if lg_ignore_killswitch L then 0 else lg_consecutive_losses L)\<rparr> else L)"
  have M: "counters_ok M" "positions_ok config M" "lg_positions M = lg_positions L"
    using assms by (auto simp: M_def counters_ok_def positions_ok_def)
  show ?thesis
  proof (cases "rdr_approved r")
    case False
    with Inr M show ?thesis by (simp add: apply_entry_def Let_def flip: M_def)
  next
    case True
    let ?p = "sim_position symbol r now x M"
    have step: "snd (apply_entry symbol v config now x L) = M\<lparr>lg_positions := AList.update symbol ?p (lg_positions M)\<rparr>"
      using Inr True by (simp add: apply_entry_def Let_def flip: M_def)
    obtain z where z: "r = decision_of (context_of v (lg_account_state now L) config now
        (lg_killswitch_tripped L \<and> \<not> lg_ignore_killswitch L) False NO_EXPECTANCY z)"
      using evaluate_InrD[OF Inr] by blast
    have "symbol \<notin> fst ` set (lg_positions L) \<and> int (card (fst ` set (lg_positions L))) < max_open_positions config"
      using True assms(3) unfolding z decision_of_approved gate_conditions Let_def by simp
    moreover have "card (fst ` set (lg_positions L)) = length (lg_positions L)"
      using assms(2) by (metis positions_ok_def distinct_card length_map list.set_map)
    ultimately have "positions_ok config (snd (apply_entry symbol v config now x L))"
      unfolding step using M by (intro positions_update) (simp_all add: sim_position_def Let_def)
    moreover have "counters_ok (snd (apply_entry symbol v config now x L))"
      unfolding step using M(1) by (simp add: counters_ok_def)
    ultimately show ?thesis by simp
  qed
qed

lemma mark_peak_sel [simp]:
  "sp_symbol (mark_peak c p) = sp_symbol p" "sp_entry_price (mark_peak c p) = sp_entry_price p"
  "sp_entry_time (mark_peak c p) = sp_entry_time p" "sp_stop_loss_price (mark_peak c p) = sp_stop_loss_price p"
  "sp_peak_price (mark_peak c p) = max (sp_peak_price p) (dec_of_float (oc_h c))"
  by (simp_all add: mark_peak_def)

lemma check_static_exit_cases:
  assumes "check_static_exit symbol candle t L = (res, L')"
  obtains (no_position) "map_of (lg_positions L) symbol = None" "res = Inr None" "L' = L"
  | (marked) p where "map_of (lg_positions L) symbol = Some p"
      "L' = L\<lparr>lg_positions := AList.update symbol (mark_peak candle p) (lg_positions L)\<rparr>"
      "res = (case static_exit_fill (mark_peak candle p) candle t of Inl e \<Rightarrow> Inl e | Inr _ \<Rightarrow> Inr None)"
      "\<And>x. static_exit_fill (mark_peak candle p) candle t \<noteq> Inr (Some x)"
  | (exited) p fill reason trade where "map_of (lg_positions L) symbol = Some p"
      "static_exit_fill (mark_peak candle p) candle t = Inr (Some (fill, reason))" "res = Inr (Some trade)"
      "record_close (mark_peak candle p) t fill reason
         (L\<lparr>lg_positions := AList.update symbol (mark_peak candle p) (lg_positions L)\<rparr>) = (trade, L')"
proof (cases "map_of (lg_positions L) symbol")
  case None
  with assms have "res = Inr None" "L' = L" by (simp_all add: check_static_exit_def)
  with None show thesis by (rule that(1))
next
  case p: (Some p)
  define q where "q = mark_peak candle p"
  define M where "M = L\<lparr>lg_positions := AList.update symbol q (lg_positions L)\<rparr>"
  have run: "(case static_exit_fill q candle t of Inl e \<Rightarrow> (Inl e, M) | Inr None \<Rightarrow> (Inr None, M)
      | Inr (Some (fill, reason)) \<Rightarrow> let (trade, L) = record_close q t fill reason M in (Inr (Some trade), L)) = (res, L')"
    using assms unfolding check_static_exit_def Let_def p option.case q_def M_def .
  consider (err) e where "static_exit_fill q candle t = Inl e" | (stay) "static_exit_fill q candle t = Inr None"
    | (fire) fill reason where "static_exit_fill q candle t = Inr (Some (fill, reason))"
    by (cases "static_exit_fill q candle t") (auto split: option.split, metis option.exhaust surj_pair)
  then show thesis
  proof cases
    case err
    show thesis
      by (rule that(2)[OF p]) (use run err in \<open>simp_all add: q_def[symmetric] M_def[symmetric]\<close>)
  next
    case stay
    show thesis
      by (rule that(2)[OF p]) (use run stay in \<open>simp_all add: q_def[symmetric] M_def[symmetric]\<close>)
  next
    case fire
    obtain trade L1 where c: "record_close q t fill reason M = (trade, L1)" by fastforce
    have r: "res = Inr (Some trade)" "L' = L1" using run fire c by simp_all
    show thesis
      by (rule that(3)[OF p fire[unfolded q_def] r(1)]) (use c r(2) in \<open>simp add: q_def M_def\<close>)
  qed
qed

lemma positions_okD:
  "positions_ok config L \<Longrightarrow> map_of (lg_positions L) symbol = Some p \<Longrightarrow>
     sp_symbol p = symbol \<and> sp_entry_price p \<le> sp_peak_price p \<and> symbol \<in> fst ` set (lg_positions L)"
  by (force simp: positions_ok_def dest: map_of_SomeD)

lemma mark_ok:
  fixes candle :: ohlcv
  assumes "counters_ok L" "positions_ok config L" "map_of (lg_positions L) symbol = Some p"
  defines "M \<equiv> L\<lparr>lg_positions := AList.update symbol (mark_peak candle p) (lg_positions L)\<rparr>"
  shows "counters_ok M" "positions_ok config M"
proof -
  show "counters_ok M" using assms(1) by (simp add: counters_ok_def M_def)
  show "positions_ok config M"
    unfolding M_def using positions_okD[OF assms(2,3)] by (intro positions_update assms(2)) auto
qed

lemma check_static_exit_ok:
  assumes "counters_ok L" "positions_ok config L" "check_static_exit symbol candle t L = (res, L')"
  shows "counters_ok L' \<and> positions_ok config L'"
  using assms(3)
proof (cases rule: check_static_exit_cases)
  case no_position
  with assms show ?thesis by simp
next
  case (marked p)
  with mark_ok[OF assms(1,2)] show ?thesis by simp
next
  case (exited p fill reason trade)
  from exited(4) have "L' = snd (record_close (mark_peak candle p) t fill reason
         (L\<lparr>lg_positions := AList.update symbol (mark_peak candle p) (lg_positions L)\<rparr>))" by simp
  with mark_ok[OF assms(1,2) exited(1)] show ?thesis
    by (simp add: counters_record_close positions_record_close)
qed

lemma apply_exit_signal_ok:
  assumes "counters_ok L" "positions_ok config L"
  shows "counters_ok (snd (apply_exit_signal symbol v cf now x L)) \<and>
    positions_ok config (snd (apply_exit_signal symbol v cf now x L))"
proof (cases "xdr_approved (evaluate_exit v (lg_account_state now L) cf now False)")
  case True
  show ?thesis
  proof (cases "map_of (lg_positions L) symbol")
    case (Some p)
    obtain trade L1 where c: "record_close p now x ''llm_sell_signal'' L = (trade, L1)" by fastforce
    with True Some have "snd (apply_exit_signal symbol v cf now x L) = snd (record_close p now x ''llm_sell_signal'' L)"
      by (simp add: apply_exit_signal_def Let_def)
    with assms show ?thesis by (simp add: counters_record_close positions_record_close)
  qed (use assms True in \<open>simp add: apply_exit_signal_def Let_def\<close>)
qed (use assms in \<open>simp add: apply_exit_signal_def Let_def\<close>)

section \<open>Runs of a ledger\<close>

inductive ledger_step :: "RiskConfig \<Rightarrow> Ledger \<Rightarrow> Ledger \<Rightarrow> bool" for config where
  static: "ledger_step config L (snd (check_static_exit symbol candle t L))"
| entry: "sv_symbol v = symbol \<Longrightarrow> ledger_step config L (snd (apply_entry symbol v config now x L))"
| exit_signal: "ledger_step config L (snd (apply_exit_signal symbol v config now x L))"

inductive ledger_run :: "RiskConfig \<Rightarrow> Ledger \<Rightarrow> Ledger \<Rightarrow> bool" for config where
  start: "ledger_run config L L"
| step: "ledger_run config L L1 \<Longrightarrow> ledger_step config L1 L2 \<Longrightarrow> ledger_run config L L2"

lemma ledger_step_ok:
  assumes "ledger_step config L L'" "counters_ok L" "positions_ok config L"
  shows "counters_ok L' \<and> positions_ok config L'"
  using assms(1)
proof cases
  case (static symbol candle t)
  show ?thesis unfolding static by (rule check_static_exit_ok[OF assms(2,3) surjective_pairing])
next
  case (entry v symbol now x)
  show ?thesis unfolding entry(1) by (rule apply_entry_ok[OF assms(2,3) entry(2)])
next
  case (exit_signal symbol v now x)
  show ?thesis unfolding exit_signal by (rule apply_exit_signal_ok[OF assms(2,3)])
qed

lemma fresh_ledger_ok: "counters_ok (fresh_ledger s f sl c i) \<and> positions_ok config (fresh_ledger s f sl c i)"
  by (simp add: counters_ok_def positions_ok_def fresh_ledger_def)

lemma ledger_run_ok:
  "ledger_run config L L' \<Longrightarrow> counters_ok L \<Longrightarrow> positions_ok config L \<Longrightarrow> counters_ok L' \<and> positions_ok config L'"
  by (induction rule: ledger_run.induct) (simp_all add: ledger_step_ok)

section \<open>Fills and stops\<close>

lemma effective_stop_fst:
  "fst (effective_stop p peak) =
     (let stop = max (sp_stop_loss_price p) (dec (sp_entry_price p * dec (1 + STATIC_STOPLOSS_PCT)))
      in if TRAILING_ACTIVATION_PCT \<le> peak
         then max stop (dec (sp_peak_price p * dec (1 - TRAILING_DISTANCE_PCT))) else stop)"
  by (simp add: effective_stop_def Let_def max_def)

text \<open>The price of a simulated exit is one the candle traded at.\<close>

lemma static_exit_fill_between:
  assumes "static_exit_fill p candle t = Inr (Some (fill, reason))"
    and "dec_of_float (oc_l candle) \<le> dec_of_float (oc_o candle)" "dec_of_float (oc_o candle) \<le> dec_of_float (oc_h candle)"
  shows "dec_of_float (oc_l candle) \<le> fill \<and> fill \<le> dec_of_float (oc_h candle) \<and>
    reason \<in> {''atr_stoploss'', ''trailing_stop'', ''minimal_roi''}"
  using assms
  by (auto simp: static_exit_fill_def Let_def effective_stop_def split: if_splits option.splits)

lemma peak_profit_mono:
  assumes "0 < sp_entry_price p" "peak_profit_pct p = Inr a" "peak_profit_pct (mark_peak candle p) = Inr b"
  shows "a \<le> b"
proof -
  have "dec (sp_peak_price p - sp_entry_price p) \<le> dec (sp_peak_price (mark_peak candle p) - sp_entry_price p)"
    by (intro dec.mono) simp
  then show ?thesis
    using assms by (auto simp: peak_profit_pct_def dest!: dec_div_InrD intro!: dec.mono divide_right_mono)
qed

lemma effective_stop_ratchet:
  assumes "0 < sp_entry_price p" "peak_profit_pct p = Inr a" "peak_profit_pct (mark_peak candle p) = Inr b"
  shows "fst (effective_stop p a) \<le> fst (effective_stop (mark_peak candle p) b)"
proof -
  have nn: "0 \<le> dec (1 - TRAILING_DISTANCE_PCT)" by (simp add: TRAILING_DISTANCE_PCT_def)
  have "dec (sp_peak_price p * dec (1 - TRAILING_DISTANCE_PCT))
      \<le> dec (sp_peak_price (mark_peak candle p) * dec (1 - TRAILING_DISTANCE_PCT))"
    by (intro dec.mono mult_right_mono nn) simp
  with peak_profit_mono[OF assms] show ?thesis by (auto simp: effective_stop_fst Let_def max_def)
qed

lemma static_exit_fill_defined:
  assumes "sp_entry_price p \<noteq> 0"
  shows "\<exists>peak x. peak_profit_pct p = Inr peak \<and> static_exit_fill p candle t = Inr x \<and>
    (x = None \<longrightarrow> fst (effective_stop p peak) < dec_of_float (oc_l candle))"
proof -
  obtain peak where peak: "peak_profit_pct p = Inr peak" using assms by (simp add: peak_profit_pct_def)
  obtain stop why where st: "effective_stop p peak = (stop, why)" by fastforce
  obtain x where x: "static_exit_fill p candle t = Inr x" by (simp add: static_exit_fill_def Let_def peak st)
  have "fst (effective_stop p peak) < dec_of_float (oc_l candle)" if "x = None"
    using x that by (auto simp: static_exit_fill_def Let_def peak st split: if_splits)
  with peak x show ?thesis by blast
qed

text \<open>
  C24. The offline account keeps its books: in any run of static exits, entries and exit signals from a
  fresh ledger, the realized result is the running sum of the closed trades, the last close of every
  symbol and the last loss are those of the trade list, the loss streak is that of the list unless the
  kill switch is ignored (and never longer), every position is held once under its own symbol with a peak
  not below its entry, and no more positions are held than the risk configuration allows.
\<close>

theorem replay_ledger_invariant:
  assumes "ledger_run config (fresh_ledger starting fee slippage compounding ignore) L"
  shows "lg_realized_pnl_usdt L = dec_sum (map ct_pnl_usdt (lg_closed_trades L)) \<and>
     lg_symbol_last_closed_at L = map_of (map (\<lambda>t. (ct_symbol t, ct_exit_time t)) (rev (lg_closed_trades L))) \<and>
     lg_last_loss_closed_at L =
       map_option ct_exit_time (find (\<lambda>t. ct_pnl_usdt t < 0) (rev (lg_closed_trades L))) \<and>
     lg_consecutive_losses L \<le> length (takeWhile (\<lambda>t. ct_pnl_usdt t < 0) (rev (lg_closed_trades L))) \<and>
     (\<not> lg_ignore_killswitch L \<longrightarrow>
        lg_consecutive_losses L = length (takeWhile (\<lambda>t. ct_pnl_usdt t < 0) (rev (lg_closed_trades L)))) \<and>
     distinct (map fst (lg_positions L)) \<and>
     (\<forall>(k, p) \<in> set (lg_positions L). k = sp_symbol p \<and> sp_entry_price p \<le> sp_peak_price p) \<and>
     int (length (lg_positions L)) \<le> max 0 (max_open_positions config)"
proof -
  have "loss = (\<lambda>t. ct_pnl_usdt t < 0)" by (simp add: loss_def fun_eq_iff)
  with ledger_run_ok[OF assms] fresh_ledger_ok[of starting fee slippage compounding ignore config]
  show ?thesis by (simp add: counters_ok_def positions_ok_def)
qed

definition sample_view :: SignalView where
  "sample_view = \<lparr>sv_id = SyntheticId ''BTC/USDT'' 0, sv_symbol = ''BTC/USDT'', sv_action = BUY,
     sv_confidence = 1, sv_candle_ts = 0, sv_price = 100, sv_atr_14 = 1, sv_setup_regime = None,
     sv_trade_score = None\<rparr>"

definition falling_candle :: ohlcv where
  "falling_candle = \<lparr>oc_t = 0, oc_o = 95, oc_h = 96, oc_l = 90, oc_c = 91, oc_v = 1\<rparr>"

text \<open>An entry at 100 and the candle after it.\<close>

definition sample_replay :: Ledger where
  "sample_replay = snd (check_static_exit ''BTC/USDT'' falling_candle (minutes 60)
     (snd (apply_entry ''BTC/USDT'' sample_view RiskConfig_defaults 0 100
        (fresh_ledger 10000 (1 / 1000) 0 False False))))"

text \<open>The entry is approved with this size, and the candle after it stops it out with a loss.\<close>

definition sample_entry_size :: SizingResult where
  "sample_entry_size =
     \<lparr>sz_position_size_usdt = 500,
      sz_position_size_base = 5,
      sz_stop_loss_price = 98, sz_stop_distance_pct = 1 / 50, sz_risk_pct_applied = 1 / 100,
      sz_nominal_risk_amount_usdt = 100,
      sz_actual_risk_usdt = 10\<rparr>"

lemma sample_entry:
  "\<exists>p. snd (apply_entry ''BTC/USDT'' sample_view RiskConfig_defaults 0 100 (fresh_ledger 10000 (1 / 1000) 0 False False))
      = (fresh_ledger 10000 (1 / 1000) 0 False False)\<lparr>lg_positions := [(''BTC/USDT'', p)]\<rparr> \<and>
    sp_symbol p = ''BTC/USDT'' \<and> sp_entry_price p = 100 \<and> sp_peak_price p = 100 \<and> sp_stop_loss_price p = 98 \<and>
    sp_size_usdt p = 500 \<and> sp_size_base p = dec (500 / dec (100 * dec (dec (1 + 1 / 1000) + 0)))"
proof -
  define L where "L = fresh_ledger 10000 (1 / 1000) 0 False False"
  have L: "lg_positions L = []" "lg_killswitch_tripped L = False" "lg_fee_pct L = 1 / 1000" "lg_slippage_pct L = 0"
    by (simp_all add: L_def fresh_ledger_def)
  define a where "a = lg_account_state 0 L"
  have dz: "dec 10000 = 10000" "dec 0 = 0" "dec (100 * dec (dec (1 + 1 / 1000) + 0)) > 0" by code_simp+
  have acc: "ac_equity_usdt a = 10000" "ac_free_balance_usdt a = 10000" "ac_open_position_symbols a = {}"
    "ac_total_exposure_usdt a = 0" "ac_daily_pnl_pct a = 0" "ac_consecutive_losses a = 0"
    "ac_symbol_last_closed_at a = Map.empty"
    by (simp_all add: a_def L_def lg_account_state_def fresh_ledger_def lg_equity_usdt_def lg_free_balance_usdt_def
        lg_total_exposure_usdt_def lg_daily_pnl_pct_def dec_sum_def dz Let_def)
  have sz: "compute_sizing (ac_equity_usdt a) (ac_free_balance_usdt a) (sv_price sample_view)
      (sv_atr_14 sample_view) (sv_confidence sample_view) RiskConfig_defaults = Inr sample_entry_size"
    unfolding acc by code_simp
  let ?ctx = "context_of sample_view a RiskConfig_defaults 0 False False NO_EXPECTANCY sample_entry_size"
  have "dec (0 + sz_position_size_usdt sample_entry_size) \<le> dec (max_total_exposure_pct RiskConfig_defaults * 10000)"
    "dec (- max_daily_loss_pct RiskConfig_defaults) < 0" by code_simp+
  then have g: "\<forall>r \<in> set RULES_IN_ORDER. r ?ctx = None"
    unfolding gate_conditions Let_def
    by (simp add: acc) (simp add: sample_view_def RiskConfig_defaults_def sample_entry_size_def minutes_def)
  obtain r where ev: "evaluate sample_view a RiskConfig_defaults 0 False False NO_EXPECTANCY = Inr r"
    and r: "rdr_approved r" "\<not> rdr_auto_trip_killswitch r" "rdr_position_size_usdt r = Some 500"
      "rdr_stop_loss_price r = Some 98"
    using sz g by (simp add: evaluate_def decision_of_None first_violation_None approved_result_def sample_entry_size_def)
  have "snd (apply_entry ''BTC/USDT'' sample_view RiskConfig_defaults 0 100 L)
      = L\<lparr>lg_positions := [(''BTC/USDT'', sim_position ''BTC/USDT'' r 0 100 L)]\<rparr>"
    using ev r(1,2) by (simp add: apply_entry_def Let_def L a_def)
  then show ?thesis
    unfolding L_def[symmetric] using r dz(3)
    by (intro exI[of _ "sim_position ''BTC/USDT'' r 0 100 L"]) (simp add: sim_position_def Let_def L)
qed

lemma sample_replay_closed:
  "\<exists>t. lg_closed_trades sample_replay = [t] \<and> ct_symbol t = ''BTC/USDT'' \<and> ct_exit_time t = minutes 60 \<and>
     ct_pnl_usdt t < 0 \<and> \<not> lg_ignore_killswitch sample_replay"
proof -
  let ?L = "fresh_ledger 10000 (1 / 1000) 0 False False"
  obtain p where p: "snd (apply_entry ''BTC/USDT'' sample_view RiskConfig_defaults 0 100 ?L)
      = ?L\<lparr>lg_positions := [(''BTC/USDT'', p)]\<rparr>" "sp_symbol p = ''BTC/USDT''" "sp_entry_price p = 100"
    "sp_peak_price p = 100" "sp_stop_loss_price p = 98" "sp_size_usdt p = 500"
    "sp_size_base p = dec (500 / dec (100 * dec (dec (1 + 1 / 1000) + 0)))"
    using sample_entry by blast
  have c: "dec_of_float (oc_l falling_candle) = 90" "dec_of_float (oc_o falling_candle) = 95"
    "dec_of_float (oc_h falling_candle) = 96" by code_simp+
  have x: "dec (100 * dec (1 + STATIC_STOPLOSS_PCT)) \<le> 98" "dec_div (dec (100 - 100)) 100 = Inr 0"
    "\<not> TRAILING_ACTIVATION_PCT \<le> 0" by code_simp+
  have pnl: "dec (dec (dec (dec (500 / dec (100 * dec (dec (1 + 1 / 1000) + 0))) * 95) * dec (dec (1 - 1 / 1000) - 0)) - 500) < 0"
    by code_simp
  have "static_exit_fill (mark_peak falling_candle p) falling_candle (minutes 60) = Inr (Some (95, ''atr_stoploss''))"
    using x by (simp add: static_exit_fill_def Let_def c p peak_profit_pct_def effective_stop_def max_def)
  then show ?thesis
    unfolding sample_replay_def p(1)
    using pnl by (simp add: check_static_exit_def p record_close_def closed_trade_def Let_def fresh_ledger_def
        mark_peak_def)
qed
theorem replay_ledger_invariant_witness:
  "\<exists>t. lg_closed_trades sample_replay = [t] \<and> ct_pnl_usdt t < 0 \<and>
     lg_realized_pnl_usdt sample_replay = dec_sum [ct_pnl_usdt t] \<and>
     lg_consecutive_losses sample_replay = 1 \<and> lg_last_loss_closed_at sample_replay = Some (minutes 60) \<and>
     lg_symbol_last_closed_at sample_replay = [''BTC/USDT'' \<mapsto> minutes 60] \<and>
     length (lg_positions sample_replay) \<le> 2"
proof -
  have "sv_symbol sample_view = ''BTC/USDT''" by (simp add: sample_view_def)
  from ledger_run.step[OF ledger_run.step[OF ledger_run.start ledger_step.entry[OF this]] ledger_step.static]
  have "ledger_run RiskConfig_defaults (fresh_ledger 10000 (1 / 1000) 0 False False) sample_replay"
    unfolding sample_replay_def .
  note inv = replay_ledger_invariant[OF this]
  obtain t where t: "lg_closed_trades sample_replay = [t]" "ct_symbol t = ''BTC/USDT''"
    "ct_exit_time t = minutes 60" "ct_pnl_usdt t < 0" "\<not> lg_ignore_killswitch sample_replay"
    using sample_replay_closed by blast
  have "max_open_positions RiskConfig_defaults = 2" by (simp add: RiskConfig_defaults_def)
  with inv t show ?thesis by simp
qed

text \<open>
  The simulated exits of Freqtrade are sound: for a position with a non-zero entry and an ordinary
  candle the check always answers; either the position stays, with a stop that only tightens and that
  the candle's low has not touched, or it is closed by exactly one new trade at a price between the low
  and the high of the candle, for one of the three reasons.
\<close>

theorem static_exit_sound:
  assumes "positions_ok config L" "map_of (lg_positions L) symbol = Some p" "0 < sp_entry_price p"
    and "dec_of_float (oc_l candle) \<le> dec_of_float (oc_o candle)" "dec_of_float (oc_o candle) \<le> dec_of_float (oc_h candle)"
    and "check_static_exit symbol candle t L = (res, L')"
  shows "(res = Inr None \<and> lg_closed_trades L' = lg_closed_trades L \<and>
      map_of (lg_positions L') symbol = Some (mark_peak candle p) \<and>
      (\<exists>a b. peak_profit_pct p = Inr a \<and> peak_profit_pct (mark_peak candle p) = Inr b \<and>
         fst (effective_stop p a) \<le> fst (effective_stop (mark_peak candle p) b) \<and>
         fst (effective_stop (mark_peak candle p) b) < dec_of_float (oc_l candle))) \<or>
    (\<exists>trade. res = Inr (Some trade) \<and> lg_closed_trades L' = lg_closed_trades L @ [trade] \<and>
      map_of (lg_positions L') symbol = None \<and> ct_symbol trade = symbol \<and>
      ct_entry_price trade = sp_entry_price p \<and> ct_exit_time trade = t \<and>
      dec_of_float (oc_l candle) \<le> ct_exit_price trade \<and> ct_exit_price trade \<le> dec_of_float (oc_h candle) \<and>
      ct_exit_reason trade \<in> {''atr_stoploss'', ''trailing_stop'', ''minimal_roi''})"
proof -
  have nz: "sp_entry_price (mark_peak candle p) \<noteq> 0" using assms(3) by simp
  obtain a where a: "peak_profit_pct p = Inr a" using assms(3) by (simp add: peak_profit_pct_def)
  obtain b x where b: "peak_profit_pct (mark_peak candle p) = Inr b"
    "static_exit_fill (mark_peak candle p) candle t = Inr x"
    "x = None \<longrightarrow> fst (effective_stop (mark_peak candle p) b) < dec_of_float (oc_l candle)"
    using static_exit_fill_defined[OF nz, of candle t] by blast
  from assms(6) show ?thesis
  proof (cases rule: check_static_exit_cases)
    case no_position
    with assms(2) show ?thesis by simp
  next
    case (marked q)
    then have "q = p" "x = None" using assms(2) b(2) by (auto, cases x, auto)
    with marked b a effective_stop_ratchet[OF assms(3) a b(1)] show ?thesis
      by (intro disjI1) (simp add: AList.update_conv)
  next
    case (exited q fill reason trade)
    then have q: "q = p" using assms(2) by simp
    have trade: "trade = closed_trade (L\<lparr>lg_positions := AList.update symbol (mark_peak candle p) (lg_positions L)\<rparr>)
        (mark_peak candle p) t fill reason" "lg_closed_trades L' = lg_closed_trades L @ [trade]"
      "lg_positions L' = AList.delete (sp_symbol p) (AList.update symbol (mark_peak candle p) (lg_positions L))"
      using exited(4) q by (auto simp: record_close_def Let_def)
    with exited(3) static_exit_fill_between[OF exited(2) assms(4,5)] positions_okD[OF assms(1,2)] show ?thesis
      by (intro disjI2 exI[of _ trade]) (simp add: closed_trade_def Let_def AList.delete_conv')
  qed
qed

text \<open>A position entered at 100 with its stop at 98.\<close>

definition held_position :: SimPosition where
  "held_position = \<lparr>sp_symbol = ''BTC/USDT'', sp_entry_time = 0, sp_entry_price = 100, sp_size_usdt = 500,
     sp_size_base = 5, sp_stop_loss_price = 98, sp_peak_price = 100, sp_actual_risk_usdt = Some 10\<rparr>"

definition held_ledger :: Ledger where
  "held_ledger = (fresh_ledger 10000 (1 / 1000) 0 False False)\<lparr>lg_positions := [(''BTC/USDT'', held_position)]\<rparr>"

lemma stop_at_least: "sp_stop_loss_price p \<le> fst (effective_stop p peak)"
  by (auto simp: effective_stop_fst Let_def le_max_iff_disj)

theorem static_exit_sound_witness:
  "\<exists>trade. lg_closed_trades (snd (check_static_exit ''BTC/USDT'' falling_candle (minutes 60) held_ledger)) = [trade] \<and>
     90 \<le> ct_exit_price trade \<and> ct_exit_price trade \<le> 96"
proof -
  have ok: "positions_ok RiskConfig_defaults held_ledger"
    by (simp add: positions_ok_def held_ledger_def held_position_def RiskConfig_defaults_def)
  have p: "map_of (lg_positions held_ledger) ''BTC/USDT'' = Some held_position" "0 < sp_entry_price held_position"
    by (simp_all add: held_ledger_def held_position_def)
  have c: "dec_of_float (oc_l falling_candle) = 90" "dec_of_float (oc_o falling_candle) = 95"
    "dec_of_float (oc_h falling_candle) = 96" by code_simp+
  obtain res L' where run: "check_static_exit ''BTC/USDT'' falling_candle (minutes 60) held_ledger = (res, L')" by fastforce
  have "\<not> fst (effective_stop (mark_peak falling_candle held_position) b) < 90" for b
    using stop_at_least[of "mark_peak falling_candle held_position" b] by (simp add: held_position_def)
  moreover have "lg_closed_trades held_ledger = []" by (simp add: held_ledger_def fresh_ledger_def)
  ultimately show ?thesis
    using static_exit_sound[OF ok p _ _ run] c run by auto
qed

section \<open>The mirror of the strategy\<close>

lemma dec_mult_near:
  assumes "0 \<le> x" "0 \<le> c" "c \<le> 1"
  shows "\<bar>dec (x * dec c) - x * c\<bar> \<le> x / 10 ^ 27"
proof -
  define e where "e = (1 :: rat) / (2 * 10 ^ 27)"
  have u: "0 \<le> dec c" "dec c \<le> 1" "\<bar>dec c - c\<bar> \<le> e"
    using dec.unit[OF assms(2,3)] dec_near[of c] assms by (simp_all add: e_def)
  have "\<bar>dec (x * dec c) - x * dec c\<bar> \<le> e * (x * dec c)"
    using dec.error[of "x * dec c"] assms(1) u(1) by (simp add: e_def)
  also have "\<dots> \<le> e * (x * 1)" using assms(1) u by (intro mult_left_mono) (simp_all add: e_def)
  finally have "\<bar>dec (x * dec c) - x * dec c\<bar> \<le> x * e" by (simp add: mult.commute)
  moreover have "\<bar>x * dec c - x * c\<bar> \<le> x * e"
    using mult_left_mono[OF u(3) assms(1)] assms(1) by (simp add: abs_mult flip: right_diff_distrib)
  ultimately have "\<bar>dec (x * dec c) - x * c\<bar> \<le> x * e + x * e" by linarith
  also have "\<dots> = x / 10 ^ 27" by (simp add: e_def)
  finally show ?thesis .
qed

lemma trailing_rate_near:
  assumes "0 \<le> m"
  shows "\<bar>dec (m * dec (1 - TRAILING_DISTANCE_PCT)) - flt (m * flt (1 - trailing_distance_pct))\<bar> \<le> m / 2 ^ 51"
proof -
  define f where "f = (1 :: rat) / 2 ^ 53"
  have small: "(1 :: rat) / 10 ^ 27 \<le> f" "0 < f" by (simp_all add: f_def)
  let ?c = "985 / 1000 :: rat"
  have bt: "\<bar>dec (m * dec (1 - TRAILING_DISTANCE_PCT)) - m * ?c\<bar> \<le> m / 10 ^ 27"
    using dec_mult_near[OF assms, of ?c] by (simp add: TRAILING_DISTANCE_PCT_def)
  have t: "\<bar>trailing_distance_pct - 15 / 1000\<bar> \<le> f" "0 \<le> trailing_distance_pct" "trailing_distance_pct \<le> 1"
    using flt_near[of "15 / 1000"] flt.unit[of "15 / 1000"] by (simp_all add: trailing_distance_pct_def f_def)
  define y where "y = flt (1 - trailing_distance_pct)"
  have y: "0 \<le> y" "y \<le> 1" "\<bar>y - (1 - trailing_distance_pct)\<bar> \<le> f"
    using flt.unit[of "1 - trailing_distance_pct"] flt_near[of "1 - trailing_distance_pct"] t
    by (simp_all add: y_def f_def)
  have "\<bar>flt (m * y) - m * y\<bar> \<le> f * (m * y)"
    using flt.error[of "m * y"] assms y(1) by (simp add: f_def)
  also have "\<dots> \<le> f * (m * 1)" using assms y small by (intro mult_left_mono) auto
  finally have r: "\<bar>flt (m * y) - m * y\<bar> \<le> m * f" by (simp add: mult.commute)
  have "\<bar>y - ?c\<bar> \<le> 2 * f" using y(3) t(1) by linarith
  then have "m * \<bar>y - ?c\<bar> \<le> m * (2 * f)" using assms by (intro mult_left_mono) auto
  moreover have "m * \<bar>y - ?c\<bar> = \<bar>m * (y - ?c)\<bar>" using assms by (simp only: abs_mult abs_of_nonneg)
  ultimately have "\<bar>m * y - m * ?c\<bar> \<le> m * (2 * f)" by (simp only: right_diff_distrib)
  moreover have "m / 10 ^ 27 \<le> m * f" using mult_left_mono[OF small(1) assms] by simp
  ultimately have "\<bar>dec (m * dec (1 - TRAILING_DISTANCE_PCT)) - flt (m * y)\<bar> \<le> 4 * (m * f)"
    using bt r by linarith
  also have "4 * (m * f) = m / 2 ^ 51" by (simp add: f_def)
  finally show ?thesis unfolding y_def .
qed

text \<open>The offline activation decides like the strategy's outside a thin band around two percent.\<close>

lemma offline_peak:
  assumes "0 < e"
  shows "e * (10201 / 10000) \<le> m \<Longrightarrow> TRAILING_ACTIVATION_PCT \<le> dec (dec (m - e) / e)"
    and "m \<le> e * (10199 / 10000) \<Longrightarrow> dec (dec (m - e) / e) < TRAILING_ACTIVATION_PCT"
proof -
  assume a: "e * (10201 / 10000) \<le> m"
  have "201 / 10000 * e * (1 - 1 / (2 * 10 ^ 27)) \<le> (m - e) * (1 - 1 / (2 * 10 ^ 27))"
    using a by (intro mult_right_mono) simp_all
  also have "\<dots> \<le> dec (m - e)" using a assms by (intro dec.lower) simp
  finally have "2 / 100 * e \<le> dec (m - e)" using assms by simp
  then have "2 / 100 \<le> dec (m - e) / e" using assms by (simp add: pos_le_divide_eq)
  moreover have "dec (2 / 100) = 2 / 100" by code_simp
  ultimately show "TRAILING_ACTIVATION_PCT \<le> dec (dec (m - e) / e)"
    unfolding TRAILING_ACTIVATION_PCT_def by (rule dec.ge_fix)
next
  assume a: "m \<le> e * (10199 / 10000)"
  have "dec (m - e) \<le> dec (199 / 10000 * e)" using a by (intro dec.mono) simp
  also have "\<dots> \<le> 199 / 10000 * e * (1 + 1 / (2 * 10 ^ 27))" using assms by (intro dec.upper) simp
  finally have "dec (m - e) \<le> 1995 / 100000 * e" using assms by simp
  then have "dec (m - e) / e \<le> 1995 / 100000" using assms by (simp add: pos_divide_le_eq)
  then have "dec (dec (m - e) / e) \<le> dec (1995 / 100000)" by (rule dec.mono)
  moreover have "dec (1995 / 100000) = 1995 / 100000" by code_simp
  ultimately show "dec (dec (m - e) / e) < TRAILING_ACTIVATION_PCT" unfolding TRAILING_ACTIVATION_PCT_def by simp
qed

lemma max_near: "\<bar>a - c\<bar> \<le> x \<Longrightarrow> \<bar>b - d\<bar> \<le> x \<Longrightarrow> \<bar>max a b - max c d\<bar> \<le> (x :: rat)"
  by (simp add: max_def abs_le_iff)

text \<open>
  C23. The offline mirror agrees with the live strategy: the two take-profit tables and the static stop are
  the same numbers, and for a position whose stop was computed from its own fill price, with a distance
  in (4e-27, 8%], and a peak outside the band of 0.01% around the two percent activation, the stop the replay checks
  and the stop rate the strategy returns for the corresponding tag differ by at most 2^-50 of the peak.
\<close>

theorem offline_stop_mirrors_strategy:
  assumes "0 < sp_entry_price p" "sp_entry_price p \<le> sp_peak_price p"
    and "4 / 10 ^ 27 < d" "d \<le> 8 / 100" "\<bar>tag - d\<bar> \<le> 4 / 10 ^ 27"
    and "sp_stop_loss_price p = dec (sp_entry_price p * dec (1 - d))"
    and "sp_peak_price p \<le> sp_entry_price p * (10199 / 10000) \<or> sp_entry_price p * (10201 / 10000) \<le> sp_peak_price p"
    and "trade = \<lparr>tr_enter_tag = Some (TagSlpct tag), tr_open_rate = sp_entry_price p, tr_max_rate = sp_peak_price p\<rparr>"
  shows "MINIMAL_ROI = strategy_minimal_roi \<and> flt STATIC_STOPLOSS_PCT = strategy_stoploss \<and>
    (\<exists>peak stop. peak_profit_pct p = Inr peak \<and> custom_stoploss sfa trade rate = Inr (sfa stop rate) \<and>
       \<bar>fst (effective_stop p peak) - stop\<bar> \<le> sp_peak_price p / 2 ^ 50)"
proof -
  let ?e = "sp_entry_price p" and ?m = "sp_peak_price p"
  have m: "0 \<le> ?m" using assms(1,2) by simp
  have tag: "0 < tag" using abs_le_D2[OF assms(5)] assms(3) by linarith
  note close = tagged_rate_close[OF assms(1) _ assms(4,5) tag]
  let ?r = "flt (?e * flt (1 - flt tag))"
  define peak where "peak = dec (dec (?m - ?e) / ?e)"
  define live where "live = flt (flt (?m - ?e) / ?e)"
  define stop where "stop = trailed_stop_rate trade ?r live"
  have peak: "peak_profit_pct p = Inr peak" using assms(1) by (simp add: peak_profit_pct_def peak_def)
  have run: "custom_stoploss sfa trade rate = Inr (sfa stop rate)"
    using close(1) assms(1,3) by (simp add: custom_stoploss_def tagged_stop_rate_def assms(8) Let_def stop_def live_def)
  have floor: "dec (?e * dec (1 + STATIC_STOPLOSS_PCT)) \<le> dec (?e * dec (1 - d))"
    using assms(1,4) by (intro dec.mono mult_left_mono) (simp_all add: STATIC_STOPLOSS_PCT_def)
  have base: "\<bar>max (sp_stop_loss_price p) (dec (?e * dec (1 + STATIC_STOPLOSS_PCT))) - ?r\<bar> \<le> ?m / 2 ^ 50"
  proof -
    have "\<bar>dec (?e * dec (1 - d)) - ?e * (1 - d)\<bar> \<le> ?e / 10 ^ 27"
      using dec_mult_near[of ?e "1 - d"] assms(1,3,4) by simp
    moreover have "\<bar>?r - ?e * (1 - d)\<bar> \<le> ?e / 2 ^ 51" using close(2) assms(3) by simp
    moreover have "?e / 10 ^ 27 \<le> ?m / 2 ^ 51"
      using assms(1,2) by (intro frac_le) simp_all
    moreover have "?e / 2 ^ 51 \<le> ?m / 2 ^ 51" using assms(2) by (intro divide_right_mono) simp_all
    moreover have "?m / 2 ^ 51 + ?m / 2 ^ 51 = ?m / 2 ^ 50" by simp
    ultimately have "\<bar>dec (?e * dec (1 - d)) - ?r\<bar> \<le> ?m / 2 ^ 50" by linarith
    with floor assms(6) show ?thesis by (simp add: max_absorb1)
  qed
  have trail: "\<bar>dec (?m * dec (1 - TRAILING_DISTANCE_PCT)) - flt (?m * flt (1 - trailing_distance_pct))\<bar> \<le> ?m / 2 ^ 50"
  proof -
    have "?m / 2 ^ 51 \<le> ?m / 2 ^ 50" using m by simp
    with trailing_rate_near[OF m] show ?thesis by linarith
  qed
  have "\<bar>fst (effective_stop p peak) - stop\<bar> \<le> ?m / 2 ^ 50"
    using assms(7)
  proof
    assume low: "?m \<le> ?e * (10199 / 10000)"
    have "peak < TRAILING_ACTIVATION_PCT" unfolding peak_def by (rule offline_peak(2)[OF assms(1) low])
    moreover have "live < trailing_activation_pct" unfolding live_def by (rule peak_inactive[OF assms(1) low])
    ultimately show ?thesis
      using base by (simp only: effective_stop_fst Let_def stop_def trailed_stop_rate_def not_le[symmetric] if_False)
  next
    assume high: "?e * (10201 / 10000) \<le> ?m"
    have "TRAILING_ACTIVATION_PCT \<le> peak" unfolding peak_def by (rule offline_peak(1)[OF assms(1) high])
    moreover have "trailing_activation_pct \<le> live" unfolding live_def by (rule peak_activates[OF assms(1) high])
    moreover have "tr_max_rate trade = ?m" by (simp add: assms(8))
    ultimately show ?thesis
      using max_near[OF base trail] by (simp only: effective_stop_fst Let_def stop_def trailed_stop_rate_def if_True)
  qed
  moreover have "MINIMAL_ROI = strategy_minimal_roi" by (simp add: MINIMAL_ROI_def strategy_minimal_roi_def)
  moreover have "flt STATIC_STOPLOSS_PCT = strategy_stoploss"
    by (simp add: STATIC_STOPLOSS_PCT_def strategy_stoploss_def)
  ultimately show ?thesis using peak run by blast
qed

theorem offline_stop_mirrors_strategy_witness:
  "\<exists>peak stop. peak_profit_pct (held_position\<lparr>sp_peak_price := 105\<rparr>) = Inr peak \<and>
     custom_stoploss (\<lambda>stop rate. stop) \<lparr>tr_enter_tag = Some (TagSlpct (2 / 100)), tr_open_rate = 100, tr_max_rate = 105\<rparr> 104
       = Inr stop \<and>
     \<bar>fst (effective_stop (held_position\<lparr>sp_peak_price := 105\<rparr>) peak) - stop\<bar> \<le> 105 / 2 ^ 50"
proof -
  let ?p = "held_position\<lparr>sp_peak_price := 105\<rparr>"
  have "sp_stop_loss_price ?p = dec (sp_entry_price ?p * dec (1 - 2 / 100))" by code_simp
  from offline_stop_mirrors_strategy[of ?p "2 / 100" "2 / 100", OF _ _ _ _ _ this _ refl, of "\<lambda>stop rate. stop" 104]
  show ?thesis by (simp add: held_position_def)
qed

end
