(* ===== verification/Replay_Walk.thy ===== *)
theory Replay_Walk
  imports Backtest_Ledger "HOL-Library.List_Lexorder" "HOL-Library.Char_ord" "HOL-Library.Product_Lexorder"
    "HOL-Library.Sublist"
begin

text \<open>
  The walk over historical candles that \<open>scripts/backtest/replay.py\<close> and \<open>mechanical_replay.py\<close> share:
  the decision candles of every symbol, ordered by closing time and grouped, and what a walk can have
  seen of the histories at a given time.  A history is the dict of candle lists, a list of pairs with
  distinct symbols.
\<close>

section \<open>Decision candles\<close>

type_synonym candle_history = "(string \<times> ohlcv list) list"

type_synonym event = "int \<times> string \<times> int"

type_synonym event_group = "int \<times> (string \<times> int) list"

record walk_setup =
  wk_timeframe :: string
  wk_timeframe_ms :: int
  wk_lookback :: int
  wk_ohlcv_window :: int
  wk_pandas :: pandas
  wk_risk :: RiskConfig

text \<open>\<open>range(lookback - 1, n_candles - 1)\<close>\<close>

definition decision_indices :: "int \<Rightarrow> int \<Rightarrow> int list" where
  "decision_indices n_candles lookback = [lookback - 1 .. n_candles - 2]"

definition symbol_events :: "int \<Rightarrow> int \<Rightarrow> int \<Rightarrow> int \<Rightarrow> string \<Rightarrow> ohlcv list \<Rightarrow> event list" where
  "symbol_events timeframe_ms lookback start_ms end_ms symbol candles =
     filter (\<lambda>e. start_ms \<le> fst e \<and> fst e < end_ms)
       (map (\<lambda>i. (oc_t (candles ! nat i) + timeframe_ms, symbol, i))
          (decision_indices (int (length candles)) lookback))"

definition replay_events :: "int \<Rightarrow> int \<Rightarrow> int \<Rightarrow> int \<Rightarrow> candle_history \<Rightarrow> event list" where
  "replay_events timeframe_ms lookback start_ms end_ms candles_by_symbol =
     sort_key (\<lambda>e. (fst e, fst (snd e)))
       (concat (map (\<lambda>(symbol, candles). symbol_events timeframe_ms lookback start_ms end_ms symbol candles)
          candles_by_symbol))"

text \<open>\<open>itertools.groupby\<close> on the closing time.\<close>

fun group_events :: "event list \<Rightarrow> event_group list" where
  "group_events [] = []"
| "group_events ((t, e) # es) =
     (case group_events es of
        [] \<Rightarrow> [(t, [e])]
      | (t', g) # gs \<Rightarrow> if t' = t then (t, e # g) # gs else (t, [e]) # (t', g) # gs)"

text \<open>\<open>candles[i - lookback + 1 : i + 1]\<close>\<close>

definition replay_window :: "int \<Rightarrow> int \<Rightarrow> ohlcv list \<Rightarrow> ohlcv list" where
  "replay_window lookback i candles = drop (nat (i - lookback + 1)) (take (nat (i + 1)) candles)"

fun run_steps :: "('e \<Rightarrow> 's \<Rightarrow> py_error + 's) \<Rightarrow> 'e list \<Rightarrow> 's \<Rightarrow> py_error + 's" where
  "run_steps f [] s = Inr s"
| "run_steps f (e # es) s = bind_res (f e s) (run_steps f es)"

text \<open>The loop of \<open>run\<close>, over the groups of the events between the two dates.\<close>

definition walk_candles ::
    "(candle_history \<Rightarrow> event_group \<Rightarrow> 's \<Rightarrow> py_error + 's) \<Rightarrow> int \<Rightarrow> int \<Rightarrow> int \<Rightarrow> int \<Rightarrow> candle_history
     \<Rightarrow> 's \<Rightarrow> py_error + 's" where
  "walk_candles step timeframe_ms lookback start_ms end_ms candles_by_symbol s =
     run_steps (step candles_by_symbol)
       (group_events (replay_events timeframe_ms lookback start_ms end_ms candles_by_symbol)) s"

lemma run_steps_append: "run_steps f (xs @ ys) s = bind_res (run_steps f xs s) (run_steps f ys)"
  by (induction xs arbitrary: s) (auto split: bind_res_splits)

lemma run_steps_cong:
  "(\<And>e s. e \<in> set xs \<Longrightarrow> f e s = g e s) \<Longrightarrow> run_steps f xs s = run_steps g xs s"
  by (induction xs arbitrary: s) (auto split: bind_res_splits)

lemma run_steps_rel:
  assumes "\<And>e s s'. e \<in> set xs \<Longrightarrow> f e s = Inr s' \<Longrightarrow> le s s'" "\<And>s. le s s" "\<And>a b c. le a b \<Longrightarrow> le b c \<Longrightarrow> le a c"
    and "run_steps f xs s = Inr s'"
  shows "le s s'"
  using assms(1,4)
proof (induction xs arbitrary: s)
  case Nil
  then show ?case using assms(2) by simp
next
  case (Cons e es)
  from Cons.prems(2) obtain a where a: "f e s = Inr a" "run_steps f es a = Inr s'"
    by (auto split: bind_res_splits)
  have "le s a" by (rule Cons.prems(1)[OF _ a(1)]) simp
  moreover have "le a s'" by (rule Cons.IH[OF _ a(2)]) (rule Cons.prems(1), auto)
  ultimately show ?case by (rule assms(3))
qed

section \<open>The view of one decision\<close>

text \<open>The unrealised profit shown to the decision, against the entry price; absent without a position.\<close>

definition marked_position :: "rat \<Rightarrow> SimPosition option \<Rightarrow> py_error + PositionContext" where
  "marked_position close position =
     (case position of
        None \<Rightarrow> Inr \<lparr>pc_has_open_position = False, pc_unrealized_pnl_pct = None\<rparr>
      | Some p \<Rightarrow>
          bind_res (dec_div (dec (dec_of_float close - sp_entry_price p)) (sp_entry_price p)) (\<lambda>x.
            Inr \<lparr>pc_has_open_position = True, pc_unrealized_pnl_pct = Some (flt x)\<rparr>))"

text \<open>The \<open>SignalView\<close> built for the risk rules; \<open>Decimal(str(x))\<close> of the candle and the indicator.\<close>

definition replay_view :: "string \<Rightarrow> datetime \<Rightarrow> Action \<Rightarrow> rat \<Rightarrow> ohlcv \<Rightarrow> Indicators \<Rightarrow> SignalView" where
  "replay_view symbol now act confidence lt indicators =
     \<lparr>sv_id = SyntheticId symbol now, sv_symbol = symbol, sv_action = act, sv_confidence = confidence,
      sv_candle_ts = now, sv_price = dec_of_float (oc_c lt), sv_atr_14 = dec_of_float (in_atr_14 indicators),
      sv_setup_regime = None, sv_trade_score = None\<rparr>"

definition replay_request ::
    "('x) walk_setup_scheme \<Rightarrow> string \<Rightarrow> int \<Rightarrow> ohlcv list \<Rightarrow> Indicators \<Rightarrow> MarketSentiment option \<Rightarrow> PositionContext
     \<Rightarrow> AnalyzeRequest" where
  "replay_request su symbol close_ts window indicators sentiment position =
     \<lparr>rq_symbol = symbol, rq_timeframe = wk_timeframe su, rq_candle_close_time = isoformat_ms close_ts,
      rq_ohlcv = map wire_candle (slice_last (wk_ohlcv_window su) window), rq_indicators = indicators,
      rq_sentiment = sentiment, rq_position_context = position, rq_provider_override = None\<rparr>"

section \<open>What is known of a history before a time\<close>

text \<open>
  Before time \<open>T\<close> a candle is known once it has opened, with its range, close and volume only once it
  has closed.
\<close>

definition seen :: "int \<Rightarrow> int \<Rightarrow> ohlcv \<Rightarrow> ohlcv" where
  "seen timeframe_ms T c =
     (if oc_t c + timeframe_ms < T then c else c\<lparr>oc_h := 0, oc_l := 0, oc_c := 0, oc_v := 0\<rparr>)"

definition known_before :: "int \<Rightarrow> int \<Rightarrow> ohlcv list \<Rightarrow> ohlcv list" where
  "known_before timeframe_ms T candles = map (seen timeframe_ms T) (takeWhile (\<lambda>c. oc_t c < T) candles)"

definition spaced :: "int \<Rightarrow> ohlcv list \<Rightarrow> bool" where
  "spaced timeframe_ms = successively (\<lambda>a b. oc_t b = oc_t a + timeframe_ms)"

definition same_past :: "int \<Rightarrow> int \<Rightarrow> candle_history \<Rightarrow> candle_history \<Rightarrow> bool" where
  "same_past timeframe_ms T H H' \<longleftrightarrow>
     list_all2 (\<lambda>(s, cs) (s', cs'). s = s' \<and> spaced timeframe_ms cs \<and> spaced timeframe_ms cs' \<and>
       known_before timeframe_ms T cs = known_before timeframe_ms T cs') H H' \<and> distinct (map fst H)"

text \<open>The candles a decision at index \<open>i\<close> looks at, and the open price it fills at.\<close>

definition agree_at :: "candle_history \<Rightarrow> candle_history \<Rightarrow> string \<times> int \<Rightarrow> bool" where
  "agree_at H H' e \<longleftrightarrow>
     (\<exists>cs cs'. map_of H (fst e) = Some cs \<and> map_of H' (fst e) = Some cs' \<and>
        nat (snd e) + 1 < length cs \<and> nat (snd e) + 1 < length cs' \<and>
        take (nat (snd e) + 1) cs = take (nat (snd e) + 1) cs' \<and>
        oc_o (cs ! (nat (snd e) + 1)) = oc_o (cs' ! (nat (snd e) + 1)))"

lemma seen_fields [simp]: "oc_t (seen tf T c) = oc_t c" "oc_o (seen tf T c) = oc_o c"
  by (simp_all add: seen_def)

lemma spaced_nth:
  "spaced tf cs \<longleftrightarrow> (\<forall>k. Suc k < length cs \<longrightarrow> oc_t (cs ! Suc k) = oc_t (cs ! k) + tf)"
  by (auto simp: spaced_def successively_conv_nth)

lemma spaced_mono: "spaced tf cs \<Longrightarrow> 0 < tf \<Longrightarrow> i \<le> j \<Longrightarrow> j < length cs \<Longrightarrow> oc_t (cs ! i) \<le> oc_t (cs ! j)"
proof (induction j)
  case (Suc j)
  then show ?case by (cases "i = Suc j") (auto simp: spaced_nth le_Suc_eq)
qed simp

text \<open>The indices known before \<open>T\<close> are those below the length of the known part.\<close>

lemma known_index:
  assumes "spaced tf cs" "0 < tf"
  shows "k < length (takeWhile (\<lambda>c. oc_t c < T) cs) \<longleftrightarrow> k < length cs \<and> oc_t (cs ! k) < T"
proof
  assume k: "k < length (takeWhile (\<lambda>c. oc_t c < T) cs)"
  then have "takeWhile (\<lambda>c. oc_t c < T) cs ! k \<in> set (takeWhile (\<lambda>c. oc_t c < T) cs)" by simp
  then have "oc_t (cs ! k) < T" using k set_takeWhileD by (fastforce simp: takeWhile_nth)
  moreover have "k < length cs" using k length_takeWhile_le le_trans not_less by metis
  ultimately show "k < length cs \<and> oc_t (cs ! k) < T" by simp
next
  assume k: "k < length cs \<and> oc_t (cs ! k) < T"
  show "k < length (takeWhile (\<lambda>c. oc_t c < T) cs)"
  proof (rule ccontr)
    let ?n = "length (takeWhile (\<lambda>c. oc_t c < T) cs)"
    assume "\<not> k < ?n"
    then have "?n \<le> k" "?n < length cs" using k by auto
    then have "\<not> oc_t (cs ! ?n) < T" using nth_length_takeWhile by blast
    moreover have "oc_t (cs ! ?n) \<le> oc_t (cs ! k)" using spaced_mono[OF assms] \<open>?n \<le> k\<close> k by blast
    ultimately show False using k by simp
  qed
qed

lemma known_equal:
  assumes "known_before tf T cs = known_before tf T cs'"
  shows "length (takeWhile (\<lambda>c. oc_t c < T) cs) = length (takeWhile (\<lambda>c. oc_t c < T) cs')"
    and "k < length (takeWhile (\<lambda>c. oc_t c < T) cs) \<Longrightarrow> seen tf T (cs ! k) = seen tf T (cs' ! k)"
proof -
  show len: "length (takeWhile (\<lambda>c. oc_t c < T) cs) = length (takeWhile (\<lambda>c. oc_t c < T) cs')"
    using arg_cong[OF assms, of length] by (simp add: known_before_def)
  assume k: "k < length (takeWhile (\<lambda>c. oc_t c < T) cs)"
  then have "known_before tf T cs ! k = seen tf T (cs ! k)" by (simp add: known_before_def takeWhile_nth)
  moreover have "known_before tf T cs' ! k = seen tf T (cs' ! k)"
    using k len by (simp add: known_before_def takeWhile_nth)
  ultimately show "seen tf T (cs ! k) = seen tf T (cs' ! k)" using assms by simp
qed

section \<open>The events of two histories with the same past\<close>

lemma filter_upto: "filter (\<lambda>i. i \<le> c) [a..b] = [a..min b (c :: int)]"
proof (rule sorted_distinct_set_unique)
  show "sorted (filter (\<lambda>i. i \<le> c) [a..b])" by (simp add: sorted_filter[where f = "\<lambda>x. x", simplified])
qed auto

lemma symbol_events_known:
  assumes "spaced tf cs" "0 < tf" "1 \<le> lookback"
  shows "symbol_events tf lookback start T symbol cs =
     filter (\<lambda>e. start \<le> fst e) (map (\<lambda>i. (oc_t (cs ! nat i) + tf, symbol, i))
       [lookback - 1 .. int (length (takeWhile (\<lambda>c. oc_t c < T) cs)) - 2])"
proof -
  let ?n = "length (takeWhile (\<lambda>c. oc_t c < T) cs)"
  have last: "oc_t (cs ! nat i) + tf < T \<longleftrightarrow> i \<le> int ?n - 2" if "lookback - 1 \<le> i" "i \<le> int (length cs) - 2" for i
  proof -
    have i: "Suc (nat i) < length cs" "0 \<le> i" using that assms(3) by auto
    then have "oc_t (cs ! Suc (nat i)) = oc_t (cs ! nat i) + tf" using assms(1) by (simp add: spaced_nth)
    moreover have "Suc (nat i) < ?n \<longleftrightarrow> Suc (nat i) < length cs \<and> oc_t (cs ! Suc (nat i)) < T"
      by (rule known_index[OF assms(1,2)])
    moreover have "Suc (nat i) < ?n \<longleftrightarrow> i \<le> int ?n - 2" using i by auto
    ultimately show ?thesis using i by simp
  qed
  have "?n \<le> length cs" by (rule length_takeWhile_le)
  then have upto: "[lookback - 1 .. int ?n - 2] = filter (\<lambda>i. i \<le> int ?n - 2) [lookback - 1 .. int (length cs) - 2]"
    by (simp add: filter_upto min_absorb2)
  show ?thesis
    unfolding symbol_events_def decision_indices_def upto
    by (auto simp: filter_map comp_def last intro!: arg_cong[of _ _ "map _"] filter_cong)
qed

lemma symbol_events_same:
  assumes "spaced tf cs" "spaced tf cs'" "known_before tf T cs = known_before tf T cs'" "0 < tf" "1 \<le> lookback"
  shows "symbol_events tf lookback start T symbol cs = symbol_events tf lookback start T symbol cs'"
proof -
  note eq = known_equal[OF assms(3)]
  let ?n = "length (takeWhile (\<lambda>c. oc_t c < T) cs)"
  have "oc_t (cs ! nat i) = oc_t (cs' ! nat i)" if "i \<in> set [lookback - 1 .. int ?n - 2]" for i
  proof -
    have "nat i < ?n" using that assms(5) by auto
    from eq(2)[OF this] show ?thesis by (metis seen_fields(1))
  qed
  then have "map (\<lambda>i. (oc_t (cs ! nat i) + tf, symbol, i)) [lookback - 1 .. int ?n - 2] =
     map (\<lambda>i. (oc_t (cs' ! nat i) + tf, symbol, i)) [lookback - 1 .. int ?n - 2]" by (intro map_cong) auto
  then show ?thesis
    unfolding symbol_events_known[OF assms(1,4,5)] symbol_events_known[OF assms(2,4,5)] eq(1)[symmetric]
    by (rule arg_cong)
qed

lemma replay_events_same:
  assumes "same_past tf T H H'" "0 < tf" "1 \<le> lookback"
  shows "replay_events tf lookback start T H = replay_events tf lookback start T H'"
proof -
  have "list_all2 (\<lambda>(s, cs) (s', cs'). s = s' \<and> spaced tf cs \<and> spaced tf cs' \<and>
       known_before tf T cs = known_before tf T cs') H H'" using assms(1) by (simp add: same_past_def)
  then have "concat (map (\<lambda>(s, cs). symbol_events tf lookback start T s cs) H) =
    concat (map (\<lambda>(s, cs). symbol_events tf lookback start T s cs) H')"
    by induction (auto intro: symbol_events_same[OF _ _ _ assms(2,3)])
  then show ?thesis by (simp add: replay_events_def)
qed

lemma event_known:
  assumes "(t, s, i) \<in> set (replay_events tf lookback start T H)"
  obtains cs where "(s, cs) \<in> set H" "lookback - 1 \<le> i" "i \<le> int (length cs) - 2"
    "t = oc_t (cs ! nat i) + tf" "start \<le> t" "t < T"
  using assms by (auto simp: replay_events_def symbol_events_def decision_indices_def)

lemma same_past_lookup:
  assumes "same_past tf T H H'" "(s, cs) \<in> set H"
  obtains cs' where "map_of H s = Some cs" "map_of H' s = Some cs'" "spaced tf cs" "spaced tf cs'"
    "known_before tf T cs = known_before tf T cs'"
proof -
  from assms(1) have rel: "list_all2 (\<lambda>(s, cs) (s', cs'). s = s' \<and> spaced tf cs \<and> spaced tf cs' \<and>
       known_before tf T cs = known_before tf T cs') H H'" and d: "distinct (map fst H)"
    by (simp_all add: same_past_def)
  from rel assms(2) obtain cs' where cs': "(s, cs') \<in> set H'" "spaced tf cs" "spaced tf cs'"
    "known_before tf T cs = known_before tf T cs'"
    by (fastforce simp: list_all2_conv_all_nth in_set_conv_nth)
  have "map fst H = map fst H'" using rel by induction auto
  with d have "map_of H s = Some cs" "map_of H' s = Some cs'" using assms(2) cs'(1) by simp_all
  with cs' show thesis by (intro that) 
qed

lemma event_agrees:
  assumes "same_past tf T H H'" "0 < tf" "1 \<le> lookback" "(t, s, i) \<in> set (replay_events tf lookback start T H)"
  shows "lookback - 1 \<le> i \<and> agree_at H H' (s, i)"
proof -
  from assms(4) obtain cs where cs: "(s, cs) \<in> set H" "lookback - 1 \<le> i" "i \<le> int (length cs) - 2"
    "t = oc_t (cs ! nat i) + tf" "t < T" by (rule event_known)
  from assms(1) cs(1) obtain cs' where cs': "map_of H s = Some cs" "map_of H' s = Some cs'" "spaced tf cs"
    "spaced tf cs'" "known_before tf T cs = known_before tf T cs'" by (rule same_past_lookup)
  note eq = known_equal[OF cs'(5)]
  let ?n = "length (takeWhile (\<lambda>c. oc_t c < T) cs)"
  let ?j = "nat i + 1"
  have j: "?j < length cs" using cs(2,3) assms(3) by auto
  then have t: "oc_t (cs ! ?j) = t" using cs'(3) cs(4) by (simp add: spaced_nth)
  then have n: "?j < ?n" using known_index[OF cs'(3) assms(2)] j cs(5) by simp
  then have j': "?j < length cs'" using eq(1) length_takeWhile_le le_trans not_less by metis
  have same: "cs ! k = cs' ! k" if "k < ?j" for k
  proof -
    have "oc_t (cs ! k) \<le> oc_t (cs ! nat i)" using that j by (intro spaced_mono[OF cs'(3) assms(2)]) auto
    then have "oc_t (cs ! k) + tf < T" using cs(4,5) by simp
    moreover have s: "seen tf T (cs ! k) = seen tf T (cs' ! k)" using eq(2) that n by simp
    moreover have "oc_t (cs ! k) = oc_t (cs' ! k)" using arg_cong[OF s, of oc_t] by simp
    ultimately show ?thesis by (simp add: seen_def)
  qed
  have "take ?j cs = take ?j cs'" using same j j' by (intro nth_equalityI) auto
  moreover have "oc_o (cs ! ?j) = oc_o (cs' ! ?j)" using arg_cong[OF eq(2)[OF n], of oc_o] by simp
  ultimately show ?thesis using cs(2) cs'(1,2) j j' by (auto simp: agree_at_def)
qed

section \<open>Groups\<close>

lemma group_times: "fst ` set (group_events es) \<subseteq> fst ` set es"
proof (induction es rule: group_events.induct)
  case (2 t e es)
  show ?case
  proof (cases "group_events es")
    case (Cons a gs)
    then have "fst ` set (group_events ((t, e) # es)) \<subseteq> insert t (fst ` set (group_events es))"
      by (cases a) auto
    also have "\<dots> \<subseteq> insert t (fst ` set es)" using 2 by (rule insert_mono)
    also have "\<dots> = fst ` set ((t, e) # es)" by simp
    finally show ?thesis .
  qed simp
qed simp

lemma group_members: "(t, g) \<in> set (group_events es) \<Longrightarrow> e \<in> set g \<Longrightarrow> (t, e) \<in> set es"
proof (induction es arbitrary: t g rule: group_events.induct)
  case (2 t' e' es)
  then show ?case by (fastforce split: list.splits if_splits prod.splits)
qed simp

lemma group_events_Nil: "group_events es = [] \<longleftrightarrow> es = []"
  by (cases es rule: group_events.cases) (auto split: list.splits)

lemma group_events_append:
  assumes "\<forall>x \<in> set xs. \<forall>y \<in> set ys. fst x \<noteq> fst y"
  shows "group_events (xs @ ys) = group_events xs @ group_events ys"
  using assms
proof (induction xs rule: group_events.induct)
  case (2 t e es)
  then have IH: "group_events (es @ ys) = group_events es @ group_events ys" by simp
  show ?case
  proof (cases "group_events es")
    case Nil
    moreover have "t \<noteq> t'" if "group_events ys = (t', g) # gs" for t' g gs
      using group_times[of ys] that 2(2) by force
    ultimately show ?thesis using IH by (cases "group_events ys") auto
  next
    case (Cons a gs)
    then show ?thesis using IH by (cases a) auto
  qed
qed simp

lemma sorted_split:
  "sorted (map f xs) \<Longrightarrow> xs = filter (\<lambda>x. f x < (T :: 'a :: linorder)) xs @ filter (\<lambda>x. \<not> f x < T) xs"
proof (induction xs)
  case (Cons x xs)
  show ?case
  proof (cases "f x < T")
    case False
    then have "filter (\<lambda>x. f x < T) xs = []" using Cons.prems by (force simp: filter_empty_conv)
    with False Cons show ?thesis by (metis append_Nil filter.simps(2) sorted_simps(2) list.simps(9))
  qed (use Cons in auto)
qed simp

lemma replay_events_prefix:
  assumes "T \<le> T'"
  shows "\<exists>rest. replay_events tf lookback start T' H = replay_events tf lookback start T H @ rest \<and>
    (\<forall>e \<in> set rest. T \<le> fst e)"
proof -
  let ?k = "\<lambda>e :: event. (fst e, fst (snd e))"
  let ?all = "replay_events tf lookback start T' H"
  have sym: "symbol_events tf lookback start T s cs = filter (\<lambda>e. fst e < T) (symbol_events tf lookback start T' s cs)" for s cs
    using assms by (auto simp: symbol_events_def filter_map comp_def intro!: arg_cong[of _ _ "map _"] filter_cong)
  have "concat (map (\<lambda>(s, cs). symbol_events tf lookback start T s cs) H) =
    filter (\<lambda>e. fst e < T) (concat (map (\<lambda>(s, cs). symbol_events tf lookback start T' s cs) H))"
    by (induction H) (auto simp: sym)
  then have part: "replay_events tf lookback start T H = filter (\<lambda>e. fst e < T) ?all"
    by (simp add: replay_events_def filter_sort)
  have "sorted (map ?k ?all)" by (simp add: replay_events_def)
  then have "sorted (map fst ?all)"
    unfolding sorted_map by (rule sorted_wrt_mono_rel[rotated]) (auto simp: less_eq_prod_def)
  from sorted_split[OF this, of T] show ?thesis unfolding part by (intro exI) auto
qed

lemma groups_prefix:
  assumes "T \<le> T'"
  shows "\<exists>rest. group_events (replay_events tf lookback start T' H) =
    group_events (replay_events tf lookback start T H) @ rest"
proof -
  from replay_events_prefix[OF assms] obtain rest where
    rest: "replay_events tf lookback start T' H = replay_events tf lookback start T H @ rest"
      "\<forall>e \<in> set rest. T \<le> fst e" by blast
  have "fst x < T" if "x \<in> set (replay_events tf lookback start T H)" for x
    using that by (auto simp: replay_events_def symbol_events_def)
  with rest(2) have "\<forall>x \<in> set (replay_events tf lookback start T H). \<forall>y \<in> set rest. fst x \<noteq> fst y" by fastforce
  from group_events_append[OF this] rest(1) show ?thesis by auto
qed

lemma agree_at_last:
  assumes "agree_at H H' (s, i)" "0 \<le> i"
  shows "the (map_of H s) ! nat i = the (map_of H' s) ! nat i"
    and "oc_o (the (map_of H s) ! nat (i + 1)) = oc_o (the (map_of H' s) ! nat (i + 1))"
    and "replay_window l i (the (map_of H s)) = replay_window l i (the (map_of H' s))"
    and "0 < i \<Longrightarrow> the (map_of H s) ! nat (i - 1) = the (map_of H' s) ! nat (i - 1)"
proof -
  have n: "nat (i + 1) = nat i + 1" using assms(2) by simp
  from assms(1) obtain cs cs' where cs: "map_of H s = Some cs" "map_of H' s = Some cs'" "nat i + 1 < length cs"
    "nat i + 1 < length cs'" "take (nat i + 1) cs = take (nat i + 1) cs'"
    "oc_o (cs ! (nat i + 1)) = oc_o (cs' ! (nat i + 1))" by (auto simp: agree_at_def)
  have same: "cs ! k = cs' ! k" if "k \<le> nat i" for k
    using arg_cong[OF cs(5), of "\<lambda>l. l ! k"] that by simp
  show "the (map_of H s) ! nat i = the (map_of H' s) ! nat i"
    "oc_o (the (map_of H s) ! nat (i + 1)) = oc_o (the (map_of H' s) ! nat (i + 1))"
    "replay_window l i (the (map_of H s)) = replay_window l i (the (map_of H' s))"
    using cs same by (simp_all add: n replay_window_def)
  show "0 < i \<Longrightarrow> the (map_of H s) ! nat (i - 1) = the (map_of H' s) ! nat (i - 1)"
    using cs(1,2) same[of "nat (i - 1)"] by simp
qed

section \<open>What a step adds\<close>

lemma ledger_step_adds: "ledger_step config L L' \<Longrightarrow> prefix (lg_closed_trades L) (lg_closed_trades L')"
proof (induction rule: ledger_step.induct)
  case (static L symbol candle t)
  obtain res L' where run: "check_static_exit symbol candle t L = (res, L')" by fastforce
  then have "prefix (lg_closed_trades L) (lg_closed_trades L')"
    by (cases rule: check_static_exit_cases) (auto simp: record_close_def Let_def)
  with run show ?case by simp
qed (auto simp: apply_entry_def apply_exit_signal_def record_close_def Let_def
       split: sum.split option.split)

lemma ledger_run_adds: "ledger_run config L L' \<Longrightarrow> prefix (lg_closed_trades L) (lg_closed_trades L')"
  by (induction rule: ledger_run.induct) (auto dest: ledger_step_adds intro: prefix_order.trans)

lemma ledger_run_trans: "ledger_run config M N \<Longrightarrow> ledger_run config L M \<Longrightarrow> ledger_run config L N"
  by (induction rule: ledger_run.induct) (auto intro: ledger_run.intros)

lemma ledger_run_step: "ledger_step config L L' \<Longrightarrow> ledger_run config L L'"
  by (blast intro: ledger_run.intros)

section \<open>A walk does not look ahead\<close>

text \<open>
  What a replay has to promise of the step that processes one group: it looks at each symbol only up to
  its decision candle and the open of the next, and what it records is only added to.
\<close>

locale candle_walk =
  fixes step :: "'c \<Rightarrow> candle_history \<Rightarrow> event_group \<Rightarrow> 's \<Rightarrow> py_error + 's"
    and timeframe_ms :: "'c \<Rightarrow> int"
    and lookback :: "'c \<Rightarrow> int"
    and min_lookback :: int
    and extends :: "'c \<Rightarrow> 's \<Rightarrow> 's \<Rightarrow> bool"
  assumes local: "\<lbrakk>min_lookback \<le> lookback c; \<And>e. e \<in> set (snd g) \<Longrightarrow> lookback c - 1 \<le> snd e \<and> agree_at H H' e\<rbrakk>
      \<Longrightarrow> step c H g s = step c H' g s"
    and adds: "step c H g s = Inr s' \<Longrightarrow> extends c s s'"
    and extends_refl: "extends c s s"
    and extends_trans: "extends c s s' \<Longrightarrow> extends c s' s'' \<Longrightarrow> extends c s s''"
begin

abbreviation walk :: "'c \<Rightarrow> int \<Rightarrow> int \<Rightarrow> candle_history \<Rightarrow> 's \<Rightarrow> py_error + 's" where
  "walk c \<equiv> walk_candles (step c) (timeframe_ms c) (lookback c)"

lemma walk_same_past:
  assumes "same_past (timeframe_ms c) T H H'" "0 < timeframe_ms c" "1 \<le> lookback c" "min_lookback \<le> lookback c"
  shows "walk c start T H s = walk c start T H' s"
proof -
  let ?es = "replay_events (timeframe_ms c) (lookback c) start T H"
  have "step c H g s = step c H' g s" if "g \<in> set (group_events ?es)" for g s
  proof (rule local[OF assms(4)])
    fix e
    assume "e \<in> set (snd g)"
    then have "(fst g, e) \<in> set ?es" using that by (cases g) (auto dest: group_members)
    then show "lookback c - 1 \<le> snd e \<and> agree_at H H' e"
      using event_agrees[OF assms(1-3), of "fst g" "fst e" "snd e"] by simp
  qed
  then show ?thesis
    unfolding walk_candles_def replay_events_same[OF assms(1-3), symmetric] by (rule run_steps_cong)
qed

lemma no_lookahead:
  assumes "same_past (timeframe_ms c) T H H'" "0 < timeframe_ms c" "1 \<le> lookback c" "min_lookback \<le> lookback c"
    and "T \<le> T'" "walk c start T' H' s = Inr s'"
  shows "\<exists>s''. walk c start T H s = Inr s'' \<and> extends c s'' s'"
proof -
  from groups_prefix[OF assms(5)] obtain rest where
    rest: "group_events (replay_events (timeframe_ms c) (lookback c) start T' H') =
      group_events (replay_events (timeframe_ms c) (lookback c) start T H') @ rest" by blast
  from assms(6) obtain s'' where s'': "walk c start T H' s = Inr s''" "run_steps (step c H') rest s'' = Inr s'"
    by (auto simp: walk_candles_def rest run_steps_append)
  have "extends c s'' s'"
    using run_steps_rel[of rest "step c H'" "extends c"] adds extends_refl extends_trans s''(2) by blast
  with s''(1) show ?thesis unfolding walk_same_past[OF assms(1-4)] by blast
qed

end

end
