(* ===== verification/End_To_End.thy ===== *)
theory End_To_End
  imports Cycle_Properties
begin

text \<open>
  The scheduler and the LLM service together: the endpoint the scheduler posts to is \<open>/analyze\<close> of
  \<open>llm_service\<close>, so what a cycle stores is what the pipeline answered to the state the cycle read.
\<close>

section \<open>The endpoint behind the scheduler\<close>

text \<open>How the response model writes the parts that are texts or documents.\<close>

record wire_format =
  wf_reasoning :: "reasoning \<Rightarrow> string"
  wf_raw :: "raw_response option \<Rightarrow> json"
  wf_breakdown :: "TradeScoreResult \<Rightarrow> json"

definition strategy_value :: "StrategyName \<Rightarrow> string" where
  "strategy_value s = (case s of
     TREND_FOLLOWING \<Rightarrow> ''trend_following'' | TREND_PULLBACK \<Rightarrow> ''trend_pullback''
   | MOMENTUM_CONTINUATION \<Rightarrow> ''momentum_continuation'' | MEAN_REVERSION \<Rightarrow> ''mean_reversion'')"

definition volatility_value :: "VolatilityRegime \<Rightarrow> string" where
  "volatility_value v = (case v of
     HIGH_VOLATILITY \<Rightarrow> ''HIGH_VOLATILITY'' | NORMAL_VOLATILITY \<Rightarrow> ''NORMAL''
   | LOW_VOLATILITY \<Rightarrow> ''LOW_VOLATILITY'')"

definition signal_body :: "wire_format \<Rightarrow> TradingSignal \<Rightarrow> llm_result" where
  "signal_body fmt s =
     \<lparr>an_action = tsg_action s, an_confidence = tsg_confidence s, an_reasoning = wf_reasoning fmt (tsg_reasoning s),
      an_model_name = tsg_model_name s, an_raw_response = wf_raw fmt (tsg_raw_response s),
      an_trade_score = Some (tsg_trade_score s), an_score_breakdown = wf_breakdown fmt (tsg_score_breakdown s),
      an_setup_regime = Some (strategy_value (tsg_setup_regime s)),
      an_volatility_regime = Some (volatility_value (tsg_volatility_regime s))\<rparr>"

text \<open>A request that fails validation or whose provider is unknown is answered with an error status.\<close>

definition analyze_endpoint ::
    "model_hosts \<Rightarrow> parser \<Rightarrow> LLMServiceSettings \<Rightarrow> wire_format \<Rightarrow> datetime \<Rightarrow> LLMRequest list
     \<Rightarrow> AnalyzeRequest \<Rightarrow> llm_result http_reply" where
  "analyze_endpoint hosts p settings fmt now h request =
     (case analyze hosts p settings request now h of
        Inl _ \<Rightarrow> HttpError
      | Inr (signal, _) \<Rightarrow> Body (signal_body fmt signal))"

section \<open>What a stored signal means\<close>

lemma run_pipeline_action:
  assumes "run_pipeline s request now h = (signal, h')"
  shows "tsg_action signal = BUY \<Longrightarrow> entry_allowed (build_context request)"
    and "tsg_action signal = SELL \<Longrightarrow>
      hard_loss (ls_thresholds s) (rq_position_context request) \<or> exit_allowed (ls_thresholds s) (build_context request)"
proof -
  have rq: "mc_request (build_context request) = request" by (simp add: build_context_def Let_def)
  note sa = semantic_action[of "ls_thresholds s" "build_context request", unfolded rq]
  show "tsg_action signal = BUY \<Longrightarrow> entry_allowed (build_context request)"
    using assms by (cases rule: run_pipeline_cases) (simp_all add: sa)
  show "tsg_action signal = SELL \<Longrightarrow>
      hard_loss (ls_thresholds s) (rq_position_context request) \<or> exit_allowed (ls_thresholds s) (build_context request)"
    using assms by (cases rule: run_pipeline_cases) (auto simp: sa)
qed

definition service_thresholds :: "LLMServiceSettings \<Rightarrow> exit_thresholds" where
  "service_thresholds settings =
     \<lparr>th_min_exit_profit_pct = sv_min_exit_profit_pct settings, th_min_exit_loss_pct = sv_min_exit_loss_pct settings,
      th_hard_loss_cut_pct = sv_hard_loss_cut_pct settings\<rparr>"

lemma build_pipeline_thresholds:
  "ls_thresholds (build_pipeline p np settings) = service_thresholds settings"
  by (simp add: build_pipeline_def service_thresholds_def split: prod.split)

lemma analyze_runs:
  "analyze hosts p settings request now h = Inr (signal, h') \<Longrightarrow>
     \<exists>np. run_pipeline (build_pipeline p np settings) request now h = (signal, h')"
  by (auto simp: analyze_def split: if_splits option.splits) blast+

lemma analyze_action:
  assumes "analyze hosts p settings request now h = Inr (signal, h')"
  shows "tsg_action signal = BUY \<Longrightarrow> entry_allowed (build_context request)"
    and "tsg_action signal = SELL \<Longrightarrow>
      hard_loss (service_thresholds settings) (rq_position_context request) \<or>
      exit_allowed (service_thresholds settings) (build_context request)"
proof -
  obtain np where "run_pipeline (build_pipeline p np settings) request now h = (signal, h')"
    using analyze_runs[OF assms] by blast
  note run_pipeline_action[OF this, unfolded build_pipeline_thresholds]
  then show "tsg_action signal = BUY \<Longrightarrow> entry_allowed (build_context request)"
    "tsg_action signal = SELL \<Longrightarrow>
      hard_loss (service_thresholds settings) (rq_position_context request) \<or>
      exit_allowed (service_thresholds settings) (build_context request)" by blast+
qed

text \<open>What the scheduler takes from the endpoint: the service's answer or a HOLD.\<close>

lemma post_analyze_endpoint:
  fixes settings :: LLMServiceSettings and request :: AnalyzeRequest and hosts p fmt t h
  defines r: "r \<equiv> post_analyze (analyze_endpoint hosts p settings fmt t h) request"
  shows "an_action r = BUY \<Longrightarrow> entry_allowed (build_context request)"
    and "an_action r = SELL \<Longrightarrow>
      hard_loss (service_thresholds settings) (rq_position_context request) \<or>
      exit_allowed (service_thresholds settings) (build_context request)"
    and "rq_provider_override request = Some (dump_config c) \<Longrightarrow>
      an_model_name r \<in> {''n/a'', PREFILTER_MODEL_NAME, model_label c}"
proof -
  consider (err) "r = unreachable_result"
    | (sig) signal h' where "analyze hosts p settings request t h = Inr (signal, h')" "r = signal_body fmt signal"
    by (cases "analyze hosts p settings request t h")
       (auto simp: r post_analyze_def analyze_endpoint_def split: prod.splits)
  then have "(an_action r = BUY \<longrightarrow> entry_allowed (build_context request)) \<and>
    (an_action r = SELL \<longrightarrow> hard_loss (service_thresholds settings) (rq_position_context request) \<or>
      exit_allowed (service_thresholds settings) (build_context request)) \<and>
    (rq_provider_override request = Some (dump_config c) \<longrightarrow>
      an_model_name r \<in> {''n/a'', PREFILTER_MODEL_NAME, model_label c})"
  proof cases
    case err
    then show ?thesis by (simp add: unreachable_result_def)
  next
    case sig
    then show ?thesis
      using analyze_action[OF sig(1)] analyze_label[OF sig(1), of c] by (auto simp: signal_body_def)
  qed
  then show "an_action r = BUY \<Longrightarrow> entry_allowed (build_context request)"
    "an_action r = SELL \<Longrightarrow> hard_loss (service_thresholds settings) (rq_position_context request) \<or>
      exit_allowed (service_thresholds settings) (build_context request)"
    "rq_provider_override request = Some (dump_config c) \<Longrightarrow>
      an_model_name r \<in> {''n/a'', PREFILTER_MODEL_NAME, model_label c}" by blast+
qed

lemma select_strategy_depends:
  "rq_ohlcv a = rq_ohlcv b \<Longrightarrow> rq_indicators a = rq_indicators b \<Longrightarrow>
     select_strategy (build_context a) = select_strategy (build_context b)"
  by (simp add: select_strategy_def ranked_strategies_def build_context_def Let_def)

lemma build_context_confirmations:
  "mc_entry_confirmations (build_context rq) = entry_confirmations (rq_ohlcv rq) (rq_indicators rq)"
  "mc_exit_confirmations (build_context rq) = exit_confirmations (rq_ohlcv rq) (rq_indicators rq)"
  "mc_request (build_context rq) = rq"
  by (simp_all add: build_context_def Let_def)

text \<open>
  C34. What a stored signal means, across scheduler and LLM service: whatever the model answers, a BUY is
  stored only when the symbol has no open position and the closed candles of this cycle confirm the
  entry (three confirmations, trend and momentum among them, regime not trend following); a SELL only
  when the symbol has an open position whose loss breaches the hard cut-off, or whose profit or loss
  leaves the cushion while confirmations of two categories hold of these candles; and the recorded model
  is the one the operator configured, the pre-filter, or \<open>n/a\<close> for a failed call.
\<close>

theorem signal_meets_rubric:
  fixes settings :: LLMServiceSettings
  assumes "run_cycle ex sc symbol ok tr now w = (res, w')" "w_db w = w_saved w"
    and "sc_analyze sc = analyze_endpoint hosts p settings fmt t h"
    and "db_signals (w_saved w') = db_signals (w_saved w) @ [s]"
  defines "candles \<equiv> map wire_candle (slice_last (ss_llm_ohlcv_window (sc_settings sc)) (cycle_candles sc symbol now))"
    and "ind \<equiv> cycle_indicators sc symbol now" and "pos \<equiv> open_position (w_saved w) symbol"
  shows "(sig_action s = BUY \<longrightarrow> pos = None \<and> entry_is_sufficient (entry_confirmations candles ind) \<and>
      (\<forall>rq. rq_ohlcv rq = candles \<and> rq_indicators rq = ind \<longrightarrow>
         st_strategy (select_strategy (build_context rq)) \<noteq> TREND_FOLLOWING)) \<and>
    (sig_action s = SELL \<longrightarrow> (\<exists>q pnl. pos = Some q \<and>
      unrealized_pnl (oc_c (last (cycle_candles sc symbol now))) (Some q) = Inr (Some pnl) \<and>
      (pnl \<le> - sv_hard_loss_cut_pct settings \<or>
       (pnl > sv_min_exit_profit_pct settings \<or> pnl < - sv_min_exit_loss_pct settings) \<and>
       exit_is_sufficient (exit_confirmations candles ind)))) \<and>
    sig_model_name s \<in> {''n/a'', PREFILTER_MODEL_NAME,
      model_label (load_effective_llm_config (sc_llm_env sc) (w_saved w))}"
proof (cases rule: run_cycle_cases[OF assms(1,2)])
  case 1
  with assms(4) show ?thesis by (simp add: quiet_def)
next
  case (2 s' pre rs)
  have "s' = s" using new_signal_tables(1)[OF 2(3)] assms(4) by simp
  from 2(11) obtain rq pnl where rq: "rq_ohlcv rq = candles" "rq_indicators rq = ind"
    and pnl: "unrealized_pnl (oc_c (last (cycle_candles sc symbol now))) pos = Inr pnl"
    and pc: "rq_position_context rq = \<lparr>pc_has_open_position = (pos \<noteq> None), pc_unrealized_pnl_pct = pnl\<rparr>"
    and ov: "rq_provider_override rq = Some (dump_config (load_effective_llm_config (sc_llm_env sc) (w_saved w)))"
    and act: "sig_action s = an_action (post_analyze (analyze_endpoint hosts p settings fmt t h) rq)"
      "sig_model_name s = an_model_name (post_analyze (analyze_endpoint hosts p settings fmt t h) rq)"
    unfolding from_analysis_def candles_def ind_def pos_def assms(3) \<open>s' = s\<close> by blast
  note pa = post_analyze_endpoint[where hosts = hosts and p = p and settings = settings and fmt = fmt and t = t and h = h
      and request = rq, folded act]
  have buy: "pos = None \<and> entry_is_sufficient (entry_confirmations candles ind) \<and>
      (\<forall>rq. rq_ohlcv rq = candles \<and> rq_indicators rq = ind \<longrightarrow>
         st_strategy (select_strategy (build_context rq)) \<noteq> TREND_FOLLOWING)" if "sig_action s = BUY"
  proof -
    have allowed: "entry_allowed (build_context rq)" by (rule pa(1)[OF that])
    then have "pos = None \<and> entry_is_sufficient (entry_confirmations candles ind)"
      using rq pc by (simp add: entry_allowed_iff build_context_confirmations)
    moreover have "st_strategy (select_strategy (build_context rq')) \<noteq> TREND_FOLLOWING"
      if "rq_ohlcv rq' = candles" "rq_indicators rq' = ind" for rq'
    proof -
      have "select_strategy (build_context rq') = select_strategy (build_context rq)"
        by (rule select_strategy_depends) (use that rq in simp_all)
      with allowed show ?thesis by (simp add: entry_allowed_iff)
    qed
    ultimately show ?thesis by blast
  qed
  have sell: "\<exists>q pnl. pos = Some q \<and>
      unrealized_pnl (oc_c (last (cycle_candles sc symbol now))) (Some q) = Inr (Some pnl) \<and>
      (pnl \<le> - sv_hard_loss_cut_pct settings \<or>
       (pnl > sv_min_exit_profit_pct settings \<or> pnl < - sv_min_exit_loss_pct settings) \<and>
       exit_is_sufficient (exit_confirmations candles ind))" if "sig_action s = SELL"
    using pa(2)[OF that] rq pc pnl
    by (auto simp: exit_allowed_def exit_is_sufficient_iff hard_loss_def service_thresholds_def
        build_context_confirmations Let_def split: option.splits)
  show ?thesis using buy sell pa(3)[OF ov] by blast
qed

section \<open>A sample cycle over both services\<close>

text \<open>A host that answers, with a body that is not JSON.\<close>

definition sample_hosts :: model_hosts where
  "sample_hosts = \<lparr>mh_anthropic = (\<lambda>m h rq. (Some \<lparr>am_stop_reason = ''end_turn'', am_content = [TextBlock ''?'']\<rparr>, 2)),
     mh_ollama = (\<lambda>m t h rq. (Body ''?'', 3))\<rparr>"

definition deaf_parser :: parser where
  "deaf_parser = \<lparr>json_loads = (\<lambda>t. None), dq_validate = (\<lambda>d. None), lax_float = (\<lambda>j. None)\<rparr>"

definition sample_format :: wire_format where
  "sample_format = \<lparr>wf_reasoning = (\<lambda>r. ''reason''), wf_raw = (\<lambda>r. JNull), wf_breakdown = (\<lambda>b. JNull)\<rparr>"

definition joined_scheduler :: scheduler where
  "joined_scheduler = sample_scheduler\<lparr>sc_analyze :=
     analyze_endpoint sample_hosts deaf_parser LLMServiceSettings_defaults sample_format 0 []\<rparr>"

lemma deaf_endpoint:
  "an_confidence (post_analyze (analyze_endpoint hosts deaf_parser settings sample_format t h) rq) = 0"
  "length (an_reasoning (post_analyze (analyze_endpoint hosts deaf_parser settings sample_format t h) rq)) \<le> 500"
proof -
  have hold: "tsg_confidence signal = 0" if run: "analyze hosts deaf_parser settings rq t h = Inr (signal, h')" for signal h'
  proof -
    obtain np where "run_pipeline (build_pipeline deaf_parser np settings) rq t h = (signal, h')"
      using analyze_runs[OF run] by blast
    then show ?thesis
      by (cases rule: run_pipeline_cases)
         (simp_all add: parse_llm_response_def build_pipeline_def deaf_parser_def split: prod.splits)
  qed
  then show "an_confidence (post_analyze (analyze_endpoint hosts deaf_parser settings sample_format t h) rq) = 0"
    "length (an_reasoning (post_analyze (analyze_endpoint hosts deaf_parser settings sample_format t h) rq)) \<le> 500"
    by (auto simp: post_analyze_def analyze_endpoint_def signal_body_def sample_format_def unreachable_result_def
        split: sum.split prod.split)
qed

lemma track_signals:
  "db_signals (w_db (track_llm_analyze_health ex now symbol tr reasoning model threshold w)) = db_signals (w_db w)"
  using track_effect(2)[of ex now symbol tr reasoning model threshold w] by auto

abbreviation joined_run :: "(py_error + nat option) \<times> world" where
  "joined_run \<equiv> run_cycle sample_externals joined_scheduler ''BTC/USDT'' True 9 (seconds 700) empty_world"

lemma joined_cycle: "\<exists>s. db_signals (w_saved (snd joined_run)) = [s]"
proof -
  have sel: "sc_settings joined_scheduler = SchedulerSettings_defaults"
    "sc_exchange joined_scheduler = sc_exchange sample_scheduler" "sc_pandas joined_scheduler = sc_pandas sample_scheduler"
    "sc_analyze joined_scheduler =
       analyze_endpoint sample_hosts deaf_parser LLMServiceSettings_defaults sample_format 0 []"
    by (simp_all add: joined_scheduler_def sample_scheduler_def)
  obtain m where m: "cycle_sentiment [sample_candle 0 100, sample_candle 300000 102]
     (the (compute_indicators (sc_pandas sample_scheduler) [sample_candle 0 100, sample_candle 300000 102])) = Inr m"
    using sample_sentiment by blast
  have tf: "timeframe_to_seconds ''5m'' = Inr 300" by code_simp
  have candles: "fetch_closed_candles (sc_exchange sample_scheduler) ''BTC/USDT'' ''5m'' 200 (seconds 700) =
      Inr [sample_candle 0 100, sample_candle 300000 102]" by code_simp
  have st: "ss_timeframe SchedulerSettings_defaults = ''5m''" "ss_candle_lookback SchedulerSettings_defaults = 200"
    by (simp_all add: SchedulerSettings_defaults_def)
  have zero: "dec_of_float 0 = 0" by code_simp
  have ex: "ex_redis sample_externals h now (R_XADD i) = R_OK" "ex_redis sample_externals h now (R_DELETE k) = R_OK"
    for h now i k by (simp_all add: sample_externals_def)
  show ?thesis
    by (simp add: run_cycle_def run_locked_cycle_def Let_def sel st candles tf m redis_call_def ex
        run_session_def cycle_session_def unrealized_pnl_def row_fits_def signal_row_of_def deaf_endpoint zero
        commit_def track_signals empty_world_def empty_db_def)
       (simp add: sample_externals_def)
qed

theorem signal_meets_rubric_witness:
  "\<exists>s. db_signals (w_saved (snd joined_run)) = [s] \<and>
     sig_model_name s \<in> {''n/a'', PREFILTER_MODEL_NAME,
       model_label (load_effective_llm_config LLMServiceSettings_defaults empty_db)}"
proof -
  obtain s where s: "db_signals (w_saved (snd joined_run)) = [s]" using joined_cycle by blast
  have sel: "sc_analyze joined_scheduler =
       analyze_endpoint sample_hosts deaf_parser LLMServiceSettings_defaults sample_format 0 []"
    "sc_llm_env joined_scheduler = LLMServiceSettings_defaults"
    by (simp_all add: joined_scheduler_def sample_scheduler_def)
  have idle: "w_db empty_world = w_saved empty_world" by (simp add: empty_world_def)
  have new: "db_signals (w_saved (snd joined_run)) = db_signals (w_saved empty_world) @ [s]"
    using s by (simp add: empty_world_def empty_db_def)
  from signal_meets_rubric[OF surjective_pairing idle sel(1) new] s show ?thesis
    by (simp add: sel(2) empty_world_def)
qed

end
