(* ===== verification/Mechanical_Replay.thy ===== *)
theory Mechanical_Replay
  imports Replay_Walk End_To_End
begin

text \<open>
  \<open>scripts/backtest/mechanical_replay.py\<close>: the walk over historical candles that lets the deterministic
  validator decide what a model that always proposes the natural action could have traded, on the
  offline ledger.  Fetching the history, the command line and the printed tables are not modelled; the
  journal keys carry the entry time itself instead of its text.
\<close>

section \<open>The decision\<close>

record mechanical_decision =
  md_action :: Action
  md_regime :: StrategyName
  md_volatility_regime :: VolatilityRegime
  md_trade_score :: int
  md_exit_confirmations :: "exit_confirmation list"

definition stub_output :: "bool \<Rightarrow> LLMOutput" where
  "stub_output has_open_position =
     \<lparr>lo_action = (if has_open_position then SELL else BUY), lo_confidence = flt (99 / 100),
      lo_reasoning = ModelReasoning
        ''mechanical-replay stub: always proposes the natural action for the rubric to gate'',
      lo_key_indicators = [], lo_invalidation_condition = ModelInvalidation ''n/a''\<rparr>"

text \<open>\<open>TradeScorer()\<close> is built without the settings' reward multiple: its default is 2.\<close>

definition mechanical_decision ::
    "MarketContext \<Rightarrow> LLMServiceSettings \<Rightarrow> StrategyName set \<Rightarrow> mechanical_decision" where
  "mechanical_decision context settings suppress_buy_regimes =
     (let strategy = select_strategy context; regime = st_strategy strategy;
          volatility_regime = classify_volatility context;
          score = trade_score 2 context strategy volatility_regime;
          r = validate_signal_semantics (service_thresholds settings) context
                (stub_output (pc_has_open_position (rq_position_context (mc_request context))));
          act = lo_action (sr_output r)
      in \<lparr>md_action = (if act = BUY \<and> regime \<in> suppress_buy_regimes then HOLD else act),
          md_regime = regime, md_volatility_regime = volatility_regime, md_trade_score = ts_total score,
          md_exit_confirmations = sr_exit_confirmations r\<rparr>)"

section \<open>The walk\<close>

record mechanical_setup = walk_setup +
  mr_settings :: LLMServiceSettings
  mr_suppress :: "StrategyName set"

datatype outcome = No_action | Entered | Exited | Rejected "RejectionReason option"

record replay_row =
  rw_timestamp :: datetime
  rw_symbol :: string
  rw_decision :: mechanical_decision
  rw_outcome :: outcome

type_synonym trade_key = "string \<times> datetime"

record replay_state =
  rs_ledger :: Ledger
  rs_entry_regimes :: "string \<rightharpoonup> StrategyName"
  rs_entry_scores :: "string \<rightharpoonup> int"
  rs_entry_volatility :: "string \<rightharpoonup> VolatilityRegime"
  rs_trade_regimes :: "trade_key \<rightharpoonup> StrategyName option"   \<comment> \<open>\<open>Some None\<close> is ``unknown''\<close>
  rs_trade_scores :: "trade_key \<rightharpoonup> int"
  rs_trade_volatility :: "trade_key \<rightharpoonup> VolatilityRegime"
  rs_trade_exit_confirmations :: "trade_key \<rightharpoonup> exit_confirmation list"
  rs_rows :: "replay_row list"

definition carry_entry_dims :: "trade_key \<Rightarrow> string \<Rightarrow> replay_state \<Rightarrow> replay_state" where
  "carry_entry_dims key symbol s =
     s\<lparr>rs_trade_regimes := (rs_trade_regimes s)(key \<mapsto> rs_entry_regimes s symbol),
       rs_entry_regimes := (rs_entry_regimes s)(symbol := None),
       rs_trade_scores := (case rs_entry_scores s symbol of
          None \<Rightarrow> rs_trade_scores s | Some x \<Rightarrow> (rs_trade_scores s)(key \<mapsto> x)),
       rs_entry_scores := (rs_entry_scores s)(symbol := None),
       rs_trade_volatility := (case rs_entry_volatility s symbol of
          None \<Rightarrow> rs_trade_volatility s | Some x \<Rightarrow> (rs_trade_volatility s)(key \<mapsto> x)),
       rs_entry_volatility := (rs_entry_volatility s)(symbol := None)\<rparr>"

text \<open>The first pass over a group: Freqtrade's own exits.\<close>

definition static_exit_step ::
    "candle_history \<Rightarrow> datetime \<Rightarrow> string \<times> int \<Rightarrow> replay_state \<Rightarrow> py_error + replay_state" where
  "static_exit_step candles_by_symbol now e s =
     (case e of (symbol, i) \<Rightarrow>
        (case check_static_exit symbol (the (map_of candles_by_symbol symbol) ! nat i) now (rs_ledger s) of
           (Inl err, _) \<Rightarrow> Inl err
         | (Inr None, L) \<Rightarrow> Inr (s\<lparr>rs_ledger := L\<rparr>)
         | (Inr (Some trade), L) \<Rightarrow>
             Inr (carry_entry_dims (symbol, ct_entry_time trade) symbol (s\<lparr>rs_ledger := L\<rparr>))))"

text \<open>What a decision does to the ledger and the journal.\<close>

definition act_on_decision ::
    "mechanical_setup \<Rightarrow> string \<Rightarrow> datetime \<Rightarrow> SignalView \<Rightarrow> mechanical_decision \<Rightarrow> rat \<Rightarrow> replay_state
     \<Rightarrow> py_error + (outcome \<times> replay_state)" where
  "act_on_decision su symbol now view decision next_open s =
     (case map_of (lg_positions (rs_ledger s)) symbol of
        None \<Rightarrow>
          if md_action decision = BUY
          then (case apply_entry symbol view (wk_risk su) now (dec_of_float next_open) (rs_ledger s) of
                  (Inl e, _) \<Rightarrow> Inl e
                | (Inr (r, None), L) \<Rightarrow> Inr (Rejected (rdr_rejection_reason r), s\<lparr>rs_ledger := L\<rparr>)
                | (Inr (r, Some p), L) \<Rightarrow>
                    Inr (Entered, s\<lparr>rs_ledger := L,
                           rs_entry_regimes := (rs_entry_regimes s)(symbol \<mapsto> md_regime decision),
                           rs_entry_scores := (rs_entry_scores s)(symbol \<mapsto> md_trade_score decision),
                           rs_entry_volatility := (rs_entry_volatility s)(symbol \<mapsto> md_volatility_regime decision)\<rparr>))
          else Inr (No_action, s)
      | Some position \<Rightarrow>
          if md_action decision = SELL
          then (case apply_exit_signal symbol view (wk_risk su) now (dec_of_float next_open) (rs_ledger s) of
                  (Inl e, _) \<Rightarrow> Inl e
                | (Inr (r, None), L) \<Rightarrow> Inr (Rejected (xdr_rejection_reason r), s\<lparr>rs_ledger := L\<rparr>)
                | (Inr (r, Some trade), L) \<Rightarrow>
                    let key = (symbol, sp_entry_time position);
                        s = carry_entry_dims key symbol (s\<lparr>rs_ledger := L\<rparr>)
                    in Inr (Exited, s\<lparr>rs_trade_exit_confirmations :=
                              (rs_trade_exit_confirmations s)(key \<mapsto> md_exit_confirmations decision)\<rparr>))
          else Inr (No_action, s))"

text \<open>
  The second pass: the decision of one symbol.  The lookback is long enough for every indicator to be a
  number; a request with an unknown form of symbol or timeframe raises.
\<close>

definition decision_step ::
    "mechanical_setup \<Rightarrow> candle_history \<Rightarrow> int \<Rightarrow> string \<times> int \<Rightarrow> replay_state \<Rightarrow> py_error + replay_state" where
  "decision_step su candles_by_symbol close_ts e s =
     (case e of (symbol, i) \<Rightarrow>
        let now = close_ts * 1000;
            candles = the (map_of candles_by_symbol symbol);
            window = replay_window (wk_lookback su) i candles;
            indicators = the (compute_indicators (wk_pandas su) window);
            lt = candles ! nat i
        in bind_res (marked_position (oc_c lt) (map_of (lg_positions (rs_ledger s)) symbol)) (\<lambda>position.
           let request = replay_request su symbol close_ts window indicators None position
           in if \<not> request_ok request then Inl ValidationError
              else let decision = mechanical_decision (build_context request) (mr_settings su) (mr_suppress su)
                   in bind_res (act_on_decision su symbol now
                                  (replay_view symbol now (md_action decision) (99 / 100) lt indicators) decision
                                  (oc_o (candles ! nat (i + 1))) s) (\<lambda>(result, s).
                      Inr (s\<lparr>rs_rows := rs_rows s @ [\<lparr>rw_timestamp = now, rw_symbol = symbol,
                             rw_decision = decision, rw_outcome = result\<rparr>]\<rparr>))))"

definition mechanical_group ::
    "mechanical_setup \<Rightarrow> candle_history \<Rightarrow> event_group \<Rightarrow> replay_state \<Rightarrow> py_error + replay_state" where
  "mechanical_group su candles_by_symbol g s =
     (case g of (close_ts, events) \<Rightarrow>
        bind_res (run_steps (static_exit_step candles_by_symbol (close_ts * 1000)) events s)
          (run_steps (decision_step su candles_by_symbol close_ts) events))"

definition initial_state :: "Ledger \<Rightarrow> replay_state" where
  "initial_state L =
     \<lparr>rs_ledger = L, rs_entry_regimes = Map.empty, rs_entry_scores = Map.empty, rs_entry_volatility = Map.empty,
      rs_trade_regimes = Map.empty, rs_trade_scores = Map.empty, rs_trade_volatility = Map.empty,
      rs_trade_exit_confirmations = Map.empty, rs_rows = []\<rparr>"

definition mechanical_run ::
    "mechanical_setup \<Rightarrow> int \<Rightarrow> int \<Rightarrow> candle_history \<Rightarrow> Ledger \<Rightarrow> py_error + replay_state" where
  "mechanical_run su start_ms end_ms candles_by_symbol L =
     walk_candles (mechanical_group su) (wk_timeframe_ms su) (wk_lookback su) start_ms end_ms candles_by_symbol
       (initial_state L)"

section \<open>The report rows\<close>

definition metrics_from_closed_trades :: "replay_state \<Rightarrow> ClosedTradeMetrics list" where
  "metrics_from_closed_trades s =
     map (\<lambda>t. let key = (ct_symbol t, ct_entry_time t)
              in \<lparr>tr_pnl_usdt = ct_pnl_usdt t, tr_r_multiple = ct_r_multiple t, tr_fees_usdt = None,
                  tr_closed_at = ct_exit_time t,
                  tr_market_regime = map_option strategy_value (Option.bind (rs_trade_regimes s key) (\<lambda>x. x)),
                  tr_volatility_regime = map_option volatility_value (rs_trade_volatility s key),
                  tr_trade_score = rs_trade_scores s key\<rparr>) (lg_closed_trades (rs_ledger s))"

section \<open>The mechanical replay as an upper bound\<close>

text \<open>
  C25. The mechanical decision is the envelope of what any model can do: for the same context and
  thresholds no model output leaves semantic validation with another trade than the mechanical one, which
  is HOLD exactly when the pre-filter would skip the call; suppressed regimes only turn a BUY into a HOLD.
\<close>

theorem mechanical_is_envelope:
  "let md = mechanical_decision context settings {} in
     (\<forall>out. lo_action (sr_output (validate_signal_semantics (service_thresholds settings) context out))
              \<in> {HOLD, md_action md}) \<and>
     (md_action md = HOLD \<longleftrightarrow> should_skip_llm (service_thresholds settings) context) \<and>
     md_action (mechanical_decision context settings regimes) =
       (if md_action md = BUY \<and> md_regime md \<in> regimes then HOLD else md_action md)"
proof -
  let ?th = "service_thresholds settings"
  let ?r = "\<lambda>out. lo_action (sr_output (validate_signal_semantics ?th context out))"
  let ?stub = "stub_output (pc_has_open_position (rq_position_context (mc_request context)))"
  have flat: "hard_loss ?th (rq_position_context (mc_request context)) \<Longrightarrow>
      pc_has_open_position (rq_position_context (mc_request context))"
    by (simp add: hard_loss_def)
  have bar: "exit_allowed ?th context \<Longrightarrow> pc_has_open_position (rq_position_context (mc_request context))"
    "entry_allowed context \<Longrightarrow> \<not> pc_has_open_position (rq_position_context (mc_request context))"
    by (simp_all add: exit_allowed_def entry_allowed_def Let_def)
  have md: "md_action (mechanical_decision context settings {}) = ?r ?stub"
    by (simp add: mechanical_decision_def Let_def)
  have sell: "?r ?stub = SELL \<longleftrightarrow> hard_loss ?th (rq_position_context (mc_request context)) \<or> exit_allowed ?th context"
    and buy: "?r ?stub = BUY \<longleftrightarrow> entry_allowed context"
    using flat bar by (auto simp: semantic_action stub_output_def)
  have "?r out \<in> {HOLD, ?r ?stub}" for out
  proof (cases "?r out")
    case BUY
    then have "?r ?stub = BUY" unfolding buy by (simp add: semantic_action)
    with BUY show ?thesis by simp
  next
    case SELL
    then have "?r ?stub = SELL" unfolding sell by (auto simp: semantic_action)
    with SELL show ?thesis by simp
  qed simp
  moreover have "?r ?stub = HOLD \<longleftrightarrow> should_skip_llm ?th context"
    unfolding action_cases[of "?r ?stub"] sell buy by (auto simp: prefilter_skips_iff)
  ultimately show ?thesis
    unfolding Let_def md by (simp add: mechanical_decision_def Let_def)
qed

section \<open>No look-ahead\<close>

definition state_extends :: "mechanical_setup \<Rightarrow> replay_state \<Rightarrow> replay_state \<Rightarrow> bool" where
  "state_extends su s s' \<longleftrightarrow>
     ledger_run (wk_risk su) (rs_ledger s) (rs_ledger s') \<and> prefix (rs_rows s) (rs_rows s')"

lemma carry_entry_dims_kept [simp]:
  "rs_ledger (carry_entry_dims key symbol s) = rs_ledger s"
  "rs_rows (carry_entry_dims key symbol s) = rs_rows s"
  by (simp_all add: carry_entry_dims_def)

lemma state_extends_trans: "state_extends su s s' \<Longrightarrow> state_extends su s' s'' \<Longrightarrow> state_extends su s s''"
  by (auto simp: state_extends_def intro: ledger_run_trans prefix_order.trans)

lemma state_extends_refl: "state_extends su s s"
  by (simp add: state_extends_def ledger_run.start)

lemma static_exit_step_extends:
  assumes "static_exit_step H now e s = Inr s'"
  shows "state_extends su s s'"
proof -
  obtain symbol i where e: "e = (symbol, i)" by fastforce
  obtain res L where run: "check_static_exit symbol (the (map_of H symbol) ! nat i) now (rs_ledger s) = (res, L)"
    by fastforce
  have "ledger_run (wk_risk su) (rs_ledger s) L"
    using ledger_run_step[OF ledger_step.static] run by (metis snd_conv)
  with assms run show ?thesis
    by (auto simp: static_exit_step_def e state_extends_def split: sum.splits option.splits)
qed

lemma act_on_decision_extends:
  assumes "act_on_decision su symbol now view decision x s = Inr (res, s')" "sv_symbol view = symbol"
  shows "ledger_run (wk_risk su) (rs_ledger s) (rs_ledger s') \<and> rs_rows s' = rs_rows s"
proof -
  have entry: "ledger_run (wk_risk su) (rs_ledger s) L"
    if "apply_entry symbol view (wk_risk su) now (dec_of_float x) (rs_ledger s) = (r, L)" for r L
    using ledger_run_step[OF ledger_step.entry[OF assms(2)]] that by (metis snd_conv)
  have "ledger_run (wk_risk su) (rs_ledger s) L"
    if "apply_exit_signal symbol view (wk_risk su) now (dec_of_float x) (rs_ledger s) = (r, L)" for r L
    using ledger_run_step[OF ledger_step.exit_signal] that by (metis snd_conv)
  with assms(1) entry show ?thesis
    by (auto simp: act_on_decision_def Let_def ledger_run.start split: option.splits if_splits prod.splits sum.splits)
qed

lemma decision_step_extends:
  assumes "decision_step su H close_ts e s = Inr s'"
  shows "state_extends su s s'"
proof -
  obtain symbol i where e: "e = (symbol, i)" by fastforce
  from assms obtain view decision x res t where
    a: "act_on_decision su symbol (close_ts * 1000) view decision x s = Inr (res, t)" "sv_symbol view = symbol"
    and s': "rs_ledger s' = rs_ledger t" "\<exists>row. rs_rows s' = rs_rows t @ [row]"
    by (auto simp: decision_step_def e Let_def replay_view_def split: if_splits)
  from act_on_decision_extends[OF a] s' show ?thesis by (auto simp: state_extends_def)
qed

lemma mechanical_group_extends:
  assumes "mechanical_group su H g s = Inr s'"
  shows "state_extends su s s'"
proof -
  obtain t events where g: "g = (t, events)" by fastforce
  from assms obtain s1 where
    s1: "run_steps (static_exit_step H (t * 1000)) events s = Inr s1"
      "run_steps (decision_step su H t) events s1 = Inr s'"
    by (auto simp: mechanical_group_def g)
  have "state_extends su s s1"
    by (rule run_steps_rel[OF _ state_extends_refl state_extends_trans s1(1)]) (rule static_exit_step_extends)
  moreover have "state_extends su s1 s'"
    by (rule run_steps_rel[OF _ state_extends_refl state_extends_trans s1(2)]) (rule decision_step_extends)
  ultimately show ?thesis by (rule state_extends_trans)
qed

lemma mechanical_group_local:
  assumes "1 \<le> wk_lookback su" "\<And>e. e \<in> set (snd g) \<Longrightarrow> wk_lookback su - 1 \<le> snd e \<and> agree_at H H' e"
  shows "mechanical_group su H g s = mechanical_group su H' g s"
proof -
  obtain t events where g: "g = (t, events)" by fastforce
  have at: "0 \<le> i \<and> agree_at H H' (symbol, i)" if "(symbol, i) \<in> set events" for symbol i
    using assms(2)[of "(symbol, i)"] assms(1) that g by simp
  have "static_exit_step H now e s = static_exit_step H' now e s" if "e \<in> set events" for e now s
    using agree_at_last(1) at that by (cases e) (fastforce simp: static_exit_step_def)
  then have static: "run_steps (static_exit_step H (t * 1000)) events = run_steps (static_exit_step H' (t * 1000)) events"
    by (intro ext run_steps_cong)
  have "decision_step su H t e s = decision_step su H' t e s" if "e \<in> set events" for e s
  proof -
    obtain symbol i where e: "e = (symbol, i)" by fastforce
    from at that e have a: "agree_at H H' (symbol, i)" "0 \<le> i" by auto
    show ?thesis unfolding e decision_step_def prod.case Let_def agree_at_last[OF a] ..
  qed
  then have "run_steps (decision_step su H t) events = run_steps (decision_step su H' t) events"
    by (intro ext run_steps_cong)
  with static show ?thesis unfolding g mechanical_group_def prod.case by simp
qed

interpretation mechanical: candle_walk mechanical_group wk_timeframe_ms wk_lookback 1 state_extends
proof unfold_locales
  show "state_extends su s s'" if "mechanical_group su H g s = Inr s'" for su H g s s'
    using that by (rule mechanical_group_extends)
  show "state_extends su s s" for su s by (rule state_extends_refl)
  show "state_extends su s s''" if "state_extends su s s'" "state_extends su s' s''" for su s s' s''
    using that by (rule state_extends_trans)
qed (rule mechanical_group_local)

text \<open>
  C26. The mechanical replay does not look ahead: for evenly spaced histories that agree on all that was
  known before time T, closed candles in full and the open of the candle still running, a replay of the
  second history up to any later date has, at T, decided and traded exactly as the replay of the first
  one that ends at T; what it did later is only added, as further steps of the same ledger.
\<close>

theorem replay_never_looks_ahead:
  assumes "same_past (wk_timeframe_ms su) T H H'" "0 < wk_timeframe_ms su" "1 \<le> wk_lookback su" "T \<le> T'"
    and "mechanical_run su start T' H' L = Inr s'"
  shows "\<exists>s. mechanical_run su start T H L = Inr s \<and> prefix (rs_rows s) (rs_rows s') \<and>
    prefix (lg_closed_trades (rs_ledger s)) (lg_closed_trades (rs_ledger s')) \<and>
    ledger_run (wk_risk su) (rs_ledger s) (rs_ledger s')"
  using mechanical.no_lookahead[OF assms(1-3,3,4) assms(5)[unfolded mechanical_run_def]]
  unfolding mechanical_run_def by (auto simp: state_extends_def dest: ledger_run_adds)

text \<open>With every regime suppressed a flat ledger stays flat and every decision is a HOLD.\<close>

lemma suppressed_step:
  assumes "mr_suppress su = UNIV" "lg_positions (rs_ledger s) = []" "SymbolStr symbol" "wk_timeframe su = ''5m''"
  shows "\<exists>row. decision_step su H t (symbol, i) s = Inr (s\<lparr>rs_rows := rs_rows s @ [row]\<rparr>)"
proof -
  have hold: "md_action (mechanical_decision ctx (mr_settings su) (mr_suppress su)) \<noteq> BUY" for ctx
    using assms(1) by (simp add: mechanical_decision_def Let_def)
  show ?thesis
    using assms(2-4) hold
    by (auto simp: decision_step_def marked_position_def act_on_decision_def request_ok_def replay_request_def Let_def)
qed

lemma suppressed_group:
  assumes "mr_suppress su = UNIV" "lg_positions (rs_ledger s) = []" "SymbolStr symbol" "wk_timeframe su = ''5m''"
  shows "\<exists>row. mechanical_group su H (t, [(symbol, i)]) s = Inr (s\<lparr>rs_rows := rs_rows s @ [row]\<rparr>)"
  using suppressed_step[OF assms, of H t i] assms(2)
  by (simp add: mechanical_group_def static_exit_step_def check_static_exit_def)

definition sample_setup :: mechanical_setup where
  "sample_setup = \<lparr>wk_timeframe = ''5m'', wk_timeframe_ms = 300000, wk_lookback = 2, wk_ohlcv_window = 2,
     wk_pandas = sc_pandas sample_scheduler, wk_risk = RiskConfig_defaults,
     mr_settings = LLMServiceSettings_defaults, mr_suppress = UNIV\<rparr>"

definition sample_history :: "ohlcv list \<Rightarrow> candle_history" where
  "sample_history cs = [(''BTC/USDT'', [sample_candle 0 100, sample_candle 300000 102] @ cs)]"

theorem replay_never_looks_ahead_witness:
  "\<exists>s s'. mechanical_run sample_setup 0 600001 (sample_history [sample_candle 600000 102])
       (fresh_ledger 10000 (1 / 1000) 0 False False) = Inr s \<and>
     mechanical_run sample_setup 0 900001
       (sample_history [(sample_candle 600000 102)\<lparr>oc_l := 5, oc_c := 90\<rparr>, sample_candle 900000 7])
       (fresh_ledger 10000 (1 / 1000) 0 False False) = Inr s' \<and>
     length (rs_rows s') = 2 \<and> prefix (rs_rows s) (rs_rows s')"
proof -
  let ?L = "fresh_ledger 10000 (1 / 1000) 0 False False"
  let ?H = "sample_history [sample_candle 600000 102]"
  let ?H' = "sample_history [(sample_candle 600000 102)\<lparr>oc_l := 5, oc_c := 90\<rparr>, sample_candle 900000 7]"
  have groups: "group_events (replay_events 300000 2 0 900001 ?H') =
    [(600000, [(''BTC/USDT'', 1)]), (900000, [(''BTC/USDT'', 2)])]" by code_simp
  have past: "same_past 300000 600001 ?H ?H'"
    by (simp add: same_past_def sample_history_def spaced_def known_before_def seen_def sample_candle_def)
  have su: "mr_suppress sample_setup = UNIV" "wk_timeframe sample_setup = ''5m''" "SymbolStr ''BTC/USDT''"
    by (simp add: sample_setup_def, simp add: sample_setup_def, code_simp)
  let ?s = "initial_state ?L"
  have flat: "lg_positions (rs_ledger ?s) = []" by (simp add: initial_state_def fresh_ledger_def)
  obtain r1 where r1: "mechanical_group sample_setup ?H' (600000, [(''BTC/USDT'', 1)]) ?s =
     Inr (?s\<lparr>rs_rows := [r1]\<rparr>)"
    using suppressed_group[OF su(1) flat su(3,2), of ?H' 600000 1] by (auto simp: initial_state_def)
  obtain r2 where r2: "mechanical_group sample_setup ?H' (900000, [(''BTC/USDT'', 2)]) (?s\<lparr>rs_rows := [r1]\<rparr>) =
     Inr (?s\<lparr>rs_rows := [r1, r2]\<rparr>)"
    using suppressed_group[OF su(1) _ su(3,2), of "?s\<lparr>rs_rows := [r1]\<rparr>" ?H' 900000 2] flat by auto
  have run: "mechanical_run sample_setup 0 900001 ?H' ?L = Inr (?s\<lparr>rs_rows := [r1, r2]\<rparr>)"
    unfolding mechanical_run_def walk_candles_def
    using groups r1 r2 by (simp add: sample_setup_def)
  show ?thesis
    using replay_never_looks_ahead[of sample_setup 600001 ?H ?H' 900001, OF _ _ _ _ run] past run
    by (auto simp: sample_setup_def)
qed

end
