(* ===== verification/Replay.thy ===== *)
theory Replay
  imports Replay_Walk Cycle_Properties
begin

text \<open>
  \<open>scripts/backtest/replay.py\<close>: the walk over historical candles that asks a running LLM service for
  every decision and keeps its answers in a cache.  The service is a parameter, a function of the
  requests it has answered in this run and of the new one; the calls of a group are made in its order
  (the default concurrency is one).  Fetching the history, the command line, the CSV files and the
  printed summary are not modelled.
\<close>

section \<open>Asking the service\<close>

record llm_setup = walk_setup +
  lr_endpoint :: "AnalyzeRequest list \<Rightarrow> AnalyzeRequest \<Rightarrow> llm_result http_reply"

datatype replay_outcome = No_trade | Opened | Closed | Refused "RejectionReason option"

record llm_row =
  lw_timestamp :: datetime
  lw_symbol :: string
  lw_action :: Action
  lw_confidence :: rat
  lw_cache_hit :: bool
  lw_outcome :: replay_outcome

text \<open>\<open>lr_cache\<close> is the table \<open>analyze_cache\<close>, \<open>lr_calls\<close> the requests posted so far, the newest first.\<close>

record llm_state =
  lr_ledger :: Ledger
  lr_cache :: "(AnalyzeRequest \<times> llm_result) list"
  lr_calls :: "AnalyzeRequest list"
  lr_rows :: "llm_row list"

definition call_analyze ::
    "('x) llm_setup_scheme \<Rightarrow> AnalyzeRequest \<Rightarrow> llm_state \<Rightarrow> (llm_result \<times> bool) \<times> llm_state" where
  "call_analyze su payload s =
     (case map_of (lr_cache s) payload of
        Some cached \<Rightarrow> ((cached, True), s)
      | None \<Rightarrow>
          let s' = s\<lparr>lr_calls := payload # lr_calls s\<rparr>
          in case lr_endpoint su (lr_calls s) payload of
               Body r \<Rightarrow> ((r, False), s'\<lparr>lr_cache := AList.update payload r (lr_cache s)\<rparr>)
             | _ \<Rightarrow> ((unreachable_result, False), s'))"

text \<open>\<open>xs[i]\<close> of a list, with Python's reading of a negative index.\<close>

definition py_index :: "'a list \<Rightarrow> int \<Rightarrow> 'a" where
  "py_index xs i = xs ! nat (if i < 0 then i + int (length xs) else i)"

definition replay_sentiment :: "ohlcv \<Rightarrow> rat \<Rightarrow> Indicators \<Rightarrow> py_error + MarketSentiment" where
  "replay_sentiment lt previous_close indicators =
     bind_res (flt_div (flt (oc_c lt - previous_close)) previous_close) (\<lambda>change.
     bind_res (make_snapshot (indicator_snapshot lt change indicators)) (\<lambda>snapshot.
       classify_sentiment default_sentiment_providers SentimentWeights snapshot))"

record llm_answer_row =
  la_symbol :: string
  la_index :: int
  la_indicators :: Indicators
  la_latest :: ohlcv
  la_data :: llm_result
  la_cache_hit :: bool

text \<open>\<open>build_and_call\<close>\<close>

definition build_and_call ::
    "llm_setup \<Rightarrow> candle_history \<Rightarrow> int \<Rightarrow> string \<times> int \<Rightarrow> llm_state \<times> llm_answer_row list
     \<Rightarrow> py_error + llm_state \<times> llm_answer_row list" where
  "build_and_call su candles_by_symbol close_ts e sr =
     (case (e, sr) of ((symbol, i), (s, results)) \<Rightarrow>
        let candles = the (map_of candles_by_symbol symbol);
            window = replay_window (wk_lookback su) i candles;
            indicators = the (compute_indicators (wk_pandas su) window);
            lt = candles ! nat i;
            previous_close = oc_c (py_index candles (i - 1))
        in bind_res (replay_sentiment lt previous_close indicators) (\<lambda>sentiment.
           bind_res (marked_position (oc_c lt) (map_of (lg_positions (lr_ledger s)) symbol)) (\<lambda>position.
             let payload = replay_request su symbol close_ts window indicators (Some sentiment) position;
                 ((data, cache_hit), s) = call_analyze su payload s
             in Inr (s, results @ [\<lparr>la_symbol = symbol, la_index = i, la_indicators = indicators,
                                    la_latest = lt, la_data = data, la_cache_hit = cache_hit\<rparr>]))))"

definition apply_answer ::
    "llm_setup \<Rightarrow> candle_history \<Rightarrow> int \<Rightarrow> llm_answer_row \<Rightarrow> llm_state \<Rightarrow> py_error + llm_state" where
  "apply_answer su candles_by_symbol close_ts a s =
     (let now = close_ts * 1000; symbol = la_symbol a; act = an_action (la_data a);
          candles = the (map_of candles_by_symbol symbol);
          confidence = dec_of_float (an_confidence (la_data a));
          view = replay_view symbol now act confidence (la_latest a) (la_indicators a);
          next_open = dec_of_float (oc_o (candles ! nat (la_index a + 1)));
          held = map_of (lg_positions (lr_ledger s)) symbol;
          row = (\<lambda>result. \<lparr>lw_timestamp = now, lw_symbol = symbol, lw_action = act, lw_confidence = confidence,
                          lw_cache_hit = la_cache_hit a, lw_outcome = result\<rparr>);
          finish = (\<lambda>result L. Inr (s\<lparr>lr_ledger := L, lr_rows := lr_rows s @ [row result]\<rparr>))
      in if act = BUY \<and> held = None
         then (case apply_entry symbol view (wk_risk su) now next_open (lr_ledger s) of
                 (Inl err, _) \<Rightarrow> Inl err
               | (Inr (r, None), L) \<Rightarrow> finish (Refused (rdr_rejection_reason r)) L
               | (Inr (r, Some p), L) \<Rightarrow> finish Opened L)
         else if act = SELL \<and> held \<noteq> None
         then (case apply_exit_signal symbol view (wk_risk su) now next_open (lr_ledger s) of
                 (Inl err, _) \<Rightarrow> Inl err
               | (Inr (r, None), L) \<Rightarrow> finish (Refused (xdr_rejection_reason r)) L
               | (Inr (r, Some trade), L) \<Rightarrow> finish Closed L)
         else finish No_trade (lr_ledger s))"

definition llm_static_exit ::
    "candle_history \<Rightarrow> datetime \<Rightarrow> string \<times> int \<Rightarrow> llm_state \<Rightarrow> py_error + llm_state" where
  "llm_static_exit candles_by_symbol now e s =
     (case e of (symbol, i) \<Rightarrow>
        (case check_static_exit symbol (the (map_of candles_by_symbol symbol) ! nat i) now (lr_ledger s) of
           (Inl err, _) \<Rightarrow> Inl err
         | (Inr _, L) \<Rightarrow> Inr (s\<lparr>lr_ledger := L\<rparr>)))"

text \<open>One group: the static exits, then every call, then every answer.\<close>

definition llm_group ::
    "llm_setup \<Rightarrow> candle_history \<Rightarrow> event_group \<Rightarrow> llm_state \<Rightarrow> py_error + llm_state" where
  "llm_group su candles_by_symbol g s =
     (case g of (close_ts, events) \<Rightarrow>
        bind_res (run_steps (llm_static_exit candles_by_symbol (close_ts * 1000)) events s) (\<lambda>s.
        bind_res (run_steps (build_and_call su candles_by_symbol close_ts) events (s, [])) (\<lambda>(s, results).
          run_steps (apply_answer su candles_by_symbol close_ts) results s)))"

definition llm_run ::
    "llm_setup \<Rightarrow> int \<Rightarrow> int \<Rightarrow> candle_history \<Rightarrow> llm_state \<Rightarrow> py_error + llm_state" where
  "llm_run su start_ms end_ms candles_by_symbol s =
     walk_candles (llm_group su) (wk_timeframe_ms su) (wk_lookback su) start_ms end_ms candles_by_symbol s"

section \<open>The drawdown of the summary\<close>

definition replay_drawdown_step :: "ClosedTrade \<Rightarrow> rat \<times> rat \<times> rat \<Rightarrow> rat \<times> rat \<times> rat" where
  "replay_drawdown_step trade = (\<lambda>(equity, peak, worst).
     let equity = dec (equity + ct_pnl_usdt trade); peak = max peak equity
     in (equity, peak, if peak > 0 then max worst (dec (dec (peak - equity) / peak)) else worst))"

definition max_drawdown_pct :: "rat \<Rightarrow> ClosedTrade list \<Rightarrow> rat" where
  "max_drawdown_pct starting_equity trades =
     snd (snd (fold replay_drawdown_step (sort_key ct_exit_time trades) (starting_equity, starting_equity, 0)))"

lemma insort_parallel:
  assumes "map f xs = map g ys" "map p xs = map q ys" "f x = g y" "p x = q y"
  shows "map f (insort_key f x xs) = map g (insort_key g y ys) \<and> map p (insort_key f x xs) = map q (insort_key g y ys)"
  using assms(1,2)
proof (induction xs arbitrary: ys)
  case (Cons x' xs)
  then obtain y' zs where "ys = y' # zs" by (cases ys) auto
  with Cons assms(3,4) show ?case by simp
qed (use assms in simp)

lemma sort_parallel:
  assumes "map f xs = map g ys" "map p xs = map q ys"
  shows "map f (sort_key f xs) = map g (sort_key g ys) \<and> map p (sort_key f xs) = map q (sort_key g ys)"
  using assms
proof (induction xs arbitrary: ys)
  case (Cons x xs)
  then obtain y zs where ys: "ys = y # zs" by (cases ys) auto
  with Cons have "map f (sort_key f xs) = map g (sort_key g zs) \<and> map p (sort_key f xs) = map q (sort_key g zs)"
    by simp
  with Cons.prems ys show ?case by (simp add: insort_parallel)
qed simp

lemma fold_replay_drawdown:
  "snd (fold replay_drawdown_step ts (equity, r)) = fold drawdown_step (running_equity equity (map ct_pnl_usdt ts)) r"
proof (induction ts arbitrary: equity r)
  case (Cons t ts)
  obtain peak worst where "r = (peak, worst)" by fastforce
  with Cons show ?case by (simp add: replay_drawdown_step_def drawdown_step_def depth_def Let_def)
qed simp

definition losing_trade :: "datetime \<Rightarrow> rat \<Rightarrow> ClosedTrade" where
  "losing_trade t pnl = \<lparr>ct_symbol = ''BTC/USDT'', ct_entry_time = 0, ct_exit_time = t, ct_entry_price = 100,
     ct_exit_price = 99, ct_size_usdt = 50, ct_pnl_usdt = pnl, ct_pnl_pct = 0, ct_exit_reason = ''trailing_stop'',
     ct_r_multiple = None\<rparr>"

text \<open>
  The replay's own drawdown is the performance engine's: for any trades and positive starting equity,
  the loop of \<open>max_drawdown_pct\<close> gives what \<open>compute_max_drawdown_pct\<close> gives for rows with the same
  closing times and profits; the engine additionally refuses an empty list and a non-positive anchor.
\<close>

theorem replay_drawdown_is_engines:
  assumes "map tr_closed_at rows = map ct_exit_time trades" "map tr_pnl_usdt rows = map ct_pnl_usdt trades"
  shows "compute_max_drawdown_pct rows starting_equity =
    (if trades = [] \<or> starting_equity \<le> 0 then None else Some (max_drawdown_pct starting_equity trades))"
proof -
  have "rows = [] \<longleftrightarrow> trades = []" using assms(1) by (cases rows; cases trades) auto
  moreover have "equity_curve rows starting_equity =
      running_equity starting_equity (map ct_pnl_usdt (sort_key ct_exit_time trades))"
    using sort_parallel[OF assms] by (simp add: equity_curve_def)
  ultimately show ?thesis
    by (simp add: compute_max_drawdown_pct_def max_drawdown_pct_def fold_replay_drawdown)
qed

theorem replay_drawdown_is_engines_witness:
  "compute_max_drawdown_pct
     (map (\<lambda>t. (sample_trade (ct_pnl_usdt t) (ct_exit_time t) None)) [losing_trade 20 (- 5), losing_trade 10 3]) 100 =
   Some (max_drawdown_pct 100 [losing_trade 20 (- 5), losing_trade 10 3])"
  by (subst replay_drawdown_is_engines[of _ "[losing_trade 20 (- 5), losing_trade 10 3]"])
     (simp_all add: sample_trade_def losing_trade_def)

section \<open>A replay from the cache\<close>

text \<open>The state of a second replay, which has the answers \<open>C\<close> and has asked nothing.\<close>

definition warm :: "(AnalyzeRequest \<times> llm_result) list \<Rightarrow> llm_state \<Rightarrow> llm_state" where
  "warm C s = s\<lparr>lr_cache := C, lr_calls := [], lr_rows := map (\<lambda>r. r\<lparr>lw_cache_hit := True\<rparr>) (lr_rows s)\<rparr>"

definition kept_answers :: "llm_state \<Rightarrow> llm_state \<Rightarrow> bool" where
  "kept_answers s s' \<longleftrightarrow> map_of (lr_cache s) \<subseteq>\<^sub>m map_of (lr_cache s')"

lemma kept_answers_refl [simp]: "kept_answers s s"
  by (simp add: kept_answers_def)

lemma kept_answers_trans: "kept_answers s s' \<Longrightarrow> kept_answers s' s'' \<Longrightarrow> kept_answers s s''"
  by (auto simp: kept_answers_def intro: map_le_trans)

lemma warm_sel [simp]:
  "lr_ledger (warm C s) = lr_ledger s" "lr_cache (warm C s) = C" "lr_calls (warm C s) = []"
  "lr_rows (warm C s) = map (\<lambda>r. r\<lparr>lw_cache_hit := True\<rparr>) (lr_rows s)"
  by (simp_all add: warm_def)

lemma warm_ledger [simp]: "warm C (s\<lparr>lr_ledger := L\<rparr>) = (warm C s)\<lparr>lr_ledger := L\<rparr>"
  by (simp add: warm_def)

lemma call_analyze_keeps:
  assumes "call_analyze su payload s = (r, s')"
  shows "kept_answers s s' \<and> lr_ledger s' = lr_ledger s \<and> lr_rows s' = lr_rows s"
  using assms
  by (auto simp: call_analyze_def Let_def kept_answers_def map_le_def update_conv'
      split: option.splits http_reply.splits)

lemma call_analyze_warm:
  assumes "call_analyze su payload s = ((data, hit), s')" "\<And>h rq. \<exists>r. lr_endpoint su h rq = Body r"
    and "map_of (lr_cache s') \<subseteq>\<^sub>m map_of C"
  shows "call_analyze su' payload (warm C s) = ((data, True), warm C s')"
proof -
  have "map_of (lr_cache s') payload = Some data \<and> warm C s' = warm C s"
  proof (cases "map_of (lr_cache s) payload")
    case None
    obtain r where "lr_endpoint su (lr_calls s) payload = Body r" using assms(2) by blast
    with None assms(1) show ?thesis
      by (auto simp: call_analyze_def Let_def update_conv' warm_def)
  qed (use assms(1) in \<open>simp add: call_analyze_def\<close>)
  with assms(3) have "map_of C payload = Some data" "warm C s' = warm C s"
    by (auto simp: map_le_def dom_def)
  then show ?thesis by (simp add: call_analyze_def)
qed

lemma run_steps_sim:
  assumes "run_steps f xs s = Inr s'" "\<And>e s s'. f e s = Inr s' \<Longrightarrow> le s s'" "\<And>s. le s s"
    and "\<And>a b c. le a b \<Longrightarrow> le b c \<Longrightarrow> le a c"
    and "\<And>e s s1. f e s = Inr s1 \<Longrightarrow> le s1 s' \<Longrightarrow> g (k e) (h s) = Inr (h s1)"
  shows "run_steps g (map k xs) (h s) = Inr (h s')"
  using assms(1)
proof (induction xs arbitrary: s)
  case (Cons e es)
  then obtain s1 where s1: "f e s = Inr s1" "run_steps f es s1 = Inr s'" by auto
  have "le s1 s'" by (rule run_steps_rel[of es f le, OF assms(2) assms(3,4) s1(2)])
  with assms(5)[OF s1(1)] Cons.IH[OF s1(2)] show ?case by simp
qed simp

text \<open>What a step of the walk adds: steps of the ledger, rows and answers.\<close>

definition llm_extends :: "llm_setup \<Rightarrow> llm_state \<Rightarrow> llm_state \<Rightarrow> bool" where
  "llm_extends su s s' \<longleftrightarrow>
     ledger_run (wk_risk su) (lr_ledger s) (lr_ledger s') \<and> prefix (lr_rows s) (lr_rows s') \<and> kept_answers s s'"

lemma llm_extends_refl: "llm_extends su s s"
  by (simp add: llm_extends_def ledger_run.start)

lemma llm_extends_trans: "llm_extends su s s' \<Longrightarrow> llm_extends su s' s'' \<Longrightarrow> llm_extends su s s''"
  by (auto simp: llm_extends_def intro: ledger_run_trans prefix_order.trans kept_answers_trans)

lemma llm_static_exit_extends: "llm_static_exit H now e s = Inr s' \<Longrightarrow> llm_extends su s s'"
proof -
  assume a: "llm_static_exit H now e s = Inr s'"
  obtain symbol i where e: "e = (symbol, i)" by fastforce
  obtain res L where run: "check_static_exit symbol (the (map_of H symbol) ! nat i) now (lr_ledger s) = (res, L)"
    by fastforce
  have "ledger_run (wk_risk su) (lr_ledger s) L"
    using ledger_run_step[OF ledger_step.static] run by (metis snd_conv)
  with a run show ?thesis
    by (auto simp: llm_static_exit_def e llm_extends_def kept_answers_def split: sum.splits)
qed

lemma build_and_call_cases:
  assumes "build_and_call su H t (symbol, i) (s, rs) = Inr (s', rs')"
  obtains ind sentiment position data hit where
    "ind = the (compute_indicators (wk_pandas su) (replay_window (wk_lookback su) i (the (map_of H symbol))))"
    "replay_sentiment (the (map_of H symbol) ! nat i) (oc_c (py_index (the (map_of H symbol)) (i - 1))) ind = Inr sentiment"
    "marked_position (oc_c (the (map_of H symbol) ! nat i)) (map_of (lg_positions (lr_ledger s)) symbol) = Inr position"
    "call_analyze su (replay_request su symbol t (replay_window (wk_lookback su) i (the (map_of H symbol))) ind
       (Some sentiment) position) s = ((data, hit), s')"
    "rs' = rs @ [\<lparr>la_symbol = symbol, la_index = i, la_indicators = ind, la_latest = the (map_of H symbol) ! nat i,
                la_data = data, la_cache_hit = hit\<rparr>]"
proof -
  define ind where "ind = the (compute_indicators (wk_pandas su)
    (replay_window (wk_lookback su) i (the (map_of H symbol))))"
  obtain sentiment position where ok:
    "replay_sentiment (the (map_of H symbol) ! nat i) (oc_c (py_index (the (map_of H symbol)) (i - 1))) ind = Inr sentiment"
    "marked_position (oc_c (the (map_of H symbol) ! nat i)) (map_of (lg_positions (lr_ledger s)) symbol) = Inr position"
    using assms unfolding build_and_call_def prod.case Let_def ind_def[symmetric] bind_res_Inr by blast
  obtain data hit s2 where call: "call_analyze su (replay_request su symbol t
      (replay_window (wk_lookback su) i (the (map_of H symbol))) ind (Some sentiment) position) s = ((data, hit), s2)"
    by (metis surj_pair)
  have "s2 = s'" "rs' = rs @ [\<lparr>la_symbol = symbol, la_index = i, la_indicators = ind,
      la_latest = the (map_of H symbol) ! nat i, la_data = data, la_cache_hit = hit\<rparr>]"
    using assms unfolding build_and_call_def prod.case Let_def ind_def[symmetric] ok bind_res.simps call by auto
  with ind_def ok call show thesis by (intro that) auto
qed

lemma build_and_call_extends:
  assumes "build_and_call su H t e (s, rs) = Inr (s', rs')"
  shows "llm_extends su s s'"
proof -
  obtain symbol i where "e = (symbol, i)" by fastforce
  with assms obtain payload data hit where "call_analyze su payload s = ((data, hit), s')"
    using build_and_call_cases by metis
  then show ?thesis by (auto simp: llm_extends_def ledger_run.start dest!: call_analyze_keeps)
qed

lemma apply_answer_extends:
  assumes "apply_answer su H t a s = Inr s'"
  shows "llm_extends su s s'"
proof -
  define view where "view = replay_view (la_symbol a) (t * 1000) (an_action (la_data a))
    (dec_of_float (an_confidence (la_data a))) (la_latest a) (la_indicators a)"
  have v: "sv_symbol view = la_symbol a" by (simp add: view_def replay_view_def)
  have "ledger_run (wk_risk su) (lr_ledger s) L"
    if "apply_entry (la_symbol a) view (wk_risk su) (t * 1000) x (lr_ledger s) = (r, L)" for r L x
    using ledger_run_step[OF ledger_step.entry[OF v]] that by (metis snd_conv)
  moreover have "ledger_run (wk_risk su) (lr_ledger s) L"
    if "apply_exit_signal (la_symbol a) view (wk_risk su) (t * 1000) x (lr_ledger s) = (r, L)" for r L x
    using ledger_run_step[OF ledger_step.exit_signal] that by (metis snd_conv)
  ultimately show ?thesis
    using assms unfolding apply_answer_def Let_def view_def[symmetric]
    by (auto simp: llm_extends_def kept_answers_def ledger_run.start
        split: if_splits prod.splits sum.splits option.splits)
qed

lemma llm_group_extends:
  assumes "llm_group su H g s = Inr s'"
  shows "llm_extends su s s'"
proof -
  obtain t events where g: "g = (t, events)" by fastforce
  from assms obtain s1 s2 rs where
    s: "run_steps (llm_static_exit H (t * 1000)) events s = Inr s1"
      "run_steps (build_and_call su H t) events (s1, []) = Inr (s2, rs)"
      "run_steps (apply_answer su H t) rs s2 = Inr s'"
    by (auto simp: llm_group_def g)
  have "llm_extends su s s1"
    by (rule run_steps_rel[OF _ llm_extends_refl llm_extends_trans s(1)]) (rule llm_static_exit_extends)
  moreover have "llm_extends su (fst (s1, [] :: llm_answer_row list)) (fst (s2, rs))"
    by (rule run_steps_rel[where le = "\<lambda>p q. llm_extends su (fst p) (fst q)", OF _ _ _ s(2)])
       (auto intro: llm_extends_refl llm_extends_trans build_and_call_extends)
  moreover have "llm_extends su s2 s'"
    by (rule run_steps_rel[OF _ llm_extends_refl llm_extends_trans s(3)]) (rule apply_answer_extends)
  ultimately show ?thesis by (auto intro: llm_extends_trans)
qed

lemma build_and_call_warm:
  assumes "build_and_call su H t e (s, rs) = Inr (s', rs')" "\<And>h rq. \<exists>r. lr_endpoint su h rq = Body r"
    and "map_of (lr_cache s') \<subseteq>\<^sub>m map_of C"
  shows "build_and_call (su\<lparr>lr_endpoint := f\<rparr>) H t e (warm C s, map (la_cache_hit_update (\<lambda>_. True)) rs) =
    Inr (warm C s', map (la_cache_hit_update (\<lambda>_. True)) rs')"
proof -
  obtain symbol i where e: "e = (symbol, i)" by fastforce
  have payload: "replay_request (su\<lparr>lr_endpoint := f\<rparr>) = replay_request su"
    by (intro ext) (simp add: replay_request_def)
  from assms(1)[unfolded e] show ?thesis
  proof (cases rule: build_and_call_cases)
    case (1 ind sentiment position data hit)
    note warm = call_analyze_warm[OF 1(4) assms(2,3), of "su\<lparr>lr_endpoint := f\<rparr>"]
    show ?thesis
      using 1(2,3,5) warm by (simp add: e build_and_call_def payload 1(1)[symmetric] Let_def)
  qed
qed

lemma apply_answer_warm:
  assumes "apply_answer su H t a s = Inr s'"
  shows "apply_answer (su\<lparr>lr_endpoint := f\<rparr>) H t (a\<lparr>la_cache_hit := True\<rparr>) (warm C s) = Inr (warm C s')"
  using assms unfolding apply_answer_def Let_def
  by (auto simp: warm_def split: if_splits prod.splits sum.splits option.splits)

lemma llm_static_exit_warm:
  assumes "llm_static_exit H now e s = Inr s'"
  shows "llm_static_exit H now e (warm C s) = Inr (warm C s')"
  using assms by (auto simp: llm_static_exit_def split: prod.splits sum.splits)

lemma llm_group_warm:
  assumes "llm_group su H g s = Inr s'" "\<And>h rq. \<exists>r. lr_endpoint su h rq = Body r"
    and "map_of (lr_cache s') \<subseteq>\<^sub>m map_of C"
  shows "llm_group (su\<lparr>lr_endpoint := f\<rparr>) H g (warm C s) = Inr (warm C s')"
proof -
  let ?hit = "la_cache_hit_update (\<lambda>_. True)"
  let ?le = "\<lambda>p q. llm_extends su (fst p) (fst q)"
  let ?warm = "\<lambda>p. (warm C (fst p), map ?hit (snd p))"
  obtain t events where g: "g = (t, events)" by fastforce
  from assms(1) obtain s1 s2 rs where
    s: "run_steps (llm_static_exit H (t * 1000)) events s = Inr s1"
      "run_steps (build_and_call su H t) events (s1, []) = Inr (s2, rs)"
      "run_steps (apply_answer su H t) rs s2 = Inr s'"
    by (auto simp: llm_group_def g)
  have "llm_extends su s2 s'"
    by (rule run_steps_rel[OF _ llm_extends_refl llm_extends_trans s(3)]) (rule apply_answer_extends)
  then have C: "map_of (lr_cache s2) \<subseteq>\<^sub>m map_of C"
    using assms(3) by (auto simp: llm_extends_def kept_answers_def intro: map_le_trans)
  have "run_steps (llm_static_exit H (t * 1000)) (map (\<lambda>e. e) events) (warm C s) = Inr (warm C s1)"
    by (rule run_steps_sim[where le = "\<lambda>_ _. True", OF s(1)]) (auto intro: llm_static_exit_warm)
  moreover have "run_steps (build_and_call (su\<lparr>lr_endpoint := f\<rparr>) H t) (map (\<lambda>e. e) events) (?warm (s1, [])) =
    Inr (?warm (s2, rs))"
  proof (rule run_steps_sim[where le = ?le, OF s(2)])
    fix e p q
    assume run: "build_and_call su H t e p = Inr q" and le: "?le q (s2, rs)"
    then have "map_of (lr_cache (fst q)) \<subseteq>\<^sub>m map_of C"
      using C by (auto simp: llm_extends_def kept_answers_def intro: map_le_trans)
    from build_and_call_warm[OF _ assms(2) this, of H t e "fst p" "snd p" "snd q" f] run
    show "build_and_call (su\<lparr>lr_endpoint := f\<rparr>) H t e (?warm p) = Inr (?warm q)" by simp
  qed (auto intro: llm_extends_refl llm_extends_trans build_and_call_extends)
  moreover have "run_steps (apply_answer (su\<lparr>lr_endpoint := f\<rparr>) H t) (map ?hit rs) (warm C s2) = Inr (warm C s')"
    by (rule run_steps_sim[where le = "\<lambda>_ _. True", OF s(3)]) (auto intro: apply_answer_warm)
  ultimately show ?thesis by (simp add: llm_group_def g)
qed

text \<open>
  C27. A replay can be repeated from its cache: if every call of a replay was answered, a second replay of
  the same candles with the answers the first one stored asks the service nothing, whatever the service
  would say now, and reaches the same ledger and the same rows, all of them marked as cache hits.
\<close>

theorem replay_from_cache:
  assumes "llm_run su start T H s = Inr s'" "\<And>h rq. \<exists>r. lr_endpoint su h rq = Body r"
    and "lr_rows s = []"
  shows "\<exists>s''. llm_run (su\<lparr>lr_endpoint := f\<rparr>) start T H (s\<lparr>lr_cache := lr_cache s', lr_calls := []\<rparr>) = Inr s'' \<and>
    lr_calls s'' = [] \<and> lr_cache s'' = lr_cache s' \<and> lr_ledger s'' = lr_ledger s' \<and>
    lr_rows s'' = map (\<lambda>r. r\<lparr>lw_cache_hit := True\<rparr>) (lr_rows s')"
proof -
  let ?C = "lr_cache s'"
  have start: "s\<lparr>lr_cache := ?C, lr_calls := []\<rparr> = warm ?C s" using assms(3) by (simp add: warm_def)
  let ?gs = "group_events (replay_events (wk_timeframe_ms su) (wk_lookback su) start T H)"
  have run: "run_steps (llm_group su H) ?gs s = Inr s'"
    using assms(1) by (simp add: llm_run_def walk_candles_def)
  have "run_steps (llm_group (su\<lparr>lr_endpoint := f\<rparr>) H) (map (\<lambda>g. g) ?gs) (warm ?C s) = Inr (warm ?C s')"
  proof (rule run_steps_sim[where le = "llm_extends su", OF run])
    fix g p q
    assume "llm_group su H g p = Inr q" "llm_extends su q s'"
    then show "llm_group (su\<lparr>lr_endpoint := f\<rparr>) H g (warm ?C p) = Inr (warm ?C q)"
      by (intro llm_group_warm[OF _ assms(2)]) (auto simp: llm_extends_def kept_answers_def)
  qed (auto intro: llm_group_extends llm_extends_refl llm_extends_trans)
  then show ?thesis unfolding start by (simp add: llm_run_def walk_candles_def)
qed

definition sample_llm_setup :: llm_setup where
  "sample_llm_setup = \<lparr>wk_timeframe = ''5m'', wk_timeframe_ms = 300000, wk_lookback = 2, wk_ohlcv_window = 2,
     wk_pandas = sc_pandas sample_scheduler, wk_risk = RiskConfig_defaults,
     lr_endpoint = (\<lambda>h rq. Body (unreachable_result\<lparr>an_model_name := ''m''\<rparr>))\<rparr>"

definition sample_llm_state :: llm_state where
  "sample_llm_state = \<lparr>lr_ledger = fresh_ledger 10000 (1 / 1000) 0 False False, lr_cache = [], lr_calls = [], lr_rows = []\<rparr>"

definition sample_llm_history :: candle_history where
  "sample_llm_history = [(''BTC/USDT'', [sample_candle 0 100, sample_candle 300000 102, sample_candle 600000 102])]"

text \<open>One decision, asked of a service that always holds.\<close>

lemma sample_llm_run:
  "\<exists>payload row. llm_run sample_llm_setup 0 700000 sample_llm_history sample_llm_state =
     Inr (sample_llm_state\<lparr>lr_cache := [(payload, unreachable_result\<lparr>an_model_name := ''m''\<rparr>)],
       lr_calls := [payload], lr_rows := [row]\<rparr>)"
proof -
  have groups: "group_events (replay_events 300000 2 0 700000 sample_llm_history) = [(600000, [(''BTC/USDT'', 1)])]"
    by code_simp
  let ?cs = "[sample_candle 0 100, sample_candle 300000 102]"
  let ?ind = "the (compute_indicators (sc_pandas sample_scheduler) ?cs)"
  obtain m where m: "cycle_sentiment ?cs ?ind = Inr m" using sample_sentiment by blast
  have sentiment: "replay_sentiment (sample_candle 300000 102) (oc_c (sample_candle 0 100)) ?ind = Inr m"
    using m by (simp add: cycle_sentiment_def replay_sentiment_def Let_def)
  let ?all = "[sample_candle 0 100, sample_candle 300000 102, sample_candle 600000 102]"
  have at: "the (map_of sample_llm_history ''BTC/USDT'') = ?all" by (simp add: sample_llm_history_def)
  have window: "replay_window 2 1 ?all = ?cs" by (simp add: replay_window_def)
  show ?thesis
    unfolding llm_run_def walk_candles_def
    by (auto simp: sample_llm_setup_def groups llm_group_def llm_static_exit_def check_static_exit_def
        sample_llm_state_def fresh_ledger_def build_and_call_def at window py_index_def sentiment
        marked_position_def call_analyze_def apply_answer_def unreachable_result_def Let_def)
qed

theorem replay_from_cache_witness:
  "\<exists>s' s''. llm_run sample_llm_setup 0 700000 sample_llm_history sample_llm_state = Inr s' \<and>
     length (lr_calls s') = 1 \<and>
     llm_run (sample_llm_setup\<lparr>lr_endpoint := (\<lambda>h rq. HttpError)\<rparr>) 0 700000 sample_llm_history
       (sample_llm_state\<lparr>lr_cache := lr_cache s', lr_calls := []\<rparr>) = Inr s'' \<and>
     lr_calls s'' = [] \<and> length (lr_rows s'') = 1"
proof -
  obtain s' where s': "llm_run sample_llm_setup 0 700000 sample_llm_history sample_llm_state = Inr s'"
    "length (lr_calls s') = 1" "length (lr_rows s') = 1"
    using sample_llm_run by force
  have "\<exists>r. lr_endpoint sample_llm_setup h rq = Body r" for h rq by (simp add: sample_llm_setup_def)
  with replay_from_cache[OF s'(1), of "\<lambda>h rq. HttpError"] s'
  show ?thesis by (fastforce simp: sample_llm_state_def)
qed

section \<open>No look-ahead\<close>

lemma answers_of_events:
  "run_steps (build_and_call su H t) events (s, rs) = Inr (s', rs') \<Longrightarrow>
     map (\<lambda>a. (la_symbol a, la_index a)) rs' = map (\<lambda>a. (la_symbol a, la_index a)) rs @ events"
proof (induction events arbitrary: s rs)
  case (Cons e es)
  from Cons.prems obtain s1 rs1 where run: "build_and_call su H t e (s, rs) = Inr (s1, rs1)"
    "run_steps (build_and_call su H t) es (s1, rs1) = Inr (s', rs')" by auto
  have "map (\<lambda>a. (la_symbol a, la_index a)) rs1 = map (\<lambda>a. (la_symbol a, la_index a)) rs @ [e]"
  proof -
    obtain symbol i where e: "e = (symbol, i)" by fastforce
    from run(1)[unfolded e] show ?thesis by (cases rule: build_and_call_cases) (simp add: e)
  qed
  with Cons.IH[OF run(2)] show ?case by simp
qed simp

lemma llm_group_local:
  assumes "2 \<le> wk_lookback su" "\<And>e. e \<in> set (snd g) \<Longrightarrow> wk_lookback su - 1 \<le> snd e \<and> agree_at H H' e"
  shows "llm_group su H g s = llm_group su H' g s"
proof -
  obtain t events where g: "g = (t, events)" by fastforce
  have at: "agree_at H H' (symbol, i)" "1 \<le> i" if "(symbol, i) \<in> set events" for symbol i
    using assms(2)[of "(symbol, i)"] assms(1) that g by simp_all
  have "llm_static_exit H now e s = llm_static_exit H' now e s" if "e \<in> set events" for e now s
    using agree_at_last(1) at that by (cases e) (fastforce simp: llm_static_exit_def)
  then have static: "run_steps (llm_static_exit H (t * 1000)) events s = run_steps (llm_static_exit H' (t * 1000)) events s"
    by (intro run_steps_cong)
  have "build_and_call su H t e sr = build_and_call su H' t e sr" if "e \<in> set events" for e sr
  proof -
    obtain symbol i where e: "e = (symbol, i)" by fastforce
    with at[of symbol i] that have a: "agree_at H H' (symbol, i)" "0 \<le> i" "0 < i" by auto
    have "py_index (the (map_of H symbol)) (i - 1) = py_index (the (map_of H' symbol)) (i - 1)"
      using agree_at_last(4)[OF a] a(3) by (simp add: py_index_def)
    then show ?thesis unfolding e build_and_call_def prod.case Let_def agree_at_last(1,3)[OF a(1,2)] by simp
  qed
  then have calls: "run_steps (build_and_call su H t) events s' = run_steps (build_and_call su H' t) events s'" for s'
    by (intro run_steps_cong)
  have answers: "run_steps (apply_answer su H t) rs s2 = run_steps (apply_answer su H' t) rs s2"
    if run: "run_steps (build_and_call su H t) events (s1, []) = Inr (s2, rs)" for s1 s2 rs
  proof (rule run_steps_cong)
    fix a s
    assume "a \<in> set rs"
    then have "(la_symbol a, la_index a) \<in> set events" using answers_of_events[OF run] by force
    with at[of "la_symbol a" "la_index a"] have a: "agree_at H H' (la_symbol a, la_index a)" "0 \<le> la_index a" by auto
    show "apply_answer su H t a s = apply_answer su H' t a s"
      unfolding apply_answer_def Let_def agree_at_last(2)[OF a] ..
  qed
  have split: "(case p of (s, rs) \<Rightarrow> run_steps (apply_answer su H t) rs s) =
      (case p of (s, rs) \<Rightarrow> run_steps (apply_answer su H' t) rs s)"
    if "run_steps (build_and_call su H t) events (s1, []) = Inr p" for s1 p
    using answers[of s1 "fst p" "snd p"] that by (cases p) simp
  show ?thesis
    unfolding g llm_group_def prod.case static[symmetric] calls[symmetric]
    by (cases "run_steps (llm_static_exit H (t * 1000)) events s"; simp)
       (rename_tac s1, case_tac "run_steps (build_and_call su H t) events (s1, [])"; simp add: split)
qed

text \<open>With a lookback of one, the previous close of the first candle would be the last of the history.\<close>

interpretation llm: candle_walk llm_group wk_timeframe_ms wk_lookback 2 llm_extends
proof unfold_locales
  show "llm_extends su s s'" if "llm_group su H g s = Inr s'" for su H g s s'
    using that by (rule llm_group_extends)
  show "llm_extends su s s" for su s by (rule llm_extends_refl)
  show "llm_extends su s s''" if "llm_extends su s s'" "llm_extends su s' s''" for su s s' s''
    using that by (rule llm_extends_trans)
qed (rule llm_group_local)

lemma llm_replay_never_looks_ahead:
  assumes "same_past (wk_timeframe_ms su) T H H'" "0 < wk_timeframe_ms su" "2 \<le> wk_lookback su" "T \<le> T'"
    and "llm_run su start T' H' s = Inr s'"
  shows "\<exists>s''. llm_run su start T H s = Inr s'' \<and> llm_extends su s'' s'"
  using llm.no_lookahead[OF assms(1,2) _ assms(3,4)] assms(3,5) by (simp add: llm_run_def)

end
