(* ===== verification/Notifier.thy ===== *)
theory Notifier
  imports World Schedule "HOL-Library.Product_Lexorder" "HOL-Library.Sublist"
begin

text \<open>
  \<open>notifier/app/main.py\<close>, \<open>telegram_client.py\<close>: the relay of audit events to Telegram with its cursor, and
  the control commands that come back.  Telegram and the admin API are parameters, functions of the calls
  made so far; a turn of a polling loop is one step.  A message is kept as the values its text shows.
\<close>

section \<open>Messages\<close>

definition NOTIFY_EVENT_TYPES :: "AuditEventType set" where
  "NOTIFY_EVENT_TYPES =
     {POSITION_OPENED, POSITION_CLOSED, KILLSWITCH_ENABLED, KILLSWITCH_DISABLED, RECONCILIATION_REQUIRED,
      LLM_TIMEOUT_STREAK, LLM_TIMEOUT_RECOVERED}"

datatype exit_label =
    Take_profit | Stop_loss | Atr_stop | Exchange_stop | Trailing_stop | Sell_signal | Manual_sell | Emergency_sell
  | As_is json

definition EXIT_REASON_LABELS :: "(string \<times> exit_label) list" where
  "EXIT_REASON_LABELS =
     [(''roi'', Take_profit), (''minimal_roi'', Take_profit), (''stop_loss'', Stop_loss), (''stoploss'', Stop_loss),
      (''atr_stoploss'', Atr_stop), (''stoploss_on_exchange'', Exchange_stop), (''trailing_stop_loss'', Trailing_stop),
      (''exit_signal'', Sell_signal), (''force_exit'', Manual_sell), (''force_sell'', Manual_sell),
      (''emergency_exit'', Emergency_sell)]"

text \<open>Python's truth value, and \<open>Decimal(str(value))\<close>: a text that spells a number is a \<open>JNum\<close>.\<close>

fun truthy :: "json \<Rightarrow> bool" where
  "truthy JNull = False"
| "truthy (JBool b) = b"
| "truthy (JInt n) = (n \<noteq> 0)"
| "truthy (JStr s) = (s \<noteq> [])"
| "truthy (JObj m) = (m \<noteq> [])"
| "truthy (JArr xs) = (xs \<noteq> [])"
| "truthy _ = True"

fun to_decimal :: "json option \<Rightarrow> rat option" where
  "to_decimal (Some (JNum q)) = Some q"
| "to_decimal (Some (JInt n)) = Some (of_int n)"
| "to_decimal _ = None"

datatype trade_result = Gain | Loss | Even

datatype notification =
    Bought json "rat option" "rat option" "rat option"   \<comment> \<open>pair, price, amount, value\<close>
  | Sold json "trade_result option" "rat option" "rat option" "exit_label option" "rat option"
      \<comment> \<open>pair, sign and size of the profit, R-multiple, reason, fees\<close>
  | Trading_stopped "json option" "json option"
  | Trading_resumed "json option" "json option"
  | Unreconciled json "json option" "json option"
  | Model_silent "json option" "json option" "json option"
  | Model_back "json option"
  | Other_event AuditEventType "(string \<times> json) list"
  | Command_done string
  | Command_failed string

definition get_or :: "(string \<times> json) list \<Rightarrow> json" where
  "get_or p =
     (case map_of p ''pair'' of
        Some v \<Rightarrow> if truthy v then v
                  else (case map_of p ''symbol'' of Some w \<Rightarrow> if truthy w then w else JStr ''?'' | None \<Rightarrow> JStr ''?'')
      | None \<Rightarrow> (case map_of p ''symbol'' of Some w \<Rightarrow> if truthy w then w else JStr ''?'' | None \<Rightarrow> JStr ''?''))"

definition result_of :: "rat \<Rightarrow> trade_result" where
  "result_of pnl = (if pnl > 0 then Gain else if pnl < 0 then Loss else Even)"

definition exit_label_of :: "json \<Rightarrow> exit_label" where
  "exit_label_of reason =
     (case reason of JStr s \<Rightarrow> (case map_of EXIT_REASON_LABELS s of Some l \<Rightarrow> l | None \<Rightarrow> As_is reason) | _ \<Rightarrow> As_is reason)"

definition format_event :: "audit_event \<Rightarrow> notification" where
  "format_event event =
     (let p = aud_payload event; pair = get_or p; val = map_of p
      in case aud_event_type event of
           POSITION_OPENED \<Rightarrow>
             let price = to_decimal (val ''entry_price''); amount = to_decimal (val ''amount'')
             in Bought pair price amount
                  (case (price, amount) of (Some x, Some a) \<Rightarrow> Some (dec (x * a)) | _ \<Rightarrow> None)
         | POSITION_CLOSED \<Rightarrow>
             let pnl = to_decimal (val ''pnl_usdt'')
             in Sold pair (map_option result_of pnl) pnl
                  (if pnl = None then None else to_decimal (val ''r_multiple''))
                  (case val ''exit_reason'' of Some r \<Rightarrow> if truthy r then Some (exit_label_of r) else None | None \<Rightarrow> None)
                  (to_decimal (val ''fees_usdt''))
         | KILLSWITCH_ENABLED \<Rightarrow> Trading_stopped (val ''updated_by'') (val ''reason'')
         | KILLSWITCH_DISABLED \<Rightarrow> Trading_resumed (val ''updated_by'') (val ''reason'')
         | RECONCILIATION_REQUIRED \<Rightarrow> Unreconciled pair (val ''reason'') (val ''order_id'')
         | LLM_TIMEOUT_STREAK \<Rightarrow> Model_silent (val ''streak'') (val ''reason'') (val ''symbol'')
         | LLM_TIMEOUT_RECOVERED \<Rightarrow> Model_back (val ''recovered_after'')
         | t \<Rightarrow> Other_event t p)"

section \<open>The cursor\<close>

record notifier_state =
  nst_last_audit :: "datetime \<times> nat"     \<comment> \<open>\<open>(last_audit_created_at, last_audit_id)\<close>\<close>
  nst_last_telegram_update_id :: "int option"

text \<open>The nil UUID, below every id.\<close>

definition NIL_UUID :: nat where "NIL_UUID = 0"

definition AUDIT_BATCH_SIZE :: nat where "AUDIT_BATCH_SIZE = 50"

text \<open>One attempt to send, with whether Telegram took it.\<close>

type_synonym telegram_log = "(notification \<times> bool) list"

type_synonym telegram = "telegram_log \<Rightarrow> notification \<Rightarrow> bool"

text \<open>\<open>nt_row\<close> is the committed \<open>notifier_state\<close> row, \<open>nt_log\<close> what was sent, oldest first.\<close>

record notifier =
  nt_row :: "notifier_state option"
  nt_log :: telegram_log

definition audit_key :: "audit_event \<Rightarrow> datetime \<times> nat" where
  "audit_key e = (aud_created_at e, aud_id e)"

text \<open>The row, created at the time of the first poll and committed at once; \<open>None\<close> if that commit fails.\<close>

definition get_or_init_state :: "bool \<Rightarrow> datetime \<Rightarrow> notifier \<Rightarrow> notifier_state option \<times> notifier" where
  "get_or_init_state init_ok now n =
     (case nt_row n of
        Some s \<Rightarrow> (Some s, n)
      | None \<Rightarrow>
          let s = \<lparr>nst_last_audit = (now, NIL_UUID), nst_last_telegram_update_id = None\<rparr>
          in if init_ok then (Some s, n\<lparr>nt_row := Some s\<rparr>) else (None, n))"

definition next_events :: "datetime \<times> nat \<Rightarrow> audit_event list \<Rightarrow> audit_event list" where
  "next_events cursor audit =
     take AUDIT_BATCH_SIZE (sort_key audit_key (filter (\<lambda>e. audit_key e > cursor) audit))"

text \<open>The loop over a batch; a failed message ends it with the cursor before the event.\<close>

fun relay_batch :: "telegram \<Rightarrow> audit_event list \<Rightarrow> (datetime \<times> nat) \<times> telegram_log \<Rightarrow> (datetime \<times> nat) \<times> telegram_log" where
  "relay_batch tg [] (cursor, sent) = (cursor, sent)"
| "relay_batch tg (e # es) (cursor, sent) =
     (if aud_event_type e \<in> NOTIFY_EVENT_TYPES
      then let ok = tg sent (format_event e); sent = sent @ [(format_event e, ok)]
           in if ok then relay_batch tg es (audit_key e, sent) else (cursor, sent)
      else relay_batch tg es (audit_key e, sent))"

definition poll_audit_turn ::
    "telegram \<Rightarrow> bool \<Rightarrow> bool \<Rightarrow> datetime \<Rightarrow> audit_event list \<Rightarrow> notifier \<Rightarrow> notifier" where
  "poll_audit_turn tg init_ok commit_ok now audit n =
     (case get_or_init_state init_ok now n of
        (None, n) \<Rightarrow> n
      | (Some s, n) \<Rightarrow>
          (case relay_batch tg (next_events (nst_last_audit s) audit) (nst_last_audit s, nt_log n) of
             (cursor, sent) \<Rightarrow>
               n\<lparr>nt_row := (if commit_ok then Some (s\<lparr>nst_last_audit := cursor\<rparr>) else nt_row n), nt_log := sent\<rparr>))"

section \<open>Commands\<close>

record telegram_update =
  up_update_id :: int
  up_chat_id :: string      \<comment> \<open>\<open>str(chat.get("id", ""))\<close>\<close>
  up_text :: string

datatype admin_call = Killswitch bool string string    \<comment> \<open>enable, reason, updated by\<close>

type_synonym admin_api = "admin_call list \<Rightarrow> admin_call \<Rightarrow> unit http_reply"

record commander =
  cm_notifier :: notifier
  cm_admin :: "admin_call list"

definition first_word :: "string \<Rightarrow> string" where
  "first_word s = takeWhile (\<lambda>c. \<not> is_space c) s"

text \<open>The command a message carries, if it comes from the configured chat.\<close>

definition command_of :: "string \<Rightarrow> telegram_update \<Rightarrow> (string \<times> bool) option" where
  "command_of telegram_chat_id update =
     (if telegram_chat_id = [] \<or> up_chat_id update \<noteq> telegram_chat_id then None
      else let command = first_word (strip (up_text update))
           in if command = ''/killswitch_on'' then Some (command, True)
              else if command = ''/killswitch_off'' then Some (command, False)
              else None)"

definition tell :: "telegram \<Rightarrow> notification \<Rightarrow> commander \<Rightarrow> commander" where
  "tell tg m c =
     c\<lparr>cm_notifier := (cm_notifier c)\<lparr>nt_log := nt_log (cm_notifier c) @ [(m, tg (nt_log (cm_notifier c)) m)]\<rparr>\<rparr>"

text \<open>A good status with a body that is not JSON raises outside the handler.\<close>

definition handle_telegram_update ::
    "admin_api \<Rightarrow> telegram \<Rightarrow> string \<Rightarrow> telegram_update \<Rightarrow> commander \<Rightarrow> (py_error + unit) \<times> commander" where
  "handle_telegram_update admin tg telegram_chat_id update c =
     (case command_of telegram_chat_id update of
        None \<Rightarrow> (Inr (), c)
      | Some (command, enable) \<Rightarrow>
          let call = Killswitch enable ''telegram command'' (''telegram:'' @ up_chat_id update);
              reply = admin (cm_admin c) call;
              c = c\<lparr>cm_admin := cm_admin c @ [call]\<rparr>
          in case reply of
               Body _ \<Rightarrow> (Inr (), tell tg (Command_done command) c)
             | HttpError \<Rightarrow> (Inr (), tell tg (Command_failed command) c)
             | MalformedBody \<Rightarrow> (Inl ValueError, c))"

fun handle_updates ::
    "admin_api \<Rightarrow> telegram \<Rightarrow> string \<Rightarrow> telegram_update list \<Rightarrow> int option \<times> commander
     \<Rightarrow> (py_error + int option) \<times> commander" where
  "handle_updates admin tg chat [] (seen_id, c) = (Inr seen_id, c)"
| "handle_updates admin tg chat (u # us) (seen_id, c) =
     (case handle_telegram_update admin tg chat u c of
        (Inl e, c) \<Rightarrow> (Inl e, c)
      | (Inr _, c) \<Rightarrow> handle_updates admin tg chat us (Some (up_update_id u), c))"

definition poll_commands_turn ::
    "admin_api \<Rightarrow> telegram \<Rightarrow> (int option \<Rightarrow> telegram_update list) \<Rightarrow> string \<Rightarrow> bool \<Rightarrow> bool \<Rightarrow> datetime
     \<Rightarrow> commander \<Rightarrow> commander" where
  "poll_commands_turn admin tg get_updates telegram_chat_id init_ok commit_ok now c =
     (case get_or_init_state init_ok now (cm_notifier c) of
        (None, n) \<Rightarrow> c\<lparr>cm_notifier := n\<rparr>
      | (Some s, n) \<Rightarrow>
          let offset = map_option (\<lambda>i. i + 1) (nst_last_telegram_update_id s);
              updates = get_updates offset;
              c = c\<lparr>cm_notifier := n\<rparr>
          in case handle_updates admin tg telegram_chat_id updates (nst_last_telegram_update_id s, c) of
               (Inl _, c) \<Rightarrow> c
             | (Inr seen_id, c) \<Rightarrow>
                 if updates \<noteq> [] \<and> commit_ok
                 then c\<lparr>cm_notifier := (cm_notifier c)\<lparr>nt_row := Some (s\<lparr>nst_last_telegram_update_id := seen_id\<rparr>)\<rparr>\<rparr>
                 else c)"

section \<open>Every event is relayed once\<close>

text \<open>The messages Telegram took.\<close>

definition accepted :: "telegram_log \<Rightarrow> notification list" where
  "accepted sent = map fst (filter snd sent)"

definition notifiable :: "audit_event \<Rightarrow> bool" where
  "notifiable e \<longleftrightarrow> aud_event_type e \<in> NOTIFY_EVENT_TYPES"

lemma accepted_simps [simp]:
  "accepted [] = []" "accepted (xs @ ys) = accepted xs @ accepted ys"
  "accepted [(m, ok)] = (if ok then [m] else [])"
  by (simp_all add: accepted_def)

lemma relay_batch_prefix:
  assumes "relay_batch tg es (cursor, sent) = (cursor', sent')"
  obtains taken rest where "es = taken @ rest"
    "cursor' = (if taken = [] then cursor else audit_key (last taken))"
    "accepted sent' = accepted sent @ map format_event (filter notifiable taken)"
    "(\<forall>h m. tg h m) \<longrightarrow> rest = []"
  using assms
proof (induction es arbitrary: cursor sent thesis)
  case Nil
  then show ?case by simp
next
  case (Cons e es)
  show ?case
  proof (cases "notifiable e \<and> \<not> tg sent (format_event e)")
    case True
    with Cons.prems(2) show ?thesis
      by (intro Cons.prems(1)[of "[]" "e # es"]) (auto simp: notifiable_def Let_def)
  next
    case False
    define sent1 where "sent1 = (if notifiable e then sent @ [(format_event e, True)] else sent)"
    have run: "relay_batch tg es (audit_key e, sent1) = (cursor', sent')"
      using Cons.prems(2) False by (auto simp: notifiable_def Let_def sent1_def split: if_splits)
    from Cons.IH[OF _ run] obtain taken rest where t: "es = taken @ rest"
      "cursor' = (if taken = [] then audit_key e else audit_key (last taken))"
      "accepted sent' = accepted sent1 @ map format_event (filter notifiable taken)"
      "(\<forall>h m. tg h m) \<longrightarrow> rest = []" by metis
    show ?thesis
      by (rule Cons.prems(1)[of "e # taken" rest]) (use t in \<open>auto simp: sent1_def\<close>)
  qed
qed

text \<open>The rows in the order of their keys, as they are when rows are committed in the order of their times.\<close>

definition in_key_order :: "audit_event list \<Rightarrow> bool" where
  "in_key_order audit \<longleftrightarrow> sorted_wrt (<) (map audit_key audit)"

definition between_keys :: "datetime \<times> nat \<Rightarrow> datetime \<times> nat \<Rightarrow> audit_event list \<Rightarrow> audit_event list" where
  "between_keys a b audit = filter (\<lambda>e. a < audit_key e \<and> audit_key e \<le> b) audit"

lemma in_key_order_filter: "in_key_order audit \<Longrightarrow> in_key_order (filter P audit)"
  by (induction audit) (auto simp: in_key_order_def)

lemma in_key_order_sorted: "in_key_order audit \<Longrightarrow> sort_key audit_key audit = audit"
  unfolding in_key_order_def by (intro sort_key_id_if_sorted) (auto intro: strict_sorted_imp_sorted)

lemma next_events_in_order:
  "in_key_order audit \<Longrightarrow> next_events cursor audit = take AUDIT_BATCH_SIZE (filter (\<lambda>e. cursor < audit_key e) audit)"
  by (simp add: next_events_def in_key_order_sorted in_key_order_filter)

lemma prefix_between:
  assumes "in_key_order audit" "filter (\<lambda>e. c < audit_key e) audit = taken @ rest" "taken \<noteq> []"
  shows "taken = between_keys c (audit_key (last taken)) audit \<and> c < audit_key (last taken)"
proof -
  have ord: "in_key_order (taken @ rest)" using assms(1,2) in_key_order_filter by metis
  obtain t x where t: "taken = t @ [x]" using assms(3) by (metis append_butlast_last_id)
  have "audit_key e \<le> audit_key x" if "e \<in> set taken" for e
    using ord that t by (auto simp: in_key_order_def sorted_wrt_append less_imp_le)
  moreover have "\<not> audit_key e \<le> audit_key x" if "e \<in> set rest" for e
    using ord that t by (auto simp: in_key_order_def sorted_wrt_append not_le)
  ultimately have "filter (\<lambda>e. audit_key e \<le> audit_key x) (taken @ rest) = taken"
    by (auto simp: filter_empty_conv filter_id_conv)
  then have "taken = between_keys c (audit_key x) audit"
    unfolding assms(2)[symmetric] by (simp add: between_keys_def conj_commute)
  moreover have "x \<in> set (filter (\<lambda>e. c < audit_key e) audit)" unfolding assms(2) t by simp
  moreover have "last taken = x" using t by simp
  ultimately show ?thesis by (metis (no_types, lifting) mem_Collect_eq set_filter)
qed

lemma between_keys_append:
  assumes "in_key_order audit" "a \<le> b" "b \<le> c"
  shows "between_keys a b audit @ between_keys b c audit = between_keys a c audit"
  using assms
proof (induction audit)
  case (Cons e es)
  have IH: "between_keys a b es @ between_keys b c es = between_keys a c es"
    using Cons by (simp add: in_key_order_def)
  have "between_keys a b es = []" if "b < audit_key e"
    using that Cons.prems(1) by (fastforce simp: between_keys_def filter_empty_conv in_key_order_def)
  with IH Cons.prems(2,3) show ?case by (auto simp: between_keys_def)
qed (simp add: between_keys_def)

text \<open>What one turn does when the row exists: a failed commit keeps the cursor, not the messages.\<close>

lemma poll_audit_turn_effect:
  assumes "nt_row n = Some s" "in_key_order audit"
  obtains cursor sent where
    "poll_audit_turn tg i ok now audit n =
       n\<lparr>nt_row := (if ok then Some (s\<lparr>nst_last_audit := cursor\<rparr>) else nt_row n), nt_log := sent\<rparr>"
    "nst_last_audit s \<le> cursor" "cursor \<in> insert (nst_last_audit s) (audit_key ` set audit)"
    "accepted sent = accepted (nt_log n) @
       map format_event (filter notifiable (between_keys (nst_last_audit s) cursor audit))"
proof -
  let ?c = "nst_last_audit s"
  obtain cursor sent where run: "relay_batch tg (next_events ?c audit) (?c, nt_log n) = (cursor, sent)" by fastforce
  then obtain taken rest where t: "next_events ?c audit = taken @ rest"
    "cursor = (if taken = [] then ?c else audit_key (last taken))"
    "accepted sent = accepted (nt_log n) @ map format_event (filter notifiable taken)"
    by (rule relay_batch_prefix)
  have all: "filter (\<lambda>e. ?c < audit_key e) audit = taken @ (rest @ drop AUDIT_BATCH_SIZE (filter (\<lambda>e. ?c < audit_key e) audit))"
    using t(1) unfolding next_events_in_order[OF assms(2)] by (metis append.assoc append_take_drop_id)
  have taken: "taken = between_keys ?c cursor audit" "?c \<le> cursor"
  proof -
    have "between_keys ?c ?c audit = []" by (auto simp: between_keys_def filter_empty_conv)
    then show "taken = between_keys ?c cursor audit" "?c \<le> cursor"
      using prefix_between[OF assms(2) all] t(2) by (cases "taken = []"; auto)+
  qed
  have "set taken \<subseteq> set audit" using arg_cong[OF all, of set] by auto
  then have "cursor \<in> insert ?c (audit_key ` set audit)" using t(2) last_in_set by (auto split: if_splits)
  moreover have "poll_audit_turn tg i ok now audit n =
      n\<lparr>nt_row := (if ok then Some (s\<lparr>nst_last_audit := cursor\<rparr>) else nt_row n), nt_log := sent\<rparr>"
    by (simp add: poll_audit_turn_def get_or_init_state_def assms(1) run)
  ultimately show thesis using taken t(3) by (intro that) auto
qed

text \<open>
  Rows arriving in the order of their keys, and turns of the relay, in any interleaving; the flag says
  whether the commit of a turn may fail.
\<close>

inductive relay_step :: "bool \<Rightarrow> audit_event list \<times> notifier \<Rightarrow> audit_event list \<times> notifier \<Rightarrow> bool" for lossy where
  row: "\<lbrakk>\<forall>e' \<in> set audit. audit_key e' < audit_key e; nt_row n = Some s; nst_last_audit s < audit_key e\<rbrakk>
     \<Longrightarrow> relay_step lossy (audit, n) (audit @ [e], n)"
| turn: "ok \<or> lossy \<Longrightarrow> relay_step lossy (audit, n) (audit, poll_audit_turn tg init_ok ok now audit n)"

inductive relay_run :: "bool \<Rightarrow> audit_event list \<times> notifier \<Rightarrow> audit_event list \<times> notifier \<Rightarrow> bool" for lossy x where
  start: "relay_run lossy x x"
| step: "relay_run lossy x y \<Longrightarrow> relay_step lossy y z \<Longrightarrow> relay_run lossy x z"

text \<open>The messages owed for the rows between two cursors.\<close>

definition owed :: "datetime \<times> nat \<Rightarrow> datetime \<times> nat \<Rightarrow> audit_event list \<Rightarrow> notification list" where
  "owed a b audit = map format_event (filter notifiable (between_keys a b audit))"

lemma owed_append:
  "in_key_order audit \<Longrightarrow> a \<le> b \<Longrightarrow> b \<le> c \<Longrightarrow> owed a b audit @ owed b c audit = owed a c audit"
  using between_keys_append[of audit a b c] by (simp add: owed_def flip: filter_append map_append)

lemma owed_subset: "set (owed a b audit) \<subseteq> format_event ` {e \<in> set audit. notifiable e}"
  by (auto simp: owed_def between_keys_def)

definition relayed_from ::
    "bool \<Rightarrow> datetime \<times> nat \<Rightarrow> notification list \<Rightarrow> audit_event list \<times> notifier \<Rightarrow> bool" where
  "relayed_from lossy c0 before = (\<lambda>(audit, n). in_key_order audit \<and>
     (\<exists>s sent. nt_row n = Some s \<and> c0 \<le> nst_last_audit s \<and> accepted (nt_log n) = before @ sent \<and>
        subseq (owed c0 (nst_last_audit s) audit) sent \<and>
        set sent \<subseteq> format_event ` {e \<in> set audit. notifiable e} \<and>
        (\<not> lossy \<longrightarrow> sent = owed c0 (nst_last_audit s) audit)))"

lemma relay_step_keeps:
  assumes "relay_step lossy x y" "relayed_from lossy c0 before x"
  shows "relayed_from lossy c0 before y"
  using assms
proof cases
  case (row audit e n s)
  then have "owed c0 (nst_last_audit s) (audit @ [e]) = owed c0 (nst_last_audit s) audit"
    by (auto simp: owed_def between_keys_def)
  moreover from assms(2) row obtain sent where st: "in_key_order audit" "c0 \<le> nst_last_audit s"
    "accepted (nt_log n) = before @ sent" "subseq (owed c0 (nst_last_audit s) audit) sent"
    "set sent \<subseteq> format_event ` {e \<in> set audit. notifiable e}"
    "\<not> lossy \<longrightarrow> sent = owed c0 (nst_last_audit s) audit"
    by (auto simp: relayed_from_def)
  moreover have "in_key_order (audit @ [e])" using st(1) row(3) by (simp add: in_key_order_def sorted_wrt_append)
  moreover have "set sent \<subseteq> format_event ` {e' \<in> set (audit @ [e]). notifiable e'}" using st(5) by auto
  ultimately show ?thesis
    unfolding relayed_from_def row(2) prod.case using row(4)
    by (intro conjI exI[of _ s] exI[of _ sent]) simp_all
next
  case (turn ok audit n tg init_ok now)
  from assms(2) turn(1) obtain s sent where s: "in_key_order audit" "nt_row n = Some s" "c0 \<le> nst_last_audit s"
    "accepted (nt_log n) = before @ sent" "subseq (owed c0 (nst_last_audit s) audit) sent"
    "set sent \<subseteq> format_event ` {e \<in> set audit. notifiable e}"
    "\<not> lossy \<longrightarrow> sent = owed c0 (nst_last_audit s) audit"
    by (auto simp: relayed_from_def)
  obtain cursor log where t: "poll_audit_turn tg init_ok ok now audit n =
      n\<lparr>nt_row := (if ok then Some (s\<lparr>nst_last_audit := cursor\<rparr>) else nt_row n), nt_log := log\<rparr>"
    "nst_last_audit s \<le> cursor" "accepted log = accepted (nt_log n) @ owed (nst_last_audit s) cursor audit"
    unfolding owed_def by (rule poll_audit_turn_effect[OF s(2,1)])
  let ?sent = "sent @ owed (nst_last_audit s) cursor audit"
  have sub: "subseq (owed c0 (nst_last_audit s) audit @ owed (nst_last_audit s) cursor audit) ?sent"
    using s(5) by (rule list_emb_append_mono) simp
  have "set ?sent \<subseteq> format_event ` {e \<in> set audit. notifiable e}" using s(6) owed_subset by auto
  moreover have "subseq (owed c0 (if ok then cursor else nst_last_audit s) audit) ?sent"
    using sub list_emb_prefix[OF s(5)] owed_append[OF s(1,3) t(2)] by simp
  moreover have "\<not> lossy \<longrightarrow> ?sent = owed c0 cursor audit" using s(7) owed_append[OF s(1,3) t(2)] by simp
  moreover have "c0 \<le> (if ok then cursor else nst_last_audit s)" using s(3) t(2) by auto
  ultimately show ?thesis
    unfolding relayed_from_def turn(2) prod.case t(1) using s(1,2,4) t(3) turn(3)
    by (intro conjI exI[of _ "s\<lparr>nst_last_audit := if ok then cursor else nst_last_audit s\<rparr>"] exI[of _ ?sent])
       (auto split: if_splits)
qed

lemma relay_run_keeps:
  "relay_run lossy x y \<Longrightarrow> relayed_from lossy c0 before x \<Longrightarrow> relayed_from lossy c0 before y"
  by (induction rule: relay_run.induct) (auto intro: relay_step_keeps)

text \<open>
  C28. For rows that are committed in the order of their keys (creation time, then id), the relay loses
  nothing and makes nothing up: over any interleaving of such rows with polls whose messages or commits may
  fail, Telegram has accepted, in order, a message for every notifiable row between the cursor at the start
  and the committed cursor now, and no other message than those of notifiable rows.  If every commit
  succeeds, however Telegram fails, it has accepted exactly these messages, each once; a commit that fails
  after the messages were taken sends them again.
\<close>

theorem relay_exactly_once:
  assumes "relay_run lossy (audit0, n0) (audit, n)" "nt_row n0 = Some s0" "in_key_order audit0"
  shows "\<exists>s sent. nt_row n = Some s \<and> nst_last_audit s0 \<le> nst_last_audit s \<and>
    accepted (nt_log n) = accepted (nt_log n0) @ sent \<and>
    subseq (map format_event (filter notifiable (between_keys (nst_last_audit s0) (nst_last_audit s) audit))) sent \<and>
    set sent \<subseteq> format_event ` {e \<in> set audit. notifiable e} \<and>
    (\<not> lossy \<longrightarrow>
       sent = map format_event (filter notifiable (between_keys (nst_last_audit s0) (nst_last_audit s) audit)))"
proof -
  have "owed (nst_last_audit s0) (nst_last_audit s0) audit0 = []"
    by (auto simp: owed_def between_keys_def filter_empty_conv)
  then have "relayed_from lossy (nst_last_audit s0) (accepted (nt_log n0)) (audit0, n0)"
    using assms(2,3) by (simp add: relayed_from_def)
  from relay_run_keeps[OF assms(1) this] show ?thesis by (auto simp: relayed_from_def owed_def)
qed

text \<open>An alert of an outage, refused once by Telegram.\<close>

definition sample_alert :: audit_event where
  "sample_alert = \<lparr>aud_id = 5, aud_trace_id = 4, aud_event_type = LLM_TIMEOUT_STREAK,
     aud_payload = [(''streak'', JInt 3), (''symbol'', JStr ''BTC/USDT'')], aud_created_at = 20\<rparr>"

definition sample_notifier :: notifier where
  "sample_notifier = \<lparr>nt_row = Some \<lparr>nst_last_audit = (10, 0), nst_last_telegram_update_id = None\<rparr>, nt_log = []\<rparr>"

definition flaky_telegram :: telegram where
  "flaky_telegram sent m = (sent \<noteq> [])"

theorem relay_exactly_once_witness:
  "(\<exists>n s. relay_run False ([], sample_notifier) ([sample_alert], n) \<and> length (nt_log n) = 2 \<and> nt_row n = Some s \<and>
     accepted (nt_log n) = map format_event (filter notifiable (between_keys (10, 0) (nst_last_audit s) [sample_alert]))) \<and>
   (\<exists>n. relay_run True ([], sample_notifier) ([sample_alert], n) \<and> nt_row n = nt_row sample_notifier \<and>
     accepted (nt_log n) = [format_event sample_alert] \<and> set (accepted (nt_log n)) \<subseteq> {format_event sample_alert})"
proof
  let ?s = "\<lparr>nst_last_audit = (10, 0), nst_last_telegram_update_id = None\<rparr>"
  let ?poll = "poll_audit_turn flaky_telegram True True 30 [sample_alert]"
  let ?n = "?poll (?poll sample_notifier)"
  have row: "relay_step lossy ([], sample_notifier) ([] @ [sample_alert], sample_notifier)" for lossy
    by (rule relay_step.row) (auto simp: sample_notifier_def sample_alert_def audit_key_def)
  from relay_run.step[OF relay_run.step[OF relay_run.step[OF relay_run.start row] relay_step.turn] relay_step.turn]
  have run: "relay_run False ([], sample_notifier) ([sample_alert], ?n)" by simp
  have sent: "length (nt_log ?n) = 2"
    by (simp add: poll_audit_turn_def get_or_init_state_def next_events_def sample_notifier_def sample_alert_def
        audit_key_def AUDIT_BATCH_SIZE_def flaky_telegram_def NOTIFY_EVENT_TYPES_def Let_def)
  from relay_exactly_once[OF run, of ?s] run sent
  show "\<exists>n s. relay_run False ([], sample_notifier) ([sample_alert], n) \<and> length (nt_log n) = 2 \<and> nt_row n = Some s \<and>
     accepted (nt_log n) = map format_event (filter notifiable (between_keys (10, 0) (nst_last_audit s) [sample_alert]))"
    by (auto simp: sample_notifier_def in_key_order_def)
  let ?m = "poll_audit_turn (\<lambda>h m. True) True False 30 [sample_alert] sample_notifier"
  from relay_run.step[OF relay_run.step[OF relay_run.start row] relay_step.turn]
  have lost: "relay_run True ([], sample_notifier) ([sample_alert], ?m)" by simp
  have "nt_row ?m = nt_row sample_notifier" "accepted (nt_log ?m) = [format_event sample_alert]"
    by (simp_all add: poll_audit_turn_def get_or_init_state_def next_events_def sample_notifier_def sample_alert_def
        audit_key_def AUDIT_BATCH_SIZE_def NOTIFY_EVENT_TYPES_def Let_def accepted_def)
  with relay_exactly_once[OF lost, of ?s] lost
  show "\<exists>n. relay_run True ([], sample_notifier) ([sample_alert], n) \<and> nt_row n = nt_row sample_notifier \<and>
     accepted (nt_log n) = [format_event sample_alert] \<and> set (accepted (nt_log n)) \<subseteq> {format_event sample_alert}"
    by (intro exI[of _ ?m]) (simp add: sample_notifier_def)
qed

section \<open>Nothing stays behind\<close>

text \<open>The rows the cursor has not reached.\<close>

definition pending :: "audit_event list \<Rightarrow> notifier \<Rightarrow> audit_event list" where
  "pending audit n = (case nt_row n of None \<Rightarrow> [] | Some s \<Rightarrow> filter (\<lambda>e. nst_last_audit s < audit_key e) audit)"

lemma accepting_turn:
  assumes "nt_row n = Some s" "in_key_order audit" "\<forall>h m. tg h m"
  shows "pending audit (poll_audit_turn tg i True now audit n) = drop AUDIT_BATCH_SIZE (pending audit n) \<and>
    (\<exists>s'. nt_row (poll_audit_turn tg i True now audit n) = Some s') \<and>
    accepted (nt_log (poll_audit_turn tg i True now audit n)) =
      accepted (nt_log n) @ map format_event (filter notifiable (take AUDIT_BATCH_SIZE (pending audit n)))"
proof -
  let ?c = "nst_last_audit s"
  let ?p = "filter (\<lambda>e. ?c < audit_key e) audit"
  obtain cursor sent where run: "relay_batch tg (next_events ?c audit) (?c, nt_log n) = (cursor, sent)" by fastforce
  then obtain taken rest where "next_events ?c audit = taken @ rest"
    "cursor = (if taken = [] then ?c else audit_key (last taken))"
    "accepted sent = accepted (nt_log n) @ map format_event (filter notifiable taken)"
    "(\<forall>h m. tg h m) \<longrightarrow> rest = []"
    by (rule relay_batch_prefix)
  with assms(3) have t: "take AUDIT_BATCH_SIZE ?p = taken"
    "cursor = (if taken = [] then ?c else audit_key (last taken))"
    "accepted sent = accepted (nt_log n) @ map format_event (filter notifiable taken)"
    by (simp_all add: next_events_in_order[OF assms(2)])
  have split: "?p = taken @ drop AUDIT_BATCH_SIZE ?p" using t(1) by (metis append_take_drop_id)
  have "filter (\<lambda>e. cursor < audit_key e) audit = drop AUDIT_BATCH_SIZE ?p"
  proof (cases "taken = []")
    case True
    then show ?thesis using t(2) split by simp
  next
    case False
    note b = prefix_between[OF assms(2) split False]
    then have c: "?c < cursor" "cursor = audit_key (last taken)" using t(2) False by auto
    have ord: "in_key_order (taken @ drop AUDIT_BATCH_SIZE ?p)" using split assms(2) in_key_order_filter by metis
    have "filter (\<lambda>e. cursor < audit_key e) audit = filter (\<lambda>e. cursor < audit_key e) ?p"
      using c(1) by (auto intro: filter_cong)
    also have "\<dots> = filter (\<lambda>e. cursor < audit_key e) taken @
        filter (\<lambda>e. cursor < audit_key e) (drop AUDIT_BATCH_SIZE ?p)"
      using arg_cong[OF split, of "filter (\<lambda>e. cursor < audit_key e)"] by simp
    also have "filter (\<lambda>e. cursor < audit_key e) taken = []"
    proof -
      have "taken = between_keys ?c cursor audit" using b c(2) by simp
      then have "audit_key e \<le> cursor" if "e \<in> set taken" for e using that by (auto simp: between_keys_def)
      then show ?thesis by (auto simp: filter_empty_conv not_less)
    qed
    also have "filter (\<lambda>e. cursor < audit_key e) (drop AUDIT_BATCH_SIZE ?p) = drop AUDIT_BATCH_SIZE ?p"
      using ord c(2) last_in_set[OF False] by (auto simp: filter_id_conv in_key_order_def sorted_wrt_append)
    finally show ?thesis by simp
  qed
  moreover have "poll_audit_turn tg i True now audit n = n\<lparr>nt_row := Some (s\<lparr>nst_last_audit := cursor\<rparr>), nt_log := sent\<rparr>"
    by (simp add: poll_audit_turn_def get_or_init_state_def assms(1) run)
  ultimately show ?thesis using t assms(1) by (simp add: pending_def)
qed

text \<open>
  Once Telegram takes messages and commits succeed, the relay catches up: after one turn per fifty
  pending rows nothing is pending and the notifiable ones among them have been sent, each once, in order.
\<close>

theorem relay_catches_up:
  assumes "nt_row n = Some s" "in_key_order audit" "\<forall>h m. tg h m" "length (pending audit n) \<le> k * AUDIT_BATCH_SIZE"
  shows "pending audit ((poll_audit_turn tg True True now audit ^^ k) n) = [] \<and>
    accepted (nt_log ((poll_audit_turn tg True True now audit ^^ k) n)) =
      accepted (nt_log n) @ map format_event (filter notifiable (pending audit n))"
  using assms(1,4)
proof (induction k arbitrary: n s)
  case 0
  then show ?case by simp
next
  case (Suc k)
  let ?n = "poll_audit_turn tg True True now audit n"
  note turn = accepting_turn[where i = True and now = now, OF Suc.prems(1) assms(2,3)]
  then obtain s' where s': "nt_row ?n = Some s'" by blast
  have "length (pending audit ?n) \<le> k * AUDIT_BATCH_SIZE" using turn Suc.prems(2) by simp
  note IH = Suc.IH[OF s' this]
  have "map format_event (filter notifiable (take AUDIT_BATCH_SIZE (pending audit n))) @
      map format_event (filter notifiable (drop AUDIT_BATCH_SIZE (pending audit n))) =
    map format_event (filter notifiable (pending audit n))"
    by (metis append_take_drop_id filter_append map_append)
  with IH turn show ?case by (simp add: funpow_swap1)
qed

theorem relay_catches_up_witness:
  "accepted (nt_log ((poll_audit_turn (\<lambda>h m. True) True True 30 [sample_alert] ^^ 1) sample_notifier)) =
     [format_event sample_alert]"
  by (subst relay_catches_up[THEN conjunct2])
     (simp_all add: sample_notifier_def in_key_order_def pending_def AUDIT_BATCH_SIZE_def audit_key_def
        sample_alert_def notifiable_def NOTIFY_EVENT_TYPES_def)

section \<open>Rows that are committed late\<close>

lemma poll_audit_turn_cursor:
  assumes "nt_row n = Some s"
  shows "\<exists>s'. nt_row (poll_audit_turn tg i c now audit n) = Some s' \<and> nst_last_audit s \<le> nst_last_audit s'"
proof -
  let ?c = "nst_last_audit s"
  obtain cursor sent where run: "relay_batch tg (next_events ?c audit) (?c, nt_log n) = (cursor, sent)" by fastforce
  then obtain taken rest where t: "next_events ?c audit = taken @ rest"
    "cursor = (if taken = [] then ?c else audit_key (last taken))" by (rule relay_batch_prefix)
  have "?c < audit_key e" if "e \<in> set taken" for e
  proof -
    have "e \<in> set (next_events ?c audit)" using that t(1) by simp
    then show ?thesis unfolding next_events_def by (auto dest: in_set_takeD)
  qed
  then have "?c \<le> cursor" using t(2) last_in_set less_imp_le by (metis order_refl)
  then show ?thesis by (simp add: poll_audit_turn_def get_or_init_state_def assms run)
qed

lemma poll_audit_turn_ignores:
  assumes "nt_row n = Some s" "audit_key e \<le> nst_last_audit s"
  shows "poll_audit_turn tg i c now audit n = poll_audit_turn tg i c now (removeAll e audit) n"
proof -
  have "filter (\<lambda>e. nst_last_audit s < audit_key e) (removeAll e audit) = filter (\<lambda>e. nst_last_audit s < audit_key e) audit"
    using assms(2) by (induction audit) auto
  then show ?thesis
    by (simp add: poll_audit_turn_def get_or_init_state_def assms(1) next_events_def)
qed

text \<open>
  C30. A row committed after the cursor has passed its time is never relayed: its transaction began
  earlier, so its \<open>created_at\<close> lies before the cursor, and over any further polls, with whatever tables,
  the notifier does the same as if that row did not exist.
\<close>

theorem late_row_never_relayed:
  assumes "nt_row n = Some s" "audit_key e \<le> nst_last_audit s"
  shows "fold (\<lambda>(tg, i, c, now, audit). poll_audit_turn tg i c now audit) turns n =
    fold (\<lambda>(tg, i, c, now, audit). poll_audit_turn tg i c now (removeAll e audit)) turns n"
  using assms
proof (induction turns arbitrary: n s)
  case (Cons t turns)
  obtain tg i c now audit where t: "t = (tg, i, c, now, audit)" by (cases t) auto
  have same: "poll_audit_turn tg i c now audit n = poll_audit_turn tg i c now (removeAll e audit) n"
    by (rule poll_audit_turn_ignores[OF Cons.prems])
  obtain s' where s': "nt_row (poll_audit_turn tg i c now audit n) = Some s'" "nst_last_audit s \<le> nst_last_audit s'"
    using poll_audit_turn_cursor[OF Cons.prems(1)] by blast
  from Cons.IH[OF s'(1) order_trans[OF Cons.prems(2) s'(2)]] same show ?case by (simp add: t)
qed simp

theorem late_row_never_relayed_witness:
  "fold (\<lambda>(tg, i, c, now, audit). poll_audit_turn tg i c now audit)
     [(\<lambda>h m. True, True, True, 30, [sample_alert\<lparr>aud_created_at := 9\<rparr>])] sample_notifier =
   fold (\<lambda>(tg, i, c, now, audit). poll_audit_turn tg i c now (removeAll (sample_alert\<lparr>aud_created_at := 9\<rparr>) audit))
     [(\<lambda>h m. True, True, True, 30, [sample_alert\<lparr>aud_created_at := 9\<rparr>])] sample_notifier"
  by (rule late_row_never_relayed[of _ "\<lparr>nst_last_audit = (10, 0), nst_last_telegram_update_id = None\<rparr>"])
     (simp_all add: sample_notifier_def audit_key_def sample_alert_def)

section \<open>Control commands\<close>

text \<open>The calls the operator's messages ask for: by the words, whatever the handler makes of them.\<close>

definition commanded :: "string \<Rightarrow> telegram_update \<Rightarrow> admin_call list" where
  "commanded chat u =
     (if chat = [] \<or> up_chat_id u \<noteq> chat then []
      else if first_word (strip (up_text u)) = ''/killswitch_on''
      then [Killswitch True ''telegram command'' (''telegram:'' @ chat)]
      else if first_word (strip (up_text u)) = ''/killswitch_off''
      then [Killswitch False ''telegram command'' (''telegram:'' @ chat)]
      else [])"

definition readable :: "admin_api \<Rightarrow> bool" where
  "readable admin \<longleftrightarrow> (\<forall>h call. admin h call \<noteq> MalformedBody)"

lemma readableD: "readable admin \<Longrightarrow> admin h call \<noteq> MalformedBody"
  by (simp add: readable_def)

lemma handle_telegram_update_effect:
  assumes "handle_telegram_update admin tg chat u c = (res, c')"
  shows "cm_admin c' = cm_admin c @ commanded chat u \<and> nt_row (cm_notifier c') = nt_row (cm_notifier c) \<and>
    (commanded chat u = [] \<longrightarrow> c' = c \<and> res = Inr ()) \<and>
    (readable admin \<longrightarrow> res = Inr ())"
  using assms readableD[of admin]
  by (auto simp: handle_telegram_update_def commanded_def command_of_def tell_def Let_def
      split: option.splits http_reply.splits if_splits)

lemma handle_updates_effect:
  assumes "handle_updates admin tg chat us (i, c) = (res, c')"
  shows "\<exists>handled. prefix handled us \<and> cm_admin c' = cm_admin c @ concat (map (commanded chat) handled) \<and>
    nt_row (cm_notifier c') = nt_row (cm_notifier c) \<and>
    (case res of
       Inl e \<Rightarrow> \<not> readable admin
     | Inr j \<Rightarrow> handled = us \<and> j = (if us = [] then i else Some (up_update_id (last us))))"
  using assms
proof (induction us arbitrary: i c)
  case (Cons u us)
  obtain r1 c1 where u: "handle_telegram_update admin tg chat u c = (r1, c1)" by fastforce
  note eff = handle_telegram_update_effect[OF u]
  show ?case
  proof (cases r1)
    case (Inl e)
    with Cons.prems u eff show ?thesis by (intro exI[of _ "[u]"]) auto
  next
    case (Inr x)
    with Cons.prems u have run: "handle_updates admin tg chat us (Some (up_update_id u), c1) = (res, c')" by simp
    from Cons.IH[OF run] obtain handled where h: "prefix handled us"
      "cm_admin c' = cm_admin c1 @ concat (map (commanded chat) handled)"
      "nt_row (cm_notifier c') = nt_row (cm_notifier c1)"
      "case res of Inl e \<Rightarrow> \<not> readable admin
       | Inr j \<Rightarrow> handled = us \<and> j = (if us = [] then Some (up_update_id u) else Some (up_update_id (last us)))"
      by blast
    with eff show ?thesis by (intro exI[of _ "u # handled"]) (auto split: sum.splits)
  qed
qed auto

text \<open>
  C31. Only the operator controls the kill switch: a poll makes exactly the admin calls of a first part of
  the updates it fetched: one that enables for each message of the configured chat whose first word is
  \<open>/killswitch_on\<close>, one that disables for each whose first word is \<open>/killswitch_off\<close>, signed with that
  chat and in the order of the messages, and none for any other message, or if no chat is configured.
  Unless the admin API gives a reply that is not JSON all of the updates are handled, and with a commit the
  next poll asks for what follows the last of them.
\<close>

theorem commands_only_from_operator:
  assumes "nt_row (cm_notifier c) = Some s"
    and "us = get_updates (map_option (\<lambda>i. i + 1) (nst_last_telegram_update_id s))"
    and "c' = poll_commands_turn admin tg get_updates chat init_ok commit_ok now c"
  shows "(\<exists>handled. prefix handled us \<and>
       cm_admin c' = cm_admin c @ concat (map (\<lambda>u.
         if chat = [] \<or> up_chat_id u \<noteq> chat then []
         else if first_word (strip (up_text u)) = ''/killswitch_on''
         then [Killswitch True ''telegram command'' (''telegram:'' @ chat)]
         else if first_word (strip (up_text u)) = ''/killswitch_off''
         then [Killswitch False ''telegram command'' (''telegram:'' @ chat)]
         else []) handled) \<and>
       (readable admin \<longrightarrow> handled = us)) \<and>
    (readable admin \<and> commit_ok \<and> us \<noteq> [] \<longrightarrow>
       nt_row (cm_notifier c') = Some (s\<lparr>nst_last_telegram_update_id := Some (up_update_id (last us))\<rparr>))"
proof -
  obtain res c1 where run: "handle_updates admin tg chat us (nst_last_telegram_update_id s, c) = (res, c1)" by fastforce
  have init: "get_or_init_state init_ok now (cm_notifier c) = (Some s, cm_notifier c)"
    using assms(1) by (simp add: get_or_init_state_def)
  from handle_updates_effect[OF run] obtain handled where h: "prefix handled us"
    "cm_admin c1 = cm_admin c @ concat (map (commanded chat) handled)"
    "nt_row (cm_notifier c1) = nt_row (cm_notifier c)"
    "case res of Inl e \<Rightarrow> \<not> readable admin
     | Inr j \<Rightarrow> handled = us \<and> j = (if us = [] then nst_last_telegram_update_id s else Some (up_update_id (last us)))"
    by blast
  have turn: "c' = (case res of Inl e \<Rightarrow> c1 | Inr j \<Rightarrow>
      if us \<noteq> [] \<and> commit_ok
      then c1\<lparr>cm_notifier := (cm_notifier c1)\<lparr>nt_row := Some (s\<lparr>nst_last_telegram_update_id := j\<rparr>)\<rparr>\<rparr> else c1)"
    using assms(2,3) run by (simp add: poll_commands_turn_def init Let_def split: sum.split)
  have "\<exists>handled. prefix handled us \<and> cm_admin c' = cm_admin c @ concat (map (commanded chat) handled) \<and>
       (readable admin \<longrightarrow> handled = us)"
    using h turn by (intro exI[of _ handled]) (auto split: sum.splits)
  moreover have "readable admin \<and> commit_ok \<and> us \<noteq> [] \<longrightarrow>
       nt_row (cm_notifier c') = Some (s\<lparr>nst_last_telegram_update_id := Some (up_update_id (last us))\<rparr>)"
    using h(4) turn by (auto split: sum.splits)
  ultimately show ?thesis unfolding commanded_def by blast
qed

definition sample_commander :: commander where
  "sample_commander = \<lparr>cm_notifier = sample_notifier, cm_admin = []\<rparr>"

definition sample_updates :: "int option \<Rightarrow> telegram_update list" where
  "sample_updates offset =
     [\<lparr>up_update_id = 7, up_chat_id = ''666'', up_text = ''/killswitch_off''\<rparr>,
      \<lparr>up_update_id = 8, up_chat_id = ''42'', up_text = '' /killswitch_on now''\<rparr>,
      \<lparr>up_update_id = 9, up_chat_id = ''42'', up_text = ''hello /killswitch_on''\<rparr>,
      \<lparr>up_update_id = 10, up_chat_id = ''42'', up_text = ''/killswitch_off''\<rparr>]"

theorem commands_only_from_operator_witness:
  "cm_admin (poll_commands_turn (\<lambda>h call. Body ()) (\<lambda>h m. True) sample_updates ''42'' True True 30 sample_commander) =
     [Killswitch True ''telegram command'' ''telegram:42'', Killswitch False ''telegram command'' ''telegram:42'']"
proof -
  let ?s = "\<lparr>nst_last_audit = (10, 0), nst_last_telegram_update_id = None\<rparr>"
  have "nt_row (cm_notifier sample_commander) = Some ?s" by (simp add: sample_commander_def sample_notifier_def)
  from commands_only_from_operator[OF this refl refl, of sample_updates "\<lambda>h call. Body ()" "\<lambda>h m. True" "''42''" True True 30]
  have "cm_admin (poll_commands_turn (\<lambda>h call. Body ()) (\<lambda>h m. True) sample_updates ''42'' True True 30 sample_commander) =
     cm_admin sample_commander @ concat (map (commanded ''42'') (sample_updates None))"
    unfolding commanded_def by (auto simp: readable_def)
  moreover have "concat (map (commanded ''42'') (sample_updates None)) =
      [Killswitch True ''telegram command'' ''telegram:42'', Killswitch False ''telegram command'' ''telegram:42'']"
    by code_simp
  ultimately show ?thesis by (simp add: sample_commander_def)
qed

text \<open>
  A command answered with a good status and a body that is not JSON is repeated at every poll: the kill
  switch is flipped again each time and no later update is reached.
\<close>

lemma unreadable_reply_replays:
  assumes "nt_row (cm_notifier c) = Some s" "command_of chat u = Some (cmd, on)" "\<And>h call. admin h call = MalformedBody"
    and "\<And>offset. get_updates offset = u # later"
  shows "((poll_commands_turn admin tg get_updates chat i ok now ^^ k) c) =
    c\<lparr>cm_admin := cm_admin c @ replicate k (Killswitch on ''telegram command'' (''telegram:'' @ up_chat_id u))\<rparr>"
  using assms(1)
proof (induction k arbitrary: c)
  case (Suc k)
  let ?call = "Killswitch on ''telegram command'' (''telegram:'' @ up_chat_id u)"
  have "poll_commands_turn admin tg get_updates chat i ok now c = c\<lparr>cm_admin := cm_admin c @ [?call]\<rparr>"
    using Suc.prems assms(2-4)
    by (simp add: poll_commands_turn_def get_or_init_state_def handle_telegram_update_def Let_def)
  with Suc.IH[of "c\<lparr>cm_admin := cm_admin c @ [?call]\<rparr>"] Suc.prems show ?case by (simp add: funpow_swap1)
qed simp

end
