(* ===== verification/Reports.thy ===== *)
theory Reports
  imports Performance
begin

text \<open>
  The reports of the notifier: \<open>notifier/app/main.py\<close> (the daily summary and the times of the loops),
  \<open>public_report.py\<close>, the equity history of \<open>private_report.py\<close> and the turn of \<open>archive_worker.py\<close>.  A report is
  kept as the values its text shows.  Times are UTC.
\<close>

section \<open>The calendar\<close>

definition day :: timedelta where
  "day = 86400000000"

definition hour :: timedelta where
  "hour = 3600000000"

text \<open>\<open>date.weekday()\<close>, Monday 0; 1970-01-01 was a Thursday.\<close>

definition weekday :: "datetime \<Rightarrow> int" where
  "weekday t = (t div day + 3) mod 7"

text \<open>\<open>t.replace(hour=h, minute=0, second=0, microsecond=0)\<close> for an hour of the day.\<close>

definition at_hour :: "int \<Rightarrow> datetime \<Rightarrow> datetime" where
  "at_hour h t = t div day * day + h * hour"

definition next_daily_run :: "int \<Rightarrow> datetime \<Rightarrow> py_error + datetime" where
  "next_daily_run h now =
     (if h < 0 \<or> 23 < h then Inl ValueError
      else let next_run = at_hour h now
           in Inr (if next_run \<le> now then next_run + day else next_run))"

definition next_weekly_run :: "datetime \<Rightarrow> int \<Rightarrow> int \<Rightarrow> datetime" where
  "next_weekly_run now wd h =
     (let next_run = at_hour h now;
          days_ahead = (wd - weekday next_run) mod 7;
          next_run = next_run + days_ahead * day
      in if next_run \<le> now then next_run + 7 * day else next_run)"

definition latest_weekly_end :: "datetime \<Rightarrow> int \<Rightarrow> int \<Rightarrow> datetime" where
  "latest_weekly_end now wd h =
     (let end = at_hour h now;
          end = end - (weekday end - wd) mod 7 * day
      in if end > now then end - 7 * day else end)"

section \<open>Windows of closed positions\<close>

record WindowStats =
  ws_pnl_usdt :: rat
  ws_wins :: nat
  ws_losses :: nat

definition ws_trade_count :: "WindowStats \<Rightarrow> nat" where
  "ws_trade_count s = ws_wins s + ws_losses s"

definition ws_win_rate_pct :: "WindowStats \<Rightarrow> rat option" where
  "ws_win_rate_pct s =
     (if ws_trade_count s = 0 then None
      else Some (dec (dec (of_nat (ws_wins s) / of_nat (ws_trade_count s)) * 100)))"

definition pnl_or_zero :: "position \<Rightarrow> rat" where
  "pnl_or_zero p = (case pos_pnl_usdt p of Some x \<Rightarrow> x | None \<Rightarrow> 0)"

definition window_stats :: "position list \<Rightarrow> WindowStats" where
  "window_stats positions =
     \<lparr>ws_pnl_usdt = dec_sum (map pnl_or_zero positions),
      ws_wins = length (filter (\<lambda>p. pnl_or_zero p > 0) positions),
      ws_losses = length (filter (\<lambda>p. pnl_or_zero p < 0) positions)\<rparr>"

definition closed_positions_since :: "db \<Rightarrow> datetime \<Rightarrow> datetime \<Rightarrow> position list" where
  "closed_positions_since d start end_time =
     filter (\<lambda>p. pos_status p = CLOSED \<and>
               (case pos_closed_at p of None \<Rightarrow> False | Some t \<Rightarrow> start \<le> t \<and> t < end_time)) (db_positions d)"

section \<open>The daily summary\<close>

text \<open>The members of the answer of \<open>GET /status\<close> that are read.\<close>

record status_view =
  sw_equity_usdt :: rat
  sw_open_positions :: int
  sw_killswitch_enabled :: bool

record rollup =
  ro_pnl_usdt :: rat
  ro_pnl_of_equity :: "rat option"
  ro_trade_count :: nat
  ro_win_rate_pct :: "rat option"

definition rollup_line :: "WindowStats \<Rightarrow> rat option \<Rightarrow> rollup" where
  "rollup_line stats equity_usdt =
     \<lparr>ro_pnl_usdt = ws_pnl_usdt stats,
      ro_pnl_of_equity = (case equity_usdt of
         Some e \<Rightarrow> if e \<noteq> 0 then Some (dec (ws_pnl_usdt stats / e)) else None | None \<Rightarrow> None),
      ro_trade_count = ws_trade_count stats, ro_win_rate_pct = ws_win_rate_pct stats\<rparr>"

record daily_summary =
  ds_window_start :: datetime
  ds_window_end :: datetime
  ds_today :: rollup
  ds_trades :: "position list"
  ds_week :: rollup
  ds_live :: rollup
  ds_account :: "(rat \<times> int \<times> bool) option"

definition daily_pnl_summary :: "datetime \<Rightarrow> db \<Rightarrow> status_view option \<Rightarrow> datetime \<Rightarrow> daily_summary" where
  "daily_pnl_summary live_start d status window_end =
     (let window_start = window_end - day;
          week_start = window_end - 7 * day;
          today_positions = closed_positions_since d window_start window_end;
          week_positions = closed_positions_since d week_start window_end;
          live_positions = closed_positions_since d live_start window_end;
          equity_usdt = map_option sw_equity_usdt status
      in \<lparr>ds_window_start = window_start, ds_window_end = window_end,
          ds_today = rollup_line (window_stats today_positions) equity_usdt,
          ds_trades = sort_key (\<lambda>p. case pos_closed_at p of Some t \<Rightarrow> t | None \<Rightarrow> window_start) today_positions,
          ds_week = rollup_line (window_stats week_positions) equity_usdt,
          ds_live = rollup_line (window_stats live_positions) equity_usdt,
          ds_account = map_option (\<lambda>s. (sw_equity_usdt s, sw_open_positions s, sw_killswitch_enabled s)) status\<rparr>)"

section \<open>The weekly report\<close>

record PublicStats =
  pu_trades :: nat
  pu_recorded_pnl :: nat
  pu_wins :: nat
  pu_losses :: nat
  pu_return_samples :: nat
  pu_mean_trade_return :: "rat option"
  pu_total_pnl_usdt :: "rat option"

text \<open>
  The aggregate query; \<open>avg_numeric\<close> is how Postgres rounds an average, sums of a \<open>NUMERIC\<close> column are
  exact and an aggregate over no value is NULL.
\<close>

definition trade_stats :: "(rat \<Rightarrow> rat) \<Rightarrow> db \<Rightarrow> datetime \<Rightarrow> datetime \<Rightarrow> PublicStats" where
  "trade_stats avg_numeric d start end_time =
     (let rows = closed_positions_since d start end_time;
          pnls = List.map_filter pos_pnl_usdt rows; returns = List.map_filter pos_pnl_pct rows
      in \<lparr>pu_trades = length rows, pu_recorded_pnl = length pnls,
          pu_wins = length (filter (\<lambda>x. x > 0) pnls), pu_losses = length (filter (\<lambda>x. x < 0) pnls),
          pu_return_samples = length returns,
          pu_mean_trade_return =
            (if returns = [] then None else Some (avg_numeric (sum_list returns / of_nat (length returns)))),
          pu_total_pnl_usdt = (if pnls = [] then None else Some (sum_list pnls))\<rparr>)"

record OperationsStats =
  op_signals :: nat
  op_order_failures :: nat
  op_reconciliation_alerts :: nat
  op_llm_stall_alerts :: nat
  op_llm_recoveries :: nat
  op_killswitch_activations :: nat
  op_config_changes :: nat

definition count_events :: "db \<Rightarrow> datetime \<Rightarrow> datetime \<Rightarrow> AuditEventType \<Rightarrow> nat" where
  "count_events d start end_time t =
     length (filter (\<lambda>e. aud_event_type e = t \<and> start \<le> aud_created_at e \<and> aud_created_at e < end_time) (db_audit d))"

record PublicWeeklyReport =
  wr_window_end :: datetime
  wr_current :: PublicStats
  wr_previous :: PublicStats
  wr_operations :: OperationsStats

definition build_public_report ::
    "(rat \<Rightarrow> rat) \<Rightarrow> db \<Rightarrow> datetime \<Rightarrow> datetime \<Rightarrow> py_error + PublicWeeklyReport" where
  "build_public_report avg_numeric d now window_end =
     (if window_end > now then Inl ValueError
      else let start = window_end - 7 * day; count = count_events d start window_end;
               signals = length (filter (\<lambda>s. start \<le> sig_created_at s \<and> sig_created_at s < window_end) (db_signals d))
           in Inr \<lparr>wr_window_end = window_end,
                   wr_current = trade_stats avg_numeric d start window_end,
                   wr_previous = trade_stats avg_numeric d (start - 7 * day) start,
                   wr_operations =
                     \<lparr>op_signals = signals, op_order_failures = count ORDER_FAILED,
                      op_reconciliation_alerts = count RECONCILIATION_REQUIRED,
                      op_llm_stall_alerts = count LLM_TIMEOUT_STREAK, op_llm_recoveries = count LLM_TIMEOUT_RECOVERED,
                      op_killswitch_activations = count KILLSWITCH_ENABLED,
                      op_config_changes = count CONFIG_CHANGED\<rparr>\<rparr>)"

section \<open>The equity history\<close>

record EquityPoint =
  eq_period_end :: datetime
  eq_observed_at :: "datetime option"
  eq_equity_usdt :: "rat option"

text \<open>\<open>max(xs, key=f)\<close>: the first of the largest.\<close>

fun first_max :: "('a \<Rightarrow> 'b :: linorder) \<Rightarrow> 'a list \<Rightarrow> 'a option" where
  "first_max f [] = None"
| "first_max f (x # xs) =
     (case first_max f xs of None \<Rightarrow> Some x | Some y \<Rightarrow> if f x < f y then Some y else Some x)"

definition equity_period :: "EquityPoint list \<Rightarrow> datetime \<Rightarrow> EquityPoint" where
  "equity_period samples boundary =
     (let eligible = filter (\<lambda>p. case eq_observed_at p of
                None \<Rightarrow> False
              | Some t \<Rightarrow> boundary - 7 * day < t \<and> t \<le> boundary \<and> eq_equity_usdt p \<noteq> None) samples;
          lt = first_max (\<lambda>p. the (eq_observed_at p)) eligible
      in \<lparr>eq_period_end = boundary, eq_observed_at = Option.bind lt eq_observed_at,
          eq_equity_usdt = Option.bind lt eq_equity_usdt\<rparr>)"

definition equity_periods :: "EquityPoint list \<Rightarrow> datetime \<Rightarrow> nat \<Rightarrow> EquityPoint list" where
  "equity_periods samples end_time n =
     map (\<lambda>offset. equity_period samples (end_time - 7 * day * int offset)) (rev [0..<n])"

section \<open>The weekly archive\<close>

text \<open>
  One turn of \<open>archive_loop\<close>: \<open>publish\<close> is the attempt to build and push the report of a window.  The
  result is the new mark of the last window done, the attempt made, if any, and the pause.
\<close>

definition archive_turn ::
    "int \<Rightarrow> int \<Rightarrow> (datetime \<Rightarrow> bool) \<Rightarrow> datetime \<Rightarrow> datetime option \<Rightarrow> datetime option \<times> (datetime \<times> bool) option \<times> timedelta" where
  "archive_turn wd h publish now private_done =
     (let end = latest_weekly_end now wd h;
          delay = min (3600 * 1000000) (max 1000000 (end + 7 * day - now))
      in if private_done \<noteq> Some end
         then (if publish end then Some end else private_done, Some (end, publish end), delay)
         else (private_done, None, delay))"

section \<open>The calendar is right\<close>

text \<open>The instants at the configured weekday and hour.\<close>

definition weekly_boundary :: "int \<Rightarrow> int \<Rightarrow> datetime \<Rightarrow> bool" where
  "weekly_boundary wd h t \<longleftrightarrow> weekday t = wd \<and> t mod day = h * hour"

lemma day_pos: "0 < day"
  by (simp add: day_def)

lemma hours_in_day: "0 \<le> h \<Longrightarrow> h \<le> 23 \<Longrightarrow> 0 \<le> h * hour \<and> h * hour < day"
  by (simp add: day_def hour_def)

lemma day_of: "0 \<le> x \<Longrightarrow> x < day \<Longrightarrow> (k * day + x) div day = k"
  using day_pos by (simp add: div_add1_eq div_pos_pos_trivial)

lemma time_of: "0 \<le> x \<Longrightarrow> x < day \<Longrightarrow> (k * day + x) mod day = x"
  by simp

lemma boundary_iff:
  assumes "0 \<le> h" "h \<le> 23"
  shows "weekly_boundary wd h t \<longleftrightarrow> (\<exists>k. t = k * day + h * hour \<and> (k + 3) mod 7 = wd)"
proof
  assume "weekly_boundary wd h t"
  then show "\<exists>k. t = k * day + h * hour \<and> (k + 3) mod 7 = wd"
    by (intro exI[of _ "t div day"]) (metis div_mult_mod_eq weekday_def weekly_boundary_def)
next
  assume "\<exists>k. t = k * day + h * hour \<and> (k + 3) mod 7 = wd"
  then show "weekly_boundary wd h t"
    using hours_in_day[OF assms] by (auto simp: weekly_boundary_def weekday_def day_of time_of)
qed

lemma week_back: "(k - 7 + 3) mod 7 = (k + 3) mod (7 :: int)"
proof -
  have "k - 7 + 3 = (k + 3) - (7 :: int)" by (simp only: diff_add_eq)
  then show ?thesis by (simp only: minus_mod_self2)
qed

lemma same_weekday:
  assumes "(l + 3) mod 7 = (k + 3) mod (7 :: int)"
  shows "l \<le> k \<or> k + 7 \<le> l"
proof -
  from assms have "7 dvd (l + 3) - (k + 3)" by (simp only: mod_eq_dvd_iff)
  then obtain m where m: "(l + 3) - (k + 3) = 7 * m" by (rule dvdE)
  show ?thesis
  proof (cases "m \<le> 0")
    case True
    with m have "l \<le> k" by linarith
    then show ?thesis ..
  next
    case False
    with m have "k + 7 \<le> l" by linarith
    then show ?thesis ..
  qed
qed

lemma latest_weekly_end_form:
  assumes "0 \<le> wd" "wd \<le> 6" "0 \<le> h" "h \<le> 23"
  obtains k where "latest_weekly_end now wd h = k * day + h * hour" "(k + 3) mod 7 = wd"
    "k * day + h * hour \<le> now" "now < (k + 7) * day + h * hour"
    "next_weekly_run now wd h = (k + 7) * day + h * hour"
proof -
  define D where "D = now div day"
  define x where "x = now mod day"
  define H where "H = h * hour"
  have now: "now = D * day + x" "0 \<le> x" "x < day" using day_pos by (simp_all add: D_def x_def)
  have H: "0 \<le> H" "H < day" using hours_in_day[OF assms(3,4)] by (simp_all add: H_def)
  have at: "at_hour h now = D * day + H" by (simp add: at_hour_def D_def H_def)
  have w: "weekday (D * day + H) = (D + 3) mod 7" using H by (simp add: weekday_def day_of)
  define j where "j = ((D + 3) mod 7 - wd) mod 7"
  define v where "v = (D + 3) mod 7"
  have v: "0 \<le> v" "v \<le> 6" by (simp_all add: v_def)
  have j: "0 \<le> j" "j \<le> 6" by (simp_all add: j_def)
  have "(D + 3 - j) mod 7 = (D + 3 - ((D + 3) mod 7 - wd)) mod 7" unfolding j_def by (rule mod_diff_right_eq)
  also have "\<dots> = (D + 3 - (D + 3 - wd)) mod 7" by (metis mod_diff_left_eq mod_diff_right_eq)
  also have "\<dots> = wd" using assms(1,2) by simp
  finally have j3: "(D - j + 3) mod 7 = wd" by (simp add: algebra_simps)
  have k: "(wd - (D + 3) mod 7) mod 7 = (if j = 0 then 0 else 7 - j)"
    using zmod_zminus1_eq_if[of "v - wd" 7] unfolding j_def v_def[symmetric] by simp
  have days: "a * day + H \<le> D * day + x" if "a + 1 \<le> D" for a
  proof -
    have "(a + 1) * day \<le> D * day" using that day_pos by simp
    then show ?thesis using H now(2) by (simp add: distrib_right)
  qed
  have later: "D * day + x < a * day + H" if "D + 1 \<le> a" for a
  proof -
    have "(D + 1) * day \<le> a * day" using that day_pos by simp
    then show ?thesis using H now(3) by (simp add: distrib_right)
  qed
  define e where "e = (if j = 0 \<and> x < H then D - 7 else D - j)"
  have "latest_weekly_end now wd h =
      (if now < (D - j) * day + H then (D - j) * day + H - 7 * day else (D - j) * day + H)"
    unfolding latest_weekly_end_def Let_def at w j_def[symmetric] by (simp add: left_diff_distrib)
  then have last: "latest_weekly_end now wd h = e * day + H"
    using days[of "D - j"] j(1) unfolding e_def now(1) by (cases "j = 0") (auto simp: left_diff_distrib)
  have "next_weekly_run now wd h =
      (let r = D * day + H + (if j = 0 then 0 else 7 - j) * day in if r \<le> now then r + 7 * day else r)"
    unfolding next_weekly_run_def Let_def at w k by simp
  then have "next_weekly_run now wd h = (e + 7) * day + H"
    using later[of "D + 7 - j"] j(1,2) unfolding e_def now(1)
    by (cases "j = 0") (auto simp: Let_def left_diff_distrib distrib_right)
  moreover have "e * day + H \<le> now"
    using days[of e] j(1,2) unfolding e_def now(1) by (cases "j = 0") auto
  moreover have "now < (e + 7) * day + H"
    using later[of "e + 7"] j(1,2) unfolding e_def now(1) by (cases "j = 0") auto
  moreover have "(e + 3) mod 7 = wd" using j3 week_back[of D] unfolding e_def by (cases "j = 0") auto
  ultimately show thesis using last unfolding H_def by (intro that)
qed

lemma weekly_calendar_facts:
  assumes "0 \<le> wd" "wd \<le> 6" "0 \<le> h" "h \<le> 23"
  shows "latest_weekly_end now wd h \<le> now" "now < next_weekly_run now wd h"
    "next_weekly_run now wd h = latest_weekly_end now wd h + 7 * day"
    "weekly_boundary wd h (latest_weekly_end now wd h)" "weekly_boundary wd h (next_weekly_run now wd h)"
    "weekly_boundary wd h t \<Longrightarrow> t \<le> latest_weekly_end now wd h \<or> next_weekly_run now wd h \<le> t"
proof -
  obtain k where k: "latest_weekly_end now wd h = k * day + h * hour" "(k + 3) mod 7 = wd"
    "k * day + h * hour \<le> now" "now < (k + 7) * day + h * hour"
    "next_weekly_run now wd h = (k + 7) * day + h * hour"
    by (rule latest_weekly_end_form[OF assms])
  have "t \<le> k * day + h * hour \<or> (k + 7) * day + h * hour \<le> t" if b: "weekly_boundary wd h t" for t
  proof -
    obtain l where l: "t = l * day + h * hour" "(l + 3) mod 7 = wd"
      using iffD1[OF boundary_iff[OF assms(3,4)] b] by (elim exE conjE)
    have "l \<le> k \<or> k + 7 \<le> l" by (rule same_weekday[OF trans[OF l(2) k(2)[symmetric]]])
    then have "l * day \<le> k * day \<or> (k + 7) * day \<le> l * day"
      using day_pos by (simp only: mult_le_cancel_right_pos)
    then show ?thesis using l(1) by auto
  qed
  moreover have "weekly_boundary wd h (k * day + h * hour)"
    unfolding boundary_iff[OF assms(3,4)] by (intro exI[of _ k] conjI refl k(2))
  moreover have "weekly_boundary wd h ((k + 7) * day + h * hour)"
    unfolding boundary_iff[OF assms(3,4)]
    by (intro exI[of _ "k + 7"] conjI refl) (use week_back[of "k + 7"] k(2) in simp)
  ultimately show "weekly_boundary wd h (latest_weekly_end now wd h)" "weekly_boundary wd h (next_weekly_run now wd h)"
    "weekly_boundary wd h t \<Longrightarrow> t \<le> latest_weekly_end now wd h \<or> next_weekly_run now wd h \<le> t"
    unfolding k(1,5) by blast+
  show "latest_weekly_end now wd h \<le> now" "now < next_weekly_run now wd h"
    unfolding k(1,5) by (rule k(3,4))+
  show "next_weekly_run now wd h = latest_weekly_end now wd h + 7 * day"
    unfolding k(1,5) by (simp add: distrib_right)
qed

text \<open>
  The weekly schedule and the weekly archive agree: the end of the last report is the latest configured
  instant not after now, the next run is the first one after now, seven days later.
\<close>

theorem weekly_calendar:
  assumes "0 \<le> wd" "wd \<le> 6" "0 \<le> h" "h \<le> 23"
  shows "latest_weekly_end now wd h \<le> now \<and> now < next_weekly_run now wd h \<and>
    next_weekly_run now wd h = latest_weekly_end now wd h + 7 * day \<and>
    weekly_boundary wd h (latest_weekly_end now wd h) \<and> weekly_boundary wd h (next_weekly_run now wd h) \<and>
    (\<forall>t. weekly_boundary wd h t \<longrightarrow> t \<le> latest_weekly_end now wd h \<or> next_weekly_run now wd h \<le> t)"
  using weekly_calendar_facts[OF assms] by blast

theorem weekly_calendar_witness:
  "latest_weekly_end 1790000000000000 0 8 + 7 * day = next_weekly_run 1790000000000000 0 8"
proof -
  have h: "0 \<le> (0 :: int)" "(0 :: int) \<le> 6" "0 \<le> (8 :: int)" "(8 :: int) \<le> 23" by simp_all
  from weekly_calendar[OF h, of 1790000000000000]
  have "next_weekly_run 1790000000000000 0 8 = latest_weekly_end 1790000000000000 0 8 + 7 * day" by blast
  then show ?thesis by (rule sym)
qed

section \<open>Windows add up\<close>

text \<open>A closed position falls into exactly one of the two halves of a window.\<close>

lemma filter_halves:
  assumes "\<And>p. P p \<longleftrightarrow> Q p \<or> R p" "\<And>p. \<not> (Q p \<and> R p)"
  shows "mset (filter P xs) = mset (filter Q xs) + mset (filter R xs)"
  using assms by (induction xs) auto

lemma closed_positions_split:
  assumes "a \<le> b" "b \<le> c"
  shows "mset (closed_positions_since d a c) = mset (closed_positions_since d a b) + mset (closed_positions_since d b c)"
  unfolding closed_positions_since_def using assms by (intro filter_halves) (auto split: option.splits)

lemma window_stats_sums:
  assumes "stored_amounts (map pnl_or_zero (db_positions d))"
  shows "ws_pnl_usdt (window_stats (closed_positions_since d a b)) =
      sum_mset (image_mset pnl_or_zero (mset (closed_positions_since d a b)))"
    and "ws_wins (window_stats ps) = size (filter_mset (\<lambda>p. pnl_or_zero p > 0) (mset ps))"
    and "ws_losses (window_stats ps) = size (filter_mset (\<lambda>p. pnl_or_zero p < 0) (mset ps))"
proof -
  have "stored_amounts (map pnl_or_zero (closed_positions_since d a b))"
    unfolding closed_positions_since_def by (rule stored_amounts_filter[OF assms])
  then show "ws_pnl_usdt (window_stats (closed_positions_since d a b)) =
      sum_mset (image_mset pnl_or_zero (mset (closed_positions_since d a b)))"
    by (simp add: window_stats_def stored_amounts_sum sum_mset_sum_list flip: mset_map)
  show "ws_wins (window_stats ps) = size (filter_mset (\<lambda>p. pnl_or_zero p > 0) (mset ps))"
    "ws_losses (window_stats ps) = size (filter_mset (\<lambda>p. pnl_or_zero p < 0) (mset ps))"
    by (simp_all add: window_stats_def flip: mset_filter)
qed

text \<open>
  Reports add up: for amounts the database can hold, the profit and the counts of wins and losses of a
  window of any number of days are the sums over its days, so the daily summaries of a week account for
  every closed position of the weekly one exactly once.
\<close>

theorem days_add_up:
  fixes n :: nat
  assumes "stored_amounts (map pnl_or_zero (db_positions d))"
  defines "window a b \<equiv> window_stats (closed_positions_since d a b)"
  shows "ws_pnl_usdt (window (t - day * int n) t) =
      (\<Sum>i<n. ws_pnl_usdt (window (t - day * int (Suc i)) (t - day * int i))) \<and>
    ws_wins (window (t - day * int n) t) = (\<Sum>i<n. ws_wins (window (t - day * int (Suc i)) (t - day * int i))) \<and>
    ws_losses (window (t - day * int n) t) = (\<Sum>i<n. ws_losses (window (t - day * int (Suc i)) (t - day * int i)))"
proof (induction n)
  case 0
  have "closed_positions_since d t t = []" by (auto simp: closed_positions_since_def filter_empty_conv split: option.splits)
  then show ?case by (simp add: window_def window_stats_def dec_sum_def)
next
  case (Suc n)
  have "t - day * int (Suc n) \<le> t - day * int n" "t - day * int n \<le> t" using day_pos by (simp_all add: distrib_left)
  note split = closed_positions_split[OF this, of d]
  have "ws_pnl_usdt (window (t - day * int (Suc n)) t) =
      ws_pnl_usdt (window (t - day * int (Suc n)) (t - day * int n)) + ws_pnl_usdt (window (t - day * int n) t)"
    "ws_wins (window (t - day * int (Suc n)) t) =
      ws_wins (window (t - day * int (Suc n)) (t - day * int n)) + ws_wins (window (t - day * int n) t)"
    "ws_losses (window (t - day * int (Suc n)) t) =
      ws_losses (window (t - day * int (Suc n)) (t - day * int n)) + ws_losses (window (t - day * int n) t)"
    unfolding window_def window_stats_sums[OF assms(1)] split by simp_all
  with Suc.IH show ?case by simp
qed

theorem days_add_up_witness:
  "ws_wins (window_stats (closed_positions_since (empty_db\<lparr>db_positions := []\<rparr>) (0 - day * int 7) 0)) =
     (\<Sum>i<(7 :: nat). ws_wins (window_stats (closed_positions_since (empty_db\<lparr>db_positions := []\<rparr>)
        (0 - day * int (Suc i)) (0 - day * int i))))"
  by (rule days_add_up[THEN conjunct2, THEN conjunct1]) (simp add: stored_amounts_def)

section \<open>The archive publishes a week once\<close>

text \<open>The turns of the loop at the times of its wake-ups, with the outcome of an attempt at each.\<close>

fun archive_run ::
    "int \<Rightarrow> int \<Rightarrow> (datetime \<times> bool) list \<Rightarrow> datetime option \<Rightarrow> (datetime \<times> bool) list \<times> datetime option" where
  "archive_run wd h [] private_done = ([], private_done)"
| "archive_run wd h ((now, ok) # ts) private_done =
     (case archive_turn wd h (\<lambda>_. ok) now private_done of
        (private_done, attempt, _) \<Rightarrow>
          (case archive_run wd h ts private_done of
             (attempts, private_done) \<Rightarrow> ((case attempt of None \<Rightarrow> [] | Some a \<Rightarrow> [a]) @ attempts, private_done)))"

lemma latest_weekly_end_mono:
  assumes "0 \<le> wd" "wd \<le> 6" "0 \<le> h" "h \<le> 23" "now \<le> later"
  shows "latest_weekly_end now wd h \<le> latest_weekly_end later wd h"
proof -
  note a = weekly_calendar_facts[OF assms(1-4), where now = now]
    and b = weekly_calendar_facts[OF assms(1-4), where now = later]
  show ?thesis
  proof (rule ccontr)
    assume "\<not> latest_weekly_end now wd h \<le> latest_weekly_end later wd h"
    with b(6)[OF a(4)] a(1) assms(5) b(2) show False by linarith
  qed
qed

text \<open>The windows a list of attempts has published.\<close>

definition published_windows :: "(datetime \<times> bool) list \<Rightarrow> datetime list" where
  "published_windows attempts = map fst (filter snd attempts)"

lemma archive_run_append:
  "archive_run wd h (ts @ us) m =
     (case archive_run wd h ts m of (as, m') \<Rightarrow> (case archive_run wd h us m' of (bs, m'') \<Rightarrow> (as @ bs, m'')))"
  by (induction wd h ts m rule: archive_run.induct) (auto split: prod.splits)

lemma archive_run_mark:
  "archive_run wd h ts m = (as, m') \<Longrightarrow>
     m' = (if published_windows as = [] then m else Some (last (published_windows as)))"
  by (induction wd h ts m arbitrary: as m' rule: archive_run.induct)
     (auto simp: archive_turn_def published_windows_def Let_def split: prod.splits if_splits)

lemma archive_run_increasing:
  assumes "0 \<le> wd" "wd \<le> 6" "0 \<le> h" "h \<le> 23"
    and "sorted (map fst ts)" "\<And>e now ok. m = Some e \<Longrightarrow> (now, ok) \<in> set ts \<Longrightarrow> e \<le> latest_weekly_end now wd h"
    and "archive_run wd h ts m = (as, m')"
  shows "sorted_wrt (<) (published_windows as) \<and> (\<forall>e. m = Some e \<longrightarrow> (\<forall>x \<in> set (published_windows as). e < x))"
  using assms(5-7)
proof (induction ts arbitrary: m as)
  case Nil
  then show ?case by (simp add: published_windows_def)
next
  case (Cons t ts)
  obtain now ok where t: "t = (now, ok)" by fastforce
  define e where "e = latest_weekly_end now wd h"
  define m1 where "m1 = (if m \<noteq> Some e \<and> ok then Some e else m)"
  obtain bs where bs: "archive_run wd h ts m1 = (bs, m')"
    "as = (if m \<noteq> Some e then [(e, ok)] else []) @ bs"
    using Cons.prems(3) by (auto simp: t archive_turn_def e_def m1_def Let_def split: prod.splits if_splits)
  have later: "e \<le> latest_weekly_end now' wd h" if "(now', ok') \<in> set ts" for now' ok'
    unfolding e_def using Cons.prems(1) that t by (intro latest_weekly_end_mono[OF assms(1-4)]) auto
  have m1: "e' \<le> latest_weekly_end now' wd h" if "m1 = Some e'" "(now', ok') \<in> set ts" for e' now' ok'
    using that later[OF that(2)] Cons.prems(2)[of e' now' ok'] by (auto simp: m1_def split: if_splits)
  have IH: "sorted_wrt (<) (published_windows bs) \<and> (\<forall>e. m1 = Some e \<longrightarrow> (\<forall>x \<in> set (published_windows bs). e < x))"
    using Cons.IH[OF _ m1 bs(1)] Cons.prems(1) t by simp
  have "e' < e" if "m = Some e'" "m \<noteq> Some e" for e'
    using Cons.prems(2)[of e' now ok] that t by (auto simp: e_def order_less_le)
  with IH show ?case
    unfolding bs(2) by (auto simp: published_windows_def m1_def split: if_splits; fastforce)
qed

text \<open>
  The archive publishes the report of a week at most once and keeps trying until it has: with a clock
  that does not go back the published windows are strictly increasing, and every wake-up makes an attempt
  for the last finished week unless that week has been published before.
\<close>

theorem archive_publishes_once:
  assumes "0 \<le> wd" "wd \<le> 6" "0 \<le> h" "h \<le> 23" "sorted (map fst (before @ (now, ok) # later))"
    and "archive_run wd h before None = (attempts, m)"
    and "archive_run wd h (before @ (now, ok) # later) None = (all_attempts, m')"
  shows "sorted_wrt (<) (published_windows all_attempts) \<and>
    (latest_weekly_end now wd h \<in> set (published_windows attempts) \<or>
     (\<exists>rest. all_attempts = attempts @ (latest_weekly_end now wd h, ok) # rest))"
proof
  show "sorted_wrt (<) (published_windows all_attempts)"
    using archive_run_increasing[OF assms(1-5) _ assms(7)] by simp
  have m: "m = (if published_windows attempts = [] then None else Some (last (published_windows attempts)))"
    by (rule archive_run_mark[OF assms(6)])
  show "latest_weekly_end now wd h \<in> set (published_windows attempts) \<or>
     (\<exists>rest. all_attempts = attempts @ (latest_weekly_end now wd h, ok) # rest)"
  proof (cases "m = Some (latest_weekly_end now wd h)")
    case True
    then show ?thesis using m last_in_set by (metis option.inject option.distinct(1))
  next
    case False
    then show ?thesis
      using assms(7) unfolding archive_run_append assms(6)
      by (auto simp: archive_turn_def Let_def split: prod.splits)
  qed
qed

theorem archive_publishes_once_witness:
  "\<exists>rest. fst (archive_run 0 8 ([(5 * day, False)] @ (6 * day, True) # [(7 * day, True)]) None) =
     fst (archive_run 0 8 [(5 * day, False)] None) @ (latest_weekly_end (6 * day) 0 8, True) # rest"
proof -
  have "published_windows (fst (archive_run 0 8 [(5 * day, False)] None)) = []"
    by (simp add: archive_turn_def published_windows_def Let_def)
  moreover have "sorted (map fst ([(5 * day, False)] @ (6 * day, True) # [(7 * day, True)]))"
    using day_pos by simp
  ultimately show ?thesis
    using archive_publishes_once[of 0 8 "[(5 * day, False)]" "6 * day" True "[(7 * day, True)]",
        OF _ _ _ _ _ surjective_pairing surjective_pairing] by simp
qed

section \<open>The equity history looks back only\<close>

lemma first_max_None: "first_max f xs = None \<longleftrightarrow> xs = []"
  by (cases xs) (auto split: option.splits)

lemma first_max_Some: "first_max f xs = Some x \<Longrightarrow> x \<in> set xs \<and> (\<forall>y \<in> set xs. f y \<le> f x)"
proof (induction xs arbitrary: x)
  case (Cons a xs)
  show ?case
  proof (cases "first_max f xs")
    case None
    with Cons.prems show ?thesis by (simp add: first_max_None)
  next
    case (Some y)
    from Cons.IH[OF this] Some Cons.prems show ?thesis by (auto split: if_splits)
  qed
qed simp

text \<open>
  The equity history never shows a balance from outside its week: there is one point per week, oldest
  first, and each shows the balance of the last sample of its own seven days, or nothing if there is none.
\<close>

theorem equity_periods_sound:
  assumes "i < n"
  shows "length (equity_periods samples t n) = n \<and>
    (let p = equity_periods samples t n ! i; b = t - 7 * day * int (n - Suc i);
         week = filter (\<lambda>s. \<exists>o'. eq_observed_at s = Some o' \<and> b - 7 * day < o' \<and> o' \<le> b \<and> eq_equity_usdt s \<noteq> None) samples
     in eq_period_end p = b \<and>
        (if week = [] then eq_observed_at p = None \<and> eq_equity_usdt p = None
         else \<exists>s \<in> set week. eq_observed_at p = eq_observed_at s \<and> eq_equity_usdt p = eq_equity_usdt s \<and>
                (\<forall>s' \<in> set week. the (eq_observed_at s') \<le> the (eq_observed_at s))))"
proof -
  define b where "b = t - 7 * day * int (n - Suc i)"
  define week where "week = filter (\<lambda>s. \<exists>o'. eq_observed_at s = Some o' \<and> b - 7 * day < o' \<and> o' \<le> b \<and>
    eq_equity_usdt s \<noteq> None) samples"
  have len: "length (equity_periods samples t n) = n" by (simp add: equity_periods_def)
  have p: "equity_periods samples t n ! i = equity_period samples b"
    using assms by (simp add: equity_periods_def rev_nth b_def)
  have "week = filter (\<lambda>p. case eq_observed_at p of None \<Rightarrow> False
      | Some t \<Rightarrow> b - 7 * day < t \<and> t \<le> b \<and> eq_equity_usdt p \<noteq> None) samples"
    unfolding week_def by (rule filter_cong) (auto split: option.splits)
  then have period: "equity_period samples b =
      (let lt = first_max (\<lambda>p. the (eq_observed_at p)) week
       in \<lparr>eq_period_end = b, eq_observed_at = Option.bind lt eq_observed_at,
           eq_equity_usdt = Option.bind lt eq_equity_usdt\<rparr>)"
    unfolding equity_period_def Let_def by simp
  have "eq_period_end (equity_period samples b) = b \<and>
    (if week = [] then eq_observed_at (equity_period samples b) = None \<and> eq_equity_usdt (equity_period samples b) = None
     else \<exists>s \<in> set week. eq_observed_at (equity_period samples b) = eq_observed_at s \<and>
       eq_equity_usdt (equity_period samples b) = eq_equity_usdt s \<and>
       (\<forall>s' \<in> set week. the (eq_observed_at s') \<le> the (eq_observed_at s)))"
  proof (cases "first_max (\<lambda>p. the (eq_observed_at p)) week")
    case None
    then show ?thesis by (simp add: period first_max_None)
  next
    case (Some s)
    note first_max_Some[OF Some]
    moreover have "week \<noteq> []" using Some by auto
    ultimately show ?thesis by (auto simp: period Some)
  qed
  with len show ?thesis unfolding Let_def p b_def[symmetric] week_def[symmetric] by blast
qed

theorem equity_periods_sound_witness:
  "let p = equity_periods [\<lparr>eq_period_end = 5, eq_observed_at = Some 5, eq_equity_usdt = Some 100\<rparr>] 10 2 ! 1
   in eq_period_end p = 10 \<and> eq_equity_usdt p = Some 100"
  using equity_periods_sound[of 1 2 "[\<lparr>eq_period_end = 5, eq_observed_at = Some 5, eq_equity_usdt = Some 100\<rparr>]" 10]
  by (simp add: Let_def day_def)

end
