(* ===== verification/Historical_Replay.thy ===== *)
theory Historical_Replay
  imports Backtest_Ledger Llm_Service "HOL-Library.Product_Lexorder" "HOL-Library.List_Lexorder" "HOL-Library.Char_ord"
    "HOL-Library.Sublist"
begin

text \<open>
  \<open>tools/historical_replay\<close>: \<open>schemas.py\<close>, \<open>simulator.py\<close> and \<open>metrics.py\<close>, the replay of given signals
  against candles with orders that are filled at the next candle, fees, slippage and the exits Freqtrade
  makes.  A Python dict is an association list in its order; an exception ends the run.  Times are UTC.
\<close>

section \<open>Inputs\<close>

record HistCandle =
  hc_symbol :: string
  hc_open_time :: datetime
  hc_close_time :: datetime
  hc_open :: rat
  hc_high :: rat
  hc_low :: rat
  hc_close :: rat
  hc_volume :: rat

definition candle_valid :: "HistCandle \<Rightarrow> bool" where
  "candle_valid c \<longleftrightarrow>
     SymbolStr (hc_symbol c) \<and> hc_open c > 0 \<and> hc_high c > 0 \<and> hc_low c > 0 \<and> hc_close c > 0 \<and> hc_volume c \<ge> 0 \<and>
     \<not> hc_close_time c \<le> hc_open_time c \<and>
     \<not> (hc_high c < max (hc_open c) (hc_close c) \<or> hc_low c > min (hc_open c) (hc_close c)) \<and>
     \<not> hc_low c > hc_high c"

record SyntheticSignal =
  sg_symbol :: string
  sg_candle_close_time :: datetime
  sg_action :: Action
  sg_confidence :: rat
  sg_atr_14 :: rat

definition synthetic_signal_valid :: "SyntheticSignal \<Rightarrow> bool" where
  "synthetic_signal_valid s \<longleftrightarrow>
     SymbolStr (sg_symbol s) \<and> 0 \<le> sg_confidence s \<and> sg_confidence s \<le> 1 \<and> 0 < sg_atr_14 s"

record ReplayConfig =
  rp_starting_equity_usdt :: rat
  rp_fee_rate :: rat
  rp_slippage_rate :: rat
  rp_static_stop_loss_pct :: rat
  rp_risk :: RiskConfig

definition replay_config_valid :: "ReplayConfig \<Rightarrow> bool" where
  "replay_config_valid c \<longleftrightarrow>
     rp_starting_equity_usdt c > 0 \<and> 0 \<le> rp_fee_rate c \<and> rp_fee_rate c < 1 \<and>
     0 \<le> rp_slippage_rate c \<and> rp_slippage_rate c < 1 \<and>
     0 < rp_static_stop_loss_pct c \<and> rp_static_stop_loss_pct c < 1"

definition ReplayConfig_defaults :: ReplayConfig where
  "ReplayConfig_defaults =
     \<lparr>rp_starting_equity_usdt = 10000, rp_fee_rate = 1 / 1000, rp_slippage_rate = 5 / 10000,
      rp_static_stop_loss_pct = 8 / 100, rp_risk = RiskConfig_defaults\<rparr>"

section \<open>State\<close>

record PendingOrder =
  po_symbol :: string
  po_side :: string
  po_signal_time :: datetime
  po_stake_usdt :: "rat option"

record OpenPosition =
  op_symbol :: string
  op_opened_at :: datetime
  op_entry_reference_price :: rat
  op_entry_price :: rat
  op_amount :: rat
  op_stake_usdt :: rat
  op_entry_fee_usdt :: rat
  op_stop_price :: rat

record ReplayDecision =
  rd_symbol :: string
  rd_candle_close_time :: datetime
  rd_action :: Action
  rd_confidence :: rat
  rd_approved :: bool
  rd_rejection_reason :: "RejectionReason option"
  rd_pending_side :: "string option"

record ReplayTrade =
  rt_symbol :: string
  rt_opened_at :: datetime
  rt_closed_at :: datetime
  rt_entry_reference_price :: rat
  rt_entry_price :: rat
  rt_exit_reference_price :: rat
  rt_exit_price :: rat
  rt_amount :: rat
  rt_stake_usdt :: rat
  rt_entry_fee_usdt :: rat
  rt_exit_fee_usdt :: rat
  rt_gross_pnl_usdt :: rat
  rt_net_pnl_usdt :: rat
  rt_net_pnl_pct :: rat
  rt_exit_reason :: string

text \<open>\<open>hs_equity_curve\<close> holds the \<open>EquityPoint\<close>s, time and equity.\<close>

record ReplaySimulator =
  hs_cash :: rat
  hs_positions :: "(string \<times> OpenPosition) list"
  hs_pending :: "(string \<times> PendingOrder) list"
  hs_trades :: "ReplayTrade list"
  hs_decisions :: "ReplayDecision list"
  hs_equity_curve :: "(datetime \<times> rat) list"
  hs_last_prices :: "string \<rightharpoonup> rat"
  hs_killswitch_enabled :: bool

definition new_simulator :: "ReplayConfig \<Rightarrow> ReplaySimulator" where
  "new_simulator config =
     \<lparr>hs_cash = rp_starting_equity_usdt config, hs_positions = [], hs_pending = [], hs_trades = [],
      hs_decisions = [], hs_equity_curve = [], hs_last_prices = Map.empty, hs_killswitch_enabled = False\<rparr>"

section \<open>Validation of a run\<close>

text \<open>The loop over the ordered candles: a duplicate and an overlap raise \<open>ValueError\<close>.\<close>

fun candles_consistent :: "(string \<times> datetime) set \<Rightarrow> (string \<rightharpoonup> datetime) \<Rightarrow> HistCandle list \<Rightarrow> bool" where
  "candles_consistent seen last_close [] = True"
| "candles_consistent seen last_close (c # cs) =
     (if (hc_symbol c, hc_open_time c) \<in> seen then False
      else if (case last_close (hc_symbol c) of None \<Rightarrow> False | Some previous \<Rightarrow> hc_open_time c < previous) then False
      else candles_consistent (insert (hc_symbol c, hc_open_time c) seen)
             (last_close(hc_symbol c \<mapsto> hc_close_time c)) cs)"

definition candle_order :: "HistCandle \<Rightarrow> datetime \<times> string" where
  "candle_order c = (hc_open_time c, hc_symbol c)"

definition validate_and_order_candles :: "HistCandle list \<Rightarrow> py_error + HistCandle list" where
  "validate_and_order_candles candles =
     (if candles = [] then Inl ValueError
      else let ordered = sort_key candle_order candles
           in if candles_consistent {} Map.empty ordered then Inr ordered else Inl ValueError)"

definition index_signals ::
    "SyntheticSignal list \<Rightarrow> py_error + (string \<times> datetime \<rightharpoonup> SyntheticSignal)" where
  "index_signals signals =
     (let key = (\<lambda>s. (sg_symbol s, sg_candle_close_time s))
      in if distinct (map key signals) then Inr (map_of (map (\<lambda>s. (key s, s)) signals)) else Inl ValueError)"

section \<open>Equity and the account\<close>

definition net_of :: "rat \<Rightarrow> rat" where
  "net_of rate = dec (1 - rate)"

definition sim_equity :: "ReplayConfig \<Rightarrow> ReplaySimulator \<Rightarrow> rat" where
  "sim_equity config s =
     (let liquidation_value = dec_sum (map (\<lambda>(symbol, p).
            dec (dec (op_amount p * (case hs_last_prices s symbol of Some x \<Rightarrow> x | None \<Rightarrow> op_entry_price p)) *
                 net_of (rp_fee_rate config))) (hs_positions s))
      in dec (hs_cash s + liquidation_value))"

definition pending_entries :: "ReplaySimulator \<Rightarrow> (string \<times> rat) list" where
  "pending_entries s =
     List.map_filter (\<lambda>(symbol, order).
        if po_side order = ''BUY'' then map_option (Pair symbol) (po_stake_usdt order) else None) (hs_pending s)"

definition sim_account_state :: "ReplayConfig \<Rightarrow> datetime \<Rightarrow> ReplaySimulator \<Rightarrow> AccountState" where
  "sim_account_state config now s =
     (let equity = sim_equity config s;
          entries = pending_entries s;
          reserved = dec_sum (map (\<lambda>(_, stake). dec (stake * dec (1 + rp_fee_rate config))) entries);
          exposure = dec (dec_sum (map (op_stake_usdt \<circ> snd) (hs_positions s)) + dec_sum (map snd entries));
          closed_desc = sort_key (\<lambda>t. - rt_closed_at t) (hs_trades s);
          losses = takeWhile (\<lambda>t. \<not> rt_net_pnl_usdt t \<ge> 0) closed_desc;
          daily_pnl = dec_sum (map rt_net_pnl_usdt
            (filter (\<lambda>t. date_of (rt_closed_at t) = date_of now) (hs_trades s)))
      in \<lparr>ac_equity_usdt = equity,
          ac_free_balance_usdt = max (dec (hs_cash s - reserved)) 0,
          ac_open_position_symbols = fst ` set (hs_positions s) \<union> fst ` set entries,
          ac_total_exposure_usdt = exposure,
          ac_daily_pnl_pct = (if equity > 0 then dec (daily_pnl / equity) else 0),
          ac_consecutive_losses = length losses,
          ac_last_loss_closed_at = (case losses of [] \<Rightarrow> None | t # _ \<Rightarrow> Some (rt_closed_at t)),
          ac_symbol_last_closed_at = map_of (map (\<lambda>t. (rt_symbol t, rt_closed_at t)) closed_desc)\<rparr>)"

definition record_equity :: "ReplayConfig \<Rightarrow> datetime \<Rightarrow> ReplaySimulator \<Rightarrow> ReplaySimulator" where
  "record_equity config t s =
     s\<lparr>hs_equity_curve := hs_equity_curve s @ [(t, sim_equity config s)]\<rparr>"

section \<open>Closing\<close>

definition net_return_at_price :: "ReplayConfig \<Rightarrow> OpenPosition \<Rightarrow> rat \<Rightarrow> py_error + rat" where
  "net_return_at_price config p exit_price =
     (let proceeds = dec (dec (op_amount p * exit_price) * net_of (rp_fee_rate config));
          cost = dec (op_stake_usdt p + op_entry_fee_usdt p)
      in dec_div (dec (proceeds - cost)) cost)"

definition price_for_net_return :: "ReplayConfig \<Rightarrow> OpenPosition \<Rightarrow> rat \<Rightarrow> py_error + rat" where
  "price_for_net_return config p target =
     (let cost = dec (op_stake_usdt p + op_entry_fee_usdt p);
          required_proceeds = dec (cost * dec (1 + target))
      in dec_div required_proceeds (dec (op_amount p * net_of (rp_fee_rate config))))"

definition roi_target :: "rat \<Rightarrow> rat" where
  "roi_target age_minutes =
     (if age_minutes < 60 then 10 / 100
      else if age_minutes < 120 then 5 / 100
      else if age_minutes < 240 then 2 / 100
      else 0)"

text \<open>The position leaves the dict first; the exception of the last division ends the run.\<close>

definition sim_close_position ::
    "ReplayConfig \<Rightarrow> string \<Rightarrow> datetime \<Rightarrow> rat \<Rightarrow> rat \<Rightarrow> string \<Rightarrow> ReplaySimulator \<Rightarrow> py_error + ReplaySimulator" where
  "sim_close_position config symbol closed_at reference_price exit_price reason s =
     (case map_of (hs_positions s) symbol of
        None \<Rightarrow> Inl KeyError
      | Some p \<Rightarrow>
          let gross_exit = dec (op_amount p * exit_price);
              exit_fee = dec (gross_exit * rp_fee_rate config);
              proceeds = dec (gross_exit - exit_fee);
              gross_pnl = dec (op_amount p * dec (exit_price - op_entry_price p));
              net_pnl = dec (dec (proceeds - op_stake_usdt p) - op_entry_fee_usdt p);
              total_cost = dec (op_stake_usdt p + op_entry_fee_usdt p)
          in bind_res (dec_div net_pnl total_cost) (\<lambda>net_pnl_pct.
             Inr (s\<lparr>hs_positions := AList.delete symbol (hs_positions s),
                    hs_cash := dec (hs_cash s + proceeds),
                    hs_trades := hs_trades s @
                      [\<lparr>rt_symbol = symbol, rt_opened_at = op_opened_at p, rt_closed_at = closed_at,
                        rt_entry_reference_price = op_entry_reference_price p, rt_entry_price = op_entry_price p,
                        rt_exit_reference_price = reference_price, rt_exit_price = exit_price,
                        rt_amount = op_amount p, rt_stake_usdt = op_stake_usdt p,
                        rt_entry_fee_usdt = op_entry_fee_usdt p, rt_exit_fee_usdt = exit_fee,
                        rt_gross_pnl_usdt = gross_pnl, rt_net_pnl_usdt = net_pnl, rt_net_pnl_pct = net_pnl_pct,
                        rt_exit_reason = reason\<rparr>]\<rparr>)))"

section \<open>One candle\<close>

definition execute_pending :: "ReplayConfig \<Rightarrow> HistCandle \<Rightarrow> ReplaySimulator \<Rightarrow> py_error + ReplaySimulator" where
  "execute_pending config candle s =
     (case map_of (hs_pending s) (hc_symbol candle) of
        None \<Rightarrow> Inr s
      | Some order \<Rightarrow>
          if hc_open_time candle < po_signal_time order then Inr s
          else
            let symbol = hc_symbol candle;
                s = s\<lparr>hs_pending := AList.delete symbol (hs_pending s)\<rparr>
            in if po_side order = ''BUY'' then
                 (case po_stake_usdt order of
                    None \<Rightarrow> Inl AssertionError
                  | Some stake \<Rightarrow>
                      let entry_price = dec (hc_open candle * dec (1 + rp_slippage_rate config));
                          entry_fee = dec (stake * rp_fee_rate config);
                          total_cost = dec (stake + entry_fee)
                      in if total_cost > hs_cash s \<or> symbol \<in> fst ` set (hs_positions s) then Inr s
                         else bind_res (dec_div stake entry_price) (\<lambda>amount.
                           Inr (s\<lparr>hs_cash := dec (hs_cash s - total_cost),
                                  hs_positions := AList.update symbol
                                    \<lparr>op_symbol = symbol, op_opened_at = hc_open_time candle,
                                     op_entry_reference_price = hc_open candle, op_entry_price = entry_price,
                                     op_amount = amount, op_stake_usdt = stake, op_entry_fee_usdt = entry_fee,
                                     op_stop_price = dec (entry_price * net_of (rp_static_stop_loss_pct config))\<rparr>
                                    (hs_positions s)\<rparr>)))
               else if po_side order = ''SELL'' \<and> symbol \<in> fst ` set (hs_positions s) then
                 sim_close_position config symbol (hc_open_time candle) (hc_open candle)
                   (dec (hc_open candle * net_of (rp_slippage_rate config))) ''signal_exit'' s
               else Inr s)"

definition apply_safety_exits :: "ReplayConfig \<Rightarrow> HistCandle \<Rightarrow> ReplaySimulator \<Rightarrow> py_error + ReplaySimulator" where
  "apply_safety_exits config candle s =
     (let symbol = hc_symbol candle in
      case map_of (hs_positions s) symbol of
        None \<Rightarrow> Inr s
      | Some p \<Rightarrow>
          if hc_low candle \<le> op_stop_price p then
            sim_close_position config symbol (hc_close_time candle) (op_stop_price p)
              (dec (op_stop_price p * net_of (rp_slippage_rate config))) ''stop_loss'' s
          else
            let target = roi_target (dec_of_float (elapsed_minutes (op_opened_at p) (hc_close_time candle)));
                open_fill = dec (hc_open candle * net_of (rp_slippage_rate config))
            in bind_res (net_return_at_price config p open_fill) (\<lambda>r.
               if r \<ge> target then
                 sim_close_position config symbol (hc_open_time candle) (hc_open candle) open_fill ''roi'' s
               else bind_res (price_for_net_return config p target) (\<lambda>target_fill.
                 bind_res (dec_div target_fill (net_of (rp_slippage_rate config))) (\<lambda>trigger.
                 if hc_high candle \<ge> trigger then
                   sim_close_position config symbol (hc_close_time candle) trigger target_fill ''roi'' s
                 else Inr s))))"

definition REPLAY_NO_EXPECTANCY :: ExpectancyView where
  "REPLAY_NO_EXPECTANCY = \<lparr>ev_setup_key = ''(replay)'', ev_sample_size = 0, ev_expectancy_r = None\<rparr>"

definition synthetic_view :: "HistCandle \<Rightarrow> SyntheticSignal \<Rightarrow> SignalView" where
  "synthetic_view candle signal =
     \<lparr>sv_id = SyntheticId (sg_symbol signal) (sg_candle_close_time signal), sv_symbol = sg_symbol signal,
      sv_action = sg_action signal, sv_confidence = sg_confidence signal,
      sv_candle_ts = sg_candle_close_time signal, sv_price = hc_close candle, sv_atr_14 = sg_atr_14 signal,
      sv_setup_regime = None, sv_trade_score = None\<rparr>"

definition add_decision ::
    "SyntheticSignal \<Rightarrow> bool \<Rightarrow> RejectionReason option \<Rightarrow> string option \<Rightarrow> ReplaySimulator \<Rightarrow> ReplaySimulator" where
  "add_decision signal approved reason side s =
     s\<lparr>hs_decisions := hs_decisions s @
        [\<lparr>rd_symbol = sg_symbol signal, rd_candle_close_time = sg_candle_close_time signal,
          rd_action = sg_action signal, rd_confidence = sg_confidence signal, rd_approved = approved,
          rd_rejection_reason = reason, rd_pending_side = side\<rparr>]\<rparr>"

definition place :: "SyntheticSignal \<Rightarrow> string \<Rightarrow> rat option \<Rightarrow> ReplaySimulator \<Rightarrow> ReplaySimulator" where
  "place signal side stake s =
     s\<lparr>hs_pending := AList.update (sg_symbol signal)
        \<lparr>po_symbol = sg_symbol signal, po_side = side, po_signal_time = sg_candle_close_time signal,
         po_stake_usdt = stake\<rparr> (hs_pending s)\<rparr>"

definition sim_process_signal ::
    "ReplayConfig \<Rightarrow> HistCandle \<Rightarrow> SyntheticSignal \<Rightarrow> ReplaySimulator \<Rightarrow> py_error + ReplaySimulator" where
  "sim_process_signal config candle signal s =
     (if sg_symbol signal \<noteq> hc_symbol candle \<or> sg_candle_close_time signal \<noteq> hc_close_time candle
      then Inl ValueError
      else
        let view = synthetic_view candle signal;
            now = hc_close_time candle;
            account = sim_account_state config now s;
            duplicate = sg_symbol signal \<in> fst ` set (hs_pending s)
        in if sg_action signal = SELL then
             let result = evaluate_exit view account (rp_risk config) now duplicate;
                 s = (if xdr_approved result then place signal ''SELL'' None s else s)
             in Inr (add_decision signal (xdr_approved result) (xdr_rejection_reason result)
                       (if xdr_approved result then Some ''SELL'' else None) s)
           else
             bind_res (evaluate view account (rp_risk config) now (hs_killswitch_enabled s) duplicate
                         REPLAY_NO_EXPECTANCY) (\<lambda>result.
               let s = (if rdr_auto_trip_killswitch result then s\<lparr>hs_killswitch_enabled := True\<rparr> else s)
               in if rdr_approved result
                  then (case rdr_position_size_usdt result of
                          None \<Rightarrow> Inl AssertionError
                        | Some stake \<Rightarrow>
                            Inr (add_decision signal True (rdr_rejection_reason result) (Some ''BUY'')
                                   (place signal ''BUY'' (Some stake) s)))
                  else Inr (add_decision signal False (rdr_rejection_reason result) None s)))"

definition candle_step ::
    "ReplayConfig \<Rightarrow> (string \<times> datetime \<rightharpoonup> SyntheticSignal) \<Rightarrow> HistCandle \<Rightarrow> ReplaySimulator
     \<Rightarrow> py_error + ReplaySimulator" where
  "candle_step config signals_by_key candle s =
     bind_res (execute_pending config candle s) (\<lambda>s.
     bind_res (apply_safety_exits config candle s) (\<lambda>s.
       let s = s\<lparr>hs_last_prices := (hs_last_prices s)(hc_symbol candle \<mapsto> hc_close candle)\<rparr>
       in bind_res (case signals_by_key (hc_symbol candle, hc_close_time candle) of
                      None \<Rightarrow> Inr s | Some signal \<Rightarrow> sim_process_signal config candle signal s)
            (\<lambda>s. Inr (record_equity config (hc_close_time candle) s))))"

fun replay_candles ::
    "ReplayConfig \<Rightarrow> (string \<times> datetime \<rightharpoonup> SyntheticSignal) \<Rightarrow> HistCandle list \<Rightarrow> ReplaySimulator
     \<Rightarrow> py_error + ReplaySimulator" where
  "replay_candles config signals [] s = Inr s"
| "replay_candles config signals (c # cs) s = bind_res (candle_step config signals c s) (replay_candles config signals cs)"

definition simulate :: "ReplayConfig \<Rightarrow> HistCandle list \<Rightarrow> SyntheticSignal list \<Rightarrow> py_error + ReplaySimulator" where
  "simulate config candles signals =
     bind_res (validate_and_order_candles candles) (\<lambda>ordered.
     bind_res (index_signals signals) (\<lambda>signals_by_key.
       replay_candles config signals_by_key ordered (new_simulator config)))"

section \<open>The summary\<close>

fun maximum_drawdown_from :: "rat \<Rightarrow> rat \<Rightarrow> (datetime \<times> rat) list \<Rightarrow> rat" where
  "maximum_drawdown_from peak maximum [] = maximum"
| "maximum_drawdown_from peak maximum ((_, equity) # points) =
     (let peak = max peak equity
      in maximum_drawdown_from peak
           (if peak > 0 then max maximum (dec (dec (peak - equity) / peak)) else maximum) points)"

definition maximum_drawdown :: "(datetime \<times> rat) list \<Rightarrow> rat" where
  "maximum_drawdown points = maximum_drawdown_from 0 0 points"

record ReplaySummary =
  su_starting_equity_usdt :: rat
  su_ending_equity_usdt :: rat
  su_net_pnl_usdt :: rat
  su_net_return_pct :: rat
  su_gross_pnl_usdt :: rat
  su_fees_usdt :: rat
  su_trades :: nat
  su_wins :: nat
  su_losses :: nat
  su_win_rate :: rat
  su_profit_factor :: "rat option"
  su_expectancy_usdt :: rat
  su_max_drawdown_pct :: rat
  su_open_positions :: nat
  su_pending_orders :: nat
  su_rejection_counts :: "RejectionReason \<rightharpoonup> nat"

definition build_summary ::
    "rat \<Rightarrow> rat \<Rightarrow> ReplayTrade list \<Rightarrow> ReplayDecision list \<Rightarrow> (datetime \<times> rat) list \<Rightarrow> nat \<Rightarrow> nat
     \<Rightarrow> py_error + ReplaySummary" where
  "build_summary starting_equity ending_equity trades decisions points n_open n_pending =
     (let net_pnl = dec (ending_equity - starting_equity);
          nets = map rt_net_pnl_usdt trades;
          winning_total = dec_sum (filter (\<lambda>x. x > 0) nets);
          losing_total = dec (- dec_sum (filter (\<lambda>x. x < 0) nets));
          wins = length (filter (\<lambda>x. x > 0) nets);
          n = length trades;
          rejections = List.map_filter rd_rejection_reason decisions
      in bind_res (dec_div net_pnl starting_equity) (\<lambda>net_return_pct.
         Inr \<lparr>su_starting_equity_usdt = starting_equity, su_ending_equity_usdt = ending_equity,
              su_net_pnl_usdt = net_pnl, su_net_return_pct = net_return_pct,
              su_gross_pnl_usdt = dec_sum (map rt_gross_pnl_usdt trades),
              su_fees_usdt = dec_sum (map (\<lambda>t. dec (rt_entry_fee_usdt t + rt_exit_fee_usdt t)) trades),
              su_trades = n, su_wins = wins, su_losses = length (filter (\<lambda>x. x < 0) nets),
              su_win_rate = (if n = 0 then 0 else dec (of_nat wins / of_nat n)),
              su_profit_factor = (if losing_total > 0 then Some (dec (winning_total / losing_total)) else None),
              su_expectancy_usdt = (if n = 0 then 0 else dec (net_pnl / of_nat n)),
              su_max_drawdown_pct = maximum_drawdown points,
              su_open_positions = n_open, su_pending_orders = n_pending,
              su_rejection_counts = (\<lambda>r. if r \<in> set rejections then Some (count_list rejections r) else None)\<rparr>))"

definition replay_result ::
    "ReplayConfig \<Rightarrow> HistCandle list \<Rightarrow> SyntheticSignal list \<Rightarrow> py_error + ReplaySummary \<times> ReplaySimulator" where
  "replay_result config candles signals =
     bind_res (simulate config candles signals) (\<lambda>s.
     bind_res (build_summary (rp_starting_equity_usdt config) (sim_equity config s) (hs_trades s) (hs_decisions s)
                 (hs_equity_curve s) (length (hs_positions s)) (length (hs_pending s)))
       (\<lambda>summary. Inr (summary, s)))"


section \<open>The steps by cases\<close>

definition bought :: "ReplayConfig \<Rightarrow> HistCandle \<Rightarrow> rat \<Rightarrow> OpenPosition" where
  "bought config candle stake =
     (let entry_price = dec (hc_open candle * dec (1 + rp_slippage_rate config))
      in \<lparr>op_symbol = hc_symbol candle, op_opened_at = hc_open_time candle,
          op_entry_reference_price = hc_open candle, op_entry_price = entry_price,
          op_amount = dec (stake / entry_price), op_stake_usdt = stake,
          op_entry_fee_usdt = dec (stake * rp_fee_rate config),
          op_stop_price = dec (entry_price * net_of (rp_static_stop_loss_pct config))\<rparr>)"

lemma execute_pending_cases:
  assumes "execute_pending config candle s = Inr s'"
  obtains (waiting) "s' = s"
  | (dropped) order where "map_of (hs_pending s) (hc_symbol candle) = Some order"
      "s' = s\<lparr>hs_pending := AList.delete (hc_symbol candle) (hs_pending s)\<rparr>"
  | (bought) order stake where "map_of (hs_pending s) (hc_symbol candle) = Some order" "po_side order = ''BUY''"
      "po_stake_usdt order = Some stake" "po_signal_time order \<le> hc_open_time candle"
      "dec (stake + dec (stake * rp_fee_rate config)) \<le> hs_cash s" "hc_symbol candle \<notin> fst ` set (hs_positions s)"
      "s' = s\<lparr>hs_pending := AList.delete (hc_symbol candle) (hs_pending s),
              hs_cash := dec (hs_cash s - dec (stake + dec (stake * rp_fee_rate config))),
              hs_positions := AList.update (hc_symbol candle) (bought config candle stake) (hs_positions s)\<rparr>"
  | (sold) order where "map_of (hs_pending s) (hc_symbol candle) = Some order" "po_side order = ''SELL''"
      "po_signal_time order \<le> hc_open_time candle"
      "sim_close_position config (hc_symbol candle) (hc_open_time candle) (hc_open candle)
         (dec (hc_open candle * net_of (rp_slippage_rate config))) ''signal_exit''
         (s\<lparr>hs_pending := AList.delete (hc_symbol candle) (hs_pending s)\<rparr>) = Inr s'"
proof (cases "map_of (hs_pending s) (hc_symbol candle)")
  case None
  with assms show thesis by (intro waiting) (simp add: execute_pending_def)
next
  case order: (Some order)
  show thesis
  proof (cases "hc_open_time candle < po_signal_time order")
    case True
    with assms order show thesis by (intro waiting) (simp add: execute_pending_def)
  next
    case False
    show thesis
    proof (cases "po_side order = ''BUY''")
      case buy: True
      with assms order False obtain stake where stake: "po_stake_usdt order = Some stake"
        by (cases "po_stake_usdt order") (simp_all add: execute_pending_def Let_def)
      show thesis
      proof (cases "hs_cash s < dec (stake + dec (stake * rp_fee_rate config)) \<or>
          hc_symbol candle \<in> fst ` set (hs_positions s)")
        case True
        with assms order False buy stake show thesis
          by (intro dropped[of order]) (simp_all add: execute_pending_def Let_def)
      next
        case afford: False
        with assms order False buy stake show thesis
          by (intro bought[of order stake]) (auto simp: execute_pending_def Let_def bought_def dest!: dec_div_InrD)
      qed
    next
      case other: False
      with assms order False show thesis
        by (cases "po_side order = ''SELL'' \<and> hc_symbol candle \<in> fst ` set (hs_positions s)")
           (auto simp: execute_pending_def Let_def intro: dropped sold)
    qed
  qed
qed

text \<open>The trade a close records.\<close>

definition trade_of :: "ReplayConfig \<Rightarrow> string \<Rightarrow> OpenPosition \<Rightarrow> datetime \<Rightarrow> rat \<Rightarrow> rat \<Rightarrow> string \<Rightarrow> ReplayTrade" where
  "trade_of config symbol p closed_at reference exit_price reason =
     (let gross_exit = dec (op_amount p * exit_price);
          exit_fee = dec (gross_exit * rp_fee_rate config);
          net_pnl = dec (dec (dec (gross_exit - exit_fee) - op_stake_usdt p) - op_entry_fee_usdt p)
      in \<lparr>rt_symbol = symbol, rt_opened_at = op_opened_at p, rt_closed_at = closed_at,
          rt_entry_reference_price = op_entry_reference_price p, rt_entry_price = op_entry_price p,
          rt_exit_reference_price = reference, rt_exit_price = exit_price, rt_amount = op_amount p,
          rt_stake_usdt = op_stake_usdt p, rt_entry_fee_usdt = op_entry_fee_usdt p, rt_exit_fee_usdt = exit_fee,
          rt_gross_pnl_usdt = dec (op_amount p * dec (exit_price - op_entry_price p)), rt_net_pnl_usdt = net_pnl,
          rt_net_pnl_pct = dec (net_pnl / dec (op_stake_usdt p + op_entry_fee_usdt p)), rt_exit_reason = reason\<rparr>)"

definition proceeds_of :: "ReplayConfig \<Rightarrow> OpenPosition \<Rightarrow> rat \<Rightarrow> rat" where
  "proceeds_of config p exit_price =
     dec (dec (op_amount p * exit_price) - dec (dec (op_amount p * exit_price) * rp_fee_rate config))"

lemma sim_close_positionE:
  assumes "sim_close_position config symbol closed_at reference exit_price reason s = Inr s'"
  obtains p where "map_of (hs_positions s) symbol = Some p"
    "s' = s\<lparr>hs_positions := AList.delete symbol (hs_positions s),
            hs_cash := dec (hs_cash s + proceeds_of config p exit_price),
            hs_trades := hs_trades s @ [trade_of config symbol p closed_at reference exit_price reason]\<rparr>"
  using assms
  by (auto simp: sim_close_position_def Let_def trade_of_def proceeds_of_def split: option.splits dest!: dec_div_InrD)

lemma apply_safety_exits_cases:
  assumes "apply_safety_exits config candle s = Inr s'"
  obtains (kept) "s' = s"
  | (stopped) p where "map_of (hs_positions s) (hc_symbol candle) = Some p" "hc_low candle \<le> op_stop_price p"
      "sim_close_position config (hc_symbol candle) (hc_close_time candle) (op_stop_price p)
         (dec (op_stop_price p * net_of (rp_slippage_rate config))) ''stop_loss'' s = Inr s'"
  | (target) p t reference fill where "map_of (hs_positions s) (hc_symbol candle) = Some p"
      "\<not> hc_low candle \<le> op_stop_price p" "t \<in> {hc_open_time candle, hc_close_time candle}"
      "fill = dec (hc_open candle * net_of (rp_slippage_rate config)) \<or>
       (\<exists>age. price_for_net_return config p (roi_target age) = Inr fill)"
      "sim_close_position config (hc_symbol candle) t reference fill ''roi'' s = Inr s'"
proof (cases "map_of (hs_positions s) (hc_symbol candle)")
  case None
  with assms show thesis by (intro kept) (simp add: apply_safety_exits_def)
next
  case p: (Some p)
  show thesis
  proof (cases "hc_low candle \<le> op_stop_price p")
    case True
    with assms p show thesis by (intro stopped[of p]) (simp_all add: apply_safety_exits_def Let_def)
  next
    case False
    define open_fill where "open_fill = dec (hc_open candle * net_of (rp_slippage_rate config))"
    define goal where "goal = roi_target (dec_of_float (elapsed_minutes (op_opened_at p) (hc_close_time candle)))"
    from assms p False obtain r where r: "net_return_at_price config p open_fill = Inr r"
      "(if r \<ge> goal then sim_close_position config (hc_symbol candle) (hc_open_time candle) (hc_open candle) open_fill ''roi'' s
        else bind_res (price_for_net_return config p goal) (\<lambda>target_fill.
          bind_res (dec_div target_fill (net_of (rp_slippage_rate config))) (\<lambda>trigger.
            if hc_high candle \<ge> trigger
            then sim_close_position config (hc_symbol candle) (hc_close_time candle) trigger target_fill ''roi'' s
            else Inr s))) = Inr s'"
      unfolding apply_safety_exits_def Let_def option.case open_fill_def goal_def if_False bind_res_Inr by auto
    show thesis
    proof (cases "r \<ge> goal")
      case True
      with r(2) show thesis by (intro target[OF p False]) (simp_all add: open_fill_def)
    next
      case below: False
      with r(2) obtain fill trigger where f: "price_for_net_return config p goal = Inr fill"
        "(if hc_high candle \<ge> trigger
          then sim_close_position config (hc_symbol candle) (hc_close_time candle) trigger fill ''roi'' s
          else Inr s) = Inr s'" by auto
      show thesis
      proof (cases "hc_high candle \<ge> trigger")
        case True
        have "\<exists>age. price_for_net_return config p (roi_target age) = Inr fill" using f(1) unfolding goal_def by blast
        with f(2) True show thesis by (intro target[OF p False, of "hc_close_time candle" fill trigger]) simp_all
      next
        case False
        with f(2) show thesis by (intro kept) simp
      qed
    qed
  qed
qed

definition open_symbols :: "ReplaySimulator \<Rightarrow> string set" where
  "open_symbols s = fst ` set (hs_positions s) \<union> fst ` set (pending_entries s)"

lemma account_open_symbols [simp]: "ac_open_position_symbols (sim_account_state config now s) = open_symbols s"
  by (simp add: sim_account_state_def open_symbols_def Let_def)

lemma size_nonneg:
  assumes "sane_sizing config" "compute_sizing eq fr p a c config = Inr z"
  shows "0 \<le> sz_position_size_usdt z"
  using assms(2)
  by (rule compute_sizing_InrE) (use assms(1) confidence_scale_nonneg in \<open>simp add: sane_sizing_def\<close>)

lemma sim_process_signal_cases:
  assumes "sim_process_signal config candle signal s = Inr s'"
  obtains (rejected) reason b where
      "s' = add_decision signal False (Some reason) None (s\<lparr>hs_killswitch_enabled := hs_killswitch_enabled s \<or> b\<rparr>)"
      "sg_action signal \<noteq> SELL \<Longrightarrow> b \<longleftrightarrow> reason \<in> {DAILY_LOSS_LIMIT_HIT, CONSECUTIVE_LOSS_PAUSE}"
      "sg_action signal = SELL \<Longrightarrow> \<not> b"
      "sg_symbol signal = hc_symbol candle" "sg_candle_close_time signal = hc_close_time candle"
  | (entry) stake where
      "s' = add_decision signal True None (Some ''BUY'') (place signal ''BUY'' (Some stake) s)"
      "sg_action signal = BUY" "sane_sizing (rp_risk config) \<Longrightarrow> 0 \<le> stake"
      "sg_symbol signal \<notin> fst ` set (hs_pending s)" "sg_symbol signal \<notin> open_symbols s"
      "int (card (open_symbols s)) < max_open_positions (rp_risk config)" "\<not> hs_killswitch_enabled s"
      "sg_symbol signal = hc_symbol candle" "sg_candle_close_time signal = hc_close_time candle"
  | (exit) "s' = add_decision signal True None (Some ''SELL'') (place signal ''SELL'' None s)"
      "sg_action signal = SELL" "sg_symbol signal \<notin> fst ` set (hs_pending s)" "sg_symbol signal \<in> open_symbols s"
      "sg_symbol signal = hc_symbol candle" "sg_candle_close_time signal = hc_close_time candle"
proof -
  have match: "sg_symbol signal = hc_symbol candle" "sg_candle_close_time signal = hc_close_time candle"
    using assms by (auto simp: sim_process_signal_def split: if_splits)
  define v where "v = synthetic_view candle signal"
  define a where "a = sim_account_state config (hc_close_time candle) s"
  define d where "d = (sg_symbol signal \<in> fst ` set (hs_pending s))"
  have v: "sv_action v = sg_action signal" "sv_symbol v = sg_symbol signal" by (simp_all add: v_def synthetic_view_def)
  have nm: "\<not> (sg_symbol signal \<noteq> hc_symbol candle \<or> sg_candle_close_time signal \<noteq> hc_close_time candle)"
    using match by simp
  note run = assms[unfolded sim_process_signal_def if_not_P[OF nm] Let_def, folded v_def a_def d_def]
  show thesis
  proof (cases "sg_action signal = SELL")
    case sell: True
    define r where "r = evaluate_exit v a (rp_risk config) (hc_close_time candle) d"
    have s': "s' = add_decision signal (xdr_approved r) (xdr_rejection_reason r)
        (if xdr_approved r then Some ''SELL'' else None) (if xdr_approved r then place signal ''SELL'' None s else s)"
      using run[unfolded if_P[OF sell], folded r_def] by simp
    show thesis
    proof (cases "xdr_approved r")
      case True
      have "\<not> d" "sg_symbol signal \<in> open_symbols s" "xdr_rejection_reason r = None"
        using True by (auto simp: r_def evaluate_exit_def Let_def v a_def split: if_splits)
      with s' sell match True show thesis by (intro exit) (simp_all add: d_def)
    next
      case False
      then obtain reason where "xdr_rejection_reason r = Some reason"
        by (auto simp: r_def evaluate_exit_def Let_def split: if_splits)
      with s' sell match False show thesis by (intro rejected[of reason False]) simp_all
    qed
  next
    case other: False
    have "bind_res (evaluate v a (rp_risk config) (hc_close_time candle) (hs_killswitch_enabled s) d
        REPLAY_NO_EXPECTANCY) (\<lambda>result. let s = if rdr_auto_trip_killswitch result then s\<lparr>hs_killswitch_enabled := True\<rparr> else s
               in if rdr_approved result
                  then (case rdr_position_size_usdt result of
                          None \<Rightarrow> Inl AssertionError
                        | Some stake \<Rightarrow>
                            Inr (add_decision signal True (rdr_rejection_reason result) (Some ''BUY'')
                                   (place signal ''BUY'' (Some stake) s)))
                  else Inr (add_decision signal False (rdr_rejection_reason result) None s)) = Inr s'"
      using run[unfolded if_not_P[OF other]] by (simp only: Let_def)
    then obtain r where ev: "evaluate v a (rp_risk config) (hc_close_time candle) (hs_killswitch_enabled s) d
        REPLAY_NO_EXPECTANCY = Inr r" and step: "(let s = if rdr_auto_trip_killswitch r then s\<lparr>hs_killswitch_enabled := True\<rparr> else s
               in if rdr_approved r
                  then (case rdr_position_size_usdt r of
                          None \<Rightarrow> Inl AssertionError
                        | Some stake \<Rightarrow>
                            Inr (add_decision signal True (rdr_rejection_reason r) (Some ''BUY'')
                                   (place signal ''BUY'' (Some stake) s)))
                  else Inr (add_decision signal False (rdr_rejection_reason r) None s)) = Inr s'"
      by auto
    obtain z where z: "compute_sizing (ac_equity_usdt a) (ac_free_balance_usdt a) (sv_price v) (sv_atr_14 v)
          (sv_confidence v) (rp_risk config) = Inr z"
      "r = decision_of (context_of v a (rp_risk config) (hc_close_time candle) (hs_killswitch_enabled s) d
          REPLAY_NO_EXPECTANCY z)" using evaluate_InrD[OF ev] by blast
    let ?ctx = "context_of v a (rp_risk config) (hc_close_time candle) (hs_killswitch_enabled s) d
          REPLAY_NO_EXPECTANCY z"
    show thesis
    proof (cases "first_violation RULES_IN_ORDER ?ctx")
      case None
      then have r: "r = approved_result (ac_equity_usdt a) z (build_expectancy_check ?ctx)"
        using z(2) decision_of_None by simp
      from None have g: "\<forall>q \<in> set RULES_IN_ORDER. q ?ctx = None" by (simp add: first_violation_None)
      have "\<not> hs_killswitch_enabled s" "\<not> d" "sg_action signal \<noteq> HOLD" "sg_symbol signal \<notin> open_symbols s"
        "int (card (open_symbols s)) < max_open_positions (rp_risk config)"
        using g unfolding gate_conditions Let_def by (simp_all add: v a_def)
      moreover have "s' = add_decision signal True None (Some ''BUY'')
          (place signal ''BUY'' (Some (sz_position_size_usdt z)) s)" using step by (simp add: r)
      ultimately show thesis
        using match other size_nonneg[OF _ z(1)]
        by (intro entry[of "sz_position_size_usdt z"]) (cases "sg_action signal"; simp add: d_def)+
    next
      case (Some w)
      then have r: "r = rejected_result (rv_reason w) (ac_equity_usdt a) (rv_auto_trip_killswitch w)
          (Some (build_expectancy_check ?ctx))" using z(2) decision_of_Some by simp
      have s': "s' = add_decision signal False (Some (rv_reason w)) None
          (if rv_auto_trip_killswitch w then s\<lparr>hs_killswitch_enabled := True\<rparr> else s)"
        using step by (simp add: r Let_def split: if_splits)
      show thesis
        using s' match other first_violation_auto_trip[OF Some]
        by (intro rejected[of "rv_reason w" "rv_auto_trip_killswitch w"]) (simp_all split: if_splits)
    qed
  qed
qed


section \<open>The books\<close>

definition position_ok :: "OpenPosition \<Rightarrow> bool" where
  "position_ok p \<longleftrightarrow>
     0 \<le> op_amount p \<and> 0 < op_entry_price p \<and> 0 \<le> op_stake_usdt p \<and> 0 \<le> op_entry_fee_usdt p \<and>
     0 < op_stop_price p \<and> op_stop_price p \<le> op_entry_price p \<and> dec (op_stop_price p) = op_stop_price p"

definition books_ok :: "ReplayConfig \<Rightarrow> ReplaySimulator \<Rightarrow> bool" where
  "books_ok config s \<longleftrightarrow>
     0 \<le> hs_cash s \<and> distinct (map fst (hs_positions s)) \<and> distinct (map fst (hs_pending s)) \<and>
     (\<forall>(k, p) \<in> set (hs_positions s). position_ok p) \<and>
     (\<forall>(k, stake) \<in> set (pending_entries s). 0 \<le> stake \<and> k \<notin> fst ` set (hs_positions s)) \<and>
     int (card (open_symbols s)) \<le> max 0 (max_open_positions (rp_risk config))"

lemma mem_map_filter: "y \<in> set (List.map_filter f xs) \<longleftrightarrow> (\<exists>x \<in> set xs. f x = Some y)"
  by (induction xs) (auto simp: map_filter_simps split: option.splits)

lemma pending_entries_set:
  "(k, stake) \<in> set (pending_entries s) \<longleftrightarrow>
     (\<exists>order. (k, order) \<in> set (hs_pending s) \<and> po_side order = ''BUY'' \<and> po_stake_usdt order = Some stake)"
  by (auto simp: pending_entries_def mem_map_filter split: if_splits prod.splits)

lemma pending_entries_cong [simp]:
  "pending_entries (s\<lparr>hs_cash := x\<rparr>) = pending_entries s"
  "pending_entries (s\<lparr>hs_positions := ps\<rparr>) = pending_entries s"
  "pending_entries (s\<lparr>hs_trades := ts\<rparr>) = pending_entries s"
  "pending_entries (s\<lparr>hs_decisions := ds\<rparr>) = pending_entries s"
  "pending_entries (s\<lparr>hs_equity_curve := es\<rparr>) = pending_entries s"
  "pending_entries (s\<lparr>hs_last_prices := lp\<rparr>) = pending_entries s"
  "pending_entries (s\<lparr>hs_killswitch_enabled := b\<rparr>) = pending_entries s"
  by (simp_all add: pending_entries_def)

lemma set_delete: "set (AList.delete k xs) = {x \<in> set xs. fst x \<noteq> k}"
  by (auto simp: AList.delete_eq)

lemma filter_other_keys:
  assumes "k \<notin> fst ` set xs"
  shows "{x \<in> set xs. fst x \<noteq> k} = set xs"
proof -
  have "fst x \<noteq> k" if "x \<in> set xs" for x using assms imageI[OF that, of fst] by metis
  then show ?thesis by blast
qed

lemma distinct_delete: "distinct (map fst xs) \<Longrightarrow> distinct (map fst (AList.delete k xs))"
  by (simp add: map_fst_delete)

lemma update_mem: "x \<in> set (AList.update k v xs) \<Longrightarrow> x \<in> set xs \<or> x = (k, v)"
  by (induction xs) (auto split: if_splits)

lemma finite_open_symbols [simp]: "finite (open_symbols s)"
  by (simp add: open_symbols_def)

lemma books_smaller:
  assumes "books_ok config s" "0 \<le> hs_cash s'" "distinct (map fst (hs_positions s'))" "distinct (map fst (hs_pending s'))"
    and "set (hs_positions s') \<subseteq> set (hs_positions s)" "set (hs_pending s') \<subseteq> set (hs_pending s)"
  shows "books_ok config s'"
proof -
  have e: "set (pending_entries s') \<subseteq> set (pending_entries s)"
    using assms(6) by (fastforce simp: pending_entries_set)
  have o: "open_symbols s' \<subseteq> open_symbols s" using assms(5) e by (auto simp: open_symbols_def)
  have "card (open_symbols s') \<le> card (open_symbols s)" by (intro card_mono o) simp
  moreover have "\<forall>(k, stake) \<in> set (pending_entries s'). 0 \<le> stake \<and> k \<notin> fst ` set (hs_positions s')"
    using e assms(1,5) by (fastforce simp: books_ok_def)
  moreover have "\<forall>(k, p) \<in> set (hs_positions s'). position_ok p" using assms(1,5) by (auto simp: books_ok_def)
  ultimately show ?thesis using assms(1-4) by (auto simp: books_ok_def)
qed

lemma proceeds_nonneg:
  assumes "replay_config_valid config" "0 \<le> op_amount p" "0 \<le> exit_price"
  shows "0 \<le> proceeds_of config p exit_price"
proof -
  let ?g = "dec (op_amount p * exit_price)"
  have "0 \<le> ?g" using assms(2,3) by simp
  moreover have "dec (?g * rp_fee_rate config) \<le> ?g"
    using assms(1) \<open>0 \<le> ?g\<close> by (intro dec.mult_le) (simp_all add: replay_config_valid_def)
  ultimately show ?thesis by (simp add: proceeds_of_def)
qed

lemma net_of_bounds: "0 \<le> r \<Longrightarrow> r < 1 \<Longrightarrow> 0 < net_of r \<and> net_of r \<le> 1"
  unfolding net_of_def using dec.unit[of "1 - r"] by simp

lemma close_books:
  assumes "replay_config_valid config" "books_ok config s" "0 \<le> exit_price"
    and "sim_close_position config symbol t reference exit_price reason s = Inr s'"
  shows "books_ok config s'"
proof -
  from assms(4) obtain p where p: "map_of (hs_positions s) symbol = Some p"
    "s' = s\<lparr>hs_positions := AList.delete symbol (hs_positions s),
            hs_cash := dec (hs_cash s + proceeds_of config p exit_price),
            hs_trades := hs_trades s @ [trade_of config symbol p t reference exit_price reason]\<rparr>"
    by (rule sim_close_positionE)
  have "position_ok p" using assms(2) map_of_SomeD[OF p(1)] by (auto simp: books_ok_def)
  then have "0 \<le> proceeds_of config p exit_price"
    by (intro proceeds_nonneg assms) (simp add: position_ok_def)
  with assms(2) show ?thesis
    by (intro books_smaller[OF assms(2)]) (auto simp: p(2) books_ok_def set_delete distinct_delete)
qed

lemma bought_ok:
  assumes "replay_config_valid config" "candle_valid candle" "0 \<le> stake"
  shows "position_ok (bought config candle stake)"
proof -
  define e where "e = dec (hc_open candle * dec (1 + rp_slippage_rate config))"
  have e: "0 < e" "dec e = e" using assms by (simp_all add: e_def replay_config_valid_def candle_valid_def)
  have n: "0 < net_of (rp_static_stop_loss_pct config)" "net_of (rp_static_stop_loss_pct config) \<le> 1"
    using net_of_bounds assms(1) by (simp_all add: replay_config_valid_def less_imp_le)
  have "dec (e * net_of (rp_static_stop_loss_pct config)) \<le> e" using e n by (intro dec.mult_le) simp_all
  then show ?thesis
    using assms e(1) n by (simp add: position_ok_def bought_def Let_def replay_config_valid_def flip: e_def)
qed

lemma execute_pending_books:
  assumes "replay_config_valid config" "candle_valid candle" "books_ok config s"
    and "execute_pending config candle s = Inr s'"
  shows "books_ok config s'"
  using assms(4)
proof (cases rule: execute_pending_cases)
  case waiting
  with assms show ?thesis by simp
next
  case (dropped order)
  with assms(3) show ?thesis
    by (intro books_smaller[OF assms(3)]) (auto simp: books_ok_def set_delete distinct_delete)
next
  case (bought order stake)
  let ?k = "hc_symbol candle" and ?p = "bought config candle stake"
  have o: "(?k, order) \<in> set (hs_pending s)" using bought(1) by (rule map_of_SomeD)
  then have k: "(?k, stake) \<in> set (pending_entries s)" using bought(2,3) by (auto simp: pending_entries_set)
  then have st: "0 \<le> stake" using assms(3) by (auto simp: books_ok_def)
  have d: "distinct (map fst (hs_positions s))" "distinct (map fst (hs_pending s))"
    using assms(3) by (simp_all add: books_ok_def)
  have "{x \<in> set (hs_positions s). fst x \<noteq> ?k} = set (hs_positions s)" using bought(6) by (rule filter_other_keys)
  then have pos: "set (hs_positions s') = insert (?k, ?p) (set (hs_positions s))"
    by (simp add: bought(7) set_update d(1))
  have e: "set (pending_entries s') \<subseteq> {x \<in> set (pending_entries s). fst x \<noteq> ?k}"
    by (auto simp: bought(7) pending_entries_set set_delete)
  have "fst ` set (pending_entries s') \<subseteq> fst ` set (pending_entries s)" "?k \<in> fst ` set (pending_entries s)"
    using e k image_eqI[of ?k fst "(?k, stake)"] by auto
  then have "open_symbols s' \<subseteq> open_symbols s" unfolding open_symbols_def pos by auto
  then have "card (open_symbols s') \<le> card (open_symbols s)" by (intro card_mono) simp_all
  moreover have "\<forall>(k, p) \<in> set (hs_positions s'). position_ok p"
    using assms(3) bought_ok[OF assms(1,2) st] pos by (auto simp: books_ok_def)
  moreover have "\<forall>(k, stake) \<in> set (pending_entries s'). 0 \<le> stake \<and> k \<notin> fst ` set (hs_positions s')"
  proof (intro ballI case_prodI2)
    fix x k st assume x: "x \<in> set (pending_entries s')" "x = (k, st)"
    with e have "(k, st) \<in> set (pending_entries s)" "k \<noteq> ?k" by auto
    with assms(3) pos show "0 \<le> st \<and> k \<notin> fst ` set (hs_positions s')" by (auto simp: books_ok_def)
  qed
  moreover have "distinct (map fst (hs_positions s'))" "distinct (map fst (hs_pending s'))"
    using d by (simp_all add: bought(7) AList.distinct_update distinct_delete)
  moreover have "0 \<le> hs_cash s'" using bought(5) by (simp add: bought(7))
  ultimately show ?thesis using assms(3) by (simp add: books_ok_def)
next
  case (sold order)
  let ?s = "s\<lparr>hs_pending := AList.delete (hc_symbol candle) (hs_pending s)\<rparr>"
  have "books_ok config ?s"
    by (intro books_smaller[OF assms(3)]) (use assms(3) in \<open>auto simp: books_ok_def set_delete distinct_delete\<close>)
  moreover have "0 < net_of (rp_slippage_rate config)"
    using net_of_bounds assms(1) by (simp add: replay_config_valid_def)
  then have "0 \<le> dec (hc_open candle * net_of (rp_slippage_rate config))"
    using assms(2) by (simp add: candle_valid_def)
  ultimately show ?thesis using close_books[OF assms(1) _ _ sold(4)] by blast
qed


lemma apply_safety_exits_books:
  assumes "replay_config_valid config" "candle_valid candle" "books_ok config s"
    and "apply_safety_exits config candle s = Inr s'"
  shows "books_ok config s'"
  using assms(4)
proof (cases rule: apply_safety_exits_cases)
  case kept
  with assms(3) show ?thesis by simp
next
  case (stopped p)
  have "position_ok p" using assms(3) map_of_SomeD[OF stopped(1)] by (auto simp: books_ok_def)
  moreover have "0 < net_of (rp_slippage_rate config)" using net_of_bounds assms(1) by (simp add: replay_config_valid_def)
  ultimately have "0 \<le> dec (op_stop_price p * net_of (rp_slippage_rate config))" by (simp add: position_ok_def)
  then show ?thesis by (rule close_books[OF assms(1,3) _ stopped(3)])
next
  case (target p t reference fill)
  have ok: "position_ok p" using assms(3) map_of_SomeD[OF target(1)] by (auto simp: books_ok_def)
  have n: "0 < net_of (rp_slippage_rate config)" "0 < net_of (rp_fee_rate config)"
    using net_of_bounds assms(1) by (simp_all add: replay_config_valid_def)
  have "0 \<le> fill" if "price_for_net_return config p (roi_target age) = Inr fill" for age
  proof -
    have "0 \<le> roi_target age" by (simp add: roi_target_def)
    with that ok n show ?thesis
      by (auto simp: price_for_net_return_def Let_def position_ok_def dest!: dec_div_InrD)
  qed
  moreover have "0 \<le> dec (hc_open candle * net_of (rp_slippage_rate config))"
    using n assms(2) by (simp add: candle_valid_def)
  ultimately have "0 \<le> fill" using target(4) by blast
  then show ?thesis by (rule close_books[OF assms(1,3) _ target(5)])
qed

lemma add_decision_sel [simp]:
  "hs_cash (add_decision g a r sd s) = hs_cash s" "hs_positions (add_decision g a r sd s) = hs_positions s"
  "hs_pending (add_decision g a r sd s) = hs_pending s" "hs_trades (add_decision g a r sd s) = hs_trades s"
  "hs_killswitch_enabled (add_decision g a r sd s) = hs_killswitch_enabled s"
  "hs_last_prices (add_decision g a r sd s) = hs_last_prices s"
  by (simp_all add: add_decision_def)

lemma place_sel [simp]:
  "hs_cash (place g sd st s) = hs_cash s" "hs_positions (place g sd st s) = hs_positions s"
  "hs_trades (place g sd st s) = hs_trades s" "hs_decisions (place g sd st s) = hs_decisions s"
  "hs_killswitch_enabled (place g sd st s) = hs_killswitch_enabled s"
  by (simp_all add: place_def)

lemma place_pending:
  assumes "distinct (map fst (hs_pending s))" "sg_symbol g \<notin> fst ` set (hs_pending s)"
  shows "set (hs_pending (place g sd st s)) =
      insert (sg_symbol g, \<lparr>po_symbol = sg_symbol g, po_side = sd, po_signal_time = sg_candle_close_time g, po_stake_usdt = st\<rparr>)
        (set (hs_pending s))"
    and "distinct (map fst (hs_pending (place g sd st s)))"
  using assms by (force simp: place_def set_update, simp add: place_def AList.distinct_update)

lemma process_signal_books:
  assumes "sane_sizing (rp_risk config)" "books_ok config s" "sim_process_signal config candle g s = Inr s'"
  shows "books_ok config s'"
proof -
  have d: "distinct (map fst (hs_pending s))" using assms(2) by (simp add: books_ok_def)
  from assms(3) show ?thesis
  proof (cases rule: sim_process_signal_cases)
    case (rejected reason b)
    with assms(2) show ?thesis by (intro books_smaller[OF assms(2)]) (simp_all add: books_ok_def)
  next
    case (entry stake)
    let ?k = "sg_symbol g"
    note pl = place_pending[OF d entry(4)]
    have e: "set (pending_entries s') = insert (?k, stake) (set (pending_entries s))"
      by (auto simp: set_eq_iff pending_entries_set entry(1) pl(1))
    have "open_symbols s' = insert ?k (open_symbols s)" by (simp add: open_symbols_def e) (simp add: entry(1))
    then have "int (card (open_symbols s')) \<le> max_open_positions (rp_risk config)" using entry(5,6) by simp
    moreover have "?k \<notin> fst ` set (hs_positions s)" using entry(5) by (simp add: open_symbols_def)
    then have "\<forall>(k, st) \<in> set (pending_entries s'). 0 \<le> st \<and> k \<notin> fst ` set (hs_positions s')"
      using assms(2) entry(3)[OF assms(1)] unfolding e by (auto simp: books_ok_def entry(1))
    ultimately show ?thesis using assms(2) pl(2) by (simp add: books_ok_def entry(1))
  next
    case exit
    note pl = place_pending[OF d exit(3)]
    have e: "set (pending_entries s') = set (pending_entries s)"
      by (auto simp: set_eq_iff pending_entries_set exit(1) pl(1))
    then have "open_symbols s' = open_symbols s" by (simp add: open_symbols_def) (simp add: exit(1))
    with assms(2) pl(2) e show ?thesis by (simp add: books_ok_def exit(1))
  qed
qed

text \<open>An invariant of the three parts of a step holds of every run.\<close>

lemma candle_stepE:
  assumes "candle_step config signals c s = Inr s'"
  obtains s1 s2 s3 where "execute_pending config c s = Inr s1" "apply_safety_exits config c s1 = Inr s2"
    "s3 = s2\<lparr>hs_last_prices := (hs_last_prices s2)(hc_symbol c \<mapsto> hc_close c)\<rparr>"
    "(s' = record_equity config (hc_close_time c) s3 \<and> signals (hc_symbol c, hc_close_time c) = None) \<or>
     (\<exists>g s4. signals (hc_symbol c, hc_close_time c) = Some g \<and> sim_process_signal config c g s3 = Inr s4 \<and>
        s' = record_equity config (hc_close_time c) s4)"
proof -
  from assms obtain s1 s2 where 12: "execute_pending config c s = Inr s1" "apply_safety_exits config c s1 = Inr s2"
    unfolding candle_step_def bind_res_Inr by blast
  let ?s = "s2\<lparr>hs_last_prices := (hs_last_prices s2)(hc_symbol c \<mapsto> hc_close c)\<rparr>"
  have "(s' = record_equity config (hc_close_time c) ?s \<and> signals (hc_symbol c, hc_close_time c) = None) \<or>
     (\<exists>g s4. signals (hc_symbol c, hc_close_time c) = Some g \<and> sim_process_signal config c g ?s = Inr s4 \<and>
        s' = record_equity config (hc_close_time c) s4)"
    using assms 12 by (cases "signals (hc_symbol c, hc_close_time c)") (auto simp: candle_step_def Let_def)
  with 12 show thesis by (intro that[of s1 s2 ?s]) simp_all
qed

lemma books_observed:
  "books_ok config (record_equity config t s) = books_ok config s"
  "books_ok config (s\<lparr>hs_last_prices := lp\<rparr>) = books_ok config s"
  by (simp_all add: books_ok_def open_symbols_def record_equity_def)

lemma candle_step_books:
  assumes "replay_config_valid config" "sane_sizing (rp_risk config)" "candle_valid c" "books_ok config s"
    and "candle_step config signals c s = Inr s'"
  shows "books_ok config s'"
  using assms(5)
proof (rule candle_stepE)
  fix s1 s2 s3
  assume a: "execute_pending config c s = Inr s1" "apply_safety_exits config c s1 = Inr s2"
    "s3 = s2\<lparr>hs_last_prices := (hs_last_prices s2)(hc_symbol c \<mapsto> hc_close c)\<rparr>"
    "(s' = record_equity config (hc_close_time c) s3 \<and> signals (hc_symbol c, hc_close_time c) = None) \<or>
     (\<exists>g s4. signals (hc_symbol c, hc_close_time c) = Some g \<and> sim_process_signal config c g s3 = Inr s4 \<and>
        s' = record_equity config (hc_close_time c) s4)"
  have "books_ok config s1" by (rule execute_pending_books[OF assms(1,3,4) a(1)])
  then have "books_ok config s2" by (rule apply_safety_exits_books[OF assms(1,3) _ a(2)])
  then have "books_ok config s3" by (simp add: a(3) books_observed)
  with a(4) show ?thesis using process_signal_books[OF assms(2)] by (auto simp: books_observed)
qed


section \<open>Orders follow decisions\<close>

definition approved_for :: "ReplaySimulator \<Rightarrow> Action \<Rightarrow> string \<Rightarrow> datetime \<Rightarrow> bool" where
  "approved_for s a symbol t \<longleftrightarrow>
     (\<exists>d \<in> set (hs_decisions s). rd_approved d \<and> rd_action d = a \<and> rd_symbol d = symbol \<and> rd_candle_close_time d \<le> t)"

definition pending_ok :: "ReplaySimulator \<Rightarrow> string \<Rightarrow> PendingOrder \<Rightarrow> bool" where
  "pending_ok s k order \<longleftrightarrow>
     (po_side order = ''BUY'' \<longrightarrow> approved_for s BUY k (po_signal_time order)) \<and>
     (po_side order = ''SELL'' \<longrightarrow> approved_for s SELL k (po_signal_time order))"

definition trade_ok :: "ReplaySimulator \<Rightarrow> ReplayTrade \<Rightarrow> bool" where
  "trade_ok s t \<longleftrightarrow>
     rt_opened_at t \<le> rt_closed_at t \<and> approved_for s BUY (rt_symbol t) (rt_opened_at t) \<and>
     (rt_exit_reason t = ''signal_exit'' \<and> approved_for s SELL (rt_symbol t) (rt_closed_at t) \<or>
      rt_exit_reason t = ''stop_loss'' \<and> rt_gross_pnl_usdt t \<le> 0 \<or>
      rt_exit_reason t = ''roi'')"

definition history_ok :: "datetime \<Rightarrow> ReplaySimulator \<Rightarrow> bool" where
  "history_ok T s \<longleftrightarrow>
     (\<forall>(k, order) \<in> set (hs_pending s). pending_ok s k order) \<and>
     (\<forall>(k, p) \<in> set (hs_positions s). op_opened_at p \<le> T \<and> approved_for s BUY k (op_opened_at p)) \<and>
     (\<forall>t \<in> set (hs_trades s). trade_ok s t)"

lemma approved_for_later: "approved_for s a k t \<Longrightarrow> t \<le> u \<Longrightarrow> approved_for s a k u"
  unfolding approved_for_def by force

lemma ok_mono:
  assumes "set (hs_decisions s) \<subseteq> set (hs_decisions s')"
  shows "approved_for s a k t \<Longrightarrow> approved_for s' a k t"
    and "pending_ok s k order \<Longrightarrow> pending_ok s' k order" and "trade_ok s tr \<Longrightarrow> trade_ok s' tr"
proof -
  show *: "approved_for s a k t \<Longrightarrow> approved_for s' a k t" for a k t using assms by (auto simp: approved_for_def)
  show "pending_ok s k order \<Longrightarrow> pending_ok s' k order" using * by (auto simp: pending_ok_def)
  show "trade_ok s tr \<Longrightarrow> trade_ok s' tr" using * unfolding trade_ok_def by blast
qed

lemma history_smaller:
  assumes "history_ok T s" "T \<le> T'" "set (hs_decisions s) \<subseteq> set (hs_decisions s')"
    and "\<And>k order. (k, order) \<in> set (hs_pending s') \<Longrightarrow> (k, order) \<in> set (hs_pending s) \<or> pending_ok s' k order"
    and "\<And>k p. (k, p) \<in> set (hs_positions s') \<Longrightarrow> (k, p) \<in> set (hs_positions s) \<or>
           op_opened_at p \<le> T' \<and> approved_for s' BUY k (op_opened_at p)"
    and "\<And>t. t \<in> set (hs_trades s') \<Longrightarrow> t \<in> set (hs_trades s) \<or> trade_ok s' t"
  shows "history_ok T' s'"
proof -
  have "pending_ok s' k order" if "(k, order) \<in> set (hs_pending s')" for k order
    using assms(4)[OF that] assms(1) ok_mono(2)[OF assms(3)] unfolding history_ok_def by blast
  moreover have "op_opened_at p \<le> T' \<and> approved_for s' BUY k (op_opened_at p)"
    if "(k, p) \<in> set (hs_positions s')" for k p
    using assms(5)[OF that]
  proof
    assume "(k, p) \<in> set (hs_positions s)"
    with assms(1) have "op_opened_at p \<le> T" "approved_for s BUY k (op_opened_at p)" by (auto simp: history_ok_def)
    with assms(2) ok_mono(1)[OF assms(3)] show ?thesis by auto
  qed
  moreover have "trade_ok s' t" if "t \<in> set (hs_trades s')" for t
    using assms(6)[OF that] assms(1) ok_mono(3)[OF assms(3)] unfolding history_ok_def by blast
  ultimately show ?thesis unfolding history_ok_def by blast
qed

lemma trade_of_sel [simp]:
  "rt_symbol (trade_of config k p t ref x why) = k" "rt_opened_at (trade_of config k p t ref x why) = op_opened_at p"
  "rt_closed_at (trade_of config k p t ref x why) = t" "rt_exit_reason (trade_of config k p t ref x why) = why"
  "rt_gross_pnl_usdt (trade_of config k p t ref x why) = dec (op_amount p * dec (x - op_entry_price p))"
  by (simp_all add: trade_of_def Let_def)

lemma close_history:
  assumes "history_ok T s" "T \<le> T'" "T' \<le> t"
    and "sim_close_position config k t reference x why s = Inr s'"
    and "why = ''signal_exit'' \<and> approved_for s SELL k t \<or> why = ''roi'' \<or>
      why = ''stop_loss'' \<and> (\<forall>p. map_of (hs_positions s) k = Some p \<longrightarrow> 0 \<le> op_amount p \<and> x \<le> op_entry_price p)"
  shows "history_ok T' s'"
proof -
  from assms(4) obtain p where p: "map_of (hs_positions s) k = Some p"
    "s' = s\<lparr>hs_positions := AList.delete k (hs_positions s),
            hs_cash := dec (hs_cash s + proceeds_of config p x),
            hs_trades := hs_trades s @ [trade_of config k p t reference x why]\<rparr>"
    by (rule sim_close_positionE)
  have d: "hs_decisions s' = hs_decisions s" by (simp add: p(2))
  then have same: "approved_for s' a k' t' = approved_for s a k' t'" for a k' t' by (simp add: approved_for_def)
  have o: "op_opened_at p \<le> T" "approved_for s BUY k (op_opened_at p)"
    using assms(1) map_of_SomeD[OF p(1)] by (auto simp: history_ok_def)
  have "dec (op_amount p * dec (x - op_entry_price p)) \<le> 0" if "0 \<le> op_amount p" "x \<le> op_entry_price p"
  proof -
    have "dec (x - op_entry_price p) \<le> 0" using that(2) by simp
    then show ?thesis using that(1) by (simp add: mult_nonneg_nonpos)
  qed
  then have new: "trade_ok s' (trade_of config k p t reference x why)"
    using assms(2,3,5) o p(1) unfolding trade_ok_def same trade_of_sel by auto
  show ?thesis
  proof (rule history_smaller[OF assms(1,2)])
    show "\<And>tr. tr \<in> set (hs_trades s') \<Longrightarrow> tr \<in> set (hs_trades s) \<or> trade_ok s' tr"
      using new by (auto simp: p(2))
  qed (auto simp: p(2) set_delete)
qed

lemma execute_pending_history:
  assumes "history_ok T s" "T \<le> hc_open_time c" "execute_pending config c s = Inr s'"
  shows "history_ok (hc_open_time c) s'"
  using assms(3)
proof (cases rule: execute_pending_cases)
  case waiting
  then show ?thesis by (intro history_smaller[OF assms(1,2)]) auto
next
  case (dropped order)
  then show ?thesis by (intro history_smaller[OF assms(1,2)]) (auto simp: set_delete)
next
  case (bought order stake)
  have "pending_ok s (hc_symbol c) order" using assms(1) map_of_SomeD[OF bought(1)] by (auto simp: history_ok_def)
  then have "approved_for s BUY (hc_symbol c) (hc_open_time c)"
    using bought(2,4) approved_for_later by (auto simp: pending_ok_def)
  then have a: "approved_for s' BUY (hc_symbol c) (hc_open_time c)" by (simp add: bought(7) approved_for_def)
  have "op_opened_at (bought config c stake) = hc_open_time c" by (simp add: bought_def Let_def)
  with a have new: "op_opened_at (bought config c stake) \<le> hc_open_time c \<and>
      approved_for s' BUY (hc_symbol c) (op_opened_at (bought config c stake))" by simp
  have pos: "(k, p) \<in> set (hs_positions s) \<or> (k, p) = (hc_symbol c, bought config c stake)"
    if "(k, p) \<in> set (hs_positions s')" for k p
  proof -
    have "(k, p) \<in> set (AList.update (hc_symbol c) (bought config c stake) (hs_positions s))"
      using that by (simp add: bought(7))
    from update_mem[OF this] show ?thesis .
  qed
  show ?thesis
  proof (rule history_smaller[OF assms(1,2)])
    show "\<And>k p. (k, p) \<in> set (hs_positions s') \<Longrightarrow> (k, p) \<in> set (hs_positions s) \<or>
        op_opened_at p \<le> hc_open_time c \<and> approved_for s' BUY k (op_opened_at p)"
      using pos new by blast
  qed (auto simp: bought(7) set_delete)
next
  case (sold order)
  let ?s = "s\<lparr>hs_pending := AList.delete (hc_symbol c) (hs_pending s)\<rparr>"
  have "history_ok (hc_open_time c) ?s" by (intro history_smaller[OF assms(1,2)]) (auto simp: set_delete)
  moreover have "pending_ok s (hc_symbol c) order" using assms(1) map_of_SomeD[OF sold(1)] by (auto simp: history_ok_def)
  then have "approved_for ?s SELL (hc_symbol c) (hc_open_time c)"
    using sold(2,3) approved_for_later by (auto simp: pending_ok_def approved_for_def)
  ultimately show ?thesis using close_history[OF _ order_refl order_refl sold(4)] by blast
qed


lemma apply_safety_exits_history:
  assumes "replay_config_valid config" "candle_valid c" "books_ok config s" "history_ok (hc_open_time c) s"
    and "apply_safety_exits config c s = Inr s'"
  shows "history_ok (hc_open_time c) s'"
proof -
  have order: "hc_open_time c \<le> hc_close_time c" using assms(2) by (simp add: candle_valid_def)
  from assms(5) show ?thesis
  proof (cases rule: apply_safety_exits_cases)
    case kept
    with assms(4) show ?thesis by simp
  next
    case (stopped p)
    have ok: "position_ok p" using assms(3) map_of_SomeD[OF stopped(1)] by (auto simp: books_ok_def)
    have "net_of (rp_slippage_rate config) \<le> 1" using net_of_bounds assms(1) by (simp add: replay_config_valid_def)
    then have "dec (op_stop_price p * net_of (rp_slippage_rate config)) \<le> op_stop_price p"
      using ok by (intro dec.mult_le) (simp_all add: position_ok_def)
    with ok stopped(1) show ?thesis
      by (intro close_history[OF assms(4) order_refl order stopped(3)]) (auto simp: position_ok_def)
  next
    case (target p t reference fill)
    then have "hc_open_time c \<le> t" using order by auto
    then show ?thesis by (rule close_history[OF assms(4) order_refl _ target(5)]) simp
  qed
qed

lemma process_signal_history:
  assumes "history_ok T s" "sim_process_signal config c g s = Inr s'"
  shows "history_ok T s'"
  using assms(2)
proof (cases rule: sim_process_signal_cases)
  case (rejected reason b)
  then show ?thesis by (intro history_smaller[OF assms(1) order_refl]) (auto simp: add_decision_def)
next
  case (entry stake)
  let ?o = "\<lparr>po_symbol = sg_symbol g, po_side = ''BUY'', po_signal_time = sg_candle_close_time g, po_stake_usdt = Some stake\<rparr>"
  have "approved_for s' BUY (sg_symbol g) (sg_candle_close_time g)"
    by (simp add: approved_for_def entry(1) add_decision_def) (use entry(2) in simp)
  then have new: "pending_ok s' (sg_symbol g) ?o" by (simp add: pending_ok_def)
  show ?thesis
  proof (rule history_smaller[OF assms(1) order_refl])
    fix k order assume "(k, order) \<in> set (hs_pending s')"
    then have "(k, order) \<in> set (AList.update (sg_symbol g) ?o (hs_pending s))" by (simp add: entry(1) place_def)
    from update_mem[OF this] new show "(k, order) \<in> set (hs_pending s) \<or> pending_ok s' k order" by auto
  qed (auto simp: entry(1) add_decision_def place_def)
next
  case exit
  let ?o = "\<lparr>po_symbol = sg_symbol g, po_side = ''SELL'', po_signal_time = sg_candle_close_time g, po_stake_usdt = None\<rparr>"
  have "approved_for s' SELL (sg_symbol g) (sg_candle_close_time g)"
    by (simp add: approved_for_def exit(1) add_decision_def) (use exit(2) in simp)
  then have new: "pending_ok s' (sg_symbol g) ?o" by (simp add: pending_ok_def)
  show ?thesis
  proof (rule history_smaller[OF assms(1) order_refl])
    fix k order assume "(k, order) \<in> set (hs_pending s')"
    then have "(k, order) \<in> set (AList.update (sg_symbol g) ?o (hs_pending s))" by (simp add: exit(1) place_def)
    from update_mem[OF this] new show "(k, order) \<in> set (hs_pending s) \<or> pending_ok s' k order" by auto
  qed (auto simp: exit(1) add_decision_def place_def)
qed

lemma history_observed:
  "history_ok T (record_equity config t s) = history_ok T s"
  "history_ok T (s\<lparr>hs_last_prices := lp\<rparr>) = history_ok T s"
  by (simp_all add: history_ok_def record_equity_def pending_ok_def trade_ok_def approved_for_def)

lemma candle_step_history:
  assumes "replay_config_valid config" "candle_valid c" "books_ok config s" "history_ok T s" "T \<le> hc_open_time c"
    and "candle_step config signals c s = Inr s'"
  shows "history_ok (hc_open_time c) s'"
  using assms(6)
proof (rule candle_stepE)
  fix s1 s2 s3
  assume a: "execute_pending config c s = Inr s1" "apply_safety_exits config c s1 = Inr s2"
    "s3 = s2\<lparr>hs_last_prices := (hs_last_prices s2)(hc_symbol c \<mapsto> hc_close c)\<rparr>"
    "(s' = record_equity config (hc_close_time c) s3 \<and> signals (hc_symbol c, hc_close_time c) = None) \<or>
     (\<exists>g s4. signals (hc_symbol c, hc_close_time c) = Some g \<and> sim_process_signal config c g s3 = Inr s4 \<and>
        s' = record_equity config (hc_close_time c) s4)"
  have "history_ok (hc_open_time c) s1" by (rule execute_pending_history[OF assms(4,5) a(1)])
  then have "history_ok (hc_open_time c) s2"
    by (rule apply_safety_exits_history[OF assms(1,2) execute_pending_books[OF assms(1,2,3) a(1)] _ a(2)])
  then have "history_ok (hc_open_time c) s3" by (simp add: a(3) history_observed)
  with a(4) show ?thesis using process_signal_history by (auto simp: history_observed)
qed

lemma replay_candles_ok:
  assumes "replay_config_valid config" "sane_sizing (rp_risk config)"
    and "list_all candle_valid cs" "sorted (map hc_open_time cs)" "\<forall>c \<in> set cs. T \<le> hc_open_time c"
    and "books_ok config s" "history_ok T s" "replay_candles config signals cs s = Inr s'"
  shows "books_ok config s' \<and> (\<exists>T'. history_ok T' s')"
  using assms(3-8)
proof (induction cs arbitrary: s T)
  case Nil
  then show ?case by auto
next
  case (Cons c cs)
  then obtain s1 where s1: "candle_step config signals c s = Inr s1" "replay_candles config signals cs s1 = Inr s'" by auto
  have c: "candle_valid c" "T \<le> hc_open_time c" using Cons.prems by simp_all
  show ?case
  proof (rule Cons.IH[OF _ _ _ _ _ s1(2)])
    show "books_ok config s1" by (rule candle_step_books[OF assms(1,2) c(1) Cons.prems(4) s1(1)])
    show "history_ok (hc_open_time c) s1"
      by (rule candle_step_history[OF assms(1) c(1) Cons.prems(4,5) c(2) s1(1)])
  qed (use Cons.prems in auto)
qed


section \<open>The kill switch of a run\<close>

definition trips :: "ReplayDecision \<Rightarrow> bool" where
  "trips d \<longleftrightarrow> rd_action d \<noteq> SELL \<and> rd_rejection_reason d \<in> {Some DAILY_LOSS_LIMIT_HIT, Some CONSECUTIVE_LOSS_PAUSE}"

definition halted_after :: "ReplayDecision list \<Rightarrow> bool" where
  "halted_after ds \<longleftrightarrow>
     (\<forall>i j. i < j \<longrightarrow> j < length ds \<longrightarrow> trips (ds ! i) \<longrightarrow> rd_action (ds ! j) = SELL \<or> \<not> rd_approved (ds ! j))"

definition switch_ok :: "ReplaySimulator \<Rightarrow> bool" where
  "switch_ok s \<longleftrightarrow>
     (hs_killswitch_enabled s \<longleftrightarrow> (\<exists>d \<in> set (hs_decisions s). trips d)) \<and> halted_after (hs_decisions s)"

lemma halted_after_snoc:
  "halted_after (ds @ [d]) \<longleftrightarrow>
     halted_after ds \<and> ((\<exists>e \<in> set ds. trips e) \<longrightarrow> rd_action d = SELL \<or> \<not> rd_approved d)"
proof
  assume h: "halted_after (ds @ [d])"
  have "rd_action d = SELL \<or> \<not> rd_approved d" if e: "e \<in> set ds" "trips e" for e
  proof -
    obtain i where "i < length ds" "ds ! i = e" using e(1) by (auto simp: in_set_conv_nth)
    with h[unfolded halted_after_def, rule_format, of i "length ds"] e(2) show ?thesis by (simp add: nth_append)
  qed
  moreover have "halted_after ds"
    unfolding halted_after_def
  proof (intro allI impI)
    fix i j assume "i < j" "j < length ds" "trips (ds ! i)"
    with h[unfolded halted_after_def, rule_format, of i j]
    show "rd_action (ds ! j) = SELL \<or> \<not> rd_approved (ds ! j)" by (simp add: nth_append)
  qed
  ultimately show "halted_after ds \<and> ((\<exists>e \<in> set ds. trips e) \<longrightarrow> rd_action d = SELL \<or> \<not> rd_approved d)" by blast
next
  assume h: "halted_after ds \<and> ((\<exists>e \<in> set ds. trips e) \<longrightarrow> rd_action d = SELL \<or> \<not> rd_approved d)"
  show "halted_after (ds @ [d])"
    unfolding halted_after_def
  proof (intro allI impI)
    fix i j assume ij: "i < j" "j < length (ds @ [d])" "trips ((ds @ [d]) ! i)"
    show "rd_action ((ds @ [d]) ! j) = SELL \<or> \<not> rd_approved ((ds @ [d]) ! j)"
    proof (cases "j = length ds")
      case True
      with ij have "trips (ds ! i)" "ds ! i \<in> set ds" by (simp_all add: nth_append)
      with h True show ?thesis by auto
    next
      case False
      with ij h show ?thesis by (simp add: halted_after_def nth_append)
    qed
  qed
qed

lemma process_signal_switch:
  assumes "switch_ok s" "sim_process_signal config c g s = Inr s'"
  shows "switch_ok s'"
  using assms(2)
proof (cases rule: sim_process_signal_cases)
  case (rejected reason b)
  show ?thesis
  proof (cases "sg_action g = SELL")
    case True
    with assms(1) rejected(1,3) show ?thesis
      by (auto simp: switch_ok_def add_decision_def halted_after_snoc trips_def)
  next
    case False
    with assms(1) rejected(1) rejected(2)[OF False] show ?thesis
      by (auto simp: switch_ok_def add_decision_def halted_after_snoc trips_def)
  qed
next
  case (entry stake)
  with assms(1) show ?thesis
    by (auto simp: switch_ok_def add_decision_def halted_after_snoc trips_def place_def)
next
  case exit
  with assms(1) show ?thesis
    by (auto simp: switch_ok_def add_decision_def halted_after_snoc trips_def place_def)
qed

text \<open>Orders and exits make no decision and leave the switch alone.\<close>

lemma sim_close_frame:
  "sim_close_position config k t reference x why s = Inr s' \<Longrightarrow>
     hs_decisions s' = hs_decisions s \<and> hs_killswitch_enabled s' = hs_killswitch_enabled s \<and>
     hs_equity_curve s' = hs_equity_curve s \<and> prefix (hs_trades s) (hs_trades s')"
  by (erule sim_close_positionE) simp

lemma execute_pending_frame:
  assumes "execute_pending config c s = Inr s'"
  shows "hs_decisions s' = hs_decisions s \<and> hs_killswitch_enabled s' = hs_killswitch_enabled s \<and>
     hs_equity_curve s' = hs_equity_curve s \<and> prefix (hs_trades s) (hs_trades s')"
  using assms by (cases rule: execute_pending_cases) (auto dest: sim_close_frame)

lemma apply_safety_exits_frame:
  assumes "apply_safety_exits config c s = Inr s'"
  shows "hs_decisions s' = hs_decisions s \<and> hs_killswitch_enabled s' = hs_killswitch_enabled s \<and>
     hs_equity_curve s' = hs_equity_curve s \<and> prefix (hs_trades s) (hs_trades s')"
  using assms by (cases rule: apply_safety_exits_cases) (auto dest: sim_close_frame)

lemma candle_step_switch:
  assumes "switch_ok s" "candle_step config signals c s = Inr s'"
  shows "switch_ok s'"
  using assms(2)
proof (rule candle_stepE)
  fix s1 s2 s3
  assume a: "execute_pending config c s = Inr s1" "apply_safety_exits config c s1 = Inr s2"
    "s3 = s2\<lparr>hs_last_prices := (hs_last_prices s2)(hc_symbol c \<mapsto> hc_close c)\<rparr>"
    "(s' = record_equity config (hc_close_time c) s3 \<and> signals (hc_symbol c, hc_close_time c) = None) \<or>
     (\<exists>g s4. signals (hc_symbol c, hc_close_time c) = Some g \<and> sim_process_signal config c g s3 = Inr s4 \<and>
        s' = record_equity config (hc_close_time c) s4)"
  have "switch_ok s3"
    using assms(1) execute_pending_frame[OF a(1)] apply_safety_exits_frame[OF a(2)] by (simp add: switch_ok_def a(3))
  then have "\<And>g s4. sim_process_signal config c g s3 = Inr s4 \<Longrightarrow> switch_ok s4" by (rule process_signal_switch)
  moreover have "switch_ok (record_equity config t u) = switch_ok u" for t u
    by (simp add: switch_ok_def record_equity_def)
  ultimately show ?thesis using a(4) \<open>switch_ok s3\<close> by auto
qed

text \<open>What a step adds.\<close>

definition sim_extends :: "ReplaySimulator \<Rightarrow> ReplaySimulator \<Rightarrow> bool" where
  "sim_extends s s' \<longleftrightarrow>
     prefix (hs_decisions s) (hs_decisions s') \<and> prefix (hs_trades s) (hs_trades s') \<and>
     prefix (hs_equity_curve s) (hs_equity_curve s')"

lemma sim_extends_refl [simp]: "sim_extends s s"
  by (simp add: sim_extends_def)

lemma sim_extends_trans: "sim_extends s s1 \<Longrightarrow> sim_extends s1 s2 \<Longrightarrow> sim_extends s s2"
  by (auto simp: sim_extends_def intro: prefix_order.trans)

lemma process_signal_extends:
  assumes "sim_process_signal config c g s = Inr s'"
  shows "sim_extends s s'"
  using assms by (cases rule: sim_process_signal_cases) (auto simp: sim_extends_def add_decision_def place_def)

lemma candle_step_extends:
  assumes "candle_step config signals c s = Inr s'"
  shows "sim_extends s s'"
  using assms
proof (rule candle_stepE)
  fix s1 s2 s3
  assume a: "execute_pending config c s = Inr s1" "apply_safety_exits config c s1 = Inr s2"
    "s3 = s2\<lparr>hs_last_prices := (hs_last_prices s2)(hc_symbol c \<mapsto> hc_close c)\<rparr>"
    "(s' = record_equity config (hc_close_time c) s3 \<and> signals (hc_symbol c, hc_close_time c) = None) \<or>
     (\<exists>g s4. signals (hc_symbol c, hc_close_time c) = Some g \<and> sim_process_signal config c g s3 = Inr s4 \<and>
        s' = record_equity config (hc_close_time c) s4)"
  have "sim_extends s s3"
    using execute_pending_frame[OF a(1)] apply_safety_exits_frame[OF a(2)]
    by (auto simp: sim_extends_def a(3) intro: prefix_order.trans)
  moreover have "sim_extends u (record_equity config t u)" for t u by (simp add: sim_extends_def record_equity_def)
  ultimately show ?thesis using a(4) process_signal_extends sim_extends_trans by blast
qed

lemma replay_candles_extends:
  "replay_candles config signals cs s = Inr s' \<Longrightarrow> sim_extends s s'"
  by (induction cs arbitrary: s) (auto dest: candle_step_extends intro: sim_extends_trans)

lemma replay_candles_switch:
  "switch_ok s \<Longrightarrow> replay_candles config signals cs s = Inr s' \<Longrightarrow> switch_ok s'"
  by (induction cs arbitrary: s) (auto dest: candle_step_switch)

lemma replay_candles_append:
  "replay_candles config signals (cs @ ds) s =
     bind_res (replay_candles config signals cs s) (replay_candles config signals ds)"
proof (induction cs arbitrary: s)
  case (Cons c cs)
  then show ?case by (cases "candle_step config signals c s") simp_all
qed simp


section \<open>The order of the candles\<close>

lemma ordered_by_time: "sorted (map hc_open_time (sort_key candle_order cs))"
proof -
  have "sorted (map candle_order (sort_key candle_order cs))" by simp
  then show ?thesis
    unfolding sorted_wrt_map by (rule sorted_wrt_mono_rel[rotated]) (auto simp: candle_order_def)
qed

lemma sorted_filter_before:
  fixes f :: "'a \<Rightarrow> 'b :: linorder"
  assumes "sorted (map f xs)"
  shows "\<exists>ys. xs = filter (\<lambda>x. f x < t) xs @ ys"
  using assms
proof (induction xs)
  case (Cons x xs)
  show ?case
  proof (cases "f x < t")
    case True
    with Cons show ?thesis by simp
  next
    case False
    have "\<not> f y < t" if "y \<in> set xs" for y using Cons.prems False that by force
    then have "filter (\<lambda>x. f x < t) xs = []" by (simp add: filter_empty_conv)
    with False show ?thesis by simp
  qed
qed simp

lemma candles_consistent_prefix:
  "candles_consistent seen last_close (cs @ ds) \<Longrightarrow> candles_consistent seen last_close cs"
  by (induction cs arbitrary: seen last_close) (auto split: if_splits option.splits)

lemma simulateE:
  assumes "simulate config candles signals = Inr s"
  obtains index where "candles \<noteq> []" "candles_consistent {} Map.empty (sort_key candle_order candles)"
    "index_signals signals = Inr index"
    "replay_candles config index (sort_key candle_order candles) (new_simulator config) = Inr s"
  using assms by (auto simp: simulate_def validate_and_order_candles_def Let_def split: if_splits)

lemma new_simulator_ok:
  assumes "replay_config_valid config"
  shows "books_ok config (new_simulator config)" "history_ok T (new_simulator config)" "switch_ok (new_simulator config)"
  using assms
  by (simp_all add: books_ok_def history_ok_def switch_ok_def halted_after_def new_simulator_def open_symbols_def
      pending_entries_def replay_config_valid_def)

lemma simulate_ok:
  assumes "replay_config_valid config" "sane_sizing (rp_risk config)" "list_all candle_valid candles"
    and "simulate config candles signals = Inr s"
  shows "books_ok config s" "\<exists>T. history_ok T s" "switch_ok s"
proof -
  let ?cs = "sort_key candle_order candles"
  from assms(4) obtain index where
    run: "replay_candles config index ?cs (new_simulator config) = Inr s" by (rule simulateE)
  have "list_all candle_valid ?cs" using assms(3) by (simp add: list_all_iff)
  moreover obtain T where "\<forall>c \<in> set ?cs. T \<le> hc_open_time c"
  proof (cases "?cs = []")
    case False
    then have "\<forall>c \<in> set ?cs. Min (hc_open_time ` set ?cs) \<le> hc_open_time c" by simp
    then show ?thesis by (rule that)
  qed (use that in simp)
  ultimately show "books_ok config s" "\<exists>T. history_ok T s"
    using replay_candles_ok[OF assms(1,2) _ ordered_by_time _ new_simulator_ok(1,2)[OF assms(1)] run] by blast+
  show "switch_ok s" by (rule replay_candles_switch[OF new_simulator_ok(3)[OF assms(1)] run])
qed

section \<open>Properties of a run\<close>

definition hist_candle :: "int \<Rightarrow> rat \<Rightarrow> HistCandle" where
  "hist_candle i low =
     \<lparr>hc_symbol = ''BTC/USDT'', hc_open_time = i * 3600000000, hc_close_time = (i + 1) * 3600000000,
      hc_open = 100, hc_high = 101, hc_low = low, hc_close = 100, hc_volume = 1\<rparr>"

definition sample_candles :: "HistCandle list" where
  "sample_candles = [hist_candle 1 90, hist_candle 0 99]"

definition sample_signal_at :: "datetime \<Rightarrow> SyntheticSignal" where
  "sample_signal_at t =
     \<lparr>sg_symbol = ''BTC/USDT'', sg_candle_close_time = t, sg_action = BUY, sg_confidence = 1, sg_atr_14 = 2\<rparr>"

definition sample_config :: ReplayConfig where
  "sample_config = ReplayConfig_defaults\<lparr>rp_slippage_rate := 0\<rparr>"

lemma sample_config_ok: "replay_config_valid sample_config" "sane_sizing (rp_risk sample_config)"
  using sane_sizing_defaults by (simp_all add: sample_config_def ReplayConfig_defaults_def replay_config_valid_def)

lemma sample_candles_ok: "list_all candle_valid sample_candles"
proof -
  have "SymbolStr ''BTC/USDT''" by (simp add: SymbolStr_def symbol_char_def)
  then show ?thesis by (simp add: sample_candles_def hist_candle_def candle_valid_def)
qed

lemma sample_step:
  defines "C \<equiv> sample_config" and "g \<equiv> sample_signal_at 3600000000"
  defines "s1 \<equiv> (new_simulator C)\<lparr>hs_last_prices := [''BTC/USDT'' \<mapsto> 100]\<rparr>"
  shows "sim_process_signal C (hist_candle 0 99) g s1 =
    Inr (add_decision g True None (Some ''BUY'') (place g ''BUY'' (Some 500) s1))"
proof -
  define v where "v = synthetic_view (hist_candle 0 99) g"
  define a where "a = sim_account_state C 3600000000 s1"
  have acct: "ac_equity_usdt a = 10000" "ac_free_balance_usdt a = 10000" "ac_total_exposure_usdt a = 0"
    "ac_daily_pnl_pct a = 0" "ac_consecutive_losses a = 0" "ac_symbol_last_closed_at a = Map.empty"
    "ac_open_position_symbols a = {}"
    unfolding a_def s1_def C_def
    by (simp_all add: sim_account_state_def new_simulator_def sample_config_def ReplayConfig_defaults_def
        sim_equity_def Let_def pending_entries_def)
  have "dec (3 / 10) = (3 / 10 :: rat)" by (rule dec_exactI[where k = 1 and m = 3]) simp_all
  then have full: "confidence_scale 1 RiskConfig_defaults = 1"
    by (simp add: confidence_scale_def RiskConfig_defaults_def Let_def)
  obtain z where z1: "compute_sizing 10000 10000 100 2 1 RiskConfig_defaults = Inr z"
    using compute_sizing_total[of 100 RiskConfig_defaults 10000 10000 2 1] by (auto simp: RiskConfig_defaults_def)
  from default_size_is_capped[OF this] full have "sz_position_size_usdt z = 500" by simp
  note z = z1 this
  have v: "sv_price v = 100" "sv_atr_14 v = 2" "sv_confidence v = 1" "sv_action v = BUY" "sv_symbol v = ''BTC/USDT''"
    "sv_candle_ts v = 3600000000"
    by (simp_all add: v_def synthetic_view_def g_def sample_signal_at_def hist_candle_def)
  have C: "rp_risk C = RiskConfig_defaults" by (simp add: C_def sample_config_def ReplayConfig_defaults_def)
  let ?ctx = "context_of v a (rp_risk C) 3600000000 False False REPLAY_NO_EXPECTANCY z"
  have caps: "dec (- (3 / 100)) \<le> (0 :: rat)" "dec (- (3 / 100)) \<noteq> (0 :: rat)" "dec (20 / 100 * 10000) = (2000 :: rat)"
    by simp_all
  have "\<forall>q \<in> set RULES_IN_ORDER. q ?ctx = None"
    unfolding gate_conditions Let_def using caps
    by (simp add: v acct C z(2) RiskConfig_defaults_def minutes_def)
  then have r: "decision_of ?ctx = approved_result 10000 z (build_expectancy_check ?ctx)"
    using decision_of_None[of ?ctx] by (simp add: first_violation_None acct)
  have ev: "evaluate v a (rp_risk C) 3600000000 False False REPLAY_NO_EXPECTANCY =
      Inr (approved_result 10000 z (build_expectancy_check ?ctx))"
    by (simp add: evaluate_def v acct C z(1) flip: r[unfolded C])
  have s1: "hs_killswitch_enabled s1 = False" "hs_pending s1 = []" by (simp_all add: s1_def new_simulator_def)
  have g: "sg_symbol g = ''BTC/USDT''" "sg_candle_close_time g = 3600000000" "sg_action g = BUY"
    by (simp_all add: g_def sample_signal_at_def)
  have c: "hc_symbol (hist_candle 0 99) = ''BTC/USDT''" "hc_close_time (hist_candle 0 99) = 3600000000"
    by (simp_all add: hist_candle_def)
  show ?thesis
    using ev by (simp add: sim_process_signal_def Let_def g c s1 z(2) flip: v_def a_def)
qed


lemma sample_simulation:
  obtains s where "simulate sample_config sample_candles [sample_signal_at 3600000000] = Inr s"
    "map rt_exit_reason (hs_trades s) = [''stop_loss'']" "map rt_opened_at (hs_trades s) = [3600000000]"
proof -
  let ?C = sample_config and ?g = "sample_signal_at 3600000000" and ?c0 = "hist_candle 0 99" and ?c1 = "hist_candle 1 90"
  define s1 where "s1 = (new_simulator ?C)\<lparr>hs_last_prices := [''BTC/USDT'' \<mapsto> 100]\<rparr>"
  define s2 where "s2 = record_equity ?C 3600000000 (add_decision ?g True None (Some ''BUY'') (place ?g ''BUY'' (Some 500) s1))"
  define index where "index = [(''BTC/USDT'', 3600000000 :: int) \<mapsto> ?g]"
  have C: "rp_fee_rate ?C = 1 / 1000" "rp_slippage_rate ?C = 0" "rp_static_stop_loss_pct ?C = 8 / 100"
    by (simp_all add: sample_config_def ReplayConfig_defaults_def)
  have g: "sg_symbol ?g = ''BTC/USDT''" "sg_candle_close_time ?g = 3600000000" by (simp_all add: sample_signal_at_def)
  have n0: "hs_pending (new_simulator ?C) = []" "hs_positions (new_simulator ?C) = []"
    "hs_last_prices (new_simulator ?C) = Map.empty" by (simp_all add: new_simulator_def)
  have step0: "candle_step ?C index ?c0 (new_simulator ?C) = Inr s2"
    using sample_step
    by (simp add: candle_step_def execute_pending_def apply_safety_exits_def n0 hist_candle_def index_def Let_def s1_def s2_def)
  have cash: "hs_cash s2 = 10000" "hs_positions s2 = []"
    "hs_pending s2 = [(''BTC/USDT'', \<lparr>po_symbol = ''BTC/USDT'', po_side = ''BUY'', po_signal_time = 3600000000,
       po_stake_usdt = Some 500\<rparr>)]" "hs_trades s2 = []"
    by (simp_all add: s2_def record_equity_def s1_def place_def new_simulator_def sample_config_def
        ReplayConfig_defaults_def g)
  have d: "dec (1001 / 2) = (1001 / 2 :: rat)" by (rule dec_exactI[where k = 1 and m = 5005]) simp_all
  have stop: "dec (23 / 25) = (23 / 25 :: rat)" by (rule dec_exactI[where k = 2 and m = 92]) simp_all
  define p where "p = bought ?C ?c1 500"
  have p: "op_stop_price p = 92" "op_opened_at p = 3600000000" "op_stake_usdt p = 500" "op_entry_fee_usdt p = 1 / 2"
    by (simp_all add: stop p_def bought_def hist_candle_def C net_of_def Let_def)
  define s3 where "s3 = s2\<lparr>hs_pending := [], hs_cash := dec (10000 - 1001 / 2), hs_positions := [(''BTC/USDT'', p)]\<rparr>"
  have buy: "execute_pending ?C ?c1 s2 = Inr s3"
    by (simp add: d execute_pending_def cash C hist_candle_def Let_def s3_def p_def bought_def)
  obtain s4 where s4: "sim_close_position ?C ''BTC/USDT'' 7200000000 92 (dec (92 * net_of 0)) ''stop_loss'' s3 = Inr s4"
    "map rt_exit_reason (hs_trades s4) = [''stop_loss'']" "map rt_opened_at (hs_trades s4) = [3600000000]"
    by (simp add: p d sim_close_position_def s3_def Let_def cash)
  have "apply_safety_exits ?C ?c1 s3 = Inr s4"
    using s4(1) p(1) by (simp add: apply_safety_exits_def s3_def hist_candle_def C Let_def)
  with buy have step1: "\<exists>s5. candle_step ?C index ?c1 s2 = Inr s5 \<and> hs_trades s5 = hs_trades s4"
    by (simp add: candle_step_def index_def hist_candle_def Let_def record_equity_def)
  have "sort_key candle_order sample_candles = [?c0, ?c1]"
    by (simp add: sample_candles_def candle_order_def hist_candle_def)
  with step0 step1 have "\<exists>s5. simulate ?C sample_candles [?g] = Inr s5 \<and> hs_trades s5 = hs_trades s4"
    by (simp add: simulate_def validate_and_order_candles_def index_signals_def sample_candles_def hist_candle_def g
        flip: index_def)
  with s4 that show thesis by metis
qed


text \<open>
  C32. The replay tool keeps its books: after any run on valid candles the cash is not negative, there is at
  most one position per symbol and at most as many as configured, each with an amount that is not negative
  and a stop above zero and not above its entry price.
\<close>

theorem replay_books_balance:
  assumes "replay_config_valid config" "sane_sizing (rp_risk config)" "list_all candle_valid candles"
    and "simulate config candles signals = Inr s"
  shows "0 \<le> hs_cash s \<and> distinct (map fst (hs_positions s)) \<and>
    int (length (hs_positions s)) \<le> max 0 (max_open_positions (rp_risk config)) \<and>
    (\<forall>(k, p) \<in> set (hs_positions s).
       0 \<le> op_amount p \<and> 0 < op_stop_price p \<and> op_stop_price p \<le> op_entry_price p)"
proof -
  have ok: "books_ok config s" by (rule simulate_ok(1)[OF assms])
  then have d: "distinct (map fst (hs_positions s))" by (simp add: books_ok_def)
  have "length (hs_positions s) = card (fst ` set (hs_positions s))"
    using distinct_card[OF d] by simp
  also have "\<dots> \<le> card (open_symbols s)" by (intro card_mono) (auto simp: open_symbols_def)
  finally show ?thesis using ok d by (auto simp: books_ok_def position_ok_def)
qed

theorem replay_books_balance_witness:
  "\<exists>s. simulate sample_config sample_candles [sample_signal_at 3600000000] = Inr s \<and> 0 \<le> hs_cash s \<and> length (hs_trades s) = 1"
proof -
  obtain s where s: "simulate sample_config sample_candles [sample_signal_at 3600000000] = Inr s"
    "map rt_exit_reason (hs_trades s) = [''stop_loss'']" by (rule sample_simulation)
  from arg_cong[OF s(2), of length] have "length (hs_trades s) = 1" by simp
  with s(1) replay_books_balance[OF sample_config_ok sample_candles_ok s(1)] show ?thesis by blast
qed

text \<open>
  C33. Every trade of a replay has its cause: it was opened at or after the close of a candle with an approved
  BUY of its symbol and closed no earlier than it was opened, by an approved SELL of that symbol, by the
  stop without a gross profit, or by the target; and once a decision has tripped the kill switch no later
  entry is approved.
\<close>

theorem replay_trades_have_causes:
  assumes "replay_config_valid config" "sane_sizing (rp_risk config)" "list_all candle_valid candles"
    and "simulate config candles signals = Inr s"
  shows "(\<forall>t \<in> set (hs_trades s).
       rt_opened_at t \<le> rt_closed_at t \<and> approved_for s BUY (rt_symbol t) (rt_opened_at t) \<and>
       (rt_exit_reason t = ''signal_exit'' \<and> approved_for s SELL (rt_symbol t) (rt_closed_at t) \<or>
        rt_exit_reason t = ''stop_loss'' \<and> rt_gross_pnl_usdt t \<le> 0 \<or> rt_exit_reason t = ''roi'')) \<and>
    (\<forall>i j. i < j \<and> j < length (hs_decisions s) \<and> trips (hs_decisions s ! i) \<longrightarrow>
       rd_action (hs_decisions s ! j) = SELL \<or> \<not> rd_approved (hs_decisions s ! j))"
  using simulate_ok(2,3)[OF assms] unfolding history_ok_def trade_ok_def switch_ok_def halted_after_def by blast

theorem replay_trades_have_causes_witness:
  "\<exists>s t. simulate sample_config sample_candles [sample_signal_at 3600000000] = Inr s \<and> hs_trades s = [t] \<and>
     rt_gross_pnl_usdt t \<le> 0 \<and> approved_for s BUY (rt_symbol t) 3600000000"
proof -
  obtain s where s: "simulate sample_config sample_candles [sample_signal_at 3600000000] = Inr s"
    "map rt_exit_reason (hs_trades s) = [''stop_loss'']" "map rt_opened_at (hs_trades s) = [3600000000]"
    by (rule sample_simulation)
  then obtain t where t: "hs_trades s = [t]" "rt_exit_reason t = ''stop_loss''" "rt_opened_at t = 3600000000"
    by auto
  from replay_trades_have_causes[OF sample_config_ok sample_candles_ok s(1), THEN conjunct1] t
  have "rt_gross_pnl_usdt t \<le> 0" "approved_for s BUY (rt_symbol t) 3600000000" by auto
  with s(1) t(1) show ?thesis by blast
qed

text \<open>
  The replay does not look ahead: on the candles opened before any time it makes the same decisions,
  trades and equity points as the whole run makes first.
\<close>

theorem simulate_no_look_ahead:
  assumes "simulate config candles signals = Inr s" "past = filter (\<lambda>c. hc_open_time c < T) candles" "past \<noteq> []"
  shows "\<exists>s0. simulate config past signals = Inr s0 \<and>
    prefix (hs_decisions s0) (hs_decisions s) \<and> prefix (hs_trades s0) (hs_trades s) \<and>
    prefix (hs_equity_curve s0) (hs_equity_curve s)"
proof -
  let ?cs = "sort_key candle_order candles" and ?ps = "sort_key candle_order past"
  from assms(1) obtain index where run: "candles_consistent {} Map.empty ?cs" "index_signals signals = Inr index"
    "replay_candles config index ?cs (new_simulator config) = Inr s" by (rule simulateE)
  have ps: "?ps = filter (\<lambda>c. hc_open_time c < T) ?cs" unfolding assms(2) by (rule filter_sort[symmetric])
  obtain later where later: "?cs = ?ps @ later"
    using sorted_filter_before[OF ordered_by_time[of candles], of T] unfolding ps by blast
  obtain s0 where s0: "replay_candles config index ?ps (new_simulator config) = Inr s0"
    "replay_candles config index later s0 = Inr s"
    using run(3) unfolding later replay_candles_append by auto
  have "candles_consistent {} Map.empty ?ps" using run(1) unfolding later by (rule candles_consistent_prefix)
  with assms(3) run(2) s0(1) have "simulate config past signals = Inr s0"
    by (simp add: simulate_def validate_and_order_candles_def Let_def)
  with replay_candles_extends[OF s0(2)] show ?thesis unfolding sim_extends_def by blast
qed

theorem simulate_no_look_ahead_witness:
  "\<exists>s s0. simulate sample_config sample_candles [sample_signal_at 3600000000] = Inr s \<and>
     simulate sample_config [hist_candle 0 99] [sample_signal_at 3600000000] = Inr s0 \<and>
     prefix (hs_trades s0) (hs_trades s)"
proof -
  obtain s where s: "simulate sample_config sample_candles [sample_signal_at 3600000000] = Inr s"
    by (rule sample_simulation)
  have past: "[hist_candle 0 99] = filter (\<lambda>c. hc_open_time c < 3600000000) sample_candles"
    by (simp add: sample_candles_def hist_candle_def)
  from simulate_no_look_ahead[OF s past] s show ?thesis by blast
qed

text \<open>
  An entry of size zero ends the run: the position it opens has no cost to measure a return against, so the
  same candle raises \<open>InvalidOperation\<close>.  The evaluator approves such an entry when nothing is free.
\<close>

theorem zero_stake_ends_replay:
  assumes "replay_config_valid config" "candle_valid candle" "books_ok config s"
    and "map_of (hs_pending s) (hc_symbol candle) = Some order" "po_side order = ''BUY''"
    and "po_stake_usdt order = Some 0" "po_signal_time order \<le> hc_open_time candle"
  shows "candle_step config signals candle s = Inl InvalidOperation"
proof -
  let ?k = "hc_symbol candle" and ?p = "bought config candle 0"
  have "(?k, 0) \<in> set (pending_entries s)"
    using map_of_SomeD[OF assms(4)] assms(5,6) by (auto simp: pending_entries_set)
  with assms(3) have k: "?k \<notin> fst ` set (hs_positions s)" "0 \<le> hs_cash s" by (auto simp: books_ok_def)
  have e: "dec (hc_open candle * dec (1 + rp_slippage_rate config)) \<noteq> 0"
    using assms(1,2) by (simp add: replay_config_valid_def candle_valid_def)
  let ?s = "s\<lparr>hs_pending := AList.delete ?k (hs_pending s), hs_cash := dec (hs_cash s - dec (0 + dec (0 * rp_fee_rate config))),
      hs_positions := AList.update ?k ?p (hs_positions s)\<rparr>"
  have buy: "execute_pending config candle s = Inr ?s"
    using assms(4-7) k e by (simp add: execute_pending_def Let_def bought_def)
  have p: "op_amount ?p = 0" "op_stake_usdt ?p = 0" "op_entry_fee_usdt ?p = 0" by (simp_all add: bought_def Let_def)
  have m: "map_of (hs_positions ?s) ?k = Some ?p" by (simp add: AList.update_conv')
  have "net_return_at_price config ?p x = Inl InvalidOperation" for x
    by (simp add: net_return_at_price_def p Let_def dec_div_def)
  moreover have "sim_close_position config ?k t r x why ?s = Inl InvalidOperation" for t r x why
    unfolding sim_close_position_def m option.case by (simp add: p Let_def dec_div_def)
  ultimately have "apply_safety_exits config candle ?s = Inl InvalidOperation"
    unfolding apply_safety_exits_def Let_def m option.case by simp
  with buy show ?thesis by (simp add: candle_step_def)
qed

end
