(* ===== verification/Admin_Api.thy ===== *)
theory Admin_Api
  imports Scheduler Webhooks Reports
begin

text \<open>
  The reading side of \<open>admin_api/app\<close>: \<open>auth.py\<close>, \<open>routers/status.py\<close>, \<open>performance.py\<close>, \<open>signals.py\<close>,
  \<open>decisions.py\<close>, \<open>orders.py\<close>, \<open>positions.py\<close>, \<open>audit.py\<close>, and the manual trigger of \<open>cycles.py\<close>.  A
  response is the record of rows it is built from; API keys are ASCII.
\<close>

section \<open>Requests\<close>

datatype api_error = Refused http_error | NotFound | Unprocessable

definition require_api_key :: "string \<Rightarrow> string option \<Rightarrow> api_error + unit" where
  "require_api_key admin_api_key credentials =
     (if admin_api_key = [] \<or> credentials = None \<or> the credentials \<noteq> admin_api_key
      then Inl (Refused Unauthorized) else Inr ())"

text \<open>\<open>Query(default=50, ge=1, le=500)\<close> and a \<open>LIMIT\<close> after \<open>ORDER BY created_at DESC\<close>.\<close>

definition limited :: "int \<Rightarrow> 'a list \<Rightarrow> api_error + 'a list" where
  "limited n rows = (if n < 1 \<or> 500 < n then Inl Unprocessable else Inr (take (nat n) rows))"

definition newest_first :: "('a \<Rightarrow> datetime) \<Rightarrow> 'a list \<Rightarrow> 'a list" where
  "newest_first created rows = sort_key (\<lambda>r. - created r) rows"

text \<open>\<open>if symbol:\<close> is false of an empty text.\<close>

definition given :: "string option \<Rightarrow> string option" where
  "given s = (if s = Some [] then None else s)"

definition upper_char :: "char \<Rightarrow> char" where
  "upper_char c = (if 97 \<le> (of_char c :: nat) \<and> (of_char c :: nat) \<le> 122 then char_of ((of_char c :: nat) - 32) else c)"

definition upper :: "string \<Rightarrow> string" where
  "upper s = map upper_char s"

section \<open>Lists of rows\<close>

definition list_signals :: "string option \<Rightarrow> int \<Rightarrow> db \<Rightarrow> api_error + signal_row list" where
  "list_signals symbol n d =
     limited n (newest_first sig_created_at
       (filter (\<lambda>s. case given symbol of None \<Rightarrow> True | Some x \<Rightarrow> sig_symbol s = x) (db_signals d)))"

definition read_signal :: "nat \<Rightarrow> db \<Rightarrow> api_error + signal_row" where
  "read_signal i d = (case get_signal d i of None \<Rightarrow> Inl NotFound | Some s \<Rightarrow> Inr s)"

definition list_decisions :: "string option \<Rightarrow> int \<Rightarrow> db \<Rightarrow> api_error + risk_decision list" where
  "list_decisions symbol n d =
     limited n (newest_first dec_created_at
       (filter (\<lambda>r. case given symbol of
                  None \<Rightarrow> True
                | Some x \<Rightarrow> (case get_signal d (dec_signal_id r) of None \<Rightarrow> False | Some s \<Rightarrow> sig_symbol s = x))
          (db_decisions d)))"

fun order_status_value :: "OrderStatus \<Rightarrow> string" where
  "order_status_value SUBMITTED = ''SUBMITTED''"
| "order_status_value FILLED = ''FILLED''"
| "order_status_value FAILED = ''FAILED''"
| "order_status_value CANCELLED = ''CANCELLED''"

definition list_orders :: "string option \<Rightarrow> string option \<Rightarrow> int \<Rightarrow> db \<Rightarrow> api_error + order list" where
  "list_orders symbol order_status n d =
     limited n (newest_first ord_created_at
       (filter (\<lambda>r. (case given symbol of None \<Rightarrow> True | Some x \<Rightarrow> ord_symbol r = x) \<and>
                  (case given order_status of None \<Rightarrow> True | Some x \<Rightarrow> order_status_value (ord_status r) = upper x))
          (db_orders d)))"

definition read_order :: "nat \<Rightarrow> db \<Rightarrow> api_error + order" where
  "read_order i d = (case get_order d i of None \<Rightarrow> Inl NotFound | Some r \<Rightarrow> Inr r)"

definition list_positions :: "string option \<Rightarrow> db \<Rightarrow> api_error + (position \<times> position_mark option) list" where
  "list_positions status_filter d =
     (case map_option upper status_filter of
        None \<Rightarrow> Inr (list_positions_with_marks None d)
      | Some x \<Rightarrow>
          if x = ''OPEN'' then Inr (list_positions_with_marks (Some OPEN) d)
          else if x = ''CLOSED'' then Inr (list_positions_with_marks (Some CLOSED) d)
          else Inl (Refused BadRequest))"

record AuditTimelineOut =
  tl_trace_id :: nat
  tl_signals :: "signal_row list"
  tl_risk_decisions :: "risk_decision list"
  tl_orders :: "order list"
  tl_audit_events :: "audit_event list"

definition get_audit_timeline :: "nat \<Rightarrow> db \<Rightarrow> AuditTimelineOut" where
  "get_audit_timeline trace_id d =
     \<lparr>tl_trace_id = trace_id,
      tl_signals = sort_key sig_created_at (filter (\<lambda>s. sig_trace_id s = trace_id) (db_signals d)),
      tl_risk_decisions = sort_key dec_created_at (filter (\<lambda>r. dec_trace_id r = trace_id) (db_decisions d)),
      tl_orders = sort_key ord_created_at (filter (\<lambda>r. ord_trace_id r = trace_id) (db_orders d)),
      tl_audit_events = sort_key aud_created_at (filter (\<lambda>e. aud_trace_id e = trace_id) (db_audit d))\<rparr>"

section \<open>Status\<close>

record PairStatus =
  ps_last_cycle_at :: "datetime option"
  ps_last_action :: "Action option"

record StatusOut =
  st_killswitch_enabled :: bool
  st_dry_run :: bool
  st_open_positions :: nat
  st_equity_usdt :: rat
  st_free_balance_usdt :: rat
  st_daily_pnl_pct :: rat
  st_pairs :: "(string \<times> PairStatus) list"

definition pair_status :: "db \<Rightarrow> string \<Rightarrow> PairStatus" where
  "pair_status d symbol =
     (case newest_first sig_created_at (filter (\<lambda>s. sig_symbol s = symbol) (db_signals d)) of
        [] \<Rightarrow> \<lparr>ps_last_cycle_at = None, ps_last_action = None\<rparr>
      | s # _ \<Rightarrow> \<lparr>ps_last_cycle_at = Some (sig_created_at s), ps_last_action = Some (sig_action s)\<rparr>)"

definition fresh_balance :: "datetime \<Rightarrow> redis_reply \<Rightarrow> AccountBalanceSnapshot option" where
  "fresh_balance now raw =
     (case raw of
        R_VALUE j \<Rightarrow>
          (case parse_balance_snapshot j of
             Inl _ \<Rightarrow> None
           | Inr balance \<Rightarrow>
               if is_fresh balance now ACCOUNT_BALANCE_SNAPSHOT_TTL_SECONDS then Some balance else None)
      | _ \<Rightarrow> None)"

definition daily_pnl_usdt :: "datetime \<Rightarrow> db \<Rightarrow> rat" where
  "daily_pnl_usdt now d =
     dec_sum (map pnl_or_zero
       (filter (\<lambda>p. pos_status p = CLOSED \<and>
                  (case pos_closed_at p of None \<Rightarrow> False | Some t \<Rightarrow> date_of t = date_of now)) (db_positions d)))"

definition status_of :: "bool \<Rightarrow> string list \<Rightarrow> AccountBalanceSnapshot \<Rightarrow> datetime \<Rightarrow> db \<Rightarrow> StatusOut" where
  "status_of dry symbols balance now d =
     (let equity_usdt = bal_equity_usdt balance
      in \<lparr>st_killswitch_enabled = is_enabled d,
          st_dry_run = dry,
          st_open_positions = length (filter (\<lambda>p. pos_status p = OPEN) (db_positions d)),
          st_equity_usdt = equity_usdt, st_free_balance_usdt = bal_free_balance_usdt balance,
          st_daily_pnl_pct = (if equity_usdt > 0 then dec (daily_pnl_usdt now d / equity_usdt) else 0),
          st_pairs = map (\<lambda>symbol. (symbol, pair_status d symbol)) (rev (remdups (rev symbols)))\<rparr>)"

definition get_status ::
    "externals \<Rightarrow> RiskConfig \<Rightarrow> string list \<Rightarrow> datetime \<Rightarrow> world \<Rightarrow> (api_error + StatusOut) \<times> world" where
  "get_status ex env symbols now w =
     (case load_effective_risk_config env (w_db w) of
        Inl e \<Rightarrow> (Inl (Refused (ServerError e)), w)
      | Inr config \<Rightarrow>
          (case redis_query ex now (R_GET K_account_balance) w of
             (Inl e, w) \<Rightarrow> (Inl (Refused (ServerError e)), w)
           | (Inr raw, w) \<Rightarrow>
               (case fresh_balance now raw of
                  None \<Rightarrow> (Inl (Refused ServiceUnavailable), w)
                | Some balance \<Rightarrow> (Inr (status_of (dry_run config) symbols balance now (w_db w)), w))))"

section \<open>Performance\<close>

record PerformanceSummary =
  sm_report :: PerformanceReport
  sm_breakdowns :: PerformanceBreakdowns
  sm_filters :: trade_filter

definition get_performance ::
    "externals \<Rightarrow> trade_filter \<Rightarrow> datetime \<Rightarrow> world \<Rightarrow> (api_error + PerformanceSummary) \<times> world" where
  "get_performance ex f now w =
     (let percent = (\<lambda>x. case x of None \<Rightarrow> True | Some s \<Rightarrow> 0 \<le> s \<and> s \<le> (100 :: int))
      in if \<not> percent (tf_score_min f) \<or> \<not> percent (tf_score_max f) then (Inl Unprocessable, w)
         else if (case (tf_score_min f, tf_score_max f) of (Some lo, Some hi) \<Rightarrow> lo > hi | _ \<Rightarrow> False)
         then (Inl (Refused BadRequest), w)
         else
           let trades = load_closed_trade_metrics f (w_db w)
           in case resolve_equity_anchor ex now w of
                (Inl e, w) \<Rightarrow> (Inl (Refused (ServerError e)), w)
              | (Inr anchor, w) \<Rightarrow>
                  (Inr \<lparr>sm_report = summarize trades anchor, sm_breakdowns = summarize_breakdowns trades anchor,
                        sm_filters = f\<rparr>, w))"

section \<open>The manual trigger\<close>

definition trigger_cycle ::
    "externals \<Rightarrow> scheduler \<Rightarrow> string list \<Rightarrow> string \<Rightarrow> bool \<Rightarrow> nat \<Rightarrow> datetime \<Rightarrow> world
     \<Rightarrow> (api_error + nat option) \<times> world" where
  "trigger_cycle ex sc symbols symbol commit_ok trace_id now w =
     (let normalized = upper (map (\<lambda>c. if c = CHR ''-'' then CHR ''/'' else c) symbol)
      in if normalized \<notin> set symbols then (Inl NotFound, w)
         else case run_cycle ex sc normalized commit_ok trace_id now w of
                (Inl e, w) \<Rightarrow> (Inl (Refused (ServerError e)), w)
              | (Inr r, w) \<Rightarrow> (Inr r, w))"

section \<open>The operator sees what the gates read\<close>

lemma require_api_key_iff: "require_api_key key c = Inr () \<longleftrightarrow> key \<noteq> [] \<and> c = Some key"
  by (auto simp: require_api_key_def)

lemma stored_perm:
  assumes "mset ys = mset xs"
  shows "stored_amounts (map f ys) = stored_amounts (map f xs)" "sum_list (map f ys) = sum_list (map f xs)"
proof -
  have s: "sum_list (map g ys) = sum_list (map g xs)" for g :: "'a \<Rightarrow> rat"
    by (simp only: sum_mset_sum_list[symmetric] mset_map assms)
  show "sum_list (map f ys) = sum_list (map f xs)" by (rule s)
  have "(\<Sum>x\<leftarrow>map f ys. \<bar>x\<bar>) = (\<Sum>x\<leftarrow>map f xs. \<bar>x\<bar>)" unfolding map_map by (rule s)
  then show "stored_amounts (map f ys) = stored_amounts (map f xs)"
    using mset_eq_setD[OF assms] by (simp add: stored_amounts_def)
qed

lemma daily_pnl_agrees:
  assumes "stored_amounts (map pnl_or_zero (db_positions d))"
  shows "st_daily_pnl_pct (status_of dry symbols balance now d) = ac_daily_pnl_pct (load_account_state balance w now d)"
proof -
  let ?P = "\<lambda>p. pos_status p = CLOSED \<and> (case pos_closed_at p of None \<Rightarrow> False | Some t \<Rightarrow> date_of t = date_of now)"
  let ?xs = "filter (\<lambda>p. date_of (the (pos_closed_at p)) = date_of now) (closed_desc d)"
  have m: "mset ?xs = mset (filter ?P (db_positions d))"
  proof -
    have "filter ?P (db_positions d) = filter (\<lambda>p. date_of (the (pos_closed_at p)) = date_of now)
        (filter (\<lambda>p. pos_status p = CLOSED \<and> pos_closed_at p \<noteq> None) (db_positions d))"
      unfolding filter_filter by (intro filter_cong refl) (auto split: option.split)
    then show ?thesis by (simp only: closed_desc_def mset_filter mset_sort)
  qed
  have s: "stored_amounts (map pnl_or_zero (filter ?P (db_positions d)))" by (rule stored_amounts_filter[OF assms])
  moreover note stored_perm[OF m, of pnl_or_zero]
  ultimately have "dec_sum (map pnl_or_zero ?xs) = daily_pnl_usdt now d"
    by (simp add: daily_pnl_usdt_def stored_amounts_sum)
  moreover have "(\<lambda>p. case pos_pnl_usdt p of None \<Rightarrow> 0 | Some x \<Rightarrow> x) = pnl_or_zero"
    by (simp add: fun_eq_iff pnl_or_zero_def split: option.split)
  ultimately show ?thesis
    by (simp add: status_of_def load_account_state_def Let_def split: prod.split)
qed


text \<open>
  The filter of a cohort, as a query: the statistics the operator reads under it are those the expectancy
  gate decides on.
\<close>

definition cohort_filter :: "string \<Rightarrow> int \<times> int \<Rightarrow> trade_filter" where
  "cohort_filter regime bounds =
     \<lparr>tf_symbol = None, tf_regime = Some regime, tf_score_min = Some (fst bounds), tf_score_max = Some (snd bounds),
      tf_since = None, tf_until = None\<rparr>"

lemma get_performance_report:
  "fst (get_performance ex f now w) = Inr m \<Longrightarrow>
     \<exists>anchor. sm_report m = summarize (load_closed_trade_metrics f (w_db w)) anchor"
  by (auto simp: get_performance_def Let_def split: if_splits prod.splits sum.splits)

text \<open>What a snapshot of the balance must spell out to be read.\<close>

lemma parse_balance_snapshot_Inr:
  assumes "parse_balance_snapshot j = Inr balance"
  obtains kvs where "j = JObj kvs"
    "map_of kvs ''equity_usdt'' = Some (JNum (bal_equity_usdt balance))"
    "map_of kvs ''free_balance_usdt'' = Some (JNum (bal_free_balance_usdt balance))"
    "map_of kvs ''captured_at'' = Some (JInt (bal_captured_at balance))"
proof (cases j)
  case (JObj kvs)
  with assms show thesis
    by (intro that[of kvs])
       (auto simp: parse_balance_snapshot_def make_balance_snapshot_def split: option.splits json.splits if_splits)
qed (use assms in \<open>simp_all add: parse_balance_snapshot_def\<close>)

lemma fresh_balance_Some:
  assumes "fresh_balance now raw = Some balance"
  obtains j where "raw = R_VALUE j" "parse_balance_snapshot j = Inr balance"
    "is_fresh balance now ACCOUNT_BALANCE_SNAPSHOT_TTL_SECONDS"
  using assms by (auto simp: fresh_balance_def split: redis_reply.splits sum.splits if_splits)

text \<open>
  C29. The operator sees what the gates read: when the database holds amounts it can represent, \<open>GET /status\<close>
  reports the equity and the free balance spelled out by the snapshot that Redis holds, which is fresh, and
  the daily loss of the account state the risk engine would build from that balance at that time and the
  switch its gate reads.  The number of open positions it reports is that of the OPEN rows: at least the
  number of distinct symbols that the gate on open positions counts, and the same unless a symbol is open
  twice.  \<open>GET /performance\<close> for the cohort of a setup reports the expectancy and the sample size the
  expectancy gate uses.
\<close>

theorem operator_sees_the_gates:
  assumes "stored_amounts (map pnl_or_zero (db_positions (w_db w)))"
  shows "(fst (get_status ex env symbols now w) = Inr st \<longrightarrow>
       (\<exists>kvs balance. ex_redis ex (w_redis w) now (R_GET K_account_balance) = R_VALUE (JObj kvs) \<and>
          map_of kvs ''equity_usdt'' = Some (JNum (st_equity_usdt st)) \<and>
          map_of kvs ''free_balance_usdt'' = Some (JNum (st_free_balance_usdt st)) \<and>
          map_of kvs ''captured_at'' = Some (JInt (bal_captured_at balance)) \<and>
          is_fresh balance now ACCOUNT_BALANCE_SNAPSHOT_TTL_SECONDS \<and>
          (let a = load_account_state balance window now (w_db w) in
             st_equity_usdt st = ac_equity_usdt a \<and> st_free_balance_usdt st = ac_free_balance_usdt a \<and>
             st_daily_pnl_pct st = ac_daily_pnl_pct a \<and>
             st_open_positions st = length (open_positions (w_db w)) \<and>
             card (ac_open_position_symbols a) \<le> st_open_positions st \<and>
             (distinct (map pos_symbol (open_positions (w_db w))) \<longrightarrow>
                st_open_positions st = card (ac_open_position_symbols a))) \<and>
          st_killswitch_enabled st = is_enabled (w_db w))) \<and>
    (fst (get_performance ex (cohort_filter regime bounds) now w) = Inr m \<and>
       score_bucket_bounds (Some score) = Some bounds \<longrightarrow>
       (let v = load_expectancy_state (Some regime) (Some score) (w_db w) in
          pr_expectancy_r (sm_report m) = ev_expectancy_r v \<and> pr_trades_with_r (sm_report m) = ev_sample_size v))"
proof (intro conjI impI)
  assume "fst (get_status ex env symbols now w) = Inr st"
  then obtain dry balance where b: "fresh_balance now (ex_redis ex (w_redis w) now (R_GET K_account_balance)) = Some balance"
    "st = status_of dry symbols balance now (w_db w)"
    by (auto simp: get_status_def redis_query_def Let_def split: sum.splits option.splits if_splits)
  from b(1) obtain j where j: "ex_redis ex (w_redis w) now (R_GET K_account_balance) = R_VALUE j"
    "parse_balance_snapshot j = Inr balance" "is_fresh balance now ACCOUNT_BALANCE_SNAPSHOT_TTL_SECONDS"
    by (rule fresh_balance_Some)
  from j(2) obtain kvs where kvs: "j = JObj kvs"
    "map_of kvs ''equity_usdt'' = Some (JNum (bal_equity_usdt balance))"
    "map_of kvs ''free_balance_usdt'' = Some (JNum (bal_free_balance_usdt balance))"
    "map_of kvs ''captured_at'' = Some (JInt (bal_captured_at balance))"
    by (rule parse_balance_snapshot_Inr)
  define a where "a = load_account_state balance window now (w_db w)"
  have st: "st_equity_usdt st = bal_equity_usdt balance" "st_free_balance_usdt st = bal_free_balance_usdt balance"
    "st_open_positions st = length (open_positions (w_db w))" "st_killswitch_enabled st = is_enabled (w_db w)"
    unfolding b(2) by (simp_all add: status_of_def open_positions_def Let_def)
  have acc: "ac_equity_usdt a = bal_equity_usdt balance" "ac_free_balance_usdt a = bal_free_balance_usdt balance"
    "ac_open_position_symbols a = pos_symbol ` set (open_positions (w_db w))"
    by (simp_all add: a_def load_account_state_sel)
  have "card (ac_open_position_symbols a) \<le> length (open_positions (w_db w))"
    unfolding acc(3) by (rule order_trans[OF card_image_le card_length]) simp
  moreover have "length (open_positions (w_db w)) = card (ac_open_position_symbols a)"
    if "distinct (map pos_symbol (open_positions (w_db w)))"
    using distinct_card[OF that] by (simp add: acc(3))
  moreover have "st_daily_pnl_pct st = ac_daily_pnl_pct a"
    unfolding b(2) a_def by (rule daily_pnl_agrees[OF assms])
  ultimately show "\<exists>kvs balance. ex_redis ex (w_redis w) now (R_GET K_account_balance) = R_VALUE (JObj kvs) \<and>
          map_of kvs ''equity_usdt'' = Some (JNum (st_equity_usdt st)) \<and>
          map_of kvs ''free_balance_usdt'' = Some (JNum (st_free_balance_usdt st)) \<and>
          map_of kvs ''captured_at'' = Some (JInt (bal_captured_at balance)) \<and>
          is_fresh balance now ACCOUNT_BALANCE_SNAPSHOT_TTL_SECONDS \<and>
          (let a = load_account_state balance window now (w_db w) in
             st_equity_usdt st = ac_equity_usdt a \<and> st_free_balance_usdt st = ac_free_balance_usdt a \<and>
             st_daily_pnl_pct st = ac_daily_pnl_pct a \<and>
             st_open_positions st = length (open_positions (w_db w)) \<and>
             card (ac_open_position_symbols a) \<le> st_open_positions st \<and>
             (distinct (map pos_symbol (open_positions (w_db w))) \<longrightarrow>
                st_open_positions st = card (ac_open_position_symbols a))) \<and>
          st_killswitch_enabled st = is_enabled (w_db w)"
    using j(1,3) kvs st acc(1,2) unfolding Let_def a_def
    by (intro exI[of _ kvs] exI[of _ balance]) simp
next
  assume p: "fst (get_performance ex (cohort_filter regime bounds) now w) = Inr m \<and>
    score_bucket_bounds (Some score) = Some bounds"
  from get_performance_report[OF p[THEN conjunct1]] obtain anchor where
    m: "sm_report m = summarize (load_closed_trade_metrics (cohort_filter regime bounds) (w_db w)) anchor" by blast
  show "let v = load_expectancy_state (Some regime) (Some score) (w_db w) in
          pr_expectancy_r (sm_report m) = ev_expectancy_r v \<and> pr_trades_with_r (sm_report m) = ev_sample_size v"
    using p[THEN conjunct2]
    by (cases bounds) (simp add: m load_expectancy_state_def build_expectancy_view_def cohort_filter_def Let_def)
qed

text \<open>A manual trigger runs the cycle of the scheduler, for a configured symbol only.\<close>

lemma trigger_cycle_is_run_cycle:
  fixes symbol :: string
  defines "s \<equiv> upper (map (\<lambda>c. if c = CHR ''-'' then CHR ''/'' else c) symbol)"
  shows "snd (trigger_cycle ex sc symbols symbol ok tr now w) =
    (if s \<in> set symbols then snd (run_cycle ex sc s ok tr now w) else w)"
  by (auto simp: trigger_cycle_def s_def Let_def split: prod.splits sum.splits)

text \<open>A fresh balance behind an empty ledger.\<close>

definition fresh_snapshot :: externals where
  "fresh_snapshot =
     \<lparr>ex_redis = (\<lambda>h now cmd. R_VALUE (JObj [(''equity_usdt'', JNum 1000), (''free_balance_usdt'', JNum 800),
        (''captured_at'', JInt now)])),
      ex_forceenter = (\<lambda>_ _. HttpError), ex_forceexit = (\<lambda>_ _. HttpError), ex_trade = (\<lambda>_ _. HttpError),
      ex_balance = (\<lambda>_ _. HttpError), ex_exit_retry_attempts = 3\<rparr>"

definition lossy_world :: world where
  "lossy_world =
     (let d = empty_db\<lparr>db_positions :=
        [\<lparr>pos_id = 1, pos_symbol = ''BTC/USDT'', pos_status = CLOSED, pos_entry_order_id = 1, pos_exit_order_id = None,
          pos_entry_price = 100, pos_exit_price = Some 90, pos_amount = 1, pos_pnl_usdt = Some (- 10), pos_pnl_pct = None,
          pos_opened_at = 1, pos_closed_at = Some 5, pos_exit_reason = None, pos_fees_usdt = None,
          pos_fees_estimated = False, pos_r_multiple = Some (- 1), pos_market_regime = Some ''TREND_UP'',
          pos_trade_score = Some 65, pos_volatility_regime = None\<rparr>]\<rparr>
      in \<lparr>w_db = d, w_saved = d, w_redis = [], w_ft = []\<rparr>)"

theorem operator_sees_the_gates_witness:
  "\<exists>st m. fst (get_status fresh_snapshot RiskConfig_defaults [''BTC/USDT''] 7 lossy_world) = Inr st \<and>
     st_equity_usdt st = 1000 \<and> st_free_balance_usdt st = 800 \<and> st_open_positions st = 0 \<and>
     st_daily_pnl_pct st = ac_daily_pnl_pct (load_account_state
       \<lparr>bal_equity_usdt = 1000, bal_free_balance_usdt = 800, bal_captured_at = 7\<rparr> 0 7 (w_db lossy_world)) \<and>
     fst (get_performance fresh_snapshot (cohort_filter ''TREND_UP'' (40, 69)) 7 lossy_world) = Inr m \<and>
     ev_sample_size (load_expectancy_state (Some ''TREND_UP'') (Some 65) (w_db lossy_world)) = pr_trades_with_r (sm_report m)"
proof -
  let ?d = "w_db lossy_world"
  have stored: "stored_amounts (map pnl_or_zero (db_positions ?d))"
    by (simp add: lossy_world_def Let_def stored_amounts_def pnl_or_zero_def on_grid_def)
  have cfg: "load_effective_risk_config RiskConfig_defaults ?d = load_effective_risk_config RiskConfig_defaults empty_db"
    by (simp add: load_effective_risk_config_def lossy_world_def Let_def)
  have "load_effective_risk_config RiskConfig_defaults empty_db = Inr RiskConfig_defaults" by code_simp
  note cfg = cfg[unfolded this]
  let ?b = "\<lparr>bal_equity_usdt = 1000, bal_free_balance_usdt = 800, bal_captured_at = 7\<rparr>"
  obtain w' where raw: "redis_query fresh_snapshot 7 (R_GET K_account_balance) lossy_world =
      (Inr (R_VALUE (JObj [(''equity_usdt'', JNum 1000), (''free_balance_usdt'', JNum 800), (''captured_at'', JInt 7)])), w')"
    and db: "w_db w' = ?d"
    by (simp add: redis_query_def fresh_snapshot_def Let_def)
  have fresh: "fresh_balance 7 (R_VALUE (JObj [(''equity_usdt'', JNum 1000), (''free_balance_usdt'', JNum 800),
      (''captured_at'', JInt 7)])) = Some ?b"
    by (simp add: fresh_balance_def parse_balance_snapshot_def make_balance_snapshot_def is_fresh_def total_seconds_def
        ACCOUNT_BALANCE_SNAPSHOT_TTL_SECONDS_def)
  have st: "fst (get_status fresh_snapshot RiskConfig_defaults [''BTC/USDT''] 7 lossy_world) =
      Inr (status_of (dry_run RiskConfig_defaults) [''BTC/USDT''] ?b 7 ?d)"
    by (simp only: get_status_def cfg sum.case raw prod.case fresh option.case db fst_conv)
  have "\<exists>m. fst (get_performance fresh_snapshot (cohort_filter ''TREND_UP'' (40, 69)) 7 lossy_world) = Inr m"
    by (simp add: get_performance_def cohort_filter_def Let_def resolve_equity_anchor_def raw)
  then obtain m where m: "fst (get_performance fresh_snapshot (cohort_filter ''TREND_UP'' (40, 69)) 7 lossy_world) = Inr m"
    by blast
  have "score_bucket_bounds (Some 65) = Some (40, 69)" by (simp add: score_bucket_bounds_def SCORE_BUCKETS_def)
  note see = operator_sees_the_gates[OF stored, of fresh_snapshot RiskConfig_defaults "[''BTC/USDT'']" 7
      "status_of (dry_run RiskConfig_defaults) [''BTC/USDT''] ?b 7 ?d" 0 "''TREND_UP''" "(40, 69)" m 65]
  from see m \<open>score_bucket_bounds (Some 65) = Some (40, 69)\<close>
  have "ev_sample_size (load_expectancy_state (Some ''TREND_UP'') (Some 65) ?d) = pr_trades_with_r (sm_report m)"
    by (simp add: Let_def)
  moreover from see st obtain balance kvs where
    kvs: "ex_redis fresh_snapshot (w_redis lossy_world) 7 (R_GET K_account_balance) = R_VALUE (JObj kvs)"
    "map_of kvs ''equity_usdt'' = Some (JNum (st_equity_usdt (status_of (dry_run RiskConfig_defaults) [''BTC/USDT''] ?b 7 ?d)))"
    "map_of kvs ''free_balance_usdt'' = Some (JNum (st_free_balance_usdt (status_of (dry_run RiskConfig_defaults) [''BTC/USDT''] ?b 7 ?d)))"
    "st_open_positions (status_of (dry_run RiskConfig_defaults) [''BTC/USDT''] ?b 7 ?d) = length (open_positions ?d)"
    by (auto simp: Let_def)
  have "st_equity_usdt (status_of (dry_run RiskConfig_defaults) [''BTC/USDT''] ?b 7 ?d) = 1000"
    "st_free_balance_usdt (status_of (dry_run RiskConfig_defaults) [''BTC/USDT''] ?b 7 ?d) = 800"
    using kvs(1-3) by (auto simp: fresh_snapshot_def)
  moreover have "st_open_positions (status_of (dry_run RiskConfig_defaults) [''BTC/USDT''] ?b 7 ?d) = 0"
    using kvs(4) by (simp add: open_positions_def lossy_world_def Let_def)
  moreover have "st_daily_pnl_pct (status_of (dry_run RiskConfig_defaults) [''BTC/USDT''] ?b 7 ?d) =
      ac_daily_pnl_pct (load_account_state ?b 0 7 ?d)" by (rule daily_pnl_agrees[OF stored])
  ultimately show ?thesis using st m by blast
qed

end
