(* ===== verification/Publication.thy ===== *)
theory Publication
  imports Reports Scheduler "HOL-Library.AList" "HOL-Library.List_Lexorder" "HOL-Library.Char_ord" "HOL-Library.Sublist"
begin

text \<open>
  The weekly reports of the notifier and where they go: \<open>private_report.py\<close>, the assessment of
  \<open>public_report.py\<close>, the two Git publishers \<open>private_report_client.py\<close> and \<open>wiki_client.py\<close>, the turn of
  \<open>archive_worker.py\<close> that uses them, \<open>email_client.py\<close> and the weekly mail of \<open>main.py\<close>.  A page is the report
  it is rendered from.  GitHub, Git and the mail host are parameters, functions of what was done so far;
  the log of what was done has the newest entry first.  Times are UTC.
\<close>

section \<open>The private report\<close>

record PrivateTrade =
  pt_symbol :: string
  pt_closed_at :: datetime
  pt_pnl_usdt :: "rat option"
  pt_pnl_pct :: "rat option"
  pt_entry_price :: rat
  pt_exit_price :: "rat option"
  pt_dry_run :: bool

record AccountSnapshot =
  as_equity_usdt :: rat
  as_open_positions :: int
  as_killswitch_enabled :: bool
  as_dry_run :: bool

record PrivateWeeklyReport =
  pw_summary :: PublicWeeklyReport
  pw_trades :: "PrivateTrade list"
  pw_observed_at :: datetime
  pw_account :: "AccountSnapshot option"
  pw_equity_history :: "EquityPoint list"

definition upper_or_digit :: "char \<Rightarrow> bool" where
  "upper_or_digit c = (let n = (of_char c :: nat) in (65 \<le> n \<and> n \<le> 90) \<or> (48 \<le> n \<and> n \<le> 57))"

text \<open>The pattern \<open>^[A-Z0-9]+/[A-Z0-9]+$\<close> of a symbol.\<close>

definition symbol_ok :: "string \<Rightarrow> bool" where
  "symbol_ok s =
     (case dropWhile upper_or_digit s of
        c # quote \<Rightarrow> c = CHR ''/'' \<and> takeWhile upper_or_digit s \<noteq> [] \<and> quote \<noteq> [] \<and> list_all upper_or_digit quote
      | [] \<Rightarrow> False)"

definition private_trade :: "position \<Rightarrow> order \<Rightarrow> py_error + PrivateTrade" where
  "private_trade p r =
     (case pos_closed_at p of
        Some t \<Rightarrow>
          if symbol_ok (pos_symbol p)
          then Inr \<lparr>pt_symbol = pos_symbol p, pt_closed_at = t, pt_pnl_usdt = pos_pnl_usdt p, pt_pnl_pct = pos_pnl_pct p,
                    pt_entry_price = pos_entry_price p, pt_exit_price = pos_exit_price p, pt_dry_run = ord_dry_run r\<rparr>
          else Inl ValidationError
      | None \<Rightarrow> Inl ValidationError)"

fun all_valid :: "(py_error + 'a) list \<Rightarrow> py_error + 'a list" where
  "all_valid [] = Inr []"
| "all_valid (x # xs) = bind_res x (\<lambda>a. bind_res (all_valid xs) (\<lambda>as. Inr (a # as)))"

text \<open>The join of the closed positions of a week with their entry orders.\<close>

definition private_trades :: "db \<Rightarrow> datetime \<Rightarrow> py_error + PrivateTrade list" where
  "private_trades d window_end =
     all_valid (concat (map (\<lambda>p. case get_order d (pos_entry_order_id p) of None \<Rightarrow> [] | Some r \<Rightarrow> [private_trade p r])
       (sort_key (\<lambda>p. the (pos_closed_at p)) (sort_key pos_id
          (closed_positions_since d (window_end - 7 * day) window_end)))))"

text \<open>The journal of the performance snapshots: when each was taken, and the equity it started from.\<close>

definition equity_samples :: "(datetime \<times> rat option) list \<Rightarrow> datetime \<Rightarrow> py_error + EquityPoint list" where
  "equity_samples snapshots window_end =
     all_valid (map (\<lambda>(t, equity).
         if (case equity of Some e \<Rightarrow> e < 0 | None \<Rightarrow> False) then Inl ValidationError
         else Inr \<lparr>eq_period_end = t, eq_observed_at = Some t, eq_equity_usdt = equity\<rparr>)
       (sort_key fst (filter (\<lambda>(t, _). window_end - 84 * day < t \<and> t \<le> window_end) snapshots)))"

text \<open>The answer of \<open>GET /status\<close>; decimals arrive as texts that denote them.\<close>

definition fetch_account_snapshot :: "json http_reply \<Rightarrow> AccountSnapshot option" where
  "fetch_account_snapshot reply =
     (case reply of
        Body (JObj kvs) \<Rightarrow>
          (case (map_of kvs ''equity_usdt'', map_of kvs ''open_positions'',
                 map_of kvs ''killswitch_enabled'', map_of kvs ''dry_run'') of
             (Some (JNum e), Some (JInt n), Some (JBool k), Some (JBool dry)) \<Rightarrow>
               if 0 \<le> e \<and> 0 \<le> n
               then Some \<lparr>as_equity_usdt = e, as_open_positions = n, as_killswitch_enabled = k, as_dry_run = dry\<rparr>
               else None
           | _ \<Rightarrow> None)
      | _ \<Rightarrow> None)"

text \<open>\<open>observed\<close> is the clock when the account has been read.\<close>

definition build_private_report ::
    "(rat \<Rightarrow> rat) \<Rightarrow> db \<Rightarrow> (datetime \<times> rat option) list \<Rightarrow> json http_reply \<Rightarrow> datetime \<Rightarrow> datetime \<Rightarrow> datetime
     \<Rightarrow> py_error + PrivateWeeklyReport" where
  "build_private_report avg_numeric d snapshots status now observed window_end =
     bind_res (build_public_report avg_numeric d now window_end) (\<lambda>summary.
     bind_res (private_trades d window_end) (\<lambda>trades.
     bind_res (equity_samples snapshots window_end) (\<lambda>samples.
       Inr \<lparr>pw_summary = summary, pw_trades = trades, pw_observed_at = observed,
            pw_account = fetch_account_snapshot status,
            pw_equity_history = equity_periods samples window_end 12\<rparr>)))"

section \<open>The assessment\<close>

datatype verdict = NoData | Losing | Profitable | Even

datatype trend = Up | Down | Unchanged

datatype check_item = CheckReconciliation | CheckKillswitch | CheckErrors | AnalyseLosses | KeepWatching

record assessment =
  am_verdict :: verdict
  am_result :: "(rat \<times> nat) option"
  am_change :: "(trend \<times> rat \<times> rat \<times> nat) option"
  am_incidents :: "(nat \<times> nat \<times> nat \<times> nat) option"
  am_checks :: "check_item list"

definition render_assessment :: "PublicWeeklyReport \<Rightarrow> assessment" where
  "render_assessment report =
     (let current = wr_current report; previous = wr_previous report; op = wr_operations report;
          pnl = pu_total_pnl_usdt current;
          incidents = op_order_failures op + op_reconciliation_alerts op + op_llm_stall_alerts op
      in \<lparr>am_verdict = (case pnl of None \<Rightarrow> NoData | Some x \<Rightarrow> if x < 0 then Losing else if x > 0 then Profitable else Even),
          am_result = map_option (\<lambda>x. (x, pu_trades current)) pnl,
          am_change =
            (case (pnl, pu_total_pnl_usdt previous) of
               (Some x, Some y) \<Rightarrow>
                 let delta = dec (x - y)
                 in Some (if delta > 0 then Up else if delta < 0 then Down else Unchanged, \<bar>delta\<bar>, y, pu_trades previous)
             | _ \<Rightarrow> None),
          am_incidents =
            (if incidents \<noteq> 0 \<or> op_killswitch_activations op \<noteq> 0
             then Some (op_order_failures op, op_reconciliation_alerts op, op_llm_stall_alerts op, op_killswitch_activations op)
             else None),
          am_checks =
            (if op_reconciliation_alerts op \<noteq> 0 then [CheckReconciliation] else []) @
            (if op_killswitch_activations op \<noteq> 0 then [CheckKillswitch] else []) @
            (if op_order_failures op \<noteq> 0 \<or> op_llm_stall_alerts op \<noteq> 0 then [CheckErrors] else []) @
            (case pnl of Some x \<Rightarrow> if x < 0 then [AnalyseLosses] else [KeepWatching] | None \<Rightarrow> [KeepWatching])\<rparr>)"

text \<open>The column of one period in the table of the public page.\<close>

record public_column =
  pc_trades :: nat
  pc_wins :: nat
  pc_losses :: nat
  pc_draws :: int
  pc_missing :: int
  pc_win_rate :: "rat option"
  pc_mean_return :: "rat option"
  pc_return_samples :: nat
  pc_total_pnl :: "rat option"

definition win_rate_of :: "PublicStats \<Rightarrow> rat option" where
  "win_rate_of stats =
     (if pu_recorded_pnl stats = 0 then None else Some (dec (of_nat (pu_wins stats) / of_nat (pu_recorded_pnl stats))))"

definition public_column_of :: "PublicStats \<Rightarrow> public_column" where
  "public_column_of a =
     \<lparr>pc_trades = pu_trades a, pc_wins = pu_wins a, pc_losses = pu_losses a,
      pc_draws = int (pu_recorded_pnl a) - int (pu_wins a) - int (pu_losses a),
      pc_missing = int (pu_trades a) - int (pu_recorded_pnl a),
      pc_win_rate = win_rate_of a, pc_mean_return = pu_mean_trade_return a,
      pc_return_samples = pu_return_samples a, pc_total_pnl = pu_total_pnl_usdt a\<rparr>"

text \<open>The analysis of gains and losses on the private page.\<close>

record pnl_analysis =
  pa_gain :: rat
  pa_loss :: rat
  pa_mean_win :: "rat option"
  pa_mean_loss :: "rat option"
  pa_profit_factor :: "rat option"
  pa_losses_outweigh :: bool

definition analyse_trades :: "PrivateTrade list \<Rightarrow> pnl_analysis" where
  "analyse_trades trades =
     (let pnl = List.map_filter pt_pnl_usdt trades;
          wins = filter (\<lambda>v. v > 0) pnl; losses = filter (\<lambda>v. v < 0) pnl;
          gain = dec_sum wins; loss = - dec_sum losses
      in \<lparr>pa_gain = gain, pa_loss = loss,
          pa_mean_win = (if wins = [] then None else Some (dec (gain / of_nat (length wins)))),
          pa_mean_loss = (if losses = [] then None else Some (dec (loss / of_nat (length losses)))),
          pa_profit_factor = (if loss = 0 then None else Some (dec (gain / loss))),
          pa_losses_outweigh = (gain < loss)\<rparr>)"

section \<open>The repository\<close>

definition PRIVATE_MARKER :: string where
  "PRIVATE_MARKER = ''<!-- trademind-private-report-v1 -->''"

definition PUBLIC_MARKER :: string where
  "PUBLIC_MARKER = ''<!-- trademind-public-report-v1 -->''"

definition is_digit :: "char \<Rightarrow> bool" where
  "is_digit c = (let n = (of_char c :: nat) in 48 \<le> n \<and> n \<le> 57)"

text \<open>\<open>Weekly-%Y-%m-%d-%H%M%S\<close>, for years of four digits.\<close>

definition page_name :: "PublicWeeklyReport \<Rightarrow> string" where
  "page_name report =
     (let secs = wr_window_end report div 1000000; sod = secs mod 86400
      in case civil (secs div 86400) of (y, m, d) \<Rightarrow>
         ''Weekly-'' @ decimal_digits 4 y @ ''-'' @ decimal_digits 2 m @ ''-'' @ decimal_digits 2 d @ ''-'' @
         decimal_digits 2 (sod div 3600) @ decimal_digits 2 (sod div 60 mod 60) @ decimal_digits 2 (sod mod 60))"

text \<open>
  The pattern \<open>Weekly-\d{4}-\d{2}-\d{2}-\d{6}\.md\<close> of a page.  Names are texts of 8-bit characters, so a
  digit is an ASCII digit here, while the pattern would also take other digits of Unicode.
\<close>

definition PAGE :: "char option list" where
  "PAGE = map Some ''Weekly-'' @ replicate 4 None @ [Some (CHR ''-'')] @ replicate 2 None @ [Some (CHR ''-'')] @
     replicate 2 None @ [Some (CHR ''-'')] @ replicate 6 None @ map Some ''.md''"

definition is_page :: "string \<Rightarrow> bool" where
  "is_page name = list_all2 (\<lambda>p c. case p of Some x \<Rightarrow> c = x | None \<Rightarrow> is_digit c) PAGE name"

text \<open>What a file holds: what the publishers write, or any other text or image.\<close>

datatype document =
    PrivatePage PrivateWeeklyReport
  | PublicPage PublicWeeklyReport
  | Charts PublicWeeklyReport
  | EquityChart PrivateWeeklyReport
  | PrivateIndex "string list"
  | PublicIndex "string list"
  | Foreign string

datatype node = Symlink | Directory | File document

type_synonym tree = "(string \<times> node) list"

definition private_marked :: "document \<Rightarrow> bool" where
  "private_marked doc =
     (case doc of PrivatePage _ \<Rightarrow> True | PrivateIndex _ \<Rightarrow> True | Foreign s \<Rightarrow> prefix PRIVATE_MARKER s | _ \<Rightarrow> False)"

definition public_marked :: "document \<Rightarrow> bool" where
  "public_marked doc =
     (case doc of PublicPage _ \<Rightarrow> True | PublicIndex _ \<Rightarrow> True | Foreign s \<Rightarrow> prefix PUBLIC_MARKER s | _ \<Rightarrow> False)"

datatype publish_error = HTTPFailure | OSFailure | Refusal | GitFailure

datatype repository_reply = NoMetadata | Unreadable | Metadata string bool string

datatype git_command = GitAdd | GitDiff | GitCommit

datatype net_event =
    Asked string repository_reply
  | Cloned string "tree option"
  | Pushed string tree bool

text \<open>
  The outside: the answer for a repository, the clone of a URL, whether a local command succeeds, whether
  the index differs from the head, whether a push is accepted, and the \<open>Software\<close> entry of an image file.
\<close>

record remote =
  rm_metadata :: "net_event list \<Rightarrow> string \<Rightarrow> repository_reply"
  rm_clone :: "net_event list \<Rightarrow> string \<Rightarrow> tree option"
  rm_local :: "net_event list \<Rightarrow> git_command \<Rightarrow> bool"
  rm_differs :: "tree \<Rightarrow> tree \<Rightarrow> bool"
  rm_accepts :: "net_event list \<Rightarrow> string \<Rightarrow> tree \<Rightarrow> bool"
  rm_image :: "string \<Rightarrow> string option"

definition lower_char :: "char \<Rightarrow> char" where
  "lower_char c = (if 65 \<le> (of_char c :: nat) \<and> (of_char c :: nat) \<le> 90 then char_of ((of_char c :: nat) + 32) else c)"

definition casefold :: "string \<Rightarrow> string" where
  "casefold s = map lower_char s"

text \<open>Writing to a path that is a directory fails.\<close>

definition write_file :: "string \<Rightarrow> document \<Rightarrow> tree \<Rightarrow> publish_error + tree" where
  "write_file name doc t =
     (if map_of t name = Some Directory then Inl OSFailure else Inr (AList.update name (File doc) t))"

definition then_try :: "publish_error + 'a \<Rightarrow> ('a \<Rightarrow> publish_error + 'b) \<Rightarrow> publish_error + 'b" where
  "then_try r f = (case r of Inl e \<Rightarrow> Inl e | Inr a \<Rightarrow> f a)"

section \<open>The private repository\<close>

text \<open>\<open>casefold\<close> is that of ASCII letters, which is all that GitHub allows in a name.\<close>

definition private_metadata :: "string \<Rightarrow> repository_reply \<Rightarrow> bool" where
  "private_metadata repo reply =
     (case reply of
        Metadata full_name is_private visibility \<Rightarrow>
          is_private \<and> visibility = ''private'' \<and> casefold full_name = casefold repo
      | _ \<Rightarrow> False)"

definition verify_private :: "remote \<Rightarrow> string \<Rightarrow> net_event list \<Rightarrow> (publish_error + unit) \<times> net_event list" where
  "verify_private rm repo lg =
     (let reply = rm_metadata rm lg repo; lg = Asked repo reply # lg
      in case reply of
           NoMetadata \<Rightarrow> (Inl HTTPFailure, lg)
         | Unreadable \<Rightarrow> (Inl Refusal, lg)
         | Metadata _ _ _ \<Rightarrow> (if private_metadata repo reply then Inr () else Inl Refusal, lg))"

text \<open>A page that would be overwritten has to be one of this publisher; the images are not looked into.\<close>

definition may_replace :: "tree \<Rightarrow> string \<Rightarrow> bool" where
  "may_replace t name =
     (case map_of t name of
        None \<Rightarrow> True
      | Some Symlink \<Rightarrow> False
      | Some Directory \<Rightarrow> \<not> suffix ''.md'' name
      | Some (File doc) \<Rightarrow> suffix ''.md'' name \<longrightarrow> private_marked doc)"

text \<open>The pages of a checkout, the latest first.\<close>

definition pages_of :: "tree \<Rightarrow> string list" where
  "pages_of t = rev (sort (map fst (filter (\<lambda>(name, n). is_page name \<and> (case n of File _ \<Rightarrow> True | _ \<Rightarrow> False)) t)))"

definition private_names :: "PrivateWeeklyReport \<Rightarrow> string list" where
  "private_names report =
     (let page = page_name (pw_summary report)
      in [page @ ''.md'', page @ ''-charts.png'', page @ ''-equity.png'', ''REPORTS.md''])"

definition private_tree :: "PrivateWeeklyReport \<Rightarrow> tree \<Rightarrow> publish_error + tree" where
  "private_tree report t =
     (let page = page_name (pw_summary report)
      in if \<not> list_all (may_replace t) (private_names report) then Inl Refusal
         else then_try (write_file (page @ ''.md'') (PrivatePage report) t) (\<lambda>t.
              then_try (write_file (page @ ''-charts.png'') (Charts (pw_summary report)) t) (\<lambda>t.
              then_try (write_file (page @ ''-equity.png'') (EquityChart report) t) (\<lambda>t.
                write_file ''REPORTS.md'' (PrivateIndex (pages_of t)) t))))"

text \<open>The rest of a publication, once the tree is written: \<open>check\<close> runs before the push.\<close>

definition commit_and_push ::
    "remote \<Rightarrow> (net_event list \<Rightarrow> (publish_error + unit) \<times> net_event list) \<Rightarrow> string \<Rightarrow> tree \<Rightarrow> tree
     \<Rightarrow> net_event list \<Rightarrow> (publish_error + unit) \<times> net_event list" where
  "commit_and_push rm check repo old new lg =
     (if \<not> rm_local rm lg GitAdd \<or> \<not> rm_local rm lg GitDiff then (Inl GitFailure, lg)
      else if \<not> rm_differs rm old new then (Inr (), lg)
      else if \<not> rm_local rm lg GitCommit then (Inl GitFailure, lg)
      else case check lg of
             (Inl e, lg) \<Rightarrow> (Inl e, lg)
           | (Inr _, lg) \<Rightarrow>
               let ok = rm_accepts rm lg repo new
               in (if ok then Inr () else Inl GitFailure, Pushed repo new ok # lg))"

definition private_publish_sync ::
    "remote \<Rightarrow> string \<Rightarrow> PrivateWeeklyReport \<Rightarrow> net_event list \<Rightarrow> (publish_error + unit) \<times> net_event list" where
  "private_publish_sync rm repo report lg =
     (case verify_private rm repo lg of
        (Inl e, lg) \<Rightarrow> (Inl e, lg)
      | (Inr _, lg) \<Rightarrow>
          let c = rm_clone rm lg repo; lg = Cloned repo c # lg
          in case c of
               None \<Rightarrow> (Inl GitFailure, lg)
             | Some old \<Rightarrow>
                 (case private_tree report old of
                    Inl e \<Rightarrow> (Inl e, lg)
                  | Inr new \<Rightarrow> commit_and_push rm (verify_private rm repo) repo old new lg))"

text \<open>Every failure of an attempt is caught; \<open>n\<close> attempts are left.\<close>

fun publish_attempts ::
    "nat \<Rightarrow> (net_event list \<Rightarrow> (publish_error + unit) \<times> net_event list) \<Rightarrow> net_event list \<Rightarrow> bool \<times> net_event list" where
  "publish_attempts 0 once lg = (False, lg)"
| "publish_attempts (Suc n) once lg =
     (case once lg of (Inr _, lg) \<Rightarrow> (True, lg) | (Inl _, lg) \<Rightarrow> publish_attempts n once lg)"

definition private_publish ::
    "remote \<Rightarrow> string \<Rightarrow> string \<Rightarrow> PrivateWeeklyReport \<Rightarrow> net_event list \<Rightarrow> bool \<times> net_event list" where
  "private_publish rm repo token report lg =
     (if repo = [] \<or> token = [] then (False, lg) else publish_attempts 3 (private_publish_sync rm repo report) lg)"

section \<open>The wiki\<close>

definition write_owned :: "string \<Rightarrow> document \<Rightarrow> tree \<Rightarrow> publish_error + tree" where
  "write_owned name doc t =
     (case map_of t name of
        None \<Rightarrow> Inr (AList.update name (File doc) t)
      | Some (File old) \<Rightarrow> if public_marked old then Inr (AList.update name (File doc) t) else Inl Refusal
      | Some Symlink \<Rightarrow> Inl Refusal
      | Some Directory \<Rightarrow> Inl OSFailure)"

definition CHART_OWNER :: string where
  "CHART_OWNER = ''TradeMind public reports''"

definition chart_owned :: "remote \<Rightarrow> document \<Rightarrow> bool" where
  "chart_owned rm doc =
     (case doc of Charts _ \<Rightarrow> True | EquityChart _ \<Rightarrow> True | Foreign s \<Rightarrow> rm_image rm s = Some CHART_OWNER | _ \<Rightarrow> False)"

definition write_chart :: "remote \<Rightarrow> string \<Rightarrow> document \<Rightarrow> tree \<Rightarrow> publish_error + tree" where
  "write_chart rm name doc t =
     (case map_of t name of
        None \<Rightarrow> Inr (AList.update name (File doc) t)
      | Some (File old) \<Rightarrow> if chart_owned rm old then Inr (AList.update name (File doc) t) else Inl Refusal
      | Some Symlink \<Rightarrow> Inl Refusal
      | Some Directory \<Rightarrow> Inl OSFailure)"

text \<open>The names of the owned pages, without their suffix, the latest first.\<close>

definition owned_pages :: "tree \<Rightarrow> string list" where
  "owned_pages t =
     rev (sort (map (\<lambda>(name, _). take (length name - 3) name)
       (filter (\<lambda>(name, n). is_page name \<and> (case n of File doc \<Rightarrow> public_marked doc | _ \<Rightarrow> False)) t)))"

definition wiki_tree :: "remote \<Rightarrow> PublicWeeklyReport \<Rightarrow> tree \<Rightarrow> publish_error + tree" where
  "wiki_tree rm report t =
     (let page = page_name report
      in then_try (write_owned (page @ ''.md'') (PublicPage report) t) (\<lambda>t.
         then_try (write_chart rm (page @ ''-charts.png'') (Charts report) t) (\<lambda>t.
           write_owned ''Operations-Reports.md'' (PublicIndex (owned_pages t)) t)))"

definition wiki_publish_sync ::
    "remote \<Rightarrow> string \<Rightarrow> PublicWeeklyReport \<Rightarrow> net_event list \<Rightarrow> (publish_error + unit) \<times> net_event list" where
  "wiki_publish_sync rm repo report lg =
     (let url = repo @ ''.wiki''; c = rm_clone rm lg url; lg = Cloned url c # lg
      in case c of
           None \<Rightarrow> (Inl GitFailure, lg)
         | Some old \<Rightarrow>
             (case wiki_tree rm report old of
                Inl e \<Rightarrow> (Inl e, lg)
              | Inr new \<Rightarrow> commit_and_push rm (\<lambda>lg. (Inr (), lg)) url old new lg))"

definition wiki_publish ::
    "remote \<Rightarrow> string \<Rightarrow> string \<Rightarrow> PublicWeeklyReport \<Rightarrow> net_event list \<Rightarrow> bool \<times> net_event list" where
  "wiki_publish rm repo token report lg =
     (if repo = [] \<or> token = [] then (False, lg) else publish_attempts 3 (wiki_publish_sync rm repo report) lg)"

section \<open>The archive worker\<close>

text \<open>What one turn of the worker finds: the tables, the snapshots, the answer of \<open>GET /status\<close> and the clock.\<close>

record archive_input =
  ai_db :: db
  ai_snapshots :: "(datetime \<times> rat option) list"
  ai_status :: "json http_reply"
  ai_now :: datetime
  ai_observed :: datetime

record archive_settings =
  av_repository :: string
  av_token :: string
  av_weekday :: int
  av_hour :: int
  av_average :: "rat \<Rightarrow> rat"

definition publish_private_week ::
    "remote \<Rightarrow> archive_settings \<Rightarrow> archive_input \<Rightarrow> datetime \<Rightarrow> net_event list \<Rightarrow> bool \<times> net_event list" where
  "publish_private_week rm st i end_time lg =
     (case build_private_report (av_average st) (ai_db i) (ai_snapshots i) (ai_status i) (ai_now i) (ai_observed i) end_time of
        Inl _ \<Rightarrow> (False, lg)
      | Inr report \<Rightarrow> private_publish rm (av_repository st) (av_token st) report lg)"

text \<open>A turn of \<open>archive_loop\<close> with the mark of the last week done.\<close>

definition archive_step ::
    "remote \<Rightarrow> archive_settings \<Rightarrow> datetime option \<times> net_event list \<Rightarrow> archive_input \<Rightarrow> datetime option \<times> net_event list" where
  "archive_step rm st s i =
     (if av_repository st = [] then s
      else let publish = (\<lambda>e. publish_private_week rm st i e (snd s));
               turn = archive_turn (av_weekday st) (av_hour st) (\<lambda>e. fst (publish e)) (ai_now i) (fst s)
           in (fst turn, case fst (snd turn) of None \<Rightarrow> snd s | Some (e, _) \<Rightarrow> snd (publish e)))"

section \<open>The weekly mail\<close>

record window_text =
  wt_pnl_usdt :: rat
  wt_pnl_of_equity :: "rat option"
  wt_counts :: "(nat \<times> nat \<times> nat \<times> rat option) option"

definition describe_window :: "WindowStats \<Rightarrow> rat option \<Rightarrow> window_text" where
  "describe_window stats equity_usdt =
     \<lparr>wt_pnl_usdt = ws_pnl_usdt stats,
      wt_pnl_of_equity = (case equity_usdt of
         Some e \<Rightarrow> if e \<noteq> 0 then Some (dec (ws_pnl_usdt stats / e)) else None | None \<Rightarrow> None),
      wt_counts = (if ws_trade_count stats = 0 then None
                   else Some (ws_trade_count stats, ws_wins stats, ws_losses stats, ws_win_rate_pct stats))\<rparr>"

record weekly_mail =
  wm_from :: string
  wm_to :: string
  wm_start :: datetime
  wm_end :: datetime
  wm_report :: PrivateWeeklyReport
  wm_cumulative :: "datetime \<times> window_text"
  wm_archive_page :: "string option"

record mail_settings =
  ml_host :: string
  ml_username :: string
  ml_from :: string
  ml_to :: string
  ml_archive_repository :: string
  ml_live_start :: datetime

datatype smtp_command = Connect | StartTls | Login string | SendMessage weekly_mail

text \<open>The commands of a session; the first that fails ends it.\<close>

fun smtp_session :: "(smtp_command list \<Rightarrow> smtp_command \<Rightarrow> bool) \<Rightarrow> smtp_command list \<Rightarrow> smtp_command list \<Rightarrow> bool \<times> smtp_command list" where
  "smtp_session ok [] lg = (True, lg)"
| "smtp_session ok (c # cs) lg = (if ok lg c then smtp_session ok cs (c # lg) else (False, c # lg))"

definition send_sync ::
    "(smtp_command list \<Rightarrow> smtp_command \<Rightarrow> bool) \<Rightarrow> mail_settings \<Rightarrow> weekly_mail \<Rightarrow> smtp_command list \<Rightarrow> bool \<times> smtp_command list" where
  "send_sync ok st message lg =
     smtp_session ok ([Connect, StartTls] @ (if ml_username st = [] then [] else [Login (ml_username st)]) @ [SendMessage message]) lg"

definition send_email ::
    "(smtp_command list \<Rightarrow> smtp_command \<Rightarrow> bool) \<Rightarrow> mail_settings \<Rightarrow> weekly_mail \<Rightarrow> smtp_command list \<Rightarrow> bool \<times> smtp_command list" where
  "send_email ok st message lg =
     (if ml_host st = [] \<or> ml_to st = [] then (False, lg) else send_sync ok st message lg)"

definition word_char :: "char \<Rightarrow> bool" where
  "word_char c = (let n = (of_char c :: nat) in (65 \<le> n \<and> n \<le> 90) \<or> (97 \<le> n \<and> n \<le> 122) \<or> (48 \<le> n \<and> n \<le> 57))"

text \<open>The pattern of a repository name, an owner and a name.\<close>

definition repository_ok :: "string \<Rightarrow> bool" where
  "repository_ok s =
     (case dropWhile (\<lambda>c. c \<noteq> CHR ''/'') s of
        _ # name \<Rightarrow>
          (case takeWhile (\<lambda>c. c \<noteq> CHR ''/'') s of
             c # cs \<Rightarrow> word_char c \<and> list_all (\<lambda>c. word_char c \<or> c = CHR ''-'') cs
           | [] \<Rightarrow> False) \<and>
          (case name of
             c # cs \<Rightarrow> (word_char c \<or> c = CHR ''_'') \<and> list_all (\<lambda>c. word_char c \<or> c = CHR ''_'' \<or> c = CHR ''.'' \<or> c = CHR ''-'') cs
           | [] \<Rightarrow> False)
      | [] \<Rightarrow> False)"

definition archive_link :: "string \<Rightarrow> PrivateWeeklyReport \<Rightarrow> py_error + string option" where
  "archive_link repository report =
     (if repository = [] then Inr None
      else if \<not> repository_ok repository then Inl ValueError
      else Inr (Some (''https://github.com/'' @ repository @ ''/blob/HEAD/'' @ page_name (pw_summary report) @ ''.md'')))"

definition send_weekly_pnl_summary ::
    "(smtp_command list \<Rightarrow> smtp_command \<Rightarrow> bool) \<Rightarrow> mail_settings \<Rightarrow> (rat \<Rightarrow> rat) \<Rightarrow> archive_input \<Rightarrow> datetime
     \<Rightarrow> smtp_command list \<Rightarrow> (py_error + bool) \<times> smtp_command list" where
  "send_weekly_pnl_summary ok st avg_numeric i window_end lg =
     (case build_private_report avg_numeric (ai_db i) (ai_snapshots i) (ai_status i) (ai_now i) (ai_observed i) window_end of
        Inl e \<Rightarrow> (Inl e, lg)
      | Inr report \<Rightarrow>
          let positions = closed_positions_since (ai_db i) (ml_live_start st) window_end;
              equity = map_option as_equity_usdt (pw_account report);
              cumulative = (ml_live_start st, describe_window (window_stats positions) equity)
          in case archive_link (ml_archive_repository st) report of
               Inl e \<Rightarrow> (Inl e, lg)
             | Inr link \<Rightarrow>
                 (case send_email ok st
                    \<lparr>wm_from = (if ml_from st = [] then ml_username st else ml_from st), wm_to = ml_to st,
                     wm_start = window_end - 7 * day, wm_end = window_end, wm_report = report,
                     wm_cumulative = cumulative, wm_archive_page = link\<rparr> lg of
                    (sent, lg) \<Rightarrow> (Inr sent, lg)))"

section \<open>Only a private repository receives a private report\<close>

text \<open>
  A push that may happen: right before it the repository was found private, as it was before the clone,
  and the tree pushed is the clone with the four files of a report.
\<close>

definition verified_push :: "string \<Rightarrow> string \<Rightarrow> tree \<Rightarrow> net_event list \<Rightarrow> bool" where
  "verified_push repo url t before \<longleftrightarrow> url = repo \<and>
     (\<exists>now_reply then_reply old older report.
        before = Asked repo now_reply # Cloned repo (Some old) # Asked repo then_reply # older \<and>
        private_metadata repo now_reply \<and> private_metadata repo then_reply \<and> private_tree report old = Inr t)"

fun verified_log :: "string \<Rightarrow> net_event list \<Rightarrow> bool" where
  "verified_log repo [] \<longleftrightarrow> True"
| "verified_log repo (Pushed url t ok # lg) \<longleftrightarrow> verified_push repo url t lg \<and> verified_log repo lg"
| "verified_log repo (Asked _ _ # lg) \<longleftrightarrow> verified_log repo lg"
| "verified_log repo (Cloned _ _ # lg) \<longleftrightarrow> verified_log repo lg"

lemma verified_log_push:
  "verified_log repo (new @ Pushed url t ok # older) \<Longrightarrow> verified_push repo url t older"
proof (induction new)
  case (Cons e es)
  then show ?case by (cases e) simp_all
qed simp

lemma verify_private_log:
  "snd (verify_private rm repo lg) = Asked repo (rm_metadata rm lg repo) # lg"
  "fst (verify_private rm repo lg) = Inr u \<longleftrightarrow> private_metadata repo (rm_metadata rm lg repo)"
  by (auto simp: verify_private_def Let_def private_metadata_def split: repository_reply.split)

lemma commit_and_push_verified:
  assumes "lg = Cloned repo (Some old) # Asked repo reply # older" "private_metadata repo reply"
    "private_tree report old = Inr new" "verified_log repo lg"
  shows "verified_log repo (snd (commit_and_push rm (verify_private rm repo) repo old new lg))"
proof -
  obtain a lg' where v: "verify_private rm repo lg = (a, lg')" by (cases "verify_private rm repo lg")
  have lg': "lg' = Asked repo (rm_metadata rm lg repo) # lg" using verify_private_log(1)[of rm repo lg] v by simp
  have "verified_push repo repo new lg'" if "a = Inr u" for u
  proof -
    have "private_metadata repo (rm_metadata rm lg repo)" using verify_private_log(2)[of rm repo lg u] v that by simp
    with assms(1-3) show ?thesis unfolding verified_push_def lg' by blast
  qed
  then show ?thesis
    using assms(4) by (auto simp: commit_and_push_def v lg' Let_def split: sum.split)
qed

lemma private_publish_sync_verified:
  assumes "verified_log repo lg"
  shows "verified_log repo (snd (private_publish_sync rm repo report lg))"
proof -
  obtain a lg1 where v: "verify_private rm repo lg = (a, lg1)" by (cases "verify_private rm repo lg")
  have lg1: "lg1 = Asked repo (rm_metadata rm lg repo) # lg" using verify_private_log(1)[of rm repo lg] v by simp
  show ?thesis
  proof (cases a)
    case (Inl e)
    then show ?thesis using assms by (simp add: private_publish_sync_def v lg1)
  next
    case (Inr u)
    then have pm: "private_metadata repo (rm_metadata rm lg repo)"
      using verify_private_log(2)[of rm repo lg u] v by simp
    let ?c = "rm_clone rm lg1 repo"
    have ok: "verified_log repo (Cloned repo ?c # lg1)" using assms by (simp add: lg1)
    show ?thesis
    proof (cases ?c)
      case None
      then show ?thesis using ok Inr by (simp add: private_publish_sync_def v Let_def)
    next
      case (Some old)
      show ?thesis
      proof (cases "private_tree report old")
        case (Inl e)
        then show ?thesis using ok Inr Some \<open>a = Inr u\<close> by (simp add: private_publish_sync_def v Let_def)
      next
        case (Inr new)
        have "Cloned repo (Some old) # lg1 = Cloned repo (Some old) # Asked repo (rm_metadata rm lg repo) # lg"
          by (simp add: lg1)
        from commit_and_push_verified[OF this pm Inr, of rm] ok show ?thesis
          using Inr Some \<open>a = Inr u\<close> by (simp add: private_publish_sync_def v Let_def)
      qed
    qed
  qed
qed

lemma publish_attempts_keeps:
  assumes "\<And>lg. P lg \<Longrightarrow> P (snd (once lg))" "P lg"
  shows "P (snd (publish_attempts n once lg))"
  using assms(2)
proof (induction n arbitrary: lg)
  case (Suc n)
  obtain a lg' where o: "once lg = (a, lg')" by (cases "once lg")
  with assms(1)[OF Suc.prems] have "P lg'" by simp
  with Suc.IH show ?case by (simp add: o split: sum.split)
qed simp

lemma archive_step_verified:
  assumes "verified_log (av_repository st) (snd s)"
  shows "verified_log (av_repository st) (snd (archive_step rm st s i))"
proof -
  have "verified_log (av_repository st) (snd (publish_private_week rm st i e lg))"
    if "verified_log (av_repository st) lg" for e lg
    using that
    by (auto simp: publish_private_week_def private_publish_def split: sum.split
        intro: publish_attempts_keeps[where P = "verified_log (av_repository st)"] private_publish_sync_verified)
  with assms show ?thesis
    by (auto simp: archive_step_def Let_def split: option.split)
qed

lemma archive_verified:
  "verified_log (av_repository st) (snd s) \<Longrightarrow> verified_log (av_repository st) (snd (foldl (archive_step rm st) s is))"
  by (induction "is" arbitrary: s) (simp_all add: archive_step_verified)

text \<open>What a publication changes in a checkout.\<close>

lemma write_file_effect:
  "write_file name doc t = Inr t' \<Longrightarrow> t' = AList.update name (File doc) t"
  by (simp add: write_file_def split: if_splits)

lemma private_tree_effect:
  assumes "private_tree report old = Inr t"
  defines "page \<equiv> page_name (pw_summary report)"
  shows "list_all (may_replace old) (private_names report)"
    and "\<exists>index. t = AList.update ''REPORTS.md'' (File (PrivateIndex (pages_of index))) index \<and>
      index = AList.update (page @ ''-equity.png'') (File (EquityChart report))
       (AList.update (page @ ''-charts.png'') (File (Charts (pw_summary report)))
         (AList.update (page @ ''.md'') (File (PrivatePage report)) old))"
  using assms(1)
  by (auto simp: private_tree_def page_def Let_def then_try_def split: if_splits sum.splits dest!: write_file_effect)

lemma private_tree_changes:
  assumes "private_tree report old = Inr t" "map_of t n \<noteq> map_of old n"
  shows "n \<in> set (private_names report) \<and> may_replace old n"
proof -
  let ?page = "page_name (pw_summary report)"
  obtain index where t: "t = AList.update ''REPORTS.md'' (File (PrivateIndex (pages_of index))) index"
    "index = AList.update (?page @ ''-equity.png'') (File (EquityChart report))
       (AList.update (?page @ ''-charts.png'') (File (Charts (pw_summary report)))
         (AList.update (?page @ ''.md'') (File (PrivatePage report)) old))"
    using private_tree_effect(2)[OF assms(1)] by blast
  have "n \<in> set (private_names report)"
  proof (rule ccontr)
    assume "n \<notin> set (private_names report)"
    then have "n \<noteq> ''REPORTS.md''" "n \<noteq> ?page @ ''-equity.png''" "n \<noteq> ?page @ ''-charts.png''" "n \<noteq> ?page @ ''.md''"
      by (auto simp: private_names_def Let_def)
    then have "map_of t n = map_of old n" unfolding t by (simp only: update_conv' fun_upd_apply if_False)
    with assms(2) show False ..
  qed
  then show ?thesis using private_tree_effect(1)[OF assms(1)] by (simp add: list_all_iff)
qed

text \<open>
  C39. Private reports stay private: over any run of the archive worker, whatever GitHub and Git answer and
  however attempts fail, every push goes to the configured repository, right after GitHub said it is
  private, as it did before the clone; and the tree pushed differs from that clone only in the page, the
  two charts and the index of one report, none of which replaces a link or a page of someone else.
\<close>

theorem private_reports_stay_private:
  assumes "snd (foldl (archive_step rm st) (done_week, []) turns) = new @ Pushed url t ok # before"
  shows "url = av_repository st \<and>
    (\<exists>now_reply then_reply old older report.
       before = Asked url now_reply # Cloned url (Some old) # Asked url then_reply # older \<and>
       private_metadata url now_reply \<and> private_metadata url then_reply \<and>
       (\<forall>n. map_of t n \<noteq> map_of old n \<longrightarrow> n \<in> set (private_names report) \<and> may_replace old n))"
proof -
  have "verified_log (av_repository st) (snd (foldl (archive_step rm st) (done_week, []) turns))"
    by (rule archive_verified) simp
  from verified_log_push[OF this[unfolded assms]] show ?thesis
    unfolding verified_push_def by (blast dest: private_tree_changes)
qed

definition sample_remote :: remote where
  "sample_remote =
     \<lparr>rm_metadata = (\<lambda>_ _. Metadata ''Owner/reports'' True ''private''), rm_clone = (\<lambda>_ _. Some []),
      rm_local = (\<lambda>_ _. True), rm_differs = (\<lambda>_ _. True), rm_accepts = (\<lambda>_ _ _. True), rm_image = (\<lambda>_. None)\<rparr>"

definition sample_archive :: archive_settings where
  "sample_archive = \<lparr>av_repository = ''owner/reports'', av_token = ''t'', av_weekday = 0, av_hour = 8, av_average = (\<lambda>x. x)\<rparr>"

definition sample_turn :: archive_input where
  "sample_turn = \<lparr>ai_db = empty_db, ai_snapshots = [], ai_status = HttpError,
     ai_now = 1700100000000000, ai_observed = 1700100001000000\<rparr>"

lemma fresh_tree: "\<exists>t. private_tree report [] = Inr t"
proof -
  have "list_all (may_replace []) (private_names report)" by (simp add: list_all_iff may_replace_def)
  then show ?thesis by (simp add: private_tree_def then_try_def write_file_def update_conv' Let_def)
qed

theorem private_reports_stay_private_witness:
  "\<exists>t before. snd (foldl (archive_step sample_remote sample_archive) (None, []) [sample_turn]) =
       Pushed ''owner/reports'' t True # before \<and>
     (\<exists>reply older. before = Asked ''owner/reports'' reply # older \<and> private_metadata ''owner/reports'' reply)"
proof -
  let ?r = "''owner/reports''" let ?e = "latest_weekly_end (ai_now sample_turn) 0 8"
  let ?l = "snd (foldl (archive_step sample_remote sample_archive) (None, []) [sample_turn])"
  have past: "?e \<le> ai_now sample_turn" by (rule weekly_calendar_facts(1)) simp_all
  have "\<exists>report. build_private_report (\<lambda>x. x) empty_db [] HttpError (ai_now sample_turn) observed e = Inr report"
    if "e \<le> ai_now sample_turn" for e observed
    using that
    by (simp add: build_private_report_def build_public_report_def Let_def private_trades_def closed_positions_since_def
        empty_db_def equity_samples_def)
  then obtain report where report: "build_private_report (\<lambda>x. x) empty_db [] HttpError (ai_now sample_turn)
      (ai_observed sample_turn) ?e = Inr report" using past by blast
  obtain t where t: "private_tree report [] = Inr t" using fresh_tree by blast
  have pm: "private_metadata ?r (Metadata ''Owner/reports'' True ''private'')" by code_simp
  have "publish_private_week sample_remote sample_archive sample_turn ?e [] =
      (True, [Pushed ?r t True, Asked ?r (Metadata ''Owner/reports'' True ''private''), Cloned ?r (Some []),
        Asked ?r (Metadata ''Owner/reports'' True ''private'')])"
    using report t pm
    by (simp add: publish_private_week_def sample_turn_def sample_archive_def private_publish_def eval_nat_numeral
        private_publish_sync_def verify_private_def commit_and_push_def sample_remote_def Let_def)
  then have l: "?l = [] @ Pushed ?r t True # [Asked ?r (Metadata ''Owner/reports'' True ''private''), Cloned ?r (Some []),
        Asked ?r (Metadata ''Owner/reports'' True ''private'')]"
    by (simp add: archive_step_def archive_turn_def Let_def sample_archive_def)
  from private_reports_stay_private[OF l] show ?thesis using l pm by auto
qed

section \<open>The index lists every page\<close>

lemma digit_chars: "list_all (\<lambda>k. is_digit (char_of (48 + k))) [0..9 :: int]"
  by code_simp

lemma decimal_digits_digits: "list_all is_digit (decimal_digits w n)" "length (decimal_digits w n) = w"
proof -
  have "is_digit (char_of (48 + n mod 10))" for n :: int
  proof -
    have "n mod 10 \<in> set [0..9]" by simp
    then show ?thesis by (rule digit_chars[unfolded list_all_iff, rule_format])
  qed
  then show "list_all is_digit (decimal_digits w n)" by (induction w arbitrary: n) simp_all
  show "length (decimal_digits w n) = w" by (induction w arbitrary: n) simp_all
qed

lemma digits_match:
  "list_all2 (\<lambda>p c. case p of Some x \<Rightarrow> c = x | None \<Rightarrow> is_digit c) (replicate w None) (decimal_digits w n)"
  using decimal_digits_digits[of w n] by (simp add: list_all2_conv_all_nth list_all_length)

lemma page_name_is_page: "is_page (page_name report @ ''.md'')"
proof -
  define secs where "secs = wr_window_end report div 1000000"
  obtain y m d where c: "civil (secs div 86400) = (y, m, d)" by (cases "civil (secs div 86400)")
  let ?sod = "secs mod 86400"
  have "replicate 6 None = replicate 2 None @ replicate 2 None @ replicate 2 (None :: char option)"
    by (simp add: replicate_add[symmetric])
  then show ?thesis
    by (auto simp: is_page_def PAGE_def page_name_def Let_def secs_def[symmetric] c
        intro!: list_all2_appendI digits_match list_all2_refl simp del: replicate.simps decimal_digits.simps)
qed

lemma is_file: "(case n of File _ \<Rightarrow> True | _ \<Rightarrow> False) \<longleftrightarrow> (\<exists>doc. n = File doc)"
  by (cases n) simp_all

lemma pages_of_set:
  assumes "distinct (map fst t)"
  shows "n \<in> set (pages_of t) \<longleftrightarrow> is_page n \<and> (\<exists>doc. map_of t n = Some (File doc))"
    and "sorted_wrt (>) (pages_of t)"
proof -
  have "n \<in> set (pages_of t) \<longleftrightarrow> is_page n \<and> (\<exists>doc. (n, File doc) \<in> set t)"
    by (auto simp: pages_of_def is_file image_iff)
  then show "n \<in> set (pages_of t) \<longleftrightarrow> is_page n \<and> (\<exists>doc. map_of t n = Some (File doc))"
    using assms by simp
  have "distinct (pages_of t)" using assms by (simp add: pages_of_def distinct_map_filter)
  then have "sorted_wrt (<) (rev (pages_of t))" by (simp add: pages_of_def strict_sorted_iff)
  then show "sorted_wrt (>) (pages_of t)" by (simp add: sorted_wrt_rev)
qed

lemma private_index_complete:
  assumes "private_tree report old = Inr t" "distinct (map fst old)"
  defines "page \<equiv> page_name (pw_summary report) @ ''.md''"
  shows "\<exists>ps. map_of t ''REPORTS.md'' = Some (File (PrivateIndex ps)) \<and> sorted_wrt (>) ps \<and>
    (\<forall>n. n \<in> set ps \<longleftrightarrow> is_page n \<and> (\<exists>doc. map_of t n = Some (File doc))) \<and>
    page \<in> set ps \<and> map_of t page = Some (File (PrivatePage report))"
proof -
  obtain index where t: "t = AList.update ''REPORTS.md'' (File (PrivateIndex (pages_of index))) index"
    and index: "index = AList.update (page_name (pw_summary report) @ ''-equity.png'') (File (EquityChart report))
       (AList.update (page_name (pw_summary report) @ ''-charts.png'') (File (Charts (pw_summary report)))
         (AList.update page (File (PrivatePage report)) old))"
    using private_tree_effect(2)[OF assms(1)] unfolding page_def by blast
  have d: "distinct (map fst index)" unfolding index by (intro distinct_update assms(2))
  have no: "\<not> is_page ''REPORTS.md''" by code_simp
  have p: "is_page page" unfolding page_def by (rule page_name_is_page)
  with no have ne: "page \<noteq> ''REPORTS.md''" by blast
  have i: "map_of index page = Some (File (PrivatePage report))"
    unfolding index by (simp add: update_conv' page_def)
  then have tp: "map_of t page = Some (File (PrivatePage report))" using ne by (simp add: t update_conv')
  have "map_of t n = map_of index n" if "is_page n" for n
    using that no unfolding t by (auto simp: update_conv')
  then have "n \<in> set (pages_of index) \<longleftrightarrow> is_page n \<and> (\<exists>doc. map_of t n = Some (File doc))" for n
    using pages_of_set(1)[OF d, of n] by auto
  moreover have "map_of t ''REPORTS.md'' = Some (File (PrivateIndex (pages_of index)))" by (simp add: t update_conv')
  ultimately show ?thesis using pages_of_set(2)[OF d] p tp by blast
qed

section \<open>The wiki publisher replaces only its own files\<close>

lemma write_owned_effect:
  "write_owned name doc t = Inr t' \<Longrightarrow> t' = AList.update name (File doc) t \<and>
     (map_of t name = None \<or> (\<exists>old. map_of t name = Some (File old) \<and> public_marked old))"
  by (auto simp: write_owned_def split: option.splits node.splits if_splits)

lemma write_chart_effect:
  "write_chart rm name doc t = Inr t' \<Longrightarrow> t' = AList.update name (File doc) t \<and>
     (map_of t name = None \<or> (\<exists>old. map_of t name = Some (File old) \<and> chart_owned rm old))"
  by (auto simp: write_chart_def split: option.splits node.splits if_splits)

lemma wiki_tree_changes:
  assumes "wiki_tree rm report old = Inr t" "map_of t n \<noteq> map_of old n"
  shows "n \<in> {page_name report @ ''.md'', page_name report @ ''-charts.png'', ''Operations-Reports.md''} \<and>
    (map_of old n = None \<or> (\<exists>doc. map_of old n = Some (File doc) \<and> (public_marked doc \<or> chart_owned rm doc)))"
proof -
  let ?page = "page_name report"
  obtain t1 t2 where w: "write_owned (?page @ ''.md'') (PublicPage report) old = Inr t1"
    "write_chart rm (?page @ ''-charts.png'') (Charts report) t1 = Inr t2"
    "write_owned ''Operations-Reports.md'' (PublicIndex (owned_pages t2)) t2 = Inr t"
    using assms(1) by (auto simp: wiki_tree_def then_try_def Let_def split: sum.splits)
  note e = write_owned_effect[OF w(1)] write_chart_effect[OF w(2)] write_owned_effect[OF w(3)]
  have ne: "?page @ ''.md'' \<noteq> ?page @ ''-charts.png''" "?page @ ''-charts.png'' \<noteq> ?page @ ''.md''" by simp_all
  have "is_page (?page @ ''.md'')" by (rule page_name_is_page)
  moreover have "\<not> is_page ''Operations-Reports.md''" by code_simp
  ultimately have no: "''Operations-Reports.md'' \<noteq> ?page @ ''.md''" "?page @ ''.md'' \<noteq> ''Operations-Reports.md''" by metis+
  have no': "''Operations-Reports.md'' \<noteq> ?page @ ''-charts.png''" "?page @ ''-charts.png'' \<noteq> ''Operations-Reports.md''"
    by (simp_all add: page_name_def Let_def split: prod.split)
  have n: "n = ?page @ ''.md'' \<or> n = ?page @ ''-charts.png'' \<or> n = ''Operations-Reports.md''"
  proof (rule ccontr)
    assume "\<not> ?thesis"
    then have "map_of t n = map_of old n" using e by (simp add: update_conv')
    with assms(2) show False ..
  qed
  have same: "map_of t1 (?page @ ''-charts.png'') = map_of old (?page @ ''-charts.png'')"
    "map_of t2 ''Operations-Reports.md'' = map_of old ''Operations-Reports.md''"
    using e ne no no' by (simp_all add: update_conv')
  from n show ?thesis using e same by (elim disjE) auto
qed

section \<open>Gains and losses add up to the published result\<close>

lemma all_valid_map: "all_valid (map f xs) = Inr ys \<longleftrightarrow> list_all2 (\<lambda>x y. f x = Inr y) xs ys"
  by (induction xs arbitrary: ys) (auto simp: list_all2_Cons1 split: bind_res_splits)

lemma wins_and_losses: "sum_list (filter (\<lambda>v. v > 0) xs) + sum_list (filter (\<lambda>v. v < 0) xs) = sum_list (xs :: rat list)"
  by (induction xs) auto

lemma stored_amounts_subset:
  assumes "stored_amounts xs"
  shows "stored_amounts (filter P xs)"
  using stored_amounts_filter[of "\<lambda>x. x" xs P] assms by simp

lemma analysis_total:
  assumes "stored_amounts (List.map_filter pt_pnl_usdt trades)"
  shows "pa_gain (analyse_trades trades) - pa_loss (analyse_trades trades) = sum_list (List.map_filter pt_pnl_usdt trades)"
  using stored_amounts_sum[OF stored_amounts_subset[OF assms, of "\<lambda>v. v > 0"]]
    stored_amounts_sum[OF stored_amounts_subset[OF assms, of "\<lambda>v. v < 0"]] wins_and_losses
  by (simp add: analyse_trades_def Let_def)

lemma analysis_matches_summary:
  assumes "private_trades d e = Inr trades"
    and entry: "\<And>p. p \<in> set (closed_positions_since d (e - 7 * day) e) \<Longrightarrow> get_order d (pos_entry_order_id p) \<noteq> None"
    and stored: "stored_amounts (List.map_filter pos_pnl_usdt (closed_positions_since d (e - 7 * day) e))"
  shows "pa_gain (analyse_trades trades) - pa_loss (analyse_trades trades) =
    (case pu_total_pnl_usdt (trade_stats avg_numeric d (e - 7 * day) e) of None \<Rightarrow> 0 | Some x \<Rightarrow> x)"
proof -
  let ?ps = "closed_positions_since d (e - 7 * day) e"
  define qs where "qs = sort_key (\<lambda>p. the (pos_closed_at p)) (sort_key pos_id ?ps)"
  have m: "mset qs = mset ?ps" by (simp add: qs_def)
  let ?f = "\<lambda>p. private_trade p (the (get_order d (pos_entry_order_id p)))"
  have "concat (map (\<lambda>p. case get_order d (pos_entry_order_id p) of None \<Rightarrow> [] | Some r \<Rightarrow> [private_trade p r]) qs) = map ?f qs"
  proof -
    have "(case get_order d (pos_entry_order_id p) of None \<Rightarrow> [] | Some r \<Rightarrow> [private_trade p r]) = [?f p]"
      if "p \<in> set qs" for p
      using entry[of p] that mset_eq_setD[OF m] by auto
    then have "map (\<lambda>p. case get_order d (pos_entry_order_id p) of None \<Rightarrow> [] | Some r \<Rightarrow> [private_trade p r]) qs = map (\<lambda>p. [?f p]) qs"
      by (intro map_cong refl)
    then show ?thesis by (simp only: concat_map_singleton)
  qed
  with assms(1) have "all_valid (map ?f qs) = Inr trades" by (simp add: private_trades_def qs_def)
  then have "list_all2 (\<lambda>p t. ?f p = Inr t) qs trades" by (simp only: all_valid_map)
  then have "list_all2 (\<lambda>p t. pos_pnl_usdt p = pt_pnl_usdt t) qs trades"
    by (rule list_all2_mono) (auto simp: private_trade_def split: option.splits if_splits)
  then have "map pos_pnl_usdt qs = map pt_pnl_usdt trades"
    by (induction rule: list_all2_induct) simp_all
  then have "List.map_filter (\<lambda>x. x) (map pos_pnl_usdt qs) = List.map_filter (\<lambda>x. x) (map pt_pnl_usdt trades)" by simp
  then have eq: "List.map_filter pos_pnl_usdt qs = List.map_filter pt_pnl_usdt trades"
    by (simp add: map_filter_def filter_map comp_def)
  have "mset (List.map_filter pos_pnl_usdt qs) = mset (List.map_filter pos_pnl_usdt ?ps)"
    by (simp add: map_filter_def m)
  then have perm: "mset (List.map_filter pt_pnl_usdt trades) = mset (List.map_filter pos_pnl_usdt ?ps)" by (simp only: eq)
  have "stored_amounts (List.map_filter pt_pnl_usdt trades)"
    using stored mset_eq_setD[OF perm] unfolding stored_amounts_def
    by (metis (no_types, lifting) mset_map perm sum_mset_sum_list)
  moreover have "sum_list (List.map_filter pt_pnl_usdt trades) = sum_list (List.map_filter pos_pnl_usdt ?ps)"
    by (metis perm sum_mset_sum_list)
  ultimately show ?thesis by (simp add: analysis_total trade_stats_def Let_def)
qed

section \<open>Credentials only after TLS\<close>

lemma session_order:
  "\<exists>n. snd (smtp_session ok cs lg) = rev (take n cs) @ lg"
proof (induction cs arbitrary: lg)
  case (Cons c cs)
  obtain n where "snd (smtp_session ok cs (c # lg)) = rev (take n cs) @ c # lg" using Cons.IH by blast
  then have "snd (smtp_session ok cs (c # lg)) = rev (take (Suc n) (c # cs)) @ lg" by simp
  moreover have "c # lg = rev (take (Suc 0) (c # cs)) @ lg" by simp
  ultimately show ?case by (metis smtp_session.simps(2) snd_conv)
qed simp

text \<open>In the session of a mail, what follows the encryption is the login and the message, nothing before it is.\<close>

lemma mail_only_over_tls:
  "\<exists>n. snd (send_email ok st message lg) =
     rev (take n ([Connect, StartTls] @ (if ml_username st = [] then [] else [Login (ml_username st)]) @ [SendMessage message])) @ lg"
proof (cases "ml_host st = [] \<or> ml_to st = []")
  case True
  then show ?thesis by (intro exI[of _ 0]) (auto simp: send_email_def)
next
  case False
  then show ?thesis unfolding send_email_def send_sync_def by (simp only: if_False session_order)
qed

end
