(* ===== verification/Candle_Store.thy ===== *)
theory Candle_Store
  imports Replay_Walk "HOL-Library.AList"
begin

text \<open>
  The candles of the offline tools: \<open>scripts/backtest/history.py\<close>, which pages through the exchange, and the
  \<open>CandleCache\<close> of \<open>scripts/backtest/cache.py\<close> behind it.  The exchange is a function of the requests it has
  answered so far and of the new one.
\<close>

section \<open>The cache\<close>

text \<open>The table \<open>ohlcv\<close>: rows with their primary key.\<close>

type_synonym candle_key = "string \<times> string \<times> int"

type_synonym candle_cache = "(candle_key \<times> ohlcv) list"

definition get_range :: "string \<Rightarrow> string \<Rightarrow> int \<Rightarrow> int \<Rightarrow> candle_cache \<Rightarrow> ohlcv list" where
  "get_range symbol timeframe since_ms until_ms C =
     sort_key oc_t (map snd (filter (\<lambda>((s, tf, ts), _). s = symbol \<and> tf = timeframe \<and> since_ms \<le> ts \<and> ts < until_ms) C))"

text \<open>\<open>INSERT OR REPLACE\<close> of every candle.\<close>

fun put_many :: "string \<Rightarrow> string \<Rightarrow> ohlcv list \<Rightarrow> candle_cache \<Rightarrow> candle_cache" where
  "put_many symbol timeframe [] C = C"
| "put_many symbol timeframe (c # cs) C =
     put_many symbol timeframe cs (AList.update (symbol, timeframe, oc_t c) c C)"

section \<open>The exchange\<close>

datatype fetch_reply = NetworkError | ExchangeError | Page "ohlcv list"

datatype fetch_error = Transport | Raised py_error

type_synonym candle_request = "string \<times> string \<times> int"

type_synonym candle_exchange = "candle_request list \<Rightarrow> candle_request \<Rightarrow> fetch_reply"

definition TIMEFRAME_UNIT_MS :: "char \<rightharpoonup> int" where
  "TIMEFRAME_UNIT_MS = map_of [(CHR ''s'', 1000), (CHR ''m'', 60000), (CHR ''h'', 3600000), (CHR ''d'', 86400000)]"

definition timeframe_to_ms :: "string \<Rightarrow> py_error + int" where
  "timeframe_to_ms timeframe =
     (case parse_int (butlast timeframe) of
        None \<Rightarrow> Inl ValueError
      | Some n \<Rightarrow> (case TIMEFRAME_UNIT_MS (last timeframe) of None \<Rightarrow> Inl KeyError | Some u \<Rightarrow> Inr (n * u)))"

definition MAX_ATTEMPTS :: nat where
  "MAX_ATTEMPTS = 5"

text \<open>The requests made are added to the history, newest first; \<open>attempts\<close> are left.\<close>

fun fetch_ohlcv_with_retry ::
    "nat \<Rightarrow> candle_exchange \<Rightarrow> candle_request \<Rightarrow> candle_request list \<Rightarrow> (fetch_error + ohlcv list) \<times> candle_request list" where
  "fetch_ohlcv_with_retry 0 fx r h = (Inl Transport, h)"
| "fetch_ohlcv_with_retry (Suc attempts) fx r h =
     (case fx h r of
        Page raw \<Rightarrow> (Inr raw, r # h)
      | NetworkError \<Rightarrow> fetch_ohlcv_with_retry attempts fx r (r # h)
      | ExchangeError \<Rightarrow> (Inl Transport, r # h))"

text \<open>The loop of \<open>fetch_history\<close>: the cursor only grows, so it ends whatever the exchange answers.\<close>

function fetch_pages ::
    "candle_exchange \<Rightarrow> string \<Rightarrow> string \<Rightarrow> int \<Rightarrow> int \<Rightarrow> int \<Rightarrow> ohlcv list \<Rightarrow> candle_request list
     \<Rightarrow> (fetch_error + ohlcv list) \<times> candle_request list" where
  "fetch_pages fx symbol timeframe timeframe_ms until_ms cursor fetched h =
     (if cursor < until_ms
      then case fetch_ohlcv_with_retry MAX_ATTEMPTS fx (symbol, timeframe, cursor) h of
             (Inl e, h) \<Rightarrow> (Inl e, h)
           | (Inr raw, h) \<Rightarrow>
               if raw = [] then (Inr fetched, h)
               else let fetched = fetched @ filter (\<lambda>c. oc_t c < until_ms) raw;
                        next_cursor = oc_t (last raw) + timeframe_ms
                    in if next_cursor \<le> cursor then (Inr fetched, h)
                       else fetch_pages fx symbol timeframe timeframe_ms until_ms next_cursor fetched h
      else (Inr fetched, h))"
  by pat_completeness auto

termination
  by (relation "measure (\<lambda>(_, _, _, _, until_ms, cursor, _, _). nat (until_ms - cursor))") auto

declare fetch_pages.simps [simp del]

definition fetch_history ::
    "candle_exchange \<Rightarrow> string \<Rightarrow> string \<Rightarrow> int \<Rightarrow> int \<Rightarrow> candle_cache \<Rightarrow> candle_request list
     \<Rightarrow> (fetch_error + ohlcv list) \<times> candle_cache \<times> candle_request list" where
  "fetch_history fx symbol timeframe since_ms until_ms C h =
     (case timeframe_to_ms timeframe of
        Inl e \<Rightarrow> (Inl (Raised e), C, h)
      | Inr timeframe_ms \<Rightarrow>
          if timeframe_ms = 0 then (Inl (Raised ZeroDivisionError), C, h)
          else
            let expected = (until_ms - since_ms) div timeframe_ms;
                cached = get_range symbol timeframe since_ms until_ms C
            in if expected \<le> int (length cached) then (Inr cached, C, h)
               else case fetch_pages fx symbol timeframe timeframe_ms until_ms since_ms [] h of
                      (Inl e, h) \<Rightarrow> (Inl e, C, h)
                    | (Inr fetched, h) \<Rightarrow>
                        let C = (if fetched = [] then C else put_many symbol timeframe fetched C)
                        in (Inr (get_range symbol timeframe since_ms until_ms C), C, h))"

section \<open>Rows of the cache\<close>

definition cache_ok :: "candle_cache \<Rightarrow> bool" where
  "cache_ok C \<longleftrightarrow> distinct (map fst C) \<and> (\<forall>((s, tf, ts), c) \<in> set C. oc_t c = ts)"

definition cached_at :: "string \<Rightarrow> string \<Rightarrow> candle_cache \<Rightarrow> int \<Rightarrow> ohlcv option" where
  "cached_at symbol timeframe C ts = map_of C (symbol, timeframe, ts)"

lemma cache_ok_update:
  "cache_ok C \<Longrightarrow> cache_ok (AList.update (symbol, timeframe, oc_t c) c C)"
proof -
  assume ok: "cache_ok C"
  then have d: "distinct (map fst (AList.update (symbol, timeframe, oc_t c) c C))"
    by (simp add: cache_ok_def distinct_update)
  moreover have "oc_t x = ts" if "((s, tf, ts), x) \<in> set (AList.update (symbol, timeframe, oc_t c) c C)" for s tf ts x
  proof -
    from that d have "map_of (AList.update (symbol, timeframe, oc_t c) c C) (s, tf, ts) = Some x" by simp
    then have "(s, tf, ts) = (symbol, timeframe, oc_t c) \<and> x = c \<or> map_of C (s, tf, ts) = Some x"
      by (auto simp: update_conv' split: if_splits)
    then show ?thesis using ok by (auto simp: cache_ok_def dest: map_of_SomeD)
  qed
  ultimately show ?thesis by (auto simp: cache_ok_def)
qed

lemma put_many_ok: "cache_ok C \<Longrightarrow> cache_ok (put_many symbol timeframe cs C)"
  by (induction cs arbitrary: C) (auto intro: cache_ok_update)

lemma put_many_other:
  "k \<notin> (\<lambda>c. (symbol, timeframe, oc_t c)) ` set cs \<Longrightarrow> map_of (put_many symbol timeframe cs C) k = map_of C k"
  by (induction cs arbitrary: C) (auto simp: update_conv')

lemma put_many_at:
  assumes "c \<in> set cs" "\<And>c'. c' \<in> set cs \<Longrightarrow> oc_t c' = oc_t c \<Longrightarrow> c' = c"
  shows "map_of (put_many symbol timeframe cs C) (symbol, timeframe, oc_t c) = Some c"
  using assms
proof (induction cs arbitrary: C)
  case (Cons x cs)
  show ?case
  proof (cases "c \<in> set cs")
    case True
    then show ?thesis using Cons by simp
  next
    case False
    then have x: "x = c" using Cons.prems(1) by simp
    have "(symbol, timeframe, oc_t c) \<notin> (\<lambda>c. (symbol, timeframe, oc_t c)) ` set cs"
    proof
      assume "(symbol, timeframe, oc_t c) \<in> (\<lambda>c. (symbol, timeframe, oc_t c)) ` set cs"
      then obtain c' where "c' \<in> set cs" "oc_t c' = oc_t c" by auto
      then show False using Cons.prems(2)[of c'] False by simp
    qed
    then show ?thesis by (simp add: x put_many_other update_conv')
  qed
qed simp

lemma put_many_from:
  "map_of (put_many symbol timeframe cs C) k = Some c \<Longrightarrow> c \<in> set cs \<or> map_of C k = Some c"
proof (induction cs arbitrary: C)
  case (Cons x cs)
  then have "c \<in> set cs \<or> map_of (AList.update (symbol, timeframe, oc_t x) x C) k = Some c" by simp
  then show ?case by (auto simp: update_conv' split: if_splits)
qed simp

text \<open>A range is the ordered list of the candles stored in it.\<close>

lemma ordered_unique:
  fixes f :: "'a \<Rightarrow> 'b :: linorder"
  assumes "sorted_wrt (<) (map f xs)" "sorted_wrt (<) (map f ys)" "set xs = set ys"
  shows "xs = ys"
proof (rule map_inj_on[of f])
  show "map f xs = map f ys" using assms by (intro strict_sorted_equal) auto
  have "inj_on f (set ys)" using assms(2) by (metis distinct_map strict_sorted_iff)
  then show "inj_on f (set xs \<union> set ys)" using assms(3) by simp
qed

lemma cache_row: "cache_ok C \<Longrightarrow> ((s, tf, ts), c) \<in> set C \<longleftrightarrow> map_of C (s, tf, ts) = Some c \<and> oc_t c = ts"
  by (auto simp: cache_ok_def)

lemma get_range_member:
  assumes "cache_ok C"
  shows "c \<in> set (get_range symbol timeframe since_ms until_ms C) \<longleftrightarrow>
    since_ms \<le> oc_t c \<and> oc_t c < until_ms \<and> cached_at symbol timeframe C (oc_t c) = Some c"
proof -
  have "c \<in> set (get_range symbol timeframe since_ms until_ms C) \<longleftrightarrow>
      (\<exists>ts. ((symbol, timeframe, ts), c) \<in> set C \<and> since_ms \<le> ts \<and> ts < until_ms)"
    by (force simp: get_range_def)
  then show ?thesis by (auto simp: cache_row[OF assms] cached_at_def)
qed

lemma get_range_ordered:
  assumes "cache_ok C"
  shows "sorted_wrt (<) (map oc_t (get_range symbol timeframe since_ms until_ms C))"
proof -
  let ?P = "\<lambda>((s, tf, ts), _ :: ohlcv). s = symbol \<and> tf = timeframe \<and> since_ms \<le> ts \<and> ts < until_ms"
  let ?xs = "filter ?P C"
  have d: "distinct (map fst ?xs)" using assms by (simp add: cache_ok_def distinct_map_filter)
  have "map fst ?xs = map (\<lambda>t. (symbol, timeframe, t)) (map oc_t (map snd ?xs))"
    unfolding map_map using assms by (intro map_cong refl) (auto simp: cache_ok_def)
  with d have "distinct (map (\<lambda>t. (symbol, timeframe, t)) (map oc_t (map snd ?xs)))" by (simp only:)
  then have "distinct (map oc_t (map snd ?xs))" by (rule distinct_map[THEN iffD1, THEN conjunct1])
  moreover have "mset (map oc_t (map snd ?xs)) = mset (map oc_t (get_range symbol timeframe since_ms until_ms C))"
    by (simp only: get_range_def mset_map mset_sort)
  ultimately have "distinct (map oc_t (get_range symbol timeframe since_ms until_ms C))"
    by (rule mset_eq_imp_distinct_iff[THEN iffD1, rotated])
  then show ?thesis by (simp add: strict_sorted_iff get_range_def)
qed

lemma get_range_eqI:
  assumes "cache_ok C" "sorted_wrt (<) (map oc_t xs)"
    and "\<And>c. c \<in> set xs \<longleftrightarrow> since_ms \<le> oc_t c \<and> oc_t c < until_ms \<and> cached_at symbol timeframe C (oc_t c) = Some c"
  shows "get_range symbol timeframe since_ms until_ms C = xs"
  using get_range_ordered[OF assms(1)] assms(2,3) get_range_member[OF assms(1)]
  by (intro ordered_unique[of oc_t]) blast+

section \<open>Paging\<close>

text \<open>
  The candles of a market, each at least a period after the one before, and an exchange that answers a
  request from them: the first of those that open at the cursor or later, at least one if there is any.
\<close>

definition market_ok :: "int \<Rightarrow> ohlcv list \<Rightarrow> bool" where
  "market_ok timeframe_ms series \<longleftrightarrow> 0 < timeframe_ms \<and> sorted_wrt (\<lambda>a b. oc_t a + timeframe_ms \<le> oc_t b) series"

definition serves :: "candle_exchange \<Rightarrow> string \<Rightarrow> string \<Rightarrow> ohlcv list \<Rightarrow> bool" where
  "serves fx symbol timeframe series \<longleftrightarrow>
     (\<forall>h cursor raw. fx h (symbol, timeframe, cursor) = Page raw \<longrightarrow>
        (\<exists>n > 0. raw = take n (filter (\<lambda>c. cursor \<le> oc_t c) series)))"

definition in_window :: "int \<Rightarrow> int \<Rightarrow> ohlcv list \<Rightarrow> ohlcv list" where
  "in_window since_ms until_ms series = filter (\<lambda>c. since_ms \<le> oc_t c \<and> oc_t c < until_ms) series"

lemma retry_page:
  assumes "fetch_ohlcv_with_retry n fx r h = (Inr raw, h')"
  shows "\<exists>h0. fx h0 r = Page raw"
  using assms by (induction n fx r h rule: fetch_ohlcv_with_retry.induct) (auto split: fetch_reply.splits)

lemma market_strict: "market_ok timeframe_ms series \<Longrightarrow> sorted_wrt (<) (map oc_t series)"
  unfolding market_ok_def sorted_wrt_map by (auto elim!: sorted_wrt_mono_rel[rotated])

lemma after_page:
  assumes "market_ok timeframe_ms series" "F = filter (\<lambda>c. cursor \<le> oc_t c) series" "take n F \<noteq> []"
  shows "filter (\<lambda>c. oc_t (last (take n F)) + timeframe_ms \<le> oc_t c) series = drop n F"
    and "cursor < oc_t (last (take n F)) + timeframe_ms"
proof -
  let ?l = "last (take n F)" let ?next = "oc_t ?l + timeframe_ms"
  have pos: "0 < timeframe_ms" using assms(1) by (simp add: market_ok_def)
  have F: "sorted_wrt (\<lambda>a b. oc_t a + timeframe_ms \<le> oc_t b) (take n F @ drop n F)"
    using assms(1,2) by (simp add: market_ok_def sorted_wrt_filter)
  have l: "?l \<in> set (take n F)" using assms(3) by (rule last_in_set)
  then have "cursor \<le> oc_t ?l" using assms(2) by (auto dest: in_set_takeD)
  with pos show n: "cursor < ?next" by simp
  have before: "oc_t c \<le> oc_t ?l" if "c \<in> set (take n F)" for c
  proof -
    have "sorted_wrt (\<lambda>a b. oc_t a + timeframe_ms \<le> oc_t b) (butlast (take n F) @ [?l])"
      using F assms(3) by (simp add: sorted_wrt_append)
    moreover have "c = ?l \<or> c \<in> set (butlast (take n F))"
      using that assms(3) by (metis append_butlast_last_id in_set_conv_decomp rotate1.simps(2) set_ConsD set_rotate1)
    ultimately show ?thesis using pos by (auto simp: sorted_wrt_append)
  qed
  have "filter (\<lambda>c. ?next \<le> oc_t c) series = filter (\<lambda>c. ?next \<le> oc_t c) F"
    unfolding assms(2) filter_filter using n[unfolded assms(2)] by (intro filter_cong refl) linarith
  also have "\<dots> = filter (\<lambda>c. ?next \<le> oc_t c) (take n F) @ filter (\<lambda>c. ?next \<le> oc_t c) (drop n F)"
    by (metis append_take_drop_id filter_append)
  also have "filter (\<lambda>c. ?next \<le> oc_t c) (take n F) = []"
    using before pos by (fastforce simp: filter_empty_conv)
  also have "filter (\<lambda>c. ?next \<le> oc_t c) (drop n F) = drop n F"
    using F[unfolded sorted_wrt_append] l by (auto simp: filter_id_conv)
  finally show "filter (\<lambda>c. ?next \<le> oc_t c) series = drop n F" by simp
qed

lemma fetch_pages_all:
  assumes "market_ok timeframe_ms series" "serves fx symbol timeframe series"
    and "fetch_pages fx symbol timeframe timeframe_ms until_ms cursor fetched h = (Inr r, h')"
  shows "r = fetched @ in_window cursor until_ms series"
  using assms(1,2,3)
proof (induction fx symbol timeframe timeframe_ms until_ms cursor fetched h rule: fetch_pages.induct)
  case (1 fx symbol timeframe timeframe_ms until_ms cursor fetched h)
  show ?case
  proof (cases "cursor < until_ms")
    case False
    with 1(4) have "r = fetched" by (simp add: fetch_pages.simps)
    moreover have "in_window cursor until_ms series = []" using False by (auto simp: in_window_def filter_empty_conv)
    ultimately show ?thesis by simp
  next
    case live: True
    obtain a h1 where f: "fetch_ohlcv_with_retry MAX_ATTEMPTS fx (symbol, timeframe, cursor) h = (a, h1)"
      by (cases "fetch_ohlcv_with_retry MAX_ATTEMPTS fx (symbol, timeframe, cursor) h")
    with 1(4) live obtain raw where a: "a = Inr raw"
      by (cases a) (simp_all add: fetch_pages.simps)
    from retry_page[OF f[unfolded a]] 1(3) obtain n where
      n: "0 < n" "raw = take n (filter (\<lambda>c. cursor \<le> oc_t c) series)"
      unfolding serves_def by blast
    let ?F = "filter (\<lambda>c. cursor \<le> oc_t c) series"
    have win: "in_window x until_ms series = filter (\<lambda>c. oc_t c < until_ms) (filter (\<lambda>c. x \<le> oc_t c) series)" for x
      unfolding in_window_def filter_filter by (intro filter_cong) auto
    show ?thesis
    proof (cases "raw = []")
      case True
      with n have "?F = []" by (metis gr_implies_not0 take_eq_Nil)
      moreover from 1(4) live f a True have "r = fetched" by (simp add: fetch_pages.simps)
      ultimately show ?thesis by (simp add: win)
    next
      case False
      note after = after_page[OF 1(2) refl, of n cursor, folded n(2), OF False]
      let ?next = "oc_t (last raw) + timeframe_ms"
      let ?got = "fetched @ filter (\<lambda>c. oc_t c < until_ms) raw"
      have "fetch_pages fx symbol timeframe timeframe_ms until_ms ?next ?got h1 = (Inr r, h')"
        using 1(4) live f a False after(2) by (subst (asm) fetch_pages.simps) (simp add: Let_def)
      moreover have "r = ?got @ in_window ?next until_ms series"
        if "fetch_pages fx symbol timeframe timeframe_ms until_ms ?next ?got h1 = (Inr r, h')"
        by (rule 1(1)[OF live f[symmetric] a False refl refl _ 1(2,3) that]) (use after(2) in simp)
      ultimately have "r = ?got @ in_window ?next until_ms series" by blast
      also have "\<dots> = fetched @ filter (\<lambda>c. oc_t c < until_ms) (raw @ drop n ?F)"
        by (simp add: win after(1))
      also have "raw @ drop n ?F = ?F" unfolding n(2) by (rule append_take_drop_id)
      finally show ?thesis by (simp add: win)
    qed
  qed
qed

text \<open>A range that starts and ends on the grid of the market holds at most one candle per period.\<close>

lemma window_count:
  assumes "market_ok timeframe_ms series" "timeframe_ms dvd until_ms - since_ms"
    and "\<And>c. c \<in> set series \<Longrightarrow> timeframe_ms dvd oc_t c - since_ms"
  shows "int (length (in_window since_ms until_ms series)) \<le> max 0 ((until_ms - since_ms) div timeframe_ms)"
proof -
  let ?xs = "in_window since_ms until_ms series" and ?n = "(until_ms - since_ms) div timeframe_ms"
  have pos: "0 < timeframe_ms" using assms(1) by (simp add: market_ok_def)
  have "sorted_wrt (<) (map oc_t ?xs)"
    using market_strict[OF assms(1)] unfolding in_window_def sorted_wrt_map by (rule sorted_wrt_filter)
  then have d: "distinct (map oc_t ?xs)" by (simp add: strict_sorted_iff)
  have "set (map oc_t ?xs) \<subseteq> (\<lambda>k. since_ms + timeframe_ms * k) ` {0..<?n}"
  proof
    fix t assume "t \<in> set (map oc_t ?xs)"
    then obtain c where c: "c \<in> set series" "since_ms \<le> oc_t c" "oc_t c < until_ms" "t = oc_t c"
      by (auto simp: in_window_def)
    from assms(3)[OF c(1)] obtain k where k: "oc_t c - since_ms = timeframe_ms * k" by (rule dvdE)
    from assms(2) obtain m where m: "until_ms - since_ms = timeframe_ms * m" by (rule dvdE)
    have "0 \<le> timeframe_ms * k" "timeframe_ms * k < timeframe_ms * m" using c(2,3) k m by linarith+
    then have "0 \<le> k" "k < ?n" using pos m by (simp_all add: zero_le_mult_iff)
    moreover have "t = since_ms + timeframe_ms * k" using k c(4) by linarith
    ultimately show "t \<in> (\<lambda>k. since_ms + timeframe_ms * k) ` {0..<?n}" by auto
  qed
  then have "card (set (map oc_t ?xs)) \<le> card ((\<lambda>k. since_ms + timeframe_ms * k) ` {0..<?n})"
    by (intro card_mono) auto
  also have "\<dots> \<le> card {0..<?n}" by (rule card_image_le) simp
  finally have "length ?xs \<le> nat ?n" using distinct_card[OF d] by simp
  then show ?thesis by linarith
qed

lemma fetch_history_cases:
  assumes "fetch_history fx symbol timeframe since_ms until_ms C h = (Inr r, C', h')"
    "timeframe_to_ms timeframe = Inr timeframe_ms"
  obtains (hit) "(until_ms - since_ms) div timeframe_ms \<le> int (length (get_range symbol timeframe since_ms until_ms C))"
      "r = get_range symbol timeframe since_ms until_ms C" "C' = C" "h' = h"
  | (miss) fetched where "fetch_pages fx symbol timeframe timeframe_ms until_ms since_ms [] h = (Inr fetched, h')"
      "C' = put_many symbol timeframe fetched C" "r = get_range symbol timeframe since_ms until_ms C'"
proof -
  let ?xs = "get_range symbol timeframe since_ms until_ms C"
  have z: "timeframe_ms \<noteq> 0" using assms by (auto simp: fetch_history_def)
  show thesis
  proof (cases "(until_ms - since_ms) div timeframe_ms \<le> int (length ?xs)")
    case True
    with assms z have e: "r = ?xs" "C' = C" "h' = h" by (auto simp: fetch_history_def)
    show thesis by (rule hit[OF True e])
  next
    case False
    obtain a h1 where f: "fetch_pages fx symbol timeframe timeframe_ms until_ms since_ms [] h = (a, h1)"
      by (cases "fetch_pages fx symbol timeframe timeframe_ms until_ms since_ms [] h")
    from assms z False f obtain fetched where a: "a = Inr fetched"
      by (cases a) (simp_all add: fetch_history_def Let_def)
    show thesis
      using assms z False f[unfolded a] by (intro miss[of fetched]) (auto simp: fetch_history_def Let_def split: if_splits)
  qed
qed

lemma fetch_history_market:
  assumes "timeframe_to_ms timeframe = Inr timeframe_ms" "market_ok timeframe_ms series"
    and "serves fx symbol timeframe series"
    and "cache_ok C" "\<And>t c. cached_at symbol timeframe C t = Some c \<Longrightarrow> c \<in> set series"
    and "timeframe_ms dvd until_ms - since_ms" "\<And>c. c \<in> set series \<Longrightarrow> timeframe_ms dvd oc_t c - since_ms"
    and "fetch_history fx symbol timeframe since_ms until_ms C h = (Inr r, C', h')"
  shows "r = in_window since_ms until_ms series \<and> cache_ok C' \<and>
    (\<forall>t c. cached_at symbol timeframe C' t = Some c \<longrightarrow> c \<in> set series) \<and>
    (\<forall>s tf t. (s, tf) \<noteq> (symbol, timeframe) \<longrightarrow> cached_at s tf C' t = cached_at s tf C t) \<and>
    (int (length r) = (until_ms - since_ms) div timeframe_ms \<longrightarrow>
       fetch_history fx' symbol timeframe since_ms until_ms C' g = (Inr r, C', g))"
proof -
  let ?w = "in_window since_ms until_ms series" and ?n = "(until_ms - since_ms) div timeframe_ms"
  have pos: "timeframe_ms \<noteq> 0" using assms(2) by (simp add: market_ok_def)
  have ordered: "sorted_wrt (<) (map oc_t ?w)"
    using market_strict[OF assms(2)] unfolding in_window_def sorted_wrt_map by (rule sorted_wrt_filter)
  have again: "fetch_history fx' symbol timeframe since_ms until_ms C' g = (Inr r, C', g)"
    if "r = get_range symbol timeframe since_ms until_ms C'" "int (length r) = ?n"
    using that assms(1) pos by (simp add: fetch_history_def)
  from assms(8,1) show ?thesis
  proof (cases rule: fetch_history_cases)
    case hit
    have sub: "set r \<subseteq> set ?w"
      using assms(5) by (auto simp: hit(2) get_range_member[OF assms(4)] in_window_def)
    have d: "distinct r" "distinct ?w"
      using get_range_ordered[OF assms(4), of symbol timeframe since_ms until_ms] ordered
      by (simp_all add: hit(2) strict_sorted_iff distinct_map)
    have "int (length ?w) \<le> max 0 ?n" by (rule window_count[OF assms(2,6)]) (rule assms(7))
    then have "length ?w \<le> length r" using hit(1)[folded hit(2)] by linarith
    then have "card (set ?w) \<le> card (set r)" using d by (simp add: distinct_card)
    with sub have "set r = set ?w" by (intro card_seteq) auto
    then have "r = ?w"
      using get_range_ordered[OF assms(4), of symbol timeframe since_ms until_ms, folded hit(2)] ordered
      by (intro ordered_unique[of oc_t]) auto
    then show ?thesis using again hit(2,3) assms(4,5) by auto
  next
    case (miss fetched)
    have f: "fetched = ?w" using fetch_pages_all[OF assms(2,3) miss(1)] by simp
    have ok: "cache_ok C'" unfolding miss(2) by (rule put_many_ok[OF assms(4)])
    have one: "c' = c" if "c \<in> set ?w" "c' \<in> set ?w" "oc_t c' = oc_t c" for c c'
      using that ordered by (auto simp: strict_sorted_iff distinct_map dest: inj_onD)
    have "c \<in> set ?w \<longleftrightarrow> since_ms \<le> oc_t c \<and> oc_t c < until_ms \<and> cached_at symbol timeframe C' (oc_t c) = Some c" for c
    proof
      assume c: "c \<in> set ?w"
      then have "map_of C' (symbol, timeframe, oc_t c) = Some c"
        unfolding miss(2) f by (intro put_many_at one[OF c])
      with c show "since_ms \<le> oc_t c \<and> oc_t c < until_ms \<and> cached_at symbol timeframe C' (oc_t c) = Some c"
        by (simp add: in_window_def cached_at_def)
    next
      assume c: "since_ms \<le> oc_t c \<and> oc_t c < until_ms \<and> cached_at symbol timeframe C' (oc_t c) = Some c"
      then have "c \<in> set fetched \<or> cached_at symbol timeframe C (oc_t c) = Some c"
        unfolding cached_at_def miss(2) by (blast dest: put_many_from)
      then have "c \<in> set series" using assms(5) by (auto simp: f in_window_def)
      with c show "c \<in> set ?w" by (simp add: in_window_def)
    qed
    from get_range_eqI[OF ok ordered this] have "r = ?w" by (simp add: miss(3))
    moreover have "cached_at s tf C' t = cached_at s tf C t" if "(s, tf) \<noteq> (symbol, timeframe)" for s tf t
      unfolding cached_at_def miss(2) by (rule put_many_other) (use that in auto)
    moreover have "c \<in> set series" if "cached_at symbol timeframe C' t = Some c" for t c
      using that assms(5) put_many_from[of symbol timeframe fetched C "(symbol, timeframe, t)" c]
      unfolding cached_at_def miss(2) by (auto simp: f in_window_def)
    ultimately show ?thesis using again miss(3) ok by blast
  qed
qed

text \<open>
  C13. Paging is complete and the cache is a faithful copy: from an exchange that answers with candles of
  one market, and a cache that holds only such candles, a range on the grid of the timeframe is exactly
  the candles of the market in it, in order, however the pages were cut and whatever was cached before;
  the rows of other markets stay as they were; and when no candle of the range is missing, asking for
  it again makes no request and gives the same candles.
\<close>

theorem fetch_history_whole_range:
  assumes "timeframe_to_ms timeframe = Inr timeframe_ms" "market_ok timeframe_ms series"
    and "serves fx symbol timeframe series"
    and "cache_ok C" "\<And>t c. cached_at symbol timeframe C t = Some c \<Longrightarrow> c \<in> set series"
    and "timeframe_ms dvd until_ms - since_ms" "\<And>c. c \<in> set series \<Longrightarrow> timeframe_ms dvd oc_t c - since_ms"
    and "fetch_history fx symbol timeframe since_ms until_ms C h = (Inr r, C', h')"
  shows "r = in_window since_ms until_ms series \<and>
    (\<forall>s tf t. (s, tf) \<noteq> (symbol, timeframe) \<longrightarrow> cached_at s tf C' t = cached_at s tf C t) \<and>
    (int (length r) = (until_ms - since_ms) div timeframe_ms \<longrightarrow>
       fetch_history fx' symbol timeframe since_ms until_ms C' g = (Inr r, C', g))"
  using fetch_history_market[where fx' = fx' and g = g, OF assms(1-4) _ assms(6) _ assms(8)] assms(5,7) by blast

definition sample_series :: "ohlcv list" where
  "sample_series = map (\<lambda>k. \<lparr>oc_t = 3600000 * k, oc_o = 1, oc_h = 1, oc_l = 1, oc_c = 1, oc_v = 1\<rparr>) [1, 2, 3, 4]"

definition two_per_page :: candle_exchange where
  "two_per_page = (\<lambda>h (_, _, cursor). Page (take 2 (filter (\<lambda>c. cursor \<le> oc_t c) sample_series)))"

theorem fetch_history_whole_range_witness:
  "\<exists>C' h'. fetch_history two_per_page ''BTC/USDT'' ''1h'' 3600000 14400000 [] [] = (Inr (take 3 sample_series), C', h') \<and>
     fetch_history (\<lambda>_ _. NetworkError) ''BTC/USDT'' ''1h'' 3600000 14400000 C' [] = (Inr (take 3 sample_series), C', [])"
proof -
  let ?s = sample_series
  have tf: "timeframe_to_ms ''1h'' = Inr 3600000" by code_simp
  have m: "market_ok 3600000 ?s" by (simp add: market_ok_def sample_series_def)
  have srv: "serves two_per_page ''BTC/USDT'' ''1h'' ?s"
    by (auto simp: serves_def two_per_page_def intro!: exI[of _ 2])
  have grid: "3600000 dvd oc_t c - 3600000" if "c \<in> set ?s" for c
    using that by (auto simp: sample_series_def)
  have r: "in_window 3600000 14400000 ?s = take 3 ?s" by (simp add: in_window_def sample_series_def)
  obtain q C' h' where run: "fetch_history two_per_page ''BTC/USDT'' ''1h'' 3600000 14400000 [] [] = (q, C', h')"
    by (cases "fetch_history two_per_page ''BTC/USDT'' ''1h'' 3600000 14400000 [] []") 
  have "fst (fetch_history two_per_page ''BTC/USDT'' ''1h'' 3600000 14400000 [] []) = Inr (take 3 ?s)" by code_simp
  with run have q: "q = Inr (take 3 ?s)" by simp
  have n: "int (length (take 3 ?s)) = (14400000 - 3600000) div 3600000" by (simp add: sample_series_def)
  show ?thesis
    using fetch_history_whole_range[OF tf m srv _ _ _ grid run[unfolded q], of "\<lambda>_ _. NetworkError" "[]"] run q n
    by (auto simp: cache_ok_def cached_at_def)
qed

text \<open>A range with a missing candle is asked for again each time.\<close>

lemma retry_asks: "length h + (if n = 0 then 0 else 1) \<le> length (snd (fetch_ohlcv_with_retry n fx r h))"
  by (induction n fx r h rule: fetch_ohlcv_with_retry.induct) (auto split: fetch_reply.splits if_splits)

lemma fetch_pages_history: "length h \<le> length (snd (fetch_pages fx symbol timeframe timeframe_ms until_ms cursor fetched h))"
proof (induction fx symbol timeframe timeframe_ms until_ms cursor fetched h rule: fetch_pages.induct)
  case (1 fx symbol timeframe timeframe_ms until_ms cursor fetched h)
  obtain a h1 where f: "fetch_ohlcv_with_retry MAX_ATTEMPTS fx (symbol, timeframe, cursor) h = (a, h1)"
    by (cases "fetch_ohlcv_with_retry MAX_ATTEMPTS fx (symbol, timeframe, cursor) h")
  have l: "length h \<le> length h1" using retry_asks[of h MAX_ATTEMPTS fx "(symbol, timeframe, cursor)"] f by simp
  show ?case
  proof (cases "cursor < until_ms")
    case live: True
    show ?thesis
    proof (cases a)
      case (Inl e)
      then show ?thesis using live f l by (subst fetch_pages.simps) simp
    next
      case (Inr raw)
      then show ?thesis
        using l 1[OF live f[symmetric] Inr _ refl refl]
        by (subst fetch_pages.simps) (auto simp: live f Let_def)
    qed
  qed (simp add: fetch_pages.simps)
qed

lemma gap_is_fetched_again:
  assumes "timeframe_to_ms timeframe = Inr timeframe_ms" "0 < timeframe_ms" "since_ms < until_ms"
    and "int (length (get_range symbol timeframe since_ms until_ms C)) < (until_ms - since_ms) div timeframe_ms"
  shows "length h < length (snd (snd (fetch_history fx symbol timeframe since_ms until_ms C h)))"
proof -
  obtain a h1 where f: "fetch_ohlcv_with_retry MAX_ATTEMPTS fx (symbol, timeframe, since_ms) h = (a, h1)"
    by (cases "fetch_ohlcv_with_retry MAX_ATTEMPTS fx (symbol, timeframe, since_ms) h")
  have l: "length h < length h1"
    using retry_asks[of h MAX_ATTEMPTS fx "(symbol, timeframe, since_ms)"] f by (simp add: MAX_ATTEMPTS_def)
  have "length h < length (snd (fetch_pages fx symbol timeframe timeframe_ms until_ms since_ms [] h))"
    using l fetch_pages_history[of h1] assms(3) f
    by (subst fetch_pages.simps) (auto simp: Let_def split: sum.split intro: less_le_trans)
  then show ?thesis
    using assms by (auto simp: fetch_history_def Let_def split: prod.split sum.split)
qed

end
