(* ===== verification/Replay_Tools.thy ===== *)
theory Replay_Tools
  imports Candle_Store Mechanical_Replay Replay
begin

text \<open>
  The command-line tools of \<open>scripts/backtest\<close> end to end: \<open>run\<close> of \<open>mechanical_replay.py\<close> and of \<open>replay.py\<close> from
  their arguments over the fetched candles, the CSV file of trades and \<open>expectancy_report.py\<close>, which reads
  it back, and the configurations of \<open>exit_tuning_matrix.py\<close>.  Dates are arguments in milliseconds; a CSV
  row keeps the values its texts denote.
\<close>

section \<open>Loading the histories\<close>

fun load_histories ::
    "candle_exchange \<Rightarrow> string \<Rightarrow> int \<Rightarrow> int \<Rightarrow> string list \<Rightarrow> candle_history \<Rightarrow> candle_cache \<Rightarrow> candle_request list
     \<Rightarrow> (fetch_error + candle_history) \<times> candle_cache \<times> candle_request list" where
  "load_histories fx timeframe since_ms until_ms [] H C h = (Inr H, C, h)"
| "load_histories fx timeframe since_ms until_ms (symbol # symbols) H C h =
     (case fetch_history fx symbol timeframe since_ms until_ms C h of
        (Inl e, C, h) \<Rightarrow> (Inl e, C, h)
      | (Inr candles, C, h) \<Rightarrow>
          load_histories fx timeframe since_ms until_ms symbols (AList.update symbol candles H) C h)"

record tool_args =
  ta_symbols :: string
  ta_timeframe :: string
  ta_start_ms :: int
  ta_end_ms :: int
  ta_starting_equity :: rat
  ta_fee_pct :: rat
  ta_slippage_pct :: rat
  ta_compounding :: bool
  ta_ignore_killswitch :: bool
  ta_suppress :: "string option"

definition with_histories ::
    "candle_exchange \<Rightarrow> tool_args \<Rightarrow> int \<Rightarrow> (int \<Rightarrow> candle_history \<Rightarrow> py_error + 'r) \<Rightarrow> candle_cache \<Rightarrow> candle_request list
     \<Rightarrow> (fetch_error + 'r) \<times> candle_cache \<times> candle_request list" where
  "with_histories fx a lookback k C h =
     (case timeframe_to_ms (ta_timeframe a) of
        Inl e \<Rightarrow> (Inl (Raised e), C, h)
      | Inr timeframe_ms \<Rightarrow>
          (case load_histories fx (ta_timeframe a) (ta_start_ms a - lookback * timeframe_ms) (ta_end_ms a + timeframe_ms)
                  (split_symbols_csv (ta_symbols a)) [] C h of
             (Inl e, C, h) \<Rightarrow> (Inl e, C, h)
           | (Inr H, C, h) \<Rightarrow>
               (case k timeframe_ms H of Inl e \<Rightarrow> (Inl (Raised e), C, h) | Inr r \<Rightarrow> (Inr r, C, h))))"

definition suppressed_regimes :: "string option \<Rightarrow> StrategyName set" where
  "suppressed_regimes text =
     {s. strategy_value s \<in> set (case text of None \<Rightarrow> [] | Some t \<Rightarrow> split_symbols_csv t)}"

text \<open>Without a decision candle there is no run.\<close>

definition mechanical_replay_on ::
    "mechanical_setup \<Rightarrow> tool_args \<Rightarrow> int \<Rightarrow> candle_history \<Rightarrow> py_error + replay_state option" where
  "mechanical_replay_on su a timeframe_ms H =
     (if replay_events timeframe_ms (wk_lookback su) (ta_start_ms a) (ta_end_ms a) H = [] then Inr None
      else bind_res (mechanical_run
             (su\<lparr>wk_timeframe := ta_timeframe a, wk_timeframe_ms := timeframe_ms, mr_suppress := suppressed_regimes (ta_suppress a)\<rparr>)
             (ta_start_ms a) (ta_end_ms a) H
             (fresh_ledger (ta_starting_equity a) (ta_fee_pct a) (ta_slippage_pct a) (ta_compounding a) (ta_ignore_killswitch a)))
           (\<lambda>s. Inr (Some s)))"

definition mechanical_replay ::
    "mechanical_setup \<Rightarrow> tool_args \<Rightarrow> candle_exchange \<Rightarrow> candle_cache \<Rightarrow> candle_request list
     \<Rightarrow> (fetch_error + replay_state option) \<times> candle_cache \<times> candle_request list" where
  "mechanical_replay su a fx = with_histories fx a (wk_lookback su) (mechanical_replay_on su a)"

definition llm_replay_on ::
    "llm_setup \<Rightarrow> tool_args \<Rightarrow> (AnalyzeRequest \<times> llm_result) list \<Rightarrow> int \<Rightarrow> candle_history \<Rightarrow> py_error + llm_state option" where
  "llm_replay_on su a answers timeframe_ms H =
     (if replay_events timeframe_ms (wk_lookback su) (ta_start_ms a) (ta_end_ms a) H = [] then Inr None
      else bind_res (llm_run (su\<lparr>wk_timeframe := ta_timeframe a, wk_timeframe_ms := timeframe_ms\<rparr>)
             (ta_start_ms a) (ta_end_ms a) H
             \<lparr>lr_ledger = fresh_ledger (ta_starting_equity a) (ta_fee_pct a) (ta_slippage_pct a) (ta_compounding a) False,
              lr_cache = answers, lr_calls = [], lr_rows = []\<rparr>)
           (\<lambda>s. Inr (Some s)))"

definition llm_replay ::
    "llm_setup \<Rightarrow> tool_args \<Rightarrow> (AnalyzeRequest \<times> llm_result) list \<Rightarrow> candle_exchange \<Rightarrow> candle_cache \<Rightarrow> candle_request list
     \<Rightarrow> (fetch_error + llm_state option) \<times> candle_cache \<times> candle_request list" where
  "llm_replay su a answers fx = with_histories fx a (wk_lookback su) (llm_replay_on su a answers)"

section \<open>A replay depends on the market only\<close>

text \<open>\<open>M\<close> gives the candles of every symbol; a cache that holds some of them and an exchange that serves them.\<close>

definition holds :: "(string \<Rightarrow> ohlcv list) \<Rightarrow> string \<Rightarrow> candle_cache \<Rightarrow> bool" where
  "holds M timeframe C \<longleftrightarrow>
     cache_ok C \<and> (\<forall>symbol t c. cached_at symbol timeframe C t = Some c \<longrightarrow> c \<in> set (M symbol))"

definition serves_all :: "(string \<Rightarrow> ohlcv list) \<Rightarrow> string \<Rightarrow> candle_exchange \<Rightarrow> bool" where
  "serves_all M timeframe fx \<longleftrightarrow> (\<forall>symbol. serves fx symbol timeframe (M symbol))"

definition on_market_grid :: "(string \<Rightarrow> ohlcv list) \<Rightarrow> int \<Rightarrow> int \<Rightarrow> bool" where
  "on_market_grid M timeframe_ms start_ms \<longleftrightarrow>
     (\<forall>symbol. market_ok timeframe_ms (M symbol) \<and> (\<forall>c \<in> set (M symbol). timeframe_ms dvd oc_t c - start_ms))"

fun market_histories :: "(string \<Rightarrow> ohlcv list) \<Rightarrow> int \<Rightarrow> int \<Rightarrow> string list \<Rightarrow> candle_history \<Rightarrow> candle_history" where
  "market_histories M since_ms until_ms [] H = H"
| "market_histories M since_ms until_ms (symbol # symbols) H =
     market_histories M since_ms until_ms symbols (AList.update symbol (in_window since_ms until_ms (M symbol)) H)"

lemma load_histories_market:
  assumes "timeframe_to_ms timeframe = Inr timeframe_ms" "serves_all M timeframe fx"
    "timeframe_ms dvd until_ms - since_ms" "on_market_grid M timeframe_ms since_ms"
    and "holds M timeframe C" "load_histories fx timeframe since_ms until_ms symbols H C h = (Inr H', C', h')"
  shows "H' = market_histories M since_ms until_ms symbols H \<and> holds M timeframe C'"
  using assms(5,6)
proof (induction symbols arbitrary: H C h)
  case (Cons symbol symbols)
  obtain a C1 h1 where f: "fetch_history fx symbol timeframe since_ms until_ms C h = (a, C1, h1)"
    by (cases "fetch_history fx symbol timeframe since_ms until_ms C h")
  with Cons.prems(2) obtain r where a: "a = Inr r" by (cases a) simp_all
  have "r = in_window since_ms until_ms (M symbol) \<and> cache_ok C1 \<and>
      (\<forall>t c. cached_at symbol timeframe C1 t = Some c \<longrightarrow> c \<in> set (M symbol)) \<and>
      (\<forall>s tf t. (s, tf) \<noteq> (symbol, timeframe) \<longrightarrow> cached_at s tf C1 t = cached_at s tf C t)"
    using fetch_history_market[OF assms(1) _ _ _ _ assms(3) _ f[unfolded a], of "M symbol" fx "[]"]
      assms(2,4) Cons.prems(1)
    by (auto simp: serves_all_def on_market_grid_def holds_def)
  then have r: "r = in_window since_ms until_ms (M symbol)" and "holds M timeframe C1"
    using Cons.prems(1) unfolding holds_def by (blast, metis prod.inject)
  from Cons.IH[OF this(2)] Cons.prems(2) show ?case by (simp add: f a r)
qed simp

lemma with_histories_market:
  assumes "timeframe_to_ms (ta_timeframe a) = Inr timeframe_ms" "serves_all M (ta_timeframe a) fx"
    "timeframe_ms dvd ta_end_ms a - ta_start_ms a" "on_market_grid M timeframe_ms (ta_start_ms a)"
    "holds M (ta_timeframe a) C" "fst (with_histories fx a lookback k C h) = Inr r"
  shows "k timeframe_ms (market_histories M (ta_start_ms a - lookback * timeframe_ms) (ta_end_ms a + timeframe_ms)
    (split_symbols_csv (ta_symbols a)) []) = Inr r"
proof -
  let ?since = "ta_start_ms a - lookback * timeframe_ms" and ?until = "ta_end_ms a + timeframe_ms"
  let ?ss = "split_symbols_csv (ta_symbols a)"
  obtain q C1 h1 where l: "load_histories fx (ta_timeframe a) ?since ?until ?ss [] C h = (q, C1, h1)"
    by (cases "load_histories fx (ta_timeframe a) ?since ?until ?ss [] C h")
  with assms(1,6) obtain H where q: "q = Inr H" by (cases q) (simp_all add: with_histories_def)
  have d: "timeframe_ms dvd ?until - ?since"
  proof -
    have "?until - ?since = (ta_end_ms a - ta_start_ms a) + timeframe_ms * (1 + lookback)" by (simp add: algebra_simps)
    then show ?thesis using assms(3) by (simp only: dvd_add_left_iff dvd_triv_left)
  qed
  have g: "on_market_grid M timeframe_ms ?since"
  proof -
    have "timeframe_ms dvd oc_t c - ?since" if "timeframe_ms dvd oc_t c - ta_start_ms a" for c
    proof -
      have "oc_t c - ?since = (oc_t c - ta_start_ms a) + timeframe_ms * lookback" by (simp add: algebra_simps)
      then show ?thesis using that by (simp only: dvd_add_left_iff dvd_triv_left)
    qed
    then show ?thesis using assms(4) by (auto simp: on_market_grid_def)
  qed
  have "H = market_histories M ?since ?until ?ss []"
    using load_histories_market[OF assms(1,2) d g assms(5) l[unfolded q]] by blast
  with assms(1,6) l q show ?thesis by (auto simp: with_histories_def split: sum.splits)
qed

text \<open>
  A replay is reproducible: two runs of a replay tool with the same arguments that both fetch their
  candles, from exchanges that page the same markets differently and with different caches of them, come
  to the same result, the one of the replay over the candles of the markets between the dates.
\<close>

theorem replay_reproducible:
  assumes "timeframe_to_ms (ta_timeframe a) = Inr timeframe_ms"
    and "timeframe_ms dvd ta_end_ms a - ta_start_ms a" "on_market_grid M timeframe_ms (ta_start_ms a)"
    and "serves_all M (ta_timeframe a) fx" "holds M (ta_timeframe a) C"
    and "serves_all M (ta_timeframe a) fx'" "holds M (ta_timeframe a) C'"
  shows "(fst (mechanical_replay su a fx C h) = Inr r \<and> fst (mechanical_replay su a fx' C' h') = Inr r' \<longrightarrow>
       r = r' \<and> mechanical_replay_on su a timeframe_ms
         (market_histories M (ta_start_ms a - wk_lookback su * timeframe_ms) (ta_end_ms a + timeframe_ms)
            (split_symbols_csv (ta_symbols a)) []) = Inr r) \<and>
    (fst (llm_replay lu a answers fx C h) = Inr s \<and> fst (llm_replay lu a answers fx' C' h') = Inr s' \<longrightarrow> s = s')"
proof (intro conjI impI, goal_cases)
  case 1
  from with_histories_market[OF assms(1,4,2,3,5) conjunct1[OF 1, unfolded mechanical_replay_def]]
    with_histories_market[OF assms(1,6,2,3,7) conjunct2[OF 1, unfolded mechanical_replay_def]]
  show ?case by simp
next
  case 2
  from with_histories_market[OF assms(1,4,2,3,5) conjunct1[OF 2, unfolded mechanical_replay_def]]
  show ?case .
next
  case 3
  from with_histories_market[OF assms(1,4,2,3,5) conjunct1[OF 3, unfolded llm_replay_def]]
    with_histories_market[OF assms(1,6,2,3,7) conjunct2[OF 3, unfolded llm_replay_def]]
  show ?case by simp
qed

definition sample_args :: tool_args where
  "sample_args = \<lparr>ta_symbols = ''BTC/USDT'', ta_timeframe = ''5m'', ta_start_ms = 600000, ta_end_ms = 900000,
     ta_starting_equity = 10000, ta_fee_pct = 1 / 1000, ta_slippage_pct = 0, ta_compounding = False,
     ta_ignore_killswitch = False, ta_suppress = None\<rparr>"

definition sample_market :: "string \<Rightarrow> ohlcv list" where
  "sample_market symbol =
     (if symbol = ''BTC/USDT'' then [sample_candle 0 100, sample_candle 300000 102, sample_candle 600000 102] else [])"

definition paging :: "nat \<Rightarrow> candle_exchange" where
  "paging n = (\<lambda>h (symbol, _, cursor). Page (take n (filter (\<lambda>c. cursor \<le> oc_t c) (sample_market symbol))))"

theorem replay_reproducible_witness:
  "\<exists>s. fst (llm_replay sample_llm_setup sample_args [] (paging 1) [] []) = Inr (Some s) \<and> length (lr_rows s) = 1 \<and>
     fst (llm_replay sample_llm_setup sample_args [] (paging 1000) [] []) = Inr (Some s)"
proof -
  have tf: "timeframe_to_ms (ta_timeframe sample_args) = Inr 300000" by code_simp
  have d: "300000 dvd ta_end_ms sample_args - ta_start_ms sample_args" by (simp add: sample_args_def)
  have grid: "on_market_grid sample_market 300000 (ta_start_ms sample_args)"
    by (simp add: on_market_grid_def market_ok_def sample_market_def sample_candle_def sample_args_def)
  have serves: "serves_all sample_market (ta_timeframe sample_args) (paging (Suc n))" for n
    by (auto simp: serves_all_def serves_def paging_def)
  have holds: "holds sample_market (ta_timeframe sample_args) []" by (simp add: holds_def cache_ok_def cached_at_def)
  have load: "fst (load_histories (paging n) ''5m'' 0 1200000 [''BTC/USDT''] [] [] []) = Inr sample_llm_history"
    if "n = 1 \<or> n = 1000" for n
    using that by (elim disjE; simp only:; code_simp)
  have args: "split_symbols_csv (ta_symbols sample_args) = [''BTC/USDT'']" "ta_timeframe sample_args = ''5m''"
    "ta_start_ms sample_args - wk_lookback sample_llm_setup * 300000 = 0" "ta_end_ms sample_args + 300000 = 1200000"
    by code_simp+
  have groups: "group_events (replay_events 300000 2 600000 900000 sample_llm_history) = [(600000, [(''BTC/USDT'', 1)])]"
    "group_events (replay_events 300000 2 0 700000 sample_llm_history) = [(600000, [(''BTC/USDT'', 1)])]"
    by code_simp+
  then have "llm_run sample_llm_setup 600000 900000 sample_llm_history sample_llm_state =
      llm_run sample_llm_setup 0 700000 sample_llm_history sample_llm_state"
    by (simp add: llm_run_def walk_candles_def sample_llm_setup_def)
  then obtain payload row where run: "llm_run sample_llm_setup 600000 900000 sample_llm_history sample_llm_state =
     Inr (sample_llm_state\<lparr>lr_cache := [(payload, unreachable_result\<lparr>an_model_name := ''m''\<rparr>)],
       lr_calls := [payload], lr_rows := [row]\<rparr>)" (is "_ = Inr ?s")
    using sample_llm_run by auto
  have "replay_events 300000 2 600000 900000 sample_llm_history \<noteq> []" using groups(1) by auto
  then have on: "llm_replay_on sample_llm_setup sample_args [] 300000 sample_llm_history = Inr (Some ?s)"
    using run by (simp add: llm_replay_on_def sample_args_def sample_llm_setup_def sample_llm_state_def)
  have ok: "fst (llm_replay sample_llm_setup sample_args [] (paging n) [] []) = Inr (Some ?s)" if "n = 1 \<or> n = 1000" for n
    using load[OF that] on tf args by (auto simp: llm_replay_def with_histories_def split: prod.split sum.split)
  from replay_reproducible[OF tf d grid serves[of 0] holds serves[of 999] holds, of _ "[]" _ "[]" _ sample_llm_setup "[]" "Some ?s" "Some ?s"] ok
  show ?thesis by auto
qed

section \<open>The file of trades\<close>

text \<open>\<open>Decimal.quantize\<close> to \<open>n\<close> places, half to even.\<close>

definition quantize :: "nat \<Rightarrow> rat \<Rightarrow> py_error + rat" where
  "quantize n x =
     (let q = round_half_even (x * 10 ^ n) in if \<bar>q\<bar> < 10 ^ 28 then Inr (of_int q / 10 ^ n) else Inl InvalidOperation)"

record csv_trade =
  cv_symbol :: string
  cv_entry_time :: datetime
  cv_exit_time :: datetime
  cv_entry_price :: rat
  cv_exit_price :: rat
  cv_size_usdt :: rat
  cv_pnl_usdt :: rat
  cv_pnl_pct :: rat
  cv_r_multiple :: "rat option"
  cv_exit_reason :: string
  cv_entry_regime :: string
  cv_volatility_regime :: string
  cv_score :: "int option"
  cv_exit_confirmations :: "exit_confirmation list"

definition csv_trade_of :: "replay_state \<Rightarrow> ClosedTrade \<Rightarrow> py_error + csv_trade" where
  "csv_trade_of s t =
     (let key = (ct_symbol t, ct_entry_time t)
      in bind_res (quantize 2 (ct_pnl_usdt t)) (\<lambda>pnl. bind_res (quantize 4 (ct_pnl_pct t)) (\<lambda>pct.
         bind_res (case ct_r_multiple t of None \<Rightarrow> Inr None | Some r \<Rightarrow> bind_res (quantize 4 r) (\<lambda>r. Inr (Some r))) (\<lambda>r.
           Inr \<lparr>cv_symbol = ct_symbol t, cv_entry_time = ct_entry_time t, cv_exit_time = ct_exit_time t,
                cv_entry_price = ct_entry_price t, cv_exit_price = ct_exit_price t, cv_size_usdt = ct_size_usdt t,
                cv_pnl_usdt = pnl, cv_pnl_pct = pct, cv_r_multiple = r, cv_exit_reason = ct_exit_reason t,
                cv_entry_regime = (case rs_trade_regimes s key of Some (Some g) \<Rightarrow> strategy_value g | _ \<Rightarrow> ''unknown''),
                cv_volatility_regime = (case rs_trade_volatility s key of Some v \<Rightarrow> volatility_value v | None \<Rightarrow> []),
                cv_score = rs_trade_scores s key,
                cv_exit_confirmations =
                  (case rs_trade_exit_confirmations s key of Some cs \<Rightarrow> cs | None \<Rightarrow> [])\<rparr>))))"

fun write_rows :: "replay_state \<Rightarrow> ClosedTrade list \<Rightarrow> py_error + csv_trade list" where
  "write_rows s [] = Inr []"
| "write_rows s (t # ts) = bind_res (csv_trade_of s t) (\<lambda>r. bind_res (write_rows s ts) (\<lambda>rs. Inr (r # rs)))"

definition write_trades :: "replay_state \<Rightarrow> py_error + csv_trade list" where
  "write_trades s = write_rows s (lg_closed_trades (rs_ledger s))"

definition metrics_from_csv :: "csv_trade list \<Rightarrow> ClosedTradeMetrics list" where
  "metrics_from_csv rows =
     map (\<lambda>raw. let regime = strip (cv_entry_regime raw); volatility = strip (cv_volatility_regime raw)
                in \<lparr>tr_pnl_usdt = cv_pnl_usdt raw, tr_r_multiple = cv_r_multiple raw, tr_fees_usdt = None,
                    tr_closed_at = cv_exit_time raw,
                    tr_market_regime = (if regime = [] \<or> regime = ''unknown'' then None else Some regime),
                    tr_volatility_regime = (if volatility = [] then None else Some volatility),
                    tr_trade_score = cv_score raw\<rparr>) rows"

text \<open>
  What the report of the file sees of the run: the same trades in the same order, cohorts and times, the
  profit in whole cents and the R-multiple in four places.
\<close>

definition cents :: "ClosedTradeMetrics \<Rightarrow> ClosedTradeMetrics" where
  "cents m = m\<lparr>tr_pnl_usdt := of_int (round_half_even (tr_pnl_usdt m * 100)) / 100,
     tr_r_multiple := map_option (\<lambda>r. of_int (round_half_even (r * 10000)) / 10000) (tr_r_multiple m)\<rparr>"

lemma csv_names:
  "strip (strategy_value g) = strategy_value g" "strategy_value g \<noteq> []" "strategy_value g \<noteq> ''unknown''"
  "strip (volatility_value v) = volatility_value v" "volatility_value v \<noteq> []"
  "strip ''unknown'' = ''unknown''" "strip [] = []"
  by (cases g; cases v; simp add: strategy_value_def volatility_value_def strip_def is_space_def)+

lemma quantize_value: "quantize n x = Inr y \<Longrightarrow> y = of_int (round_half_even (x * 10 ^ n)) / 10 ^ n"
  by (auto simp: quantize_def Let_def split: if_splits)

definition metrics_of_trade :: "replay_state \<Rightarrow> ClosedTrade \<Rightarrow> ClosedTradeMetrics" where
  "metrics_of_trade s t =
     (let key = (ct_symbol t, ct_entry_time t)
      in \<lparr>tr_pnl_usdt = ct_pnl_usdt t, tr_r_multiple = ct_r_multiple t, tr_fees_usdt = None,
          tr_closed_at = ct_exit_time t,
          tr_market_regime = map_option strategy_value (Option.bind (rs_trade_regimes s key) (\<lambda>x. x)),
          tr_volatility_regime = map_option volatility_value (rs_trade_volatility s key),
          tr_trade_score = rs_trade_scores s key\<rparr>)"

lemma metrics_of_trades: "metrics_from_closed_trades s = map (metrics_of_trade s) (lg_closed_trades (rs_ledger s))"
  by (simp add: metrics_from_closed_trades_def metrics_of_trade_def Let_def)

lemma csv_row:
  assumes "csv_trade_of s t = Inr raw"
  shows "metrics_from_csv [raw] = [cents (metrics_of_trade s t)]"
proof -
  let ?key = "(ct_symbol t, ct_entry_time t)"
  have pnl: "cv_pnl_usdt raw = of_int (round_half_even (ct_pnl_usdt t * 100)) / 100"
    and r: "cv_r_multiple raw = map_option (\<lambda>r. of_int (round_half_even (r * 10000)) / 10000) (ct_r_multiple t)"
    and same: "cv_exit_time raw = ct_exit_time t" "cv_score raw = rs_trade_scores s ?key"
      "cv_entry_regime raw = (case rs_trade_regimes s ?key of Some (Some g) \<Rightarrow> strategy_value g | _ \<Rightarrow> ''unknown'')"
      "cv_volatility_regime raw = (case rs_trade_volatility s ?key of Some v \<Rightarrow> volatility_value v | None \<Rightarrow> [])"
    using assms
    by (cases "ct_r_multiple t"; auto simp: csv_trade_of_def Let_def split: bind_res_splits dest!: quantize_value)+
  have g: "(if strip (cv_entry_regime raw) = [] \<or> strip (cv_entry_regime raw) = ''unknown'' then None
      else Some (strip (cv_entry_regime raw))) = map_option strategy_value (Option.bind (rs_trade_regimes s ?key) (\<lambda>x. x))"
    unfolding same(3) by (cases "rs_trade_regimes s ?key") (auto simp: csv_names split: option.split)
  have v: "(if strip (cv_volatility_regime raw) = [] then None else Some (strip (cv_volatility_regime raw))) =
      map_option volatility_value (rs_trade_volatility s ?key)"
    unfolding same(4) by (cases "rs_trade_volatility s ?key") (auto simp: csv_names)
  show ?thesis
    by (simp add: metrics_from_csv_def cents_def metrics_of_trade_def Let_def pnl r same(1,2) g v)
qed

lemma metrics_from_csv_Cons: "metrics_from_csv (x # xs) = metrics_from_csv [x] @ metrics_from_csv xs"
  by (simp add: metrics_from_csv_def)

lemma csv_rows:
  assumes "write_rows s ts = Inr rows"
  shows "metrics_from_csv rows = map (\<lambda>t. cents (metrics_of_trade s t)) ts"
  using assms
proof (induction ts arbitrary: rows)
  case Nil
  then show ?case by (simp add: metrics_from_csv_def)
next
  case (Cons t ts)
  from Cons.prems obtain r rs where "csv_trade_of s t = Inr r" "write_rows s ts = Inr rs" "rows = r # rs"
    by (auto split: bind_res_splits)
  then show ?case using Cons.IH[of rs] by (simp add: metrics_from_csv_Cons[of r rs] csv_row)
qed

lemma report_of_file:
  assumes "write_trades s = Inr rows"
  shows "metrics_from_csv rows = map cents (metrics_from_closed_trades s)"
  using csv_rows[OF assms[unfolded write_trades_def]] by (simp add: metrics_of_trades comp_def)

text \<open>A profit of less than half a cent is a win of the run and no win of its file.\<close>

lemma small_win_is_lost:
  assumes "0 < tr_pnl_usdt m" "tr_pnl_usdt m < 5 / 1000"
  shows "pr_wins (summarize [m] None) = 1" "pr_wins (summarize [cents m] None) = 0" "pr_breakeven (summarize [cents m] None) = 1"
proof -
  have "\<lfloor>tr_pnl_usdt m * 100\<rfloor> = 0" using assms by (intro floor_unique) simp_all
  then have "round_half_even (tr_pnl_usdt m * 100) = 0" using assms(2) by (simp add: round_half_even_def Let_def)
  then have "tr_pnl_usdt (cents m) = 0" by (simp add: cents_def)
  then show "pr_wins (summarize [m] None) = 1" "pr_wins (summarize [cents m] None) = 0"
    "pr_breakeven (summarize [cents m] None) = 1"
    using assms(1) by (simp_all add: summarize_def count_if_def)
qed

section \<open>The exit configurations\<close>

record ExitConfig =
  ec_name :: string
  ec_min_stop_loss_pct :: rat
  ec_atr_stop_multiplier :: rat
  ec_max_stop_loss_pct :: rat
  ec_hard_loss_cut_pct :: rat
  ec_minimal_roi :: "(int \<times> rat) list"
  ec_trailing_activation_pct :: rat
  ec_trailing_distance_pct :: rat
  ec_static_stoploss_pct :: rat

text \<open>\<open>round(x, 4)\<close> of a float is the float nearest to the decimal of four places; its text denotes that decimal.\<close>

definition ROI_BASE :: "(int \<times> rat) list" where
  "ROI_BASE = [(0, 6 / 100), (240, 3 / 100), (720, 2 / 100), (1440, 15 / 1000), (2880, 1 / 100), (5760, 5 / 1000)]"

definition roi_scaled :: "rat \<Rightarrow> rat option \<Rightarrow> (int \<times> rat) list" where
  "roi_scaled factor first =
     (let out = map (\<lambda>(k, v). (k, of_int (round_half_even (flt (flt v * flt factor) * 10000)) / 10000)) ROI_BASE
      in case first of None \<Rightarrow> out | Some x \<Rightarrow> AList.update 0 x out)"

definition CONFIGS :: "ExitConfig list" where
  "CONFIGS =
     [\<lparr>ec_name = ''C0-baseline'', ec_min_stop_loss_pct = 15 / 1000, ec_atr_stop_multiplier = 2, ec_max_stop_loss_pct = 25 / 1000,
       ec_hard_loss_cut_pct = 15 / 1000, ec_minimal_roi = roi_scaled 1 None, ec_trailing_activation_pct = 2 / 100,
       ec_trailing_distance_pct = 15 / 1000, ec_static_stoploss_pct = - (8 / 100)\<rparr>,
      \<lparr>ec_name = ''C1-run-winners'', ec_min_stop_loss_pct = 15 / 1000, ec_atr_stop_multiplier = 2, ec_max_stop_loss_pct = 25 / 1000,
       ec_hard_loss_cut_pct = 15 / 1000, ec_minimal_roi = roi_scaled 2 None, ec_trailing_activation_pct = 35 / 1000,
       ec_trailing_distance_pct = 2 / 100, ec_static_stoploss_pct = - (8 / 100)\<rparr>,
      \<lparr>ec_name = ''C2-optionB-full'', ec_min_stop_loss_pct = 35 / 1000, ec_atr_stop_multiplier = 25 / 10, ec_max_stop_loss_pct = 6 / 100,
       ec_hard_loss_cut_pct = 35 / 1000, ec_minimal_roi = roi_scaled (23 / 10) None, ec_trailing_activation_pct = 45 / 1000,
       ec_trailing_distance_pct = 28 / 1000, ec_static_stoploss_pct = - (8 / 100)\<rparr>,
      \<lparr>ec_name = ''C3-optionB-mid'', ec_min_stop_loss_pct = 25 / 1000, ec_atr_stop_multiplier = 2, ec_max_stop_loss_pct = 45 / 1000,
       ec_hard_loss_cut_pct = 25 / 1000, ec_minimal_roi = roi_scaled (16 / 10) None, ec_trailing_activation_pct = 3 / 100,
       ec_trailing_distance_pct = 2 / 100, ec_static_stoploss_pct = - (8 / 100)\<rparr>,
      \<lparr>ec_name = ''C4-wide-stop-only'', ec_min_stop_loss_pct = 35 / 1000, ec_atr_stop_multiplier = 25 / 10, ec_max_stop_loss_pct = 6 / 100,
       ec_hard_loss_cut_pct = 15 / 1000, ec_minimal_roi = roi_scaled 1 None, ec_trailing_activation_pct = 2 / 100,
       ec_trailing_distance_pct = 15 / 1000, ec_static_stoploss_pct = - (8 / 100)\<rparr>]"

text \<open>What the environment a configuration sets makes of the risk settings.\<close>

definition apply_env :: "ExitConfig \<Rightarrow> RiskConfig \<Rightarrow> RiskConfig" where
  "apply_env cfg base =
     base\<lparr>risk_per_trade_pct := 1 / 100, max_position_pct := 9 / 100, max_open_positions := 6,
       max_total_exposure_pct := 9 / 10, min_confidence := 1 / 2,
       min_stop_loss_pct := ec_min_stop_loss_pct cfg, atr_stop_multiplier := ec_atr_stop_multiplier cfg,
       max_stop_loss_pct := ec_max_stop_loss_pct cfg\<rparr>"

lemma round_unique:
  assumes "\<bar>x - of_int k\<bar> < 1 / 2"
  shows "round_half_even x = k"
proof (cases "of_int k \<le> x")
  case True
  then have "\<lfloor>x\<rfloor> = k" using assms by (intro floor_unique) linarith+
  then show ?thesis using assms True by (simp add: round_half_even_def Let_def)
next
  case False
  then have "\<lfloor>x\<rfloor> = k - 1" using assms by (intro floor_unique) (auto simp: abs_if split: if_splits)
  then show ?thesis using assms False by (simp add: round_half_even_def Let_def)
qed

lemma roi_value:
  assumes "0 \<le> v" "v \<le> 1" "0 \<le> f" "f \<le> 4" "v * f * 10000 = of_int k"
  shows "round_half_even (flt (flt v * flt f) * 10000) = k"
proof (rule round_unique)
  define e :: rat where "e = 1 / 2 ^ 53"
  have e: "0 < e" "e < 1" "(1 + e) ^ 3 \<le> 1 + 1 / 1000000" "1 - 1 / 1000000 \<le> (1 - e) ^ 3"
    by (simp_all add: e_def power3_eq_cube)
  let ?p = "flt v * flt f"
  have vf: "0 \<le> v * f" "v * f \<le> 4" using assms(1-4) mult_mono[of v 1 f 4] by simp_all
  have hi: "flt x \<le> x * (1 + e)" and lo: "x * (1 - e) \<le> flt x" and nn: "0 \<le> flt x" if "0 \<le> x" for x
    using flt.upper[OF that] flt.lower[OF that] that by (simp_all add: e_def)
  have p: "0 \<le> ?p" using nn[OF assms(1)] nn[OF assms(3)] by simp
  have "?p \<le> (v * (1 + e)) * (f * (1 + e))"
    by (rule mult_mono[OF hi[OF assms(1)] hi[OF assms(3)]]) (use assms(1,3) e nn in simp_all)
  then have "?p * (1 + e) \<le> (v * (1 + e)) * (f * (1 + e)) * (1 + e)" using e(1) by (intro mult_right_mono) simp_all
  then have "flt ?p \<le> (v * f) * (1 + e) ^ 3" using hi[OF p] by (simp add: power3_eq_cube mult_ac)
  also have "\<dots> \<le> (v * f) * (1 + 1 / 1000000)" by (rule mult_left_mono[OF e(3) vf(1)])
  finally have above: "flt ?p \<le> v * f + v * f / 1000000" by (simp add: algebra_simps)
  have "(v * (1 - e)) * (f * (1 - e)) \<le> ?p"
    by (rule mult_mono[OF lo[OF assms(1)] lo[OF assms(3)]]) (use assms(1,3) e nn in simp_all)
  then have "(v * (1 - e)) * (f * (1 - e)) * (1 - e) \<le> ?p * (1 - e)" using e(2) by (intro mult_right_mono) simp_all
  then have "(v * f) * (1 - e) ^ 3 \<le> flt ?p" using lo[OF p] by (simp add: power3_eq_cube mult_ac)
  moreover have "(v * f) * (1 - 1 / 1000000) \<le> (v * f) * (1 - e) ^ 3" by (rule mult_left_mono[OF e(4) vf(1)])
  ultimately have below: "v * f - v * f / 1000000 \<le> flt ?p" by (simp add: algebra_simps)
  show "\<bar>flt ?p * 10000 - of_int k\<bar> < 1 / 2"
    unfolding assms(5)[symmetric] abs_less_iff using above below vf by linarith
qed

lemma roi_scaled_value:
  assumes "0 \<le> f" "f \<le> 4" "f * 50 = of_int m"
  shows "roi_scaled f None = map (\<lambda>(k, v). (k, v * f)) ROI_BASE"
proof -
  have r: "of_int (round_half_even (flt (flt v * flt f) * 10000)) / 10000 = v * f"
    if "0 \<le> v" "v \<le> 1" "v * 200 = of_int n" for v n
  proof -
    have "v * f * 10000 = (v * 200) * (f * 50)" by simp
    then have "v * f * 10000 = of_int (n * m)" by (simp only: assms(3) that(3) of_int_mult)
    from roi_value[OF that(1,2) assms(1,2) this] show ?thesis using \<open>v * f * 10000 = of_int (n * m)\<close> by simp
  qed
  show ?thesis
    using r[of "6 / 100" 12] r[of "3 / 100" 6] r[of "2 / 100" 4] r[of "15 / 1000" 3] r[of "1 / 100" 2] r[of "5 / 1000" 1]
    by (simp add: roi_scaled_def ROI_BASE_def)
qed

lemma baseline_is_live:
  "let c = hd CONFIGS in ec_minimal_roi c = MINIMAL_ROI \<and> ec_trailing_activation_pct c = TRAILING_ACTIVATION_PCT \<and>
     ec_trailing_distance_pct c = TRAILING_DISTANCE_PCT \<and> ec_static_stoploss_pct c = STATIC_STOPLOSS_PCT"
  by (simp add: CONFIGS_def roi_scaled_value[of 1 50] ROI_BASE_def MINIMAL_ROI_def TRAILING_ACTIVATION_PCT_def
      TRAILING_DISTANCE_PCT_def STATIC_STOPLOSS_PCT_def)

text \<open>Every configuration keeps a stop band the static stop lies below, and a take-profit table that only falls.\<close>

lemma configs_sane:
  "list_all (\<lambda>c. 0 < ec_min_stop_loss_pct c \<and> ec_min_stop_loss_pct c \<le> ec_max_stop_loss_pct c \<and>
      ec_max_stop_loss_pct c < - ec_static_stoploss_pct c \<and>
      ec_trailing_distance_pct c < ec_trailing_activation_pct c \<and>
      sorted (map fst (ec_minimal_roi c)) \<and> sorted (rev (map snd (ec_minimal_roi c)))) CONFIGS"
  by (simp add: CONFIGS_def roi_scaled_value[of 1 50] roi_scaled_value[of 2 100] roi_scaled_value[of "23 / 10" 115]
      roi_scaled_value[of "8 / 5" 80] ROI_BASE_def)

end
