(* ===== verification/Spec2Isabelle.thy ===== *)
theory Spec2Isabelle
  imports System Fills Outage Mechanical_Replay Replay Notifier Reports Historical_Replay Admin_Api Publication Replay_Tools
begin

text \<open>
  TradeMind is a set of services that trade one exchange account through Freqtrade on the advice of
  a language model, under a deterministic risk engine.  A scheduler closes a candle, computes
  indicators and asks the LLM service for an action; the answer becomes a row of \<open>signals\<close> and its id
  is published on a Redis stream; the risk engine turns the signal into a decision and, if approved,
  into an order at Freqtrade; Freqtrade's webhooks and a reconciliation loop turn fills into
  positions; the closed positions feed the loss limits and the expectancy statistics of later
  decisions.  An admin API changes the configuration and the kill switch and shows the operator the
  tables; a notifier relays the audit trail to a chat, takes the operator's commands and writes the
  reports.  Offline tools replay the decision code over recorded candles.

  \<^bold>\<open>Theories and code.\<close>  Source paths are under \<open>src/services\<close> unless they say otherwise.
  \<^item> \<open>Numerics\<close> is the prelude: the roundings of \<open>decimal.Decimal\<close> and of binary64, the interface
    \<open>rounding\<close> they share, running sums, the hint collections.
  \<^item> \<open>Domain\<close>: \<open>common/enums.py\<close>, the rows of \<open>common/db/models.py\<close>, the database as a record of tables
    in insertion order, and the session operations on it.
  \<^item> \<open>World\<close>: Redis, Freqtrade and the exchange as seen by the services, the state of one session
    (\<open>w_db\<close> what it reads, \<open>w_saved\<close> what is committed), and \<open>common/kill_switch.py\<close>.
  \<^item> \<open>Risk_Config\<close>, \<open>Llm_Config\<close>: \<open>common/config.py\<close>, the two override stores and the endpoints of
    \<open>admin_api/app/routers/config.py\<close>.
  \<^item> \<open>Sizing\<close>, \<open>Rules\<close>, \<open>Evaluator\<close>: the pure half of \<open>risk_engine/app\<close> (\<open>sizing.py\<close>, \<open>rules/\<close>,
    \<open>evaluator.py\<close>, \<open>exit_evaluator.py\<close>).
  \<^item> \<open>Performance\<close>, \<open>Account_State\<close>: \<open>common/performance.py\<close>, \<open>performance_query.py\<close>,
    \<open>risk_engine/app/account_state.py\<close>, \<open>expectancy_state.py\<close>: the inputs of a decision, read from the tables.
  \<^item> \<open>Freqtrade_Client\<close>, \<open>Risk_Main\<close>: the stateful half of \<open>risk_engine/app\<close>, from a stream message to
    the order (\<open>freqtrade_client.py\<close>, \<open>balance_monitor.py\<close>, \<open>main.py\<close>); \<open>Risk_Properties\<close> holds what it promises.
  \<^item> \<open>Webhooks\<close>, \<open>Reconciliation\<close>: \<open>admin_api/app/routers/webhooks.py\<close>, \<open>position_service.py\<close> and
    \<open>risk_engine/app/reconciliation.py\<close>; \<open>Fills\<close> holds what they do to the ledger, branch by branch.
  \<^item> \<open>Sentiment\<close>, \<open>Indicators\<close>, \<open>Schedule\<close>, \<open>Scheduler\<close>: \<open>scheduler/app\<close> and \<open>common/sentiment.py\<close>;
    \<open>Cycle_Properties\<close> holds what a cycle does to the world.
  \<^item> \<open>Market_Context\<close>, \<open>Llm_Validation\<close>, \<open>Llm_Pipeline\<close>, \<open>Llm_Service\<close>: \<open>llm_service/app\<close>, from the
    request to the validated action.
  \<^item> \<open>Ledger\<close> and \<open>System\<close>: the ledger as a structure all services share, and any interleaving of
    their steps.  \<open>End_To_End\<close> composes the scheduler's cycle with the LLM service it calls; \<open>Outage\<close> follows
    the outage counters of \<open>scheduler/app/jobs.py\<close> over a sequence of cycles.
  \<^item> \<open>Strategy\<close>: \<open>src/freqtrade/user_data/strategies/ExternalSignalStrategy.py\<close>, the stop and the take-profit
    table Freqtrade applies to a trade, composed with the tag the risk engine gave the entry.
  \<^item> \<open>Notifier\<close>: both polling loops of \<open>notifier/app/main.py\<close> with \<open>telegram_client.py\<close>.  \<open>Reports\<close>: the calendar of
    its summaries, the statistics of \<open>public_report.py\<close>, the equity history and \<open>archive_worker.py\<close>.
    \<open>Publication\<close>: the weekly reports of \<open>private_report.py\<close> and their ways out, \<open>private_report_client.py\<close> and
    \<open>wiki_client.py\<close> over a Git checkout and \<open>email_client.py\<close> over an SMTP session.
  \<^item> \<open>Admin_Api\<close>: \<open>admin_api/app/auth.py\<close> and the reading routers, with the manual trigger of a cycle.
  \<^item> \<open>Backtest_Ledger\<close>, \<open>Replay_Walk\<close>, \<open>Mechanical_Replay\<close>, \<open>Replay\<close>: \<open>src/scripts/backtest\<close>: the offline ledger, the
    walk over the candles both replays share, the replay with the best answer the model could give and
    the replay that asks the model and stores its answers; \<open>Candle_Store\<close>: the candles they read, paged from
    the exchange and kept in a table; \<open>Replay_Tools\<close>: both tools from their arguments to their result, the file
    of trades with the report that reads it, and the exit configurations.
  \<^item> \<open>Historical_Replay\<close>: \<open>src/tools/historical_replay\<close> (\<open>simulator.py\<close>, \<open>schemas.py\<close>, \<open>metrics.py\<close>).

  \<^bold>\<open>Interfaces.\<close>  The locales are the contracts between components, each interpreted on the code's own
  definitions: \<open>rounding\<close> and \<open>rounding_error\<close> (Decimal and binary64), \<open>kill_switch\<close> (the row and its
  mirror), \<open>session_invariant\<close> (what every service promises about the ledger; read once as
  well-formedness and once as growth), \<open>indicator_provider\<close> (the five providers),
  \<open>sentiment_service\<close> (the default configuration) and \<open>candle_walk\<close> (what a group of candles may do to the
  state of a replay; the mechanical replay and the replay with the model are its two providers).

  \<^bold>\<open>What the lemmas show.\<close>  Numerics: error bounds, monotonicity and exactness of the roundings.  Pure
  decision logic: every gate and every size on every branch, the order of the gates, equivalences of
  the one-pass loops with their mathematical readings (loss clusters, drawdown, cohort sums, weighted
  means).  Effects: for every operation an effect lemma names the tables, the Redis history and the
  Freqtrade requests it may add.  Systems: invariants and growth of the ledger over any run, at most
  one entry per signal over any sequence of deliveries, one signal per candle, publication after
  commit, nothing but a signal trades.  Notifier: an event is relayed in order, at least once and, when
  every commit succeeds, exactly once, except for one kind of row (committed behind the cursor), and only
  the operator's chat reaches the kill switch; private reports leave only for a repository just found
  private.  Replays: books that balance, causes of every trade, no look-ahead, agreement with
  the live services, and the inputs on which a replay ends with an error; the candles fetched for them
  are exactly those of the market in the range.

  \<^bold>\<open>How the code is read.\<close>
  \<^item> A \<open>Decimal\<close> or \<open>float\<close> is the rational number it denotes; every operation applies the rounding
    CPython applies (\<open>dec\<close>: 28 significant digits, \<open>flt\<close>: 53 bits, both ties to even; a \<open>NUMERIC\<close> column
    rounds to its scale).  Division by zero is an error value.  NaN, infinities, the exponent range
    and overflow of a column are outside the model, except where a definition checks them.
  \<^item> \<open>Decimal(str(x))\<close> of a float is the shortest decimal that reads back as \<open>x\<close>.
  \<^item> Exceptions and HTTP errors are \<open>Inl\<close>; a session's rollback restores \<open>w_saved\<close>.
  \<^item> Time is an integer number of microseconds; a handler reads the clock once (\<open>now\<close>).  Whether a
    commit succeeds is an argument.
  \<^item> Redis and Freqtrade answer through functions of the history of commands so far, so they may be
    any stateful service; a law about them (\<open>nx_law\<close>) is a hypothesis of the theorem that needs it.
  \<^item> The LLM host, the exchange, the JSON and schema libraries and the pandas means are arguments; so are
    Freqtrade's \<open>stoploss_from_absolute\<close>, Telegram, GitHub, Git, the mail
    host, and the admin API as the notifier calls it.
  \<^item> UUIDs are natural numbers; queries that leave an order open return rows in insertion order,
    and so do those whose first row is taken.
  \<^item> Texts built by formatting are kept as the values they show, entry tags as the number they carry.

  \<^bold>\<open>Bounds and fuel.\<close>  The retry loops of the Freqtrade client and of the LLM client recurse on the
  number of attempts left, which the code fixes, the replays on the recorded candles, and the paging loop
  ends because its cursor grows, so no fuel is needed; the endless service loops are modelled one turn at a time.

  \<^bold>\<open>Not modelled.\<close>  Logging, health endpoints, process start-up and transport settings; the wording of
  prompts, messages and reports, and charts; command lines, CSV files and printed tables; the front end
  and the migrations.
\<close>

end
